(* ===== verification/Prelude.thy ===== *)
theory Prelude
  imports Main "HOL-Library.Sublist" "HOL-Library.List_Lexorder" "HOL-Library.Char_ord"
    "HOL-Library.AList" "HOL-Library.Word"
begin

text \<open>
  Vocabulary shared by every component: machine integers, Rust strings as UTF-8 byte
  strings, ordered sets, hash maps and the list functions behind bounded histories.
  A Rust \<open>String\<close> is a \<open>string\<close> whose characters are its UTF-8 bytes, a \<open>BTreeSet\<close>
  is a sorted list without duplicates (its iteration order is then the list order), and a
  \<open>HashMap\<close> or \<open>BTreeMap\<close> that is iterated or counted is an association list.
\<close>

named_theorems model_defs \<open>definitions that evaluation of a concrete input unfolds\<close>
named_theorems bounds \<open>capacity and range facts of the components\<close>

type_synonym u8 = "8 word"
type_synonym u16 = "16 word"
type_synonym u32 = "32 word"
type_synonym u64 = "64 word"

abbreviation starts_with :: "string \<Rightarrow> string \<Rightarrow> bool" where
  "starts_with s p \<equiv> prefix p s"

abbreviation ends_with :: "string \<Rightarrow> string \<Rightarrow> bool" where
  "ends_with s p \<equiv> suffix p s"

abbreviation contains :: "string \<Rightarrow> string \<Rightarrow> bool" where
  "contains s p \<equiv> sublist p s"

section \<open>Ordered sets\<close>

text \<open>\<open>BTreeSet::insert\<close> on the sorted list of the elements.\<close>

abbreviation bset_insert :: "'a::linorder \<Rightarrow> 'a list \<Rightarrow> 'a list" where
  "bset_insert \<equiv> insort_insert"

definition bset_extend :: "'a::linorder list \<Rightarrow> 'a list \<Rightarrow> 'a list" where
  "bset_extend xs ys = fold bset_insert ys xs"

definition bset_ok :: "'a::linorder list \<Rightarrow> bool" where
  "bset_ok xs \<longleftrightarrow> sorted xs \<and> distinct xs"

lemma bset_ok_Nil [simp]: "bset_ok []"
  by (simp add: bset_ok_def)

lemma bset_ok_insert [simp]: "bset_ok xs \<Longrightarrow> bset_ok (bset_insert x xs)"
  unfolding bset_ok_def
  using sorted_insort_insert_key[of "\<lambda>x. x" xs x] distinct_insort_insert[of xs "\<lambda>x. x" x]
  by simp

lemma set_bset_extend [simp]: "set (bset_extend xs ys) = set xs \<union> set ys"
  unfolding bset_extend_def
  by (induction ys arbitrary: xs) (auto simp: set_insort_insert)

lemma bset_ok_extend [simp]: "bset_ok xs \<Longrightarrow> bset_ok (bset_extend xs ys)"
  unfolding bset_extend_def by (induction ys arbitrary: xs) auto

lemma bset_ext: "bset_ok xs \<Longrightarrow> bset_ok ys \<Longrightarrow> set xs = set ys \<Longrightarrow> xs = ys"
  unfolding bset_ok_def using sorted_distinct_set_unique by blast

lemma length_bset_insert:
  "length (bset_insert x xs) = (if x \<in> set xs then length xs else Suc (length xs))"
  by (simp add: insort_insert_key_def)

section \<open>Association lists\<close>

text \<open>\<open>map.entry(k).or_default()\<close> followed by a change \<open>f\<close> of the entry.\<close>

definition alist_modify :: "'k \<Rightarrow> 'v \<Rightarrow> ('v \<Rightarrow> 'v) \<Rightarrow> ('k \<times> 'v) list \<Rightarrow> ('k \<times> 'v) list" where
  "alist_modify k d f m =
     AList.update k (f (case map_of m k of None \<Rightarrow> d | Some v \<Rightarrow> v)) m"

lemma map_of_alist_modify [simp]:
  "map_of (alist_modify k d f m) =
     (map_of m)(k \<mapsto> f (case map_of m k of None \<Rightarrow> d | Some v \<Rightarrow> v))"
  by (simp add: alist_modify_def update_conv')

lemma distinct_alist_modify [simp]:
  "distinct (map fst m) \<Longrightarrow> distinct (map fst (alist_modify k d f m))"
  by (simp add: alist_modify_def distinct_update)

lemma map_of_update [simp]: "map_of (AList.update k v m) = (map_of m)(k \<mapsto> v)"
  by (rule update_conv')

section \<open>The last elements of a list\<close>

definition lastn :: "nat \<Rightarrow> 'a list \<Rightarrow> 'a list" where
  "lastn n xs = drop (length xs - n) xs"

lemma length_lastn [simp]: "length (lastn n xs) = min n (length xs)"
  by (simp add: lastn_def)

lemma lastn_short: "length xs \<le> n \<Longrightarrow> lastn n xs = xs"
  by (simp add: lastn_def)

lemma lastn_append_lastn: "lastn n (lastn n xs @ ys) = lastn n (xs @ ys)"
proof (cases "length xs \<le> n")
  case True
  then show ?thesis by (simp add: lastn_short)
next
  case False
  then have "length xs - n + (length ys) = length (xs @ ys) - n" by simp
  with False show ?thesis by (simp add: lastn_def add.commute)
qed

lemma lastn_Suc_tl: "length xs = n \<Longrightarrow> 0 < n \<Longrightarrow> lastn n (xs @ [x]) = tl xs @ [x]"
  by (cases xs) (auto simp: lastn_def)

section \<open>Strings\<close>

definition is_digit_c :: "char \<Rightarrow> bool" where
  "is_digit_c c \<longleftrightarrow> 48 \<le> (of_char c :: nat) \<and> (of_char c :: nat) \<le> 57"

definition is_upper_c :: "char \<Rightarrow> bool" where
  "is_upper_c c \<longleftrightarrow> 65 \<le> (of_char c :: nat) \<and> (of_char c :: nat) \<le> 90"

definition is_lower_c :: "char \<Rightarrow> bool" where
  "is_lower_c c \<longleftrightarrow> 97 \<le> (of_char c :: nat) \<and> (of_char c :: nat) \<le> 122"

definition is_alnum_c :: "char \<Rightarrow> bool" where
  "is_alnum_c c \<longleftrightarrow> is_digit_c c \<or> is_upper_c c \<or> is_lower_c c"

definition is_hex_c :: "char \<Rightarrow> bool" where
  "is_hex_c c \<longleftrightarrow> is_digit_c c \<or> 65 \<le> (of_char c :: nat) \<and> (of_char c :: nat) \<le> 70
     \<or> 97 \<le> (of_char c :: nat) \<and> (of_char c :: nat) \<le> 102"

definition lower_c :: "char \<Rightarrow> char" where
  "lower_c c = (if is_upper_c c then char_of ((of_char c :: nat) + 32) else c)"

definition to_ascii_lowercase :: "string \<Rightarrow> string" where
  "to_ascii_lowercase s = map lower_c s"

text \<open>\<open>str::trim_start_matches\<close> strips the pattern as often as it occurs at the front.\<close>

function trim_start_matches :: "'a list \<Rightarrow> 'a list \<Rightarrow> 'a list" where
  "trim_start_matches p s =
     (if p \<noteq> [] \<and> prefix p s then trim_start_matches p (drop (length p) s) else s)"
  by pat_completeness auto
termination
  by (relation "measure (\<lambda>(p, s). length s)") (auto simp: prefix_def)

declare trim_start_matches.simps [simp del]

definition trim_end_matches :: "'a list \<Rightarrow> 'a list \<Rightarrow> 'a list" where
  "trim_end_matches p s = rev (trim_start_matches (rev p) (rev s))"

fun split_on :: "'a \<Rightarrow> 'a list \<Rightarrow> 'a list list" where
  "split_on c [] = [[]]"
| "split_on c (x # xs) =
     (if x = c then [] # split_on c xs
      else (case split_on c xs of [] \<Rightarrow> [[x]] | w # ws \<Rightarrow> (x # w) # ws))"

text \<open>\<open>s.split(p).next()\<close>: the text before the first occurrence of \<open>p\<close>.\<close>

fun until :: "'a list \<Rightarrow> 'a list \<Rightarrow> 'a list" where
  "until p [] = []"
| "until p (x # xs) = (if prefix p (x # xs) then [] else x # until p xs)"

fun join :: "'a list \<Rightarrow> 'a list list \<Rightarrow> 'a list" where
  "join sep [] = []"
| "join sep [x] = x"
| "join sep (x # y # ys) = x @ sep @ join sep (y # ys)"

text \<open>Decimal digits of a number that is not negative.\<close>

function dec_int :: "int \<Rightarrow> string" where
  "dec_int n =
     (if n < 10 then [char_of (48 + n)]
      else dec_int (n div 10) @ [char_of (48 + n mod 10)])"
  by pat_completeness auto
termination
  by (relation "measure nat") auto

declare dec_int.simps [simp del]

definition dec_nat :: "nat \<Rightarrow> string" where
  "dec_nat n = dec_int (int n)"

definition dec_w :: "'a::len word \<Rightarrow> string" where
  "dec_w w = dec_int (uint w)"

lemma split_on_nonempty [simp]: "split_on c xs \<noteq> []"
  by (induction xs) (auto split: list.splits)

lemma split_on_no_sep: "w \<in> set (split_on c xs) \<Longrightarrow> c \<notin> set w"
proof (induction xs arbitrary: w)
  case Nil
  then show ?case by simp
next
  case (Cons x xs)
  then show ?case by (cases "split_on c xs") (auto split: if_splits)
qed

lemma split_on_append: "c \<notin> set xs \<Longrightarrow> split_on c (xs @ c # ys) = xs # split_on c ys"
  by (induction xs) (auto split: list.splits)

lemma split_on_none: "c \<notin> set xs \<Longrightarrow> split_on c xs = [xs]"
  by (induction xs) (auto split: list.splits)

lemma set_trim_start: "set (trim_start_matches p s) \<subseteq> set s"
proof (induction p s rule: trim_start_matches.induct)
  case (1 p s)
  then show ?case
    by (subst trim_start_matches.simps) (auto dest: in_set_dropD)
qed

lemma trim_start_not_prefix: "p \<noteq> [] \<Longrightarrow> \<not> prefix p (trim_start_matches p s)"
proof (induction p s rule: trim_start_matches.induct)
  case (1 p s)
  then show ?case by (subst trim_start_matches.simps) auto
qed

lemma trim_start_id: "\<not> prefix p s \<Longrightarrow> trim_start_matches p s = s"
  by (subst trim_start_matches.simps) simp

lemma dec_int_nonempty [simp]: "dec_int n \<noteq> []"
  by (subst dec_int.simps) simp

lemma digit_char: "0 \<le> d \<Longrightarrow> d < 10 \<Longrightarrow> is_digit_c (char_of (48 + d :: int))"
proof -
  assume d: "0 \<le> d" "d < 10"
  then obtain n :: nat where "d = int n" "n < 10" by (metis int_eq_iff of_nat_less_numeral_iff)
  then have "char_of (48 + d) = (char_of (48 + n) :: char)"
    by (metis char_of_nat of_nat_add of_nat_numeral)
  with \<open>n < 10\<close> show ?thesis by (simp add: is_digit_c_def)
qed

lemma dec_int_digits: "0 \<le> n \<Longrightarrow> c \<in> set (dec_int n) \<Longrightarrow> is_digit_c c"
proof (induction n rule: dec_int.induct)
  case (1 n)
  show ?case
  proof (cases "n < 10")
    case True
    with 1 show ?thesis by (subst (asm) (2) dec_int.simps) (simp add: digit_char)
  next
    case False
    with 1 have "c \<in> set (dec_int (n div 10)) \<or> c = char_of (48 + n mod 10)"
      using dec_int.simps[of n] by auto
    with 1 False show ?thesis by (auto simp: digit_char)
  qed
qed

text \<open>The value of a decimal string; printing then reading gives the number back.\<close>

definition read_dec :: "string \<Rightarrow> int" where
  "read_dec s = foldl (\<lambda>a c. 10 * a + (of_char c - 48)) 0 s"

lemma read_dec_dec_int: "0 \<le> n \<Longrightarrow> read_dec (dec_int n) = n"
proof (induction n rule: dec_int.induct)
  case (1 n)
  show ?case
  proof (cases "n < 10")
    case True
    with 1 show ?thesis by (subst dec_int.simps) (simp add: read_dec_def)
  next
    case False
    then have "read_dec (dec_int n) = 10 * read_dec (dec_int (n div 10)) + n mod 10"
      by (subst dec_int.simps) (simp add: read_dec_def)
    with False 1 show ?thesis by simp
  qed
qed

lemma dec_int_inject: "0 \<le> m \<Longrightarrow> 0 \<le> n \<Longrightarrow> dec_int m = dec_int n \<longleftrightarrow> m = n"
  by (metis read_dec_dec_int)

lemma dec_nat_inject [simp]: "dec_nat m = dec_nat n \<longleftrightarrow> m = n"
  by (simp add: dec_nat_def dec_int_inject)

lemma dec_w_inject [simp]: "dec_w v = dec_w w \<longleftrightarrow> v = w"
  by (simp add: dec_w_def dec_int_inject word_uint_eq_iff)

end
