(* ===== verification/Interfaces.thy ===== *)
theory Interfaces
  imports Prelude
begin

text \<open>
  The contracts several components share, each a locale with the lemmas its clients use:
  bounded histories that evict their oldest entries, state machines driven by events, event
  decoders for fixed layouts, gates that decide whether an action may be taken, and rate
  limits.
\<close>

section \<open>Bounded histories\<close>

text \<open>
  Appending to a list that never grows past \<open>cap\<close>: whatever the code does to make room,
  the result is the last \<open>cap\<close> elements of the list with the new one at its end.
\<close>

locale bounded_history =
  fixes cap :: nat
    and push :: "'a \<Rightarrow> 'a list \<Rightarrow> 'a list"
  assumes push_lastn: "length xs \<le> cap \<Longrightarrow> push x xs = lastn cap (xs @ [x])"
begin

lemma length_push: "length xs \<le> cap \<Longrightarrow> length (push x xs) = min cap (Suc (length xs))"
  by (simp add: push_lastn)

lemma length_push_le: "length xs \<le> cap \<Longrightarrow> length (push x xs) \<le> cap"
  by (simp add: length_push)

lemma push_last: "length xs \<le> cap \<Longrightarrow> 0 < cap \<Longrightarrow> last (push x xs) = x"
  by (auto simp: push_lastn lastn_def)

lemma set_push: "length xs \<le> cap \<Longrightarrow> set (push x xs) \<subseteq> insert x (set xs)"
  by (auto simp: push_lastn lastn_def dest: in_set_dropD)

lemma push_room: "length xs < cap \<Longrightarrow> push x xs = xs @ [x]"
  by (simp add: push_lastn lastn_short)

lemma fold_push: "length xs \<le> cap \<Longrightarrow> fold push ys xs = lastn cap (xs @ ys)"
proof (induction ys arbitrary: xs)
  case Nil
  then show ?case by (simp add: lastn_short)
next
  case (Cons y ys)
  then have "fold push (y # ys) xs = lastn cap (push y xs @ ys)"
    by (simp add: length_push_le)
  also have "\<dots> = lastn cap ((xs @ [y]) @ ys)"
    using Cons.prems by (simp only: push_lastn lastn_append_lastn)
  finally show ?case by simp
qed

lemma length_fold_push: "length xs \<le> cap \<Longrightarrow> length (fold push ys xs) \<le> cap"
  by (simp add: fold_push)

end

section \<open>State machines driven by events\<close>

locale event_machine =
  fixes step :: "'s \<Rightarrow> 'e \<Rightarrow> 's"
    and inv :: "'s \<Rightarrow> bool"
  assumes step_inv: "inv s \<Longrightarrow> inv (step s e)"
begin

lemma run_inv: "inv s \<Longrightarrow> inv (foldl step s es)"
  by (induction es arbitrary: s) (auto simp: step_inv)

lemma run_prefix_inv: "inv s \<Longrightarrow> prefix ds es \<Longrightarrow> inv (foldl step s ds)"
  by (rule run_inv)

end

text \<open>A machine with a measured quantity that no step lowers.\<close>

locale growing_machine = event_machine +
  fixes amount :: "'s \<Rightarrow> nat"
  assumes step_grows: "inv s \<Longrightarrow> amount s \<le> amount (step s e)"
begin

lemma run_grows: "inv s \<Longrightarrow> amount s \<le> amount (foldl step s es)"
proof (induction es arbitrary: s)
  case (Cons e es)
  then show ?case using step_grows[of s e] step_inv[of s e] by (force intro: le_trans)
qed simp

end

section \<open>Rate limits\<close>

text \<open>
  The instants at which a run fires. A component that remembers the earliest instant of the
  next firing, looks at its clock before it fires and then moves that instant \<open>gap\<close> ahead
  fires at instants \<open>gap\<close> apart.
\<close>

primrec firings ::
  "('s \<Rightarrow> 'e \<Rightarrow> 's) \<Rightarrow> ('s \<Rightarrow> 'e \<Rightarrow> bool) \<Rightarrow> ('e \<Rightarrow> int) \<Rightarrow> 's \<Rightarrow> 'e list \<Rightarrow> int list" where
  "firings step fires at s [] = []"
| "firings step fires at s (e # es) =
     (if fires s e then [at e] else []) @ firings step fires at (step s e) es"

locale rate_limit =
  fixes step :: "'s \<Rightarrow> 'e \<Rightarrow> 's"
    and inv :: "'s \<Rightarrow> bool"
    and fires :: "'s \<Rightarrow> 'e \<Rightarrow> bool"
    and at :: "'e \<Rightarrow> int"
    and fits :: "'e \<Rightarrow> bool"
    and free_from :: "'s \<Rightarrow> int option"
    and gap :: int
  assumes inv_step: "inv s \<Longrightarrow> fits e \<Longrightarrow> inv (step s e)"
    and gap_nonneg: "0 \<le> gap"
    and fires_free: "inv s \<Longrightarrow> fires s e \<Longrightarrow> free_from s = Some u \<Longrightarrow> u \<le> at e"
    and fires_sets: "inv s \<Longrightarrow> fits e \<Longrightarrow> fires s e \<Longrightarrow>
      \<exists>u. free_from (step s e) = Some u \<and> at e + gap \<le> u"
    and idle_keeps: "inv s \<Longrightarrow> fits e \<Longrightarrow> \<not> fires s e \<Longrightarrow> free_from (step s e) = free_from s"
begin

lemma firings_after:
  "inv s \<Longrightarrow> list_all fits es \<Longrightarrow> free_from s = Some u \<Longrightarrow>
   \<forall>x \<in> set (firings step fires at s es). u \<le> x"
proof (induction es arbitrary: s u)
  case (Cons e es)
  show ?case
  proof (cases "fires s e")
    case True
    obtain v where v: "free_from (step s e) = Some v" "at e + gap \<le> v"
      using fires_sets[of s e] Cons.prems True by auto
    have "u \<le> at e" using fires_free[of s e u] Cons.prems True by simp
    moreover have "\<forall>x \<in> set (firings step fires at (step s e) es). v \<le> x"
      using Cons.prems v by (intro Cons.IH) (simp_all add: inv_step)
    ultimately show ?thesis using v gap_nonneg by fastforce
  next
    case False
    then have "\<forall>x \<in> set (firings step fires at (step s e) es). u \<le> x"
      using Cons.prems by (intro Cons.IH) (simp_all add: inv_step idle_keeps)
    with False show ?thesis by simp
  qed
qed simp

lemma firings_spaced:
  "inv s \<Longrightarrow> list_all fits es \<Longrightarrow>
   sorted_wrt (\<lambda>x y. x + gap \<le> y) (firings step fires at s es)"
proof (induction es arbitrary: s)
  case (Cons e es)
  show ?case
  proof (cases "fires s e")
    case True
    then obtain u where u: "free_from (step s e) = Some u" "at e + gap \<le> u"
      using fires_sets[of s e] Cons.prems by auto
    have "\<forall>x \<in> set (firings step fires at (step s e) es). u \<le> x"
      using Cons.prems u by (intro firings_after) (auto simp: inv_step)
    with Cons u True show ?thesis by (auto simp: inv_step)
  next
    case False
    with Cons show ?thesis by (simp add: inv_step)
  qed
qed simp

end

section \<open>Fixed layouts\<close>

text \<open>
  A decoder of a \<open>repr(C)\<close> structure: it needs \<open>size\<close> bytes, reads back what the layout
  holds and does not look past it.
\<close>

locale wire_layout =
  fixes size :: nat
    and valid :: "'e \<Rightarrow> bool"
    and encode :: "'e \<Rightarrow> 'b list"
    and decode :: "'b list \<Rightarrow> 'e option"
  assumes encode_length: "valid e \<Longrightarrow> length (encode e) = size"
    and decode_encode: "valid e \<Longrightarrow> decode (encode e @ rest) = Some e"
    and decode_short: "length bs < size \<Longrightarrow> decode bs = None"
begin

lemma roundtrip: "valid e \<Longrightarrow> decode (encode e) = Some e"
  using decode_encode[of e "[]"] by simp

lemma encode_inj: "valid e \<Longrightarrow> valid e' \<Longrightarrow> encode e = encode e' \<Longrightarrow> e = e'"
  using roundtrip by (metis option.inject)

lemma truncated: "valid e \<Longrightarrow> n < size \<Longrightarrow> decode (take n (encode e)) = None"
  by (rule decode_short) (simp add: encode_length)

end

section \<open>Gates\<close>

text \<open>
  A gate looks at a set of checks and allows an action. The contract: it opens only when
  every check holds, and when they all hold it does open.
\<close>

locale gate =
  fixes checks :: "'s \<Rightarrow> bool list"
    and allows :: "'s \<Rightarrow> bool"
  assumes allows_iff: "allows s \<longleftrightarrow> list_all id (checks s)"
begin

lemma blocked_by: "False \<in> set (checks s) \<Longrightarrow> \<not> allows s"
  by (auto simp: allows_iff list_all_iff)

lemma opens: "checks s = replicate n True \<Longrightarrow> allows s"
  by (simp add: allows_iff list_all_iff)

end

end
