(* ===== verification/Floats.thy ===== *)
theory Floats
  imports Complex_Main "HOL-Library.Log_Nat" Prelude
begin

text \<open>
  IEEE 754 binary floating point as Rust's \<open>f32\<close> and \<open>f64\<close> use it: a value is a
  rational, an infinity or the one NaN; every operation computes the exact rational result
  and rounds it once, to nearest with ties to even, with gradual underflow and overflow to
  infinity. The two zeros are identified (the modelled code never divides by a zero whose
  sign matters and never prints one). \<open>min\<close>, \<open>max\<close> and \<open>clamp\<close> treat NaN as
  Rust does: \<open>min\<close> and \<open>max\<close> return the other operand, \<open>clamp\<close> returns the NaN.
\<close>

section \<open>Rounding\<close>

record float_format =
  prec :: int
  emin :: int
  emax :: int

definition F32 :: float_format where
  "F32 = \<lparr>prec = 24, emin = -149, emax = 127\<rparr>"

definition F64 :: float_format where
  "F64 = \<lparr>prec = 53, emin = -1074, emax = 1023\<rparr>"

text \<open>Nearest integer, ties to even.\<close>

definition rne :: "rat \<Rightarrow> int" where
  "rne x = (let f = \<lfloor>x\<rfloor>; d = x - of_int f
            in if d < 1/2 then f else if 1/2 < d then f + 1
               else if even f then f else f + 1)"

text \<open>The exponent of the binade of a positive rational.\<close>

definition ilog2 :: "rat \<Rightarrow> int" where
  "ilog2 q = (if 1 \<le> q then bitlen \<lfloor>q\<rfloor> - 1 else - bitlen (\<lceil>1 / q\<rceil> - 1))"

definition round_at :: "int \<Rightarrow> rat \<Rightarrow> rat" where
  "round_at e x = of_int (rne (x / 2 powi e)) * 2 powi e"

definition ulp_exp :: "float_format \<Rightarrow> rat \<Rightarrow> int" where
  "ulp_exp F x = max (ilog2 x - (prec F - 1)) (emin F)"

definition round_rat :: "float_format \<Rightarrow> rat \<Rightarrow> rat" where
  "round_rat F x =
     (if x = 0 then 0
      else if 0 < x then round_at (ulp_exp F x) x
      else - round_at (ulp_exp F (- x)) (- x))"

lemma rne_of_int [simp]: "rne (of_int k) = k"
  by (simp add: rne_def)

lemma rne_bounds: "\<lfloor>x\<rfloor> \<le> rne x" "rne x \<le> \<lfloor>x\<rfloor> + 1"
  by (auto simp: rne_def Let_def)

lemma rne_mono: "x \<le> y \<Longrightarrow> rne x \<le> rne y"
proof (cases "\<lfloor>x\<rfloor> = \<lfloor>y\<rfloor>")
  case True
  assume "x \<le> y"
  with True show ?thesis by (auto simp: rne_def Let_def)
next
  case False
  assume "x \<le> y"
  then have "\<lfloor>x\<rfloor> \<le> \<lfloor>y\<rfloor>" by (rule floor_mono)
  with False have "\<lfloor>x\<rfloor> + 1 \<le> \<lfloor>y\<rfloor>" by simp
  with rne_bounds(2)[of x] rne_bounds(1)[of y] show ?thesis by linarith
qed

lemma powi2_pos [simp]: "(0::rat) < 2 powi e"
  by (simp add: zero_less_power_int)

lemma powi2_mono: "a \<le> b \<Longrightarrow> (2::rat) powi a \<le> 2 powi b"
  by (simp add: power_int_increasing)

lemma powi2_nat: "0 \<le> k \<Longrightarrow> (2::rat) powi k = of_int (2 ^ nat k)"
  by (simp add: power_int_nonneg_exp)

lemma powi2_diff_int: "e \<le> k \<Longrightarrow> (2::rat) powi k / 2 powi e = of_int (2 ^ nat (k - e))"
  by (simp add: power_int_diff[symmetric] powi2_nat)

lemma powi2_less_cancel: "(2::rat) powi a < 2 powi b \<Longrightarrow> a < b"
  by (metis linorder_not_le powi2_mono)

lemma ilog2_spec:
  assumes "0 < q"
  shows "2 powi ilog2 q \<le> q" "q < 2 powi (ilog2 q + 1)"
proof -
  have "2 powi ilog2 q \<le> q \<and> q < 2 powi (ilog2 q + 1)"
  proof (cases "1 \<le> q")
    case True
    let ?n = "\<lfloor>q\<rfloor>"
    have n: "0 < ?n" using True by (simp add: zero_less_floor)
    note b = bitlen_bounds[OF n]
    have l: "1 \<le> bitlen ?n" using n bitlen_eq_zero_iff[of ?n] bitlen_nonneg[of ?n] by linarith
    have i: "ilog2 q = bitlen ?n - 1" using True by (simp add: ilog2_def)
    have "(2::rat) powi ilog2 q = of_int (2 ^ nat (bitlen ?n - 1))"
      using l i by (simp add: powi2_nat)
    also have "\<dots> \<le> of_int ?n" using b by (simp only: of_int_le_iff)
    also have "\<dots> \<le> q" by simp
    finally have 1: "2 powi ilog2 q \<le> q" .
    have "q < of_int (?n + 1)" by linarith
    also have "\<dots> \<le> of_int (2 ^ nat (bitlen ?n))" using b by (simp only: of_int_le_iff) simp
    also have "\<dots> = 2 powi (ilog2 q + 1)" using l i by (simp add: powi2_nat)
    finally show ?thesis using 1 by simp
  next
    case False
    let ?m = "\<lceil>1 / q\<rceil> - 1"
    have "1 < 1 / q" using False assms by simp
    then have m: "0 < ?m" by linarith
    note b = bitlen_bounds[OF m]
    have l: "1 \<le> bitlen ?m" using m bitlen_eq_zero_iff[of ?m] bitlen_nonneg[of ?m] by linarith
    have i: "ilog2 q = - bitlen ?m" using False by (simp add: ilog2_def)
    have "(2::rat) powi (bitlen ?m - 1) = of_int (2 ^ nat (bitlen ?m - 1))"
      using l by (simp add: powi2_nat)
    also have "\<dots> \<le> of_int ?m" using b by (simp only: of_int_le_iff)
    also have "\<dots> < 1 / q" by linarith
    finally have "2 powi (bitlen ?m - 1) * q < 1" using assms by (simp add: field_simps)
    moreover have "(2::rat) powi (ilog2 q + 1) = 1 / 2 powi (bitlen ?m - 1)"
      using i power_int_minus_divide[of "2::rat" "bitlen ?m - 1"] by simp
    ultimately have 2: "q < 2 powi (ilog2 q + 1)"
      by (simp add: less_divide_eq mult.commute)
    have "1 / q \<le> of_int (?m + 1)" by linarith
    also have "\<dots> \<le> of_int (2 ^ nat (bitlen ?m))" using b by (simp only: of_int_le_iff) simp
    also have "\<dots> = 2 powi (bitlen ?m)" using l by (simp add: powi2_nat)
    finally have "1 \<le> 2 powi (bitlen ?m) * q" using assms by (simp add: field_simps)
    moreover have "(2::rat) powi (ilog2 q) = 1 / 2 powi (bitlen ?m)"
      using i power_int_minus_divide[of "2::rat" "bitlen ?m"] by simp
    ultimately have "2 powi ilog2 q \<le> q"
      by (simp add: divide_le_eq mult.commute)
    with 2 show ?thesis by simp
  qed
  then show "2 powi ilog2 q \<le> q" "q < 2 powi (ilog2 q + 1)" by auto
qed

lemma ilog2_mono: "0 < x \<Longrightarrow> x \<le> y \<Longrightarrow> ilog2 x \<le> ilog2 y"
proof -
  assume a: "0 < x" "x \<le> y"
  then have "2 powi ilog2 x \<le> x" "y < 2 powi (ilog2 y + 1)" using ilog2_spec[of x] ilog2_spec[of y] by auto
  with a have "(2::rat) powi ilog2 x < 2 powi (ilog2 y + 1)" by linarith
  then show ?thesis using powi2_less_cancel by fastforce
qed

lemma round_at_mono: "x \<le> y \<Longrightarrow> round_at e x \<le> round_at e y"
  unfolding round_at_def
  by (intro mult_right_mono) (auto intro!: rne_mono divide_right_mono simp: less_imp_le)

lemma round_at_exact: "e \<le> k \<Longrightarrow> round_at e (of_int m * 2 powi k) = of_int m * 2 powi k"
proof -
  assume "e \<le> k"
  then have "of_int m * 2 powi k / 2 powi e = (of_int (m * 2 ^ nat (k - e)) :: rat)"
    using powi2_diff_int[of e k] by (simp add: times_divide_eq_right[symmetric] del: times_divide_eq_right)
  then have "round_at e (of_int m * 2 powi k) = of_int (m * 2 ^ nat (k - e)) * 2 powi e"
    by (simp only: round_at_def rne_of_int)
  also have "\<dots> = of_int m * 2 powi k"
    using powi2_diff_int[OF \<open>e \<le> k\<close>] powi2_pos[of e] by (simp add: field_simps)
  finally show ?thesis .
qed

lemma round_at_pow: "e \<le> k \<Longrightarrow> round_at e (2 powi k) = 2 powi k"
  using round_at_exact[of e k 1] by simp

lemma round_at_nonneg: "0 \<le> x \<Longrightarrow> 0 \<le> round_at e x"
proof -
  assume "0 \<le> x"
  then have "rne 0 \<le> rne (x / 2 powi e)" by (intro rne_mono) (simp add: less_imp_le)
  then show ?thesis using rne_of_int[of 0] by (simp add: round_at_def less_imp_le)
qed

lemma round_pos_mono:
  assumes "0 < x" "x \<le> y" and p: "0 < prec F"
  shows "round_at (ulp_exp F x) x \<le> round_at (ulp_exp F y) y"
proof (cases "ulp_exp F x = ulp_exp F y")
  case True
  with assms show ?thesis by (simp add: round_at_mono)
next
  case False
  have y: "0 < y" using assms by linarith
  have il: "ilog2 x \<le> ilog2 y" using assms ilog2_mono by blast
  with False have lt: "ilog2 x < ilog2 y" by (metis order_le_less ulp_exp_def)
  have ey: "ulp_exp F y \<le> ilog2 y" "ulp_exp F x \<le> ilog2 y"
    using False lt p by (auto simp: ulp_exp_def max_def split: if_splits)
  have "x \<le> 2 powi ilog2 y"
    using ilog2_spec(2)[OF assms(1)] powi2_mono[of "ilog2 x + 1" "ilog2 y"] lt by simp
  then have "round_at (ulp_exp F x) x \<le> 2 powi ilog2 y"
    using round_at_mono round_at_pow[OF ey(2)] by metis
  also have "\<dots> \<le> round_at (ulp_exp F y) y"
    using round_at_mono[OF ilog2_spec(1)[OF y]] round_at_pow[OF ey(1)] by metis
  finally show ?thesis .
qed

lemma round_rat_mono: "x \<le> y \<Longrightarrow> 0 < prec F \<Longrightarrow> round_rat F x \<le> round_rat F y"
proof -
  assume a: "x \<le> y" "0 < prec F"
  consider "0 < x" | "y < 0" | "x \<le> 0" "0 \<le> y" by linarith
  then show ?thesis
  proof cases
    case 1
    with a show ?thesis by (simp add: round_rat_def round_pos_mono)
  next
    case 2
    with a show ?thesis by (simp add: round_rat_def round_pos_mono)
  next
    case 3
    then have "round_rat F x \<le> 0" "0 \<le> round_rat F y"
      by (auto simp: round_rat_def round_at_nonneg)
    then show ?thesis by linarith
  qed
qed

text \<open>Values with at most \<open>prec\<close> significant bits above the least exponent are exact.\<close>

definition representable :: "float_format \<Rightarrow> rat \<Rightarrow> bool" where
  "representable F x \<longleftrightarrow>
     (\<exists>m k. x = of_int m * 2 powi k \<and> \<bar>of_int m\<bar> < (2::rat) powi prec F \<and> emin F \<le> k)"

lemma ulp_exp_le:
  assumes "0 < x" "x = of_int m * 2 powi k" "\<bar>of_int m\<bar> < (2::rat) powi prec F" "emin F \<le> k"
  shows "ulp_exp F x \<le> k"
proof -
  have m: "of_int m < (2::rat) powi prec F" using assms(3) by linarith
  have "(2::rat) powi ilog2 x \<le> of_int m * 2 powi k" using ilog2_spec(1)[OF assms(1)] assms(2) by simp
  also have "\<dots> < 2 powi prec F * 2 powi k" using m by simp
  also have "\<dots> = 2 powi (prec F + k)" by (simp add: power_int_add)
  finally have "ilog2 x < prec F + k" by (rule powi2_less_cancel)
  with assms(4) show ?thesis by (simp add: ulp_exp_def)
qed

lemma round_rat_id: "representable F x \<Longrightarrow> round_rat F x = x"
proof -
  assume "representable F x"
  then obtain m k where mk: "x = of_int m * 2 powi k" "\<bar>of_int m\<bar> < (2::rat) powi prec F" "emin F \<le> k"
    unfolding representable_def by blast
  then have neg: "- x = of_int (- m) * 2 powi k" "\<bar>of_int (- m)\<bar> < (2::rat) powi prec F" by auto
  consider "x = 0" | "0 < x" | "x < 0" by linarith
  then show ?thesis
  proof cases
    case 1 then show ?thesis by (simp add: round_rat_def)
  next
    case 2
    with ulp_exp_le[OF 2 mk] show ?thesis
      using round_at_exact[of "ulp_exp F x" k m] mk(1) by (simp add: round_rat_def)
  next
    case 3
    then have "0 < - x" by simp
    from ulp_exp_le[OF this neg mk(3)] 3 show ?thesis
      using round_at_exact[of "ulp_exp F (- x)" k "- m"] neg(1) by (simp add: round_rat_def)
  qed
qed

lemma round_rat_between:
  assumes "lo \<le> x" "x \<le> hi" "representable F lo" "representable F hi" "0 < prec F"
  shows "lo \<le> round_rat F x" "round_rat F x \<le> hi"
  using round_rat_mono[OF assms(1,5)] round_rat_mono[OF assms(2,5)]
    round_rat_id[OF assms(3)] round_rat_id[OF assms(4)] by simp_all

section \<open>Values, comparisons and operations\<close>

datatype fl = Fin rat | PInf | NInf | NaN

type_synonym f32 = fl
type_synonym f64 = fl

definition fl_of :: "float_format \<Rightarrow> rat \<Rightarrow> fl" where
  "fl_of F q =
     (let r = round_rat F q
      in if 2 powi (emax F + 1) \<le> r then PInf
         else if r \<le> - (2 powi (emax F + 1)) then NInf else Fin r)"

abbreviation lit32 :: "rat \<Rightarrow> f32" where "lit32 \<equiv> fl_of F32"
abbreviation lit64 :: "rat \<Rightarrow> f64" where "lit64 \<equiv> fl_of F64"

fun fl_le :: "fl \<Rightarrow> fl \<Rightarrow> bool" where
  "fl_le NaN b = False"
| "fl_le a NaN = False"
| "fl_le NInf b = True"
| "fl_le a PInf = True"
| "fl_le (Fin x) (Fin y) = (x \<le> y)"
| "fl_le a b = False"

definition fl_lt :: "fl \<Rightarrow> fl \<Rightarrow> bool" where
  "fl_lt a b \<longleftrightarrow> a \<noteq> NaN \<and> b \<noteq> NaN \<and> \<not> fl_le b a"

abbreviation fl_ge :: "fl \<Rightarrow> fl \<Rightarrow> bool" where "fl_ge a b \<equiv> fl_le b a"
abbreviation fl_gt :: "fl \<Rightarrow> fl \<Rightarrow> bool" where "fl_gt a b \<equiv> fl_lt b a"

fun fneg :: "fl \<Rightarrow> fl" where
  "fneg (Fin x) = Fin (- x)"
| "fneg PInf = NInf"
| "fneg NInf = PInf"
| "fneg NaN = NaN"

definition fabs :: "fl \<Rightarrow> fl" where
  "fabs a = (case a of Fin x \<Rightarrow> Fin \<bar>x\<bar> | NInf \<Rightarrow> PInf | _ \<Rightarrow> a)"

fun fadd :: "float_format \<Rightarrow> fl \<Rightarrow> fl \<Rightarrow> fl" where
  "fadd F (Fin x) (Fin y) = fl_of F (x + y)"
| "fadd F NaN b = NaN"
| "fadd F a NaN = NaN"
| "fadd F PInf NInf = NaN"
| "fadd F NInf PInf = NaN"
| "fadd F PInf b = PInf"
| "fadd F a PInf = PInf"
| "fadd F NInf b = NInf"
| "fadd F a NInf = NInf"

definition fsub :: "float_format \<Rightarrow> fl \<Rightarrow> fl \<Rightarrow> fl" where
  "fsub F a b = fadd F a (fneg b)"

fun fl_sgn :: "fl \<Rightarrow> int" where
  "fl_sgn (Fin x) = (if x = 0 then 0 else if 0 < x then 1 else -1)"
| "fl_sgn PInf = 1"
| "fl_sgn NInf = -1"
| "fl_sgn NaN = 0"

definition inf_of_sgn :: "int \<Rightarrow> fl" where
  "inf_of_sgn s = (if s = 0 then NaN else if 0 < s then PInf else NInf)"

fun fmul :: "float_format \<Rightarrow> fl \<Rightarrow> fl \<Rightarrow> fl" where
  "fmul F (Fin x) (Fin y) = fl_of F (x * y)"
| "fmul F a b = inf_of_sgn (fl_sgn a * fl_sgn b)"

fun fdiv :: "float_format \<Rightarrow> fl \<Rightarrow> fl \<Rightarrow> fl" where
  "fdiv F (Fin x) (Fin y) =
     (if y = 0 then inf_of_sgn (fl_sgn (Fin x)) else fl_of F (x / y))"
| "fdiv F NaN b = NaN"
| "fdiv F a NaN = NaN"
| "fdiv F (Fin x) b = Fin 0"
| "fdiv F a (Fin y) = inf_of_sgn (fl_sgn a * (if y < 0 then -1 else 1))"
| "fdiv F a b = NaN"

definition fmin :: "fl \<Rightarrow> fl \<Rightarrow> fl" where
  "fmin a b = (if a = NaN then b else if b = NaN then a else if fl_le a b then a else b)"

definition fmax :: "fl \<Rightarrow> fl \<Rightarrow> fl" where
  "fmax a b = (if a = NaN then b else if b = NaN then a else if fl_le a b then b else a)"

definition fclamp :: "fl \<Rightarrow> fl \<Rightarrow> fl \<Rightarrow> fl" where
  "fclamp x lo hi = (let x = (if fl_lt x lo then lo else x) in if fl_gt x hi then hi else x)"

text \<open>\<open>as f32\<close>, \<open>as f64\<close> on a float, and a count turned into a float.\<close>

definition fcast :: "float_format \<Rightarrow> fl \<Rightarrow> fl" where
  "fcast F a = (case a of Fin x \<Rightarrow> fl_of F x | _ \<Rightarrow> a)"

definition fl_nat :: "float_format \<Rightarrow> nat \<Rightarrow> fl" where
  "fl_nat F n = fl_of F (of_nat n)"

text \<open>\<open>as usize\<close>: truncation towards zero that saturates; NaN gives 0.\<close>

definition fl_to_u64 :: "fl \<Rightarrow> nat" where
  "fl_to_u64 a =
     (case a of Fin x \<Rightarrow> min (2 ^ 64 - 1) (nat \<lfloor>x\<rfloor>) | PInf \<Rightarrow> 2 ^ 64 - 1 | _ \<Rightarrow> 0)"

definition fsum :: "float_format \<Rightarrow> fl list \<Rightarrow> fl" where
  "fsum F xs = foldl (fadd F) (Fin 0) xs"

lemma fl_le_Fin [simp]: "fl_le (Fin x) (Fin y) \<longleftrightarrow> x \<le> y" by simp

lemma fl_lt_Fin [simp]: "fl_lt (Fin x) (Fin y) \<longleftrightarrow> x < y" by (auto simp: fl_lt_def)

lemma fl_lt_NaN [simp]: "\<not> fl_lt NaN b" "\<not> fl_lt a NaN" by (auto simp: fl_lt_def)

lemma fl_le_NaN [simp]: "\<not> fl_le NaN b" "\<not> fl_le a NaN" by (cases a; simp)+

lemma fl_lt_inf [simp]: "fl_lt (Fin x) PInf" "fl_lt NInf (Fin x)" "\<not> fl_lt PInf b" "\<not> fl_lt a NInf"
     apply (simp_all add: fl_lt_def)
   apply (cases b; simp)
  apply (cases a; simp)
  done

lemma fl_le_refl: "a \<noteq> NaN \<Longrightarrow> fl_le a a" by (cases a) auto

lemma fl_le_trans: "fl_le a b \<Longrightarrow> fl_le b c \<Longrightarrow> fl_le a c"
  by (cases a; cases b; cases c) auto

lemma fl_le_total: "a \<noteq> NaN \<Longrightarrow> b \<noteq> NaN \<Longrightarrow> fl_le a b \<or> fl_le b a"
  by (cases a; cases b) auto

lemma fl_lt_imp_le: "fl_lt a b \<Longrightarrow> fl_le a b"
  using fl_le_total by (auto simp: fl_lt_def)

lemma fadd_NaN [simp]: "fadd F NaN b = NaN" "fadd F a NaN = NaN"
  by (cases a; simp)+

section \<open>Ranges\<close>

text \<open>A finite value inside an interval of rationals.\<close>

fun fl_in :: "rat \<Rightarrow> rat \<Rightarrow> fl \<Rightarrow> bool" where
  "fl_in lo hi (Fin x) = (lo \<le> x \<and> x \<le> hi)"
| "fl_in lo hi a = False"

text \<open>Interval ends that the format holds exactly and below its overflow threshold.\<close>

definition fl_bound :: "float_format \<Rightarrow> rat \<Rightarrow> bool" where
  "fl_bound F x \<longleftrightarrow> representable F x \<and> \<bar>x\<bar> < 2 powi (emax F + 1) \<and> 0 < prec F"

lemma fl_bound_int:
  assumes "\<bar>k\<bar> < 2 ^ 24"
  shows "fl_bound F32 (of_int k)" "fl_bound F64 (of_int k)"
proof -
  have k: "\<bar>of_int k\<bar> < (2::rat) ^ 24"
  proof -
    have "\<bar>of_int k\<bar> = (of_int \<bar>k\<bar> :: rat)" by simp
    also have "\<dots> < of_int (2 ^ 24)" using assms by (simp only: of_int_less_iff)
    finally show ?thesis by simp
  qed
  have k': "\<bar>of_int k\<bar> < (2::rat) ^ n" if "24 \<le> n" for n :: nat
    using k that by (meson less_le_trans one_le_numeral power_increasing)
  have r: "\<exists>m j. (of_int k :: rat) = of_int m * 2 powi j \<and> \<bar>of_int m\<bar> < (2::rat) powi p \<and> e \<le> j"
    if "24 \<le> p" "e \<le> 0" for p e :: int
    using that k'[of "nat p"] by (intro exI[of _ k] exI[of _ 0]) (simp add: power_int_nonneg_exp)
  have big: "\<bar>of_int k\<bar> < (2::rat) powi p" if "24 \<le> p" for p
    using that k'[of "nat p"] by (simp add: power_int_nonneg_exp)
  show "fl_bound F32 (of_int k)"
    using r[of 24 "-149"] big[of 128] by (simp add: fl_bound_def F32_def representable_def)
  show "fl_bound F64 (of_int k)"
    using r[of 53 "-1074"] big[of 1024] by (simp add: fl_bound_def F64_def representable_def)
qed

lemma fl_bound_numeral [simp]:
  "fl_bound F32 0" "fl_bound F32 1" "fl_bound F64 0" "fl_bound F64 1"
  "numeral n < (2 ^ 24 :: int) \<Longrightarrow> fl_bound F32 (numeral n)"
  "numeral n < (2 ^ 24 :: int) \<Longrightarrow> fl_bound F64 (numeral n)"
  "numeral n < (2 ^ 24 :: int) \<Longrightarrow> fl_bound F32 (- numeral n)"
  "numeral n < (2 ^ 24 :: int) \<Longrightarrow> fl_bound F64 (- numeral n)"
  using fl_bound_int[of 0] fl_bound_int[of 1] fl_bound_int[of "numeral n"]
    fl_bound_int[of "- numeral n"] by simp_all

lemma fl_of_in:
  assumes "lo \<le> x" "x \<le> hi" "fl_bound F lo" "fl_bound F hi"
  shows "fl_in lo hi (fl_of F x)"
proof -
  have "lo \<le> round_rat F x" "round_rat F x \<le> hi"
    using round_rat_between assms unfolding fl_bound_def by blast+
  moreover have "hi < 2 powi (emax F + 1)" "- (2 powi (emax F + 1)) < lo"
    using assms(3,4) by (auto simp: fl_bound_def abs_less_iff)
  ultimately show ?thesis by (auto simp: fl_of_def Let_def)
qed

lemma fl_of_id: "fl_bound F x \<Longrightarrow> fl_of F x = Fin x"
  by (auto simp: fl_bound_def fl_of_def round_rat_id abs_less_iff)

lemma fl_of_mono:
  assumes "x \<le> y" "0 < prec F"
  shows "fl_le (fl_of F x) (fl_of F y)"
  using round_rat_mono[OF assms] by (auto simp: fl_of_def Let_def)

lemma fadd_in:
  assumes "fl_in a b x" "fl_in c d y" "lo \<le> a + c" "b + d \<le> hi" "fl_bound F lo" "fl_bound F hi"
  shows "fl_in lo hi (fadd F x y)"
  using assms by (cases x; cases y) (auto intro!: fl_of_in)

lemma fmul_in:
  assumes "fl_in 0 b x" "fl_in 0 d y" "b * d \<le> hi" "fl_bound F 0" "fl_bound F hi"
  shows "fl_in 0 hi (fmul F x y)"
proof (cases x)
  case (Fin u)
  with assms show ?thesis
  proof (cases y)
    case (Fin v)
    have uv: "0 \<le> u" "u \<le> b" "0 \<le> v" "v \<le> d" using assms \<open>x = Fin u\<close> Fin by auto
    then have "u * v \<le> b * d" by (intro mult_mono) auto
    with uv assms(3) have "0 \<le> u * v" "u * v \<le> hi" by auto
    then show ?thesis using assms(4,5) \<open>x = Fin u\<close> Fin by (simp add: fl_of_in)
  qed auto
qed (use assms in auto)

lemma fl_in_mono: "fl_in a b x \<Longrightarrow> c \<le> a \<Longrightarrow> b \<le> d \<Longrightarrow> fl_in c d x"
  by (cases x) auto

lemma fclamp_in: "lo \<le> hi \<Longrightarrow> x \<noteq> NaN \<Longrightarrow> fl_in lo hi (fclamp x (Fin lo) (Fin hi))"
  by (cases x) (auto simp: fclamp_def Let_def)

lemma fclamp_NaN [simp]: "fclamp NaN lo hi = NaN"
  by (simp add: fclamp_def)

lemma fmax_fmin_in: "lo \<le> hi \<Longrightarrow> fl_in lo hi (fmax (fmin x (Fin hi)) (Fin lo))"
  by (cases x) (auto simp: fmin_def fmax_def)

lemma fl_in_iff: "fl_in lo hi a \<longleftrightarrow> fl_le (Fin lo) a \<and> fl_le a (Fin hi)"
  by (cases a) auto

lemma prec_pos [simp]: "0 < prec F32" "0 < prec F64"
  by (simp_all add: F32_def F64_def)

lemma fadd_mono:
  assumes "fl_le a b" "fl_le c d" "fl_in p q a" "fl_in p q b" "fl_in r s c" "fl_in r s d" "0 < prec F"
  shows "fl_le (fadd F a c) (fadd F b d)"
  using assms by (cases a; cases b; cases c; cases d) (auto intro!: fl_of_mono)

lemma fmul_mono:
  assumes "fl_le a b" "fl_in p q a" "fl_in p q b" "fl_in 0 s c" "0 < prec F"
  shows "fl_le (fmul F a c) (fmul F b c)"
  using assms by (cases a; cases b; cases c) (auto intro!: fl_of_mono mult_right_mono)

lemma fclamp_mono: "fl_le a b \<Longrightarrow> lo \<le> hi \<Longrightarrow> fl_le (fclamp a (Fin lo) (Fin hi)) (fclamp b (Fin lo) (Fin hi))"
  by (cases a; cases b) (auto simp: fclamp_def Let_def)

lemma fmax_fmin_mono:
  "fl_le a b \<Longrightarrow> lo \<le> hi \<Longrightarrow> fl_le (fmax (fmin a (Fin hi)) (Fin lo)) (fmax (fmin b (Fin hi)) (Fin lo))"
  by (cases a; cases b) (auto simp: fmin_def fmax_def)

end
