(* ===== verification/Common.thy ===== *)
theory Common
  imports Floats Interfaces
begin

text \<open>
  The crate \<open>scanner-common\<close>: event kinds and events as the kernel emits them, findings and
  their signals, seccomp profiles, the decoding of fixed-size C strings and the
  deserialisation of events with array fields.
\<close>

section \<open>Event kinds\<close>

datatype EventKind =
    KExec | KMmap | KMmapAnon | KOpen | KConnect | KBind | KClose | KTcpSend | KTcpRecv
  | KUdpSend | KUdpRecv | KMprotect | KSecurityDeny | KSecurityAllow | KDnsQuery
  | KSslWrite | KSslRead | KFunctionTrace

fun EventKind_as_u8 :: "EventKind \<Rightarrow> u8" where
  "EventKind_as_u8 KExec = 1"
| "EventKind_as_u8 KMmap = 2"
| "EventKind_as_u8 KMmapAnon = 3"
| "EventKind_as_u8 KOpen = 4"
| "EventKind_as_u8 KConnect = 5"
| "EventKind_as_u8 KBind = 6"
| "EventKind_as_u8 KClose = 7"
| "EventKind_as_u8 KTcpSend = 8"
| "EventKind_as_u8 KTcpRecv = 9"
| "EventKind_as_u8 KUdpSend = 10"
| "EventKind_as_u8 KUdpRecv = 11"
| "EventKind_as_u8 KMprotect = 12"
| "EventKind_as_u8 KSecurityDeny = 13"
| "EventKind_as_u8 KSecurityAllow = 14"
| "EventKind_as_u8 KDnsQuery = 15"
| "EventKind_as_u8 KSslWrite = 16"
| "EventKind_as_u8 KSslRead = 17"
| "EventKind_as_u8 KFunctionTrace = 18"

text \<open>The variants in the order of their discriminants 1 to 18.\<close>

definition EventKind_variants :: "EventKind list" where
  "EventKind_variants =
     [KExec, KMmap, KMmapAnon, KOpen, KConnect, KBind, KClose, KTcpSend, KTcpRecv, KUdpSend,
      KUdpRecv, KMprotect, KSecurityDeny, KSecurityAllow, KDnsQuery, KSslWrite, KSslRead,
      KFunctionTrace]"

definition EventKind_try_from_u8 :: "u8 \<Rightarrow> EventKind option" where
  "EventKind_try_from_u8 val =
     (if 1 \<le> val \<and> val \<le> 18 then Some (EventKind_variants ! (unat val - 1)) else None)"

lemma EventKind_roundtrip [simp]: "EventKind_try_from_u8 (EventKind_as_u8 k) = Some k"
  by (cases k) (simp_all add: EventKind_try_from_u8_def EventKind_variants_def)

lemma EventKind_try_from_u8_None: "EventKind_try_from_u8 v = None \<longleftrightarrow> v = 0 \<or> 18 < v"
proof -
  have "1 \<le> v \<longleftrightarrow> v \<noteq> 0" by (metis word_le_0_iff word_less_1 not_less)
  then show ?thesis by (auto simp: EventKind_try_from_u8_def not_le)
qed

section \<open>Events\<close>

text \<open>Fixed-size byte arrays are byte lists whose length the layouts fix.\<close>

definition ARGS_LEN :: nat where "ARGS_LEN = 256"
definition PATH_LEN :: nat where "PATH_LEN = 256"

record ExecEvent =
  ex_timestamp_ns :: u64
  ex_pid :: u32
  ex_tgid :: u32
  ex_uid :: u32
  ex_gid :: u32
  ex_cgroup_id :: u64
  ex_ppid :: u32
  ex_command :: "u8 list"
  ex_argv :: "u8 list"

record FileEvent =
  fe_timestamp_ns :: u64
  fe_pid :: u32
  fe_tgid :: u32
  fe_cgroup_id :: u64
  fe_command :: "u8 list"
  fe_path :: "u8 list"
  fe_kind :: EventKind

record NetEvent =
  ne_timestamp_ns :: u64
  ne_pid :: u32
  ne_tgid :: u32
  ne_cgroup_id :: u64
  ne_saddr :: u32
  ne_daddr :: u32
  ne_sport :: u16
  ne_dport :: u16
  ne_family :: u16
  ne_protocol :: u8
  ne_kind :: EventKind
  ne_data_size :: u32

record FunctionTraceEvent =
  ft_timestamp_ns :: u64
  ft_pid :: u32
  ft_tgid :: u32
  ft_cgroup_id :: u64
  ft_function_name :: "u8 list"
  ft_binary_path :: "u8 list"
  ft_arg0 :: u64
  ft_arg1 :: u64
  ft_return_value :: u64

definition FunctionTraceEvent_default :: FunctionTraceEvent where
  "FunctionTraceEvent_default =
     \<lparr>ft_timestamp_ns = 0, ft_pid = 0, ft_tgid = 0, ft_cgroup_id = 0,
      ft_function_name = replicate 64 0, ft_binary_path = replicate PATH_LEN 0,
      ft_arg0 = 0, ft_arg1 = 0, ft_return_value = 0\<rparr>"

text \<open>The array types of the structures: lengths that every value has.\<close>

definition ExecEvent_ok :: "ExecEvent \<Rightarrow> bool" where
  "ExecEvent_ok e \<longleftrightarrow> length (ex_command e) = 16 \<and> length (ex_argv e) = ARGS_LEN"

definition FileEvent_ok :: "FileEvent \<Rightarrow> bool" where
  "FileEvent_ok e \<longleftrightarrow> length (fe_command e) = 16 \<and> length (fe_path e) = PATH_LEN"

section \<open>Findings\<close>

record RuntimeIdentity =
  ri_node_name :: string
  ri_namespace :: string
  ri_pod_name :: string
  ri_container_name :: string
  ri_image :: string
  ri_workload :: string
  ri_labels :: "(string \<times> string) list"

datatype CSeverity = CSevLow | CSevMedium | CSevHigh | CSevCritical

record CveRecord =
  cr_id :: string
  cr_cvss :: f32
  cr_severity :: CSeverity
  cr_description :: "string option"
  cr_cwe :: "string option"

record SbomComponent =
  sc_package :: string
  sc_version :: string
  sc_purl :: "string option"
  sc_cves :: "CveRecord list"
  sc_paths :: "string list"

datatype RuntimeDisposition = Reachable | Dormant | Unknown

record RiskSignal =
  rs_cve :: string
  rs_cvss :: f32
  rs_epss :: f32
  rs_kev :: bool
  rs_runtime :: RuntimeDisposition
  rs_package :: string
  rs_observed_paths :: "string list"
  rs_signal_weight :: f32

datatype Priority = Informational | PLow | PMedium | PHigh | PCritical

record SignalEvidence =
  se_signal_type :: string
  se_timestamp_ns :: u64
  se_details :: string
  se_confidence :: f32

record RiskComponents =
  rc_cvss :: f32
  rc_epss :: f32
  rc_kev :: bool
  rc_runtime :: RuntimeDisposition
  rc_signal_boost :: f32

record ExplainabilityReport =
  er_decision :: string
  er_confidence :: f32
  er_components :: RiskComponents
  er_signals :: "SignalEvidence list"
  er_ablation_disabled :: "string list"

definition ExplainabilityReport_default :: ExplainabilityReport where
  "ExplainabilityReport_default =
     \<lparr>er_decision = ''Unknown'', er_confidence = Fin 0,
      er_components = \<lparr>rc_cvss = Fin 0, rc_epss = Fin 0, rc_kev = False, rc_runtime = Unknown,
                       rc_signal_boost = Fin 0\<rparr>,
      er_signals = [], er_ablation_disabled = []\<rparr>"

text \<open>Times are nanoseconds since the epoch.\<close>

record Finding =
  fd_id :: string
  fd_detected_at :: int
  fd_identity :: RuntimeIdentity
  fd_signal :: RiskSignal
  fd_score :: f32
  fd_priority :: Priority
  fd_recommendation :: string
  fd_explainability :: ExplainabilityReport

record SeccompRule =
  sr_names :: "string list"
  sr_action :: string

record SeccompProfile =
  sp_default_action :: string
  sp_architectures :: "string list"
  sp_syscalls :: "SeccompRule list"

fun Priority_debug :: "Priority \<Rightarrow> string" where
  "Priority_debug Informational = ''Informational''"
| "Priority_debug PLow = ''Low''"
| "Priority_debug PMedium = ''Medium''"
| "Priority_debug PHigh = ''High''"
| "Priority_debug PCritical = ''Critical''"

instantiation Priority :: linorder
begin

fun Priority_rank :: "Priority \<Rightarrow> nat" where
  "Priority_rank Informational = 0"
| "Priority_rank PLow = 1"
| "Priority_rank PMedium = 2"
| "Priority_rank PHigh = 3"
| "Priority_rank PCritical = 4"

definition less_eq_Priority :: "Priority \<Rightarrow> Priority \<Rightarrow> bool" where
  "less_eq_Priority p q \<longleftrightarrow> Priority_rank p \<le> Priority_rank q"

definition less_Priority :: "Priority \<Rightarrow> Priority \<Rightarrow> bool" where
  "less_Priority p q \<longleftrightarrow> Priority_rank p < Priority_rank q"

lemma Priority_rank_inject: "Priority_rank p = Priority_rank q \<Longrightarrow> p = q"
  by (cases p; cases q) simp_all

instance
  by standard
    (auto simp: less_eq_Priority_def less_Priority_def dest: Priority_rank_inject)

end

section \<open>C strings\<close>

text \<open>
  \<open>String::from_utf8_lossy\<close>: valid UTF-8 sequences are copied; each maximal ill-formed
  prefix of a sequence becomes U+FFFD.
\<close>

definition byte_char :: "u8 \<Rightarrow> char" where "byte_char b = char_of (unat b)"

definition replacement :: string where
  "replacement = [CHR 0xEF, CHR 0xBF, CHR 0xBD]"

definition in_range :: "u8 \<Rightarrow> u8 \<Rightarrow> u8 \<Rightarrow> bool" where
  "in_range lo hi b \<longleftrightarrow> lo \<le> b \<and> b \<le> hi"

text \<open>The ranges of the bytes that must follow a lead byte; None for an invalid lead byte.\<close>

definition utf8_tail :: "u8 \<Rightarrow> (u8 \<times> u8) list option" where
  "utf8_tail b =
     (if b < 0x80 then Some []
      else if in_range 0xC2 0xDF b then Some [(0x80, 0xBF)]
      else if b = 0xE0 then Some [(0xA0, 0xBF), (0x80, 0xBF)]
      else if in_range 0xE1 0xEC b \<or> in_range 0xEE 0xEF b then Some [(0x80, 0xBF), (0x80, 0xBF)]
      else if b = 0xED then Some [(0x80, 0x9F), (0x80, 0xBF)]
      else if b = 0xF0 then Some [(0x90, 0xBF), (0x80, 0xBF), (0x80, 0xBF)]
      else if in_range 0xF1 0xF3 b then Some [(0x80, 0xBF), (0x80, 0xBF), (0x80, 0xBF)]
      else if b = 0xF4 then Some [(0x80, 0x8F), (0x80, 0xBF), (0x80, 0xBF)]
      else None)"

fun match_tail :: "(u8 \<times> u8) list \<Rightarrow> u8 list \<Rightarrow> nat" where
  "match_tail ((lo, hi) # rs) (b # bs) = (if in_range lo hi b then Suc (match_tail rs bs) else 0)"
| "match_tail rs bs = 0"

function utf8_lossy :: "u8 list \<Rightarrow> string" where
  "utf8_lossy [] = []"
| "utf8_lossy (b # bs) =
     (case utf8_tail b of
        None \<Rightarrow> replacement @ utf8_lossy bs
      | Some rs \<Rightarrow>
          (let n = match_tail rs bs
           in if n = length rs then map byte_char (b # take n bs) @ utf8_lossy (drop n bs)
              else replacement @ utf8_lossy (drop n bs)))"
  by pat_completeness auto
termination
  by (relation "measure length") auto

text \<open>\<open>str::trim\<close>: the encodings of the Unicode white space characters.\<close>

definition white_space :: "string list" where
  "white_space =
     [[CHR 0x09], [CHR 0x0A], [CHR 0x0B], [CHR 0x0C], [CHR 0x0D], [CHR 0x20],
      [CHR 0xC2, CHR 0x85], [CHR 0xC2, CHR 0xA0], [CHR 0xE1, CHR 0x9A, CHR 0x80]]
     @ map (\<lambda>c. [CHR 0xE2, CHR 0x80, c])
         [CHR 0x80, CHR 0x81, CHR 0x82, CHR 0x83, CHR 0x84, CHR 0x85, CHR 0x86, CHR 0x87,
          CHR 0x88, CHR 0x89, CHR 0x8A, CHR 0xA8, CHR 0xA9, CHR 0xAF]
     @ [[CHR 0xE2, CHR 0x81, CHR 0x9F], [CHR 0xE3, CHR 0x80, CHR 0x80]]"

function trim_front :: "string list \<Rightarrow> string \<Rightarrow> string" where
  "trim_front ws s =
     (case find (\<lambda>w. w \<noteq> [] \<and> prefix w s) ws of
        None \<Rightarrow> s | Some w \<Rightarrow> trim_front ws (drop (length w) s))"
  by pat_completeness auto
termination
  by (relation "measure (\<lambda>(ws, s). length s)") (auto simp: find_Some_iff prefix_def)

declare trim_front.simps [simp del]

definition str_trim :: "string \<Rightarrow> string" where
  "str_trim s = rev (trim_front (map rev white_space) (rev (trim_front white_space s)))"

definition c_string :: "u8 list \<Rightarrow> string" where
  "c_string buf = str_trim (utf8_lossy (takeWhile (\<lambda>b. b \<noteq> 0) buf))"

lemma c_string_stops_at_nul: "0 \<notin> set xs \<Longrightarrow> c_string (xs @ 0 # ys) = c_string xs"
proof -
  assume "0 \<notin> set xs"
  then have "takeWhile (\<lambda>b. b \<noteq> 0) (xs @ 0 # ys) = xs" "takeWhile (\<lambda>b. b \<noteq> 0) xs = xs"
    by (induction xs) auto
  then show ?thesis unfolding c_string_def by (simp only:)
qed

section \<open>Deserialisation of events with arrays\<close>

text \<open>
  \<open>Deserialize for ExecEvent\<close> and \<open>FileEvent\<close> read helper structures with vectors (the
  serde library fills them) and copy a vector into its array only when the length fits.
\<close>

definition copy_array :: "nat \<Rightarrow> u8 list \<Rightarrow> u8 list" where
  "copy_array n xs = (if length xs = n then xs else replicate n 0)"

definition ExecEvent_from_helper :: "ExecEvent \<Rightarrow> ExecEvent" where
  "ExecEvent_from_helper h =
     h\<lparr>ex_command := copy_array 16 (ex_command h), ex_argv := copy_array ARGS_LEN (ex_argv h)\<rparr>"

definition FileEvent_from_helper :: "FileEvent \<Rightarrow> FileEvent" where
  "FileEvent_from_helper h =
     h\<lparr>fe_command := copy_array 16 (fe_command h), fe_path := copy_array PATH_LEN (fe_path h)\<rparr>"

lemma length_copy_array [simp]: "length (copy_array n xs) = n"
  by (simp add: copy_array_def)

lemma ExecEvent_from_helper_ok: "ExecEvent_ok (ExecEvent_from_helper h)"
  by (simp add: ExecEvent_ok_def ExecEvent_from_helper_def)

lemma ExecEvent_from_helper_id: "ExecEvent_ok e \<Longrightarrow> ExecEvent_from_helper e = e"
  by (simp add: ExecEvent_ok_def ExecEvent_from_helper_def copy_array_def)

lemma FileEvent_from_helper_id: "FileEvent_ok e \<Longrightarrow> FileEvent_from_helper e = e"
  by (simp add: FileEvent_ok_def FileEvent_from_helper_def copy_array_def)

lemma FileEvent_from_helper_ok: "FileEvent_ok (FileEvent_from_helper h)"
  by (simp add: FileEvent_ok_def FileEvent_from_helper_def)

section \<open>Properties\<close>

text \<open>Every event kind reads back from its byte, and the bytes that are no kind are exactly 0 and
  those above 18.\<close>

theorem event_kind_bytes:
  "EventKind_try_from_u8 (EventKind_as_u8 k) = Some k
   \<and> (EventKind_try_from_u8 v = None \<longleftrightarrow> v = 0 \<or> 18 < v)"
  by (simp add: EventKind_try_from_u8_None)

end
