(* ===== verification/Net_Addr.thy ===== *)
theory Net_Addr
  imports Common
begin

unbundle bit_operations_syntax

text \<open>
  IPv4 addresses as the agent prints them: \<open>ip_to_string\<close> on a host-order word, and
  \<open>u32::from_be\<close> (on the little-endian targets of the agent a byte swap) for the
  addresses that arrive in network order.
\<close>

definition octet :: "nat \<Rightarrow> u32 \<Rightarrow> u32" where
  "octet n ip = drop_bit n ip AND 255"

definition ip_to_string :: "u32 \<Rightarrow> string" where
  "ip_to_string ip =
     dec_w (octet 24 ip) @ ''.'' @ dec_w (octet 16 ip) @ ''.''
     @ dec_w (octet 8 ip) @ ''.'' @ dec_w (ip AND 255)"

definition from_be32 :: "u32 \<Rightarrow> u32" where
  "from_be32 w =
     push_bit 24 (w AND 255) OR push_bit 8 (w AND 65280)
     OR (drop_bit 8 w AND 65280) OR (drop_bit 24 w AND 255)"

definition ipv4_be :: "u32 \<Rightarrow> string" where
  "ipv4_be daddr = ip_to_string (from_be32 daddr)"

text \<open>The simplifier reads a bit of a word numeral off the integer numeral.\<close>

lemma bit_255: "bit (255 :: int) n \<longleftrightarrow> n < 8"
proof -
  have "(255 :: int) = mask 8" by (simp add: mask_eq_exp_minus_1)
  then show ?thesis by (simp only: bit_mask_iff) simp
qed

lemma bit_65280: "bit (65280 :: int) n \<longleftrightarrow> 8 \<le> n \<and> n < 16"
proof -
  have "(65280 :: int) = push_bit 8 255" by (simp add: push_bit_eq_mult)
  then show ?thesis by (simp only: bit_push_bit_iff bit_255) auto
qed

lemma bit_16711680: "bit (16711680 :: int) n \<longleftrightarrow> 16 \<le> n \<and> n < 24"
proof -
  have "(16711680 :: int) = push_bit 16 255" by (simp add: push_bit_eq_mult)
  then show ?thesis by (simp only: bit_push_bit_iff bit_255) auto
qed

lemma bit_4278190080: "bit (4278190080 :: int) n \<longleftrightarrow> 24 \<le> n \<and> n < 32"
proof -
  have "(4278190080 :: int) = push_bit 24 255" by (simp add: push_bit_eq_mult)
  then show ?thesis by (simp only: bit_push_bit_iff bit_255) auto
qed

lemma word32_eqI: "(\<And>n. n < 32 \<Longrightarrow> bit v n = bit w n) \<Longrightarrow> v = (w :: u32)"
  by (rule bit_word_eqI) simp

lemma octets_determine:
  assumes "octet 24 v = octet 24 w" "octet 16 v = octet 16 w" "octet 8 v = octet 8 w"
    "v AND 255 = w AND 255"
  shows "v = w"
proof (rule word32_eqI)
  fix n :: nat
  assume "n < 32"
  have b: "bit (drop_bit k v AND 255) i = (bit v (k + i) \<and> i < 8)" for k i and v :: u32
    by (auto simp: bit_and_iff bit_drop_bit_eq bit_255)
  have e: "bit v (k + i) = bit w (k + i)"
    if "drop_bit k v AND 255 = drop_bit k w AND 255" "i < 8" for k i
    using b[of k v i] b[of k w i] that by simp
  from \<open>n < 32\<close> consider "n < 8" | "8 \<le> n" "n < 16" | "16 \<le> n" "n < 24" | "24 \<le> n" by linarith
  then show "bit v n = bit w n"
  proof cases
    case 1 then show ?thesis using e[of 0 n] assms by simp
  next
    case 2 then show ?thesis using e[of 8 "n - 8"] assms by (simp add: octet_def)
  next
    case 3 then show ?thesis using e[of 16 "n - 16"] assms by (simp add: octet_def)
  next
    case 4 then show ?thesis using e[of 24 "n - 24"] assms \<open>n < 32\<close> by (simp add: octet_def)
  qed
qed

lemma dot_not_digit: "CHR ''.'' \<notin> set (dec_w w)"
proof
  assume "CHR ''.'' \<in> set (dec_w w)"
  then have "is_digit_c (CHR ''.'')" using dec_int_digits[of "uint w"] by (simp add: dec_w_def)
  then show False by (simp add: is_digit_c_def)
qed

lemma split_ip: "split_on (CHR ''.'') (ip_to_string ip) =
  [dec_w (octet 24 ip), dec_w (octet 16 ip), dec_w (octet 8 ip), dec_w (ip AND 255)]"
  by (simp add: ip_to_string_def split_on_append split_on_none dot_not_digit)

lemma ip_to_string_inject: "ip_to_string v = ip_to_string w \<longleftrightarrow> v = w"
proof
  assume "ip_to_string v = ip_to_string w"
  then have "split_on (CHR ''.'') (ip_to_string v) = split_on (CHR ''.'') (ip_to_string w)" by simp
  then have "octet 24 v = octet 24 w \<and> octet 16 v = octet 16 w \<and> octet 8 v = octet 8 w
      \<and> v AND 255 = w AND 255"
    by (simp only: split_ip list.inject dec_w_inject)
  then show "v = w" using octets_determine by blast
qed simp

lemma byte_cases:
  fixes n :: nat
  assumes "n < 32"
  obtains "n < 8" | "8 \<le> n" "n < 16" | "16 \<le> n" "n < 24" | "24 \<le> n" "n < 32"
  using assms by linarith

lemma bit_from_be32:
  assumes "n < 32"
  shows "bit (from_be32 w) n =
     bit w (if n < 8 then n + 24 else if n < 16 then n + 8 else if n < 24 then n - 8 else n - 24)"
proof -
  note bits = from_be32_def bit_or_iff bit_and_iff bit_push_bit_iff bit_drop_bit_eq
      bit_255 bit_65280 bit_16711680 bit_4278190080 add.commute
  from assms show ?thesis
    by (cases rule: byte_cases) (simp_all add: bits)
qed

lemma from_be32_involution: "from_be32 (from_be32 w) = w"
proof (rule word32_eqI)
  fix n :: nat
  assume "n < 32"
  then show "bit (from_be32 (from_be32 w)) n = bit w n"
    by (cases rule: byte_cases) (auto simp: bit_from_be32)
qed

lemma ipv4_be_inject: "ipv4_be v = ipv4_be w \<longleftrightarrow> v = w"
  unfolding ipv4_be_def ip_to_string_inject by (metis from_be32_involution)

section \<open>Properties\<close>

text \<open>Two addresses print alike only when they are equal, in host order and in the network
  order the kernel reports.\<close>

theorem printed_addresses_are_distinct:
  "(ip_to_string v = ip_to_string w \<longleftrightarrow> v = w) \<and> (ipv4_be v = ipv4_be w \<longleftrightarrow> v = w)"
  by (simp add: ip_to_string_inject ipv4_be_inject)

end
