(* ===== verification/Formatting.thy ===== *)
theory Formatting
  imports Floats
begin

text \<open>
  How the standard library prints floats: \<open>{:.n}\<close> (exact, ties to even) and \<open>{}\<close> (the
  shortest decimal that reads back as the same value, without an exponent).
\<close>

definition pad_zeros :: "nat \<Rightarrow> string \<Rightarrow> string" where
  "pad_zeros n s = replicate (n - length s) (CHR ''0'') @ s"

definition fixed_digits :: "nat \<Rightarrow> int \<Rightarrow> string" where
  "fixed_digits n k =
     dec_int (k div 10 ^ n)
     @ (if n = 0 then [] else ''.'' @ pad_zeros n (dec_int (k mod 10 ^ n)))"

definition fmt_fixed :: "nat \<Rightarrow> fl \<Rightarrow> string" where
  "fmt_fixed n a =
     (case a of
        NaN \<Rightarrow> ''NaN'' | PInf \<Rightarrow> ''inf'' | NInf \<Rightarrow> ''-inf''
      | Fin q \<Rightarrow> (if q < 0 then ''-'' else []) @ fixed_digits n (rne (\<bar>q\<bar> * 10 ^ n)))"

text \<open>Position of the leading decimal digit of a positive rational.\<close>

definition ilog10 :: "rat \<Rightarrow> int" where
  "ilog10 q =
     (if 1 \<le> q then int (length (dec_int \<lfloor>q\<rfloor>)) - 1
      else - int (length (dec_int (\<lceil>1 / q\<rceil> - 1))))"

text \<open>The nearest decimal with \<open>k\<close> significant digits that reads back as \<open>q\<close>.\<close>

definition short_at :: "float_format \<Rightarrow> rat \<Rightarrow> nat \<Rightarrow> (int \<times> int) option" where
  "short_at F q k =
     (let s = ilog10 q - (int k - 1); x = q / 10 powi s; lo = \<lfloor>x\<rfloor>; hi = lo + 1;
          ok = (\<lambda>d. fl_of F (of_int d * 10 powi s) = Fin q)
      in if ok lo \<and> (\<not> ok hi \<or> x - of_int lo \<le> of_int hi - x) then Some (lo, s)
         else if ok hi then Some (if hi = 10 ^ k then (hi div 10, s + 1) else (hi, s)) else None)"

text \<open>The shortest such decimal; seventeen digits always suffice for binary64.\<close>

fun shortest :: "float_format \<Rightarrow> rat \<Rightarrow> nat list \<Rightarrow> (int \<times> int) option" where
  "shortest F q [] = None"
| "shortest F q (k # ks) = (case short_at F q k of None \<Rightarrow> shortest F q ks | r \<Rightarrow> r)"

definition place_point :: "int \<Rightarrow> int \<Rightarrow> string" where
  "place_point d s =
     (if 0 \<le> s then dec_int d @ replicate (nat s) (CHR ''0'')
      else fixed_digits (nat (- s)) d)"

definition fmt_display :: "float_format \<Rightarrow> fl \<Rightarrow> string" where
  "fmt_display F a =
     (case a of
        NaN \<Rightarrow> ''NaN'' | PInf \<Rightarrow> ''inf'' | NInf \<Rightarrow> ''-inf''
      | Fin q \<Rightarrow>
          (if q = 0 then ''0''
           else (if q < 0 then ''-'' else [])
             @ (case shortest F \<bar>q\<bar> [1..<18] of
                  None \<Rightarrow> [] | Some (d, s) \<Rightarrow> place_point d s)))"

end
