(* ===== verification/Risk_Engine.thy ===== *)
theory Risk_Engine
  imports Common Formatting
begin

text \<open>
  \<open>risk_engine.rs\<close>: the EXF score of a risk signal, the finding it gives rise to, the
  explanation attached to it, the score cache with its histories, and the seccomp profile
  built from observed system calls. Times are nanoseconds; the clock, fresh identifiers and
  the debug printer of string sets are arguments.
\<close>

record RiskConfig =
  minimum_cvss :: f64
  minimum_epss :: f64

section \<open>The score\<close>

definition runtime_component :: "RuntimeDisposition \<Rightarrow> f32" where
  "runtime_component r =
     (case r of Reachable \<Rightarrow> lit32 2 | Dormant \<Rightarrow> lit32 (1/2) | Unknown \<Rightarrow> lit32 (3/4))"

definition signal_boost :: "f32 \<Rightarrow> f32" where
  "signal_boost w = (if fl_gt w (lit32 0) then fmin w (lit32 3) else lit32 0)"

definition calculate_exf_score :: "RiskSignal \<Rightarrow> f32" where
  "calculate_exf_score sg =
     (let cvss = fclamp (rs_cvss sg) (lit32 0) (lit32 10);
          epss = fclamp (rs_epss sg) (lit32 0) (lit32 1);
          cvss_component = fmul F32 cvss (lit32 (1/2));
          epss_component = fmul F32 (fmul F32 epss (lit32 10)) (lit32 (3/10));
          kev_component = (if rs_kev sg then lit32 (3/2) else lit32 0);
          score = fadd F32 (fadd F32 (fadd F32 (fadd F32 cvss_component epss_component)
                    kev_component) (runtime_component (rs_runtime sg)))
                    (signal_boost (rs_signal_weight sg))
      in fmax (fmin score (lit32 10)) (lit32 0))"

section \<open>Findings\<close>

definition priority_of :: "bool \<Rightarrow> f32 \<Rightarrow> Priority" where
  "priority_of kev score =
     (if fl_ge score (lit32 9) then PCritical
      else if kev \<or> fl_ge score (lit32 8) then PHigh
      else if fl_ge score (lit32 6) then PMedium
      else if fl_ge score (lit32 4) then PLow
      else Informational)"

definition build_recommendation ::
  "(string list \<Rightarrow> string) \<Rightarrow> RiskSignal \<Rightarrow> Priority \<Rightarrow> string" where
  "build_recommendation dbg sg p =
     join '' ''
       ([''Patch '' @ rs_package sg @ '' to remediate '' @ rs_cve sg @ ''.'']
        @ (case rs_runtime sg of
             Reachable \<Rightarrow> [''CRITICAL: This vulnerability is actively loaded at runtime via paths: ''
                           @ dbg (rs_observed_paths sg)]
           | Dormant \<Rightarrow> [''Vulnerability present but not currently active. Schedule patching.'']
           | Unknown \<Rightarrow> [])
        @ (if rs_kev sg
           then [''This CVE is in CISA KEV catalog - actively exploited in the wild.''] else [])
        @ (if fl_ge (rs_epss sg) (lit32 (1/2))
           then [''EPSS score '' @ fmt_display F32 (rs_epss sg)
                 @ '' indicates high probability of exploitation.''] else [])
        @ [case p of
             PCritical \<Rightarrow> ''IMMEDIATE ACTION: Consider quarantining workload until patched.''
           | PHigh \<Rightarrow> ''URGENT: Patch within 24-48 hours.''
           | PMedium \<Rightarrow> ''Patch within 7 days.''
           | _ \<Rightarrow> ''Patch during next maintenance window.''])"

text \<open>The confidence is summed in binary64 and then narrowed.\<close>

definition calculate_confidence :: "RiskSignal \<Rightarrow> SignalEvidence list option \<Rightarrow> f32" where
  "calculate_confidence sg signals =
     (let c = fadd F64 (Fin 0) (lit64 (3/10));
          c = (if fl_gt (rs_epss sg) (lit32 0) then fadd F64 c (lit64 (2/10)) else c);
          c = (if rs_kev sg then fadd F64 c (lit64 (2/10)) else c);
          c = (case signals of
                 Some sigs \<Rightarrow>
                   if sigs \<noteq> [] then
                     (let c = fadd F64 c (lit64 (3/10))
                      in if 1 < length sigs then fadd F64 c (lit64 (1/10)) else c)
                   else c
               | None \<Rightarrow> c)
      in fmin (fcast F32 c) (lit32 1))"

definition build_explainability ::
  "RiskSignal \<Rightarrow> f32 \<Rightarrow> SignalEvidence list option \<Rightarrow> ExplainabilityReport" where
  "build_explainability sg score signals =
     \<lparr>er_decision =
        (if rs_kev sg then ''KEV'' else ''No KEV'') @ '' + ''
        @ (case rs_runtime sg of Reachable \<Rightarrow> ''ACTIVE_RUNTIME'' | Dormant \<Rightarrow> ''DORMANT''
           | Unknown \<Rightarrow> ''UNKNOWN'')
        @ '' + '' @ fmt_fixed 2 (rs_signal_weight sg) @ '' signal boost = ''
        @ fmt_fixed 1 score @ '' score'',
      er_confidence = calculate_confidence sg signals,
      er_components = \<lparr>rc_cvss = rs_cvss sg, rc_epss = rs_epss sg, rc_kev = rs_kev sg,
        rc_runtime = rs_runtime sg, rc_signal_boost = rs_signal_weight sg\<rparr>,
      er_signals = (case signals of None \<Rightarrow> [] | Some s \<Rightarrow> s),
      er_ablation_disabled = []\<rparr>"

definition rk_evaluate ::
  "RiskConfig \<Rightarrow> (string list \<Rightarrow> string) \<Rightarrow> string \<Rightarrow> int \<Rightarrow> RuntimeIdentity \<Rightarrow> RiskSignal
   \<Rightarrow> SignalEvidence list option \<Rightarrow> Finding option" where
  "rk_evaluate cfg dbg uuid now identity sg signals =
     (if fl_lt (rs_cvss sg) (fcast F32 (minimum_cvss cfg)) \<and> \<not> rs_kev sg then None
      else if fl_lt (rs_epss sg) (fcast F32 (minimum_epss cfg)) \<and> \<not> rs_kev sg then None
      else if rs_runtime sg \<noteq> Reachable \<and> \<not> rs_kev sg then None
      else
        (let score = calculate_exf_score sg; p = priority_of (rs_kev sg) score
         in if p = Informational then None
            else Some \<lparr>fd_id = uuid, fd_detected_at = now, fd_identity = identity,
                       fd_signal = sg, fd_score = score, fd_priority = p,
                       fd_recommendation = build_recommendation dbg sg p,
                       fd_explainability = build_explainability sg score signals\<rparr>))"

section \<open>Cache and history\<close>

record RiskCacheEntry =
  ce_score :: f32
  ce_calculated_at :: int
  ce_ttl :: int

record CacheSnapshot =
  cs_timestamp :: int
  cs_score :: f32
  cs_runtime_reachable :: bool

record RiskCache =
  rc_scores :: "(string \<times> RiskCacheEntry) list"
  rc_history :: "(string \<times> CacheSnapshot list) list"

definition RiskCache_default :: RiskCache where
  "RiskCache_default = \<lparr>rc_scores = [], rc_history = []\<rparr>"

definition MAX_HISTORY_PER_CVE :: nat where "MAX_HISTORY_PER_CVE = 100"

definition cache_ttl :: int where "cache_ttl = 3600 * 10 ^ 9"

definition entry_fresh :: "int \<Rightarrow> RiskCacheEntry \<Rightarrow> bool" where
  "entry_fresh now e \<longleftrightarrow> now < ce_calculated_at e + ce_ttl e"

definition push_snapshot :: "CacheSnapshot \<Rightarrow> CacheSnapshot list \<Rightarrow> CacheSnapshot list" where
  "push_snapshot x xs = (if MAX_HISTORY_PER_CVE \<le> length xs then tl xs else xs) @ [x]"

text \<open>The two phases of a lookup: under the read lock, then (on a miss) under the write lock,
  with the readings of the clock for the check, the entry and the history.\<close>

record cache_clock =
  tc_check :: int
  tc_entry :: int
  tc_history :: int

definition cache_lookup :: "int \<Rightarrow> string \<Rightarrow> RiskCache \<Rightarrow> f32 option" where
  "cache_lookup now cve c =
     (case map_of (rc_scores c) cve of
        Some e \<Rightarrow> if entry_fresh now e then Some (ce_score e) else None
      | None \<Rightarrow> None)"

definition cache_store :: "cache_clock \<Rightarrow> string \<Rightarrow> RiskSignal \<Rightarrow> RiskCache \<Rightarrow> f32 \<times> RiskCache" where
  "cache_store t cve sg c =
     (let score = calculate_exf_score sg
      in (score,
          c\<lparr>rc_scores := AList.update cve
               \<lparr>ce_score = score, ce_calculated_at = tc_entry t, ce_ttl = cache_ttl\<rparr> (rc_scores c),
            rc_history := alist_modify cve []
               (push_snapshot \<lparr>cs_timestamp = tc_history t, cs_score = score,
                  cs_runtime_reachable = (rs_runtime sg = Reachable)\<rparr>) (rc_history c)\<rparr>))"

definition get_cached_score ::
  "cache_clock \<Rightarrow> string \<Rightarrow> RiskSignal \<Rightarrow> RiskCache \<Rightarrow> f32 \<times> RiskCache" where
  "get_cached_score t cve sg c =
     (case cache_lookup (tc_check t) cve c of
        Some s \<Rightarrow> (s, c) | None \<Rightarrow> cache_store t cve sg c)"

definition get_risk_trend :: "string \<Rightarrow> RiskCache \<Rightarrow> CacheSnapshot list" where
  "get_risk_trend cve c =
     (case map_of (rc_history c) cve of None \<Rightarrow> [] | Some h \<Rightarrow> h)"

definition clear_expired :: "int \<Rightarrow> RiskCache \<Rightarrow> RiskCache" where
  "clear_expired now c = c\<lparr>rc_scores := filter (\<lambda>(k, e). entry_fresh now e) (rc_scores c)\<rparr>"

record RiskSummary =
  sm_total_cves :: nat
  sm_critical_count :: nat
  sm_high_count :: nat
  sm_medium_count :: nat
  sm_low_count :: nat

definition export_risk_summary :: "RiskCache \<Rightarrow> RiskSummary" where
  "export_risk_summary c =
     (let es = map (\<lambda>(k, e). ce_score e) (rc_scores c)
      in \<lparr>sm_total_cves = length es,
          sm_critical_count = length (filter (\<lambda>s. fl_ge s (lit32 9)) es),
          sm_high_count = length (filter (\<lambda>s. fl_ge s (lit32 7) \<and> fl_lt s (lit32 9)) es),
          sm_medium_count = length (filter (\<lambda>s. fl_ge s (lit32 4) \<and> fl_lt s (lit32 7)) es),
          sm_low_count = length (filter (\<lambda>s. fl_lt s (lit32 4)) es)\<rparr>)"

section \<open>Seccomp profile\<close>

definition build_seccomp_profile :: "string list \<Rightarrow> SeccompProfile" where
  "build_seccomp_profile observed =
     (let allow = bset_extend observed
            [''exit'', ''exit_group'', ''rt_sigreturn'', ''sigreturn'', ''brk'', ''mmap'',
             ''munmap'', ''mprotect''];
          allow = (if ''openat'' \<in> set allow then bset_insert ''openat2'' allow else allow)
      in \<lparr>sp_default_action = ''SCMP_ACT_ERRNO'',
          sp_architectures = [''SCMP_ARCH_X86_64'', ''SCMP_ARCH_X86'', ''SCMP_ARCH_AARCH64''],
          sp_syscalls = [\<lparr>sr_names = allow, sr_action = ''SCMP_ACT_ALLOW''\<rparr>]\<rparr>)"

section \<open>Facts about the score\<close>

lemma lit32_eqs [simp]:
  "lit32 0 = Fin 0" "lit32 1 = Fin 1" "lit32 2 = Fin 2" "lit32 3 = Fin 3" "lit32 4 = Fin 4"
  "lit32 6 = Fin 6" "lit32 7 = Fin 7" "lit32 8 = Fin 8" "lit32 9 = Fin 9" "lit32 10 = Fin 10"
  by (rule fl_of_id, simp)+

lemma lit32_half: "lit32 (1/2) = Fin (1/2)" and lit32_three_half: "lit32 (3/2) = Fin (3/2)"
  and lit32_three_quarter: "lit32 (3/4) = Fin (3/4)"
  by code_simp+

lemma lit32_unit: "fl_in 0 1 (lit32 (3/10))"
  by (rule fl_of_in) simp_all

text \<open>The four rounded components and the boost, each in its interval.\<close>

definition cvss_part :: "f32 \<Rightarrow> f32" where
  "cvss_part c = fmul F32 (fclamp c (Fin 0) (Fin 10)) (Fin (1/2))"

definition epss_part :: "f32 \<Rightarrow> f32" where
  "epss_part e = fmul F32 (fmul F32 (fclamp e (Fin 0) (Fin 1)) (Fin 10)) (lit32 (3/10))"

definition kev_part :: "bool \<Rightarrow> f32" where
  "kev_part k = (if k then Fin (3/2) else Fin 0)"

lemma calculate_exf_score_parts:
  "calculate_exf_score sg =
     fmax (fmin (fadd F32 (fadd F32 (fadd F32 (fadd F32 (cvss_part (rs_cvss sg))
       (epss_part (rs_epss sg))) (kev_part (rs_kev sg))) (runtime_component (rs_runtime sg)))
       (signal_boost (rs_signal_weight sg))) (Fin 10)) (Fin 0)"
  by (simp add: calculate_exf_score_def cvss_part_def epss_part_def kev_part_def Let_def
      lit32_half lit32_three_half)

lemma cvss_part_in: "c \<noteq> NaN \<Longrightarrow> fl_in 0 5 (cvss_part c)"
  unfolding cvss_part_def
  by (rule fmul_in[where b = 10 and d = "1/2"]) (simp_all add: fclamp_in)

lemma epss_part_in: "e \<noteq> NaN \<Longrightarrow> fl_in 0 10 (epss_part e)"
  unfolding epss_part_def
  by (rule fmul_in[where b = 10 and d = 1], rule fmul_in[where b = 1 and d = 10])
    (simp_all add: fclamp_in lit32_unit)

lemma kev_part_in: "fl_in 0 2 (kev_part k)"
  by (simp add: kev_part_def)

lemma runtime_component_in: "fl_in 0 2 (runtime_component r)"
  by (cases r) (simp_all add: runtime_component_def lit32_half lit32_three_quarter)

lemma signal_boost_in: "fl_in 0 3 (signal_boost w)"
  by (cases w) (auto simp: signal_boost_def fmin_def)

lemma cvss_part_mono:
  assumes "fl_le c d"
  shows "fl_le (cvss_part c) (cvss_part d)"
proof -
  have n: "c \<noteq> NaN" "d \<noteq> NaN" using assms by auto
  show ?thesis unfolding cvss_part_def
    by (rule fmul_mono[where p = 0 and q = 10 and s = 1])
      (simp_all add: fclamp_mono[OF assms] fclamp_in n)
qed

lemma epss_part_mono:
  assumes "fl_le c d"
  shows "fl_le (epss_part c) (epss_part d)"
proof -
  have n: "c \<noteq> NaN" "d \<noteq> NaN" using assms by auto
  have i: "fl_in 0 10 (fmul F32 (fclamp e (Fin 0) (Fin 1)) (Fin 10))" if "e \<noteq> NaN" for e
    by (rule fmul_in[where b = 1 and d = 10]) (simp_all add: fclamp_in that)
  have "fl_le (fmul F32 (fclamp c (Fin 0) (Fin 1)) (Fin 10)) (fmul F32 (fclamp d (Fin 0) (Fin 1)) (Fin 10))"
    by (rule fmul_mono[where p = 0 and q = 1 and s = 10])
      (simp_all add: fclamp_mono[OF assms] fclamp_in n)
  then show ?thesis unfolding epss_part_def
    by (rule fmul_mono[where p = 0 and q = 10 and s = 1]) (simp_all add: i n lit32_unit)
qed

lemma signal_boost_mono: "fl_le v w \<Longrightarrow> fl_le (signal_boost v) (signal_boost w)"
  by (cases v; cases w) (auto simp: signal_boost_def fmin_def)

definition runtime_rank :: "RuntimeDisposition \<Rightarrow> nat" where
  "runtime_rank r = (case r of Dormant \<Rightarrow> 0 | Unknown \<Rightarrow> 1 | Reachable \<Rightarrow> 2)"

lemma runtime_component_mono:
  "runtime_rank r \<le> runtime_rank r' \<Longrightarrow> fl_le (runtime_component r) (runtime_component r')"
  by (cases r; cases r')
    (simp_all add: runtime_component_def runtime_rank_def lit32_half lit32_three_quarter)

text \<open>At least as much evidence in every component.\<close>

definition signal_le :: "RiskSignal \<Rightarrow> RiskSignal \<Rightarrow> bool" where
  "signal_le a b \<longleftrightarrow>
     fl_le (rs_cvss a) (rs_cvss b) \<and> fl_le (rs_epss a) (rs_epss b)
     \<and> (rs_kev a \<longrightarrow> rs_kev b) \<and> runtime_rank (rs_runtime a) \<le> runtime_rank (rs_runtime b)
     \<and> fl_le (rs_signal_weight a) (rs_signal_weight b)"

text \<open>The sum before the final clamp: partial sums stay in integer intervals.\<close>

lemma sum_step_in:
  assumes "fl_in 0 (of_int a) x" "fl_in 0 (of_int b) y" "0 \<le> a" "0 \<le> b" "a + b < 2 ^ 24"
  shows "fl_in 0 (of_int (a + b)) (fadd F32 x y)"
proof -
  have "fl_bound F32 (of_int (a + b))" using fl_bound_int(1)[of "a + b"] assms by simp
  then show ?thesis by (intro fadd_in[OF assms(1,2)]) simp_all
qed

definition raw_score :: "RiskSignal \<Rightarrow> f32" where
  "raw_score sg = fadd F32 (fadd F32 (fadd F32 (fadd F32 (cvss_part (rs_cvss sg))
       (epss_part (rs_epss sg))) (kev_part (rs_kev sg))) (runtime_component (rs_runtime sg)))
       (signal_boost (rs_signal_weight sg))"

lemma sums_in:
  assumes "rs_cvss sg \<noteq> NaN" "rs_epss sg \<noteq> NaN"
  shows "fl_in 0 15 (fadd F32 (cvss_part (rs_cvss sg)) (epss_part (rs_epss sg)))"
    "fl_in 0 17 (fadd F32 (fadd F32 (cvss_part (rs_cvss sg)) (epss_part (rs_epss sg)))
       (kev_part (rs_kev sg)))"
    "fl_in 0 19 (fadd F32 (fadd F32 (fadd F32 (cvss_part (rs_cvss sg)) (epss_part (rs_epss sg)))
       (kev_part (rs_kev sg))) (runtime_component (rs_runtime sg)))"
    "fl_in 0 22 (raw_score sg)"
proof -
  show 1: "fl_in 0 15 (fadd F32 (cvss_part (rs_cvss sg)) (epss_part (rs_epss sg)))"
    using sum_step_in[of 5 _ 10] cvss_part_in[OF assms(1)] epss_part_in[OF assms(2)] by simp
  show 2: "fl_in 0 17 (fadd F32 (fadd F32 (cvss_part (rs_cvss sg)) (epss_part (rs_epss sg)))
       (kev_part (rs_kev sg)))"
    using sum_step_in[of 15 _ 2] 1 kev_part_in by simp
  show 3: "fl_in 0 19 (fadd F32 (fadd F32 (fadd F32 (cvss_part (rs_cvss sg))
       (epss_part (rs_epss sg))) (kev_part (rs_kev sg))) (runtime_component (rs_runtime sg)))"
    using sum_step_in[of 17 _ 2] 2 runtime_component_in by simp
  show "fl_in 0 22 (raw_score sg)"
    using sum_step_in[of 19 _ 3] 3 signal_boost_in by (simp add: raw_score_def)
qed

lemma score_raw: "calculate_exf_score sg = fmax (fmin (raw_score sg) (Fin 10)) (Fin 0)"
  by (simp add: calculate_exf_score_parts raw_score_def)

lemma raw_score_mono: "signal_le a b \<Longrightarrow> fl_le (raw_score a) (raw_score b)"
proof -
  assume le: "signal_le a b"
  then have n: "rs_cvss a \<noteq> NaN" "rs_epss a \<noteq> NaN" "rs_cvss b \<noteq> NaN" "rs_epss b \<noteq> NaN"
    by (auto simp: signal_le_def)
  note sa = sums_in[OF n(1,2)] and sb = sums_in[OF n(3,4)]
  have k: "fl_le (kev_part (rs_kev a)) (kev_part (rs_kev b))"
    using le by (auto simp: signal_le_def kev_part_def)
  show ?thesis unfolding raw_score_def
    using le
    by (intro fadd_mono[OF _ _ sa(3) sb(3) signal_boost_in signal_boost_in]
        fadd_mono[OF _ _ sa(2) sb(2) runtime_component_in runtime_component_in]
        fadd_mono[OF _ k sa(1) sb(1) kev_part_in kev_part_in]
        fadd_mono[OF _ _ cvss_part_in[OF n(1)] cvss_part_in[OF n(3)]
          epss_part_in[OF n(2)] epss_part_in[OF n(4)]])
      (auto simp: signal_le_def cvss_part_mono epss_part_mono signal_boost_mono
        runtime_component_mono)
qed

lemma score_mono: "signal_le a b \<Longrightarrow> fl_le (calculate_exf_score a) (calculate_exf_score b)"
  unfolding score_raw by (rule fmax_fmin_mono) (auto simp: raw_score_mono)

lemma score_in [bounds]: "fl_in 0 10 (calculate_exf_score sg)"
  unfolding score_raw by (rule fmax_fmin_in) simp

lemma score_Fin: "\<exists>s. calculate_exf_score sg = Fin s \<and> 0 \<le> s \<and> s \<le> 10"
  using score_in[of sg] by (cases "calculate_exf_score sg") auto

lemma score_NaN: "rs_cvss sg = NaN \<or> rs_epss sg = NaN \<Longrightarrow> calculate_exf_score sg = Fin 10"
  by (auto simp: score_raw raw_score_def cvss_part_def epss_part_def fmin_def fmax_def
      inf_of_sgn_def)

lemma priority_of_simps:
  "priority_of kev (Fin s) =
     (if 9 \<le> s then PCritical else if kev \<or> 8 \<le> s then PHigh
      else if 6 \<le> s then PMedium else if 4 \<le> s then PLow else Informational)"
  by (simp add: priority_of_def)

lemma priority_of_kev: "priority_of True s \<in> {PHigh, PCritical}"
  by (simp add: priority_of_def)

lemma evaluate_Some_iff:
  "rk_evaluate cfg dbg u now i sg ev \<noteq> None \<longleftrightarrow>
     rs_kev sg \<or>
     (\<not> fl_lt (rs_cvss sg) (fcast F32 (minimum_cvss cfg))
      \<and> \<not> fl_lt (rs_epss sg) (fcast F32 (minimum_epss cfg))
      \<and> rs_runtime sg = Reachable
      \<and> fl_ge (calculate_exf_score sg) (Fin 4))"
proof (cases "rs_kev sg")
  case True
  then show ?thesis
    using priority_of_kev[of "calculate_exf_score sg"]
    by (auto simp: rk_evaluate_def Let_def)
next
  case False
  obtain s where "calculate_exf_score sg = Fin s" using score_Fin by blast
  with False show ?thesis by (auto simp: rk_evaluate_def Let_def priority_of_simps)
qed

lemma evaluate_fields:
  assumes "rk_evaluate cfg dbg u now i sg ev = Some f"
  shows "fd_signal f = sg" "fd_score f = calculate_exf_score sg"
    "fd_priority f = priority_of (rs_kev sg) (calculate_exf_score sg)"
    "fd_priority f \<noteq> Informational" "fd_identity f = i" "fd_id f = u"
  using assms by (auto simp: rk_evaluate_def Let_def split: if_splits)

section \<open>Facts about the cache\<close>

interpretation snap: bounded_history MAX_HISTORY_PER_CVE push_snapshot
proof
  fix xs :: "CacheSnapshot list" and x
  assume "length xs \<le> MAX_HISTORY_PER_CVE"
  then show "push_snapshot x xs = lastn MAX_HISTORY_PER_CVE (xs @ [x])"
    by (cases "length xs = MAX_HISTORY_PER_CVE")
      (auto simp: push_snapshot_def lastn_Suc_tl lastn_short MAX_HISTORY_PER_CVE_def)
qed

definition cache_ok :: "RiskCache \<Rightarrow> bool" where
  "cache_ok c \<longleftrightarrow>
     distinct (map fst (rc_scores c)) \<and> distinct (map fst (rc_history c))
     \<and> (\<forall>k e. map_of (rc_scores c) k = Some e \<longrightarrow> fl_in 0 10 (ce_score e))
     \<and> (\<forall>k h. map_of (rc_history c) k = Some h \<longrightarrow>
          length h \<le> MAX_HISTORY_PER_CVE \<and> (\<forall>x \<in> set h. fl_in 0 10 (cs_score x)))"

datatype cache_event = CacheGet cache_clock string RiskSignal | CacheClear int

fun cache_step :: "RiskCache \<Rightarrow> cache_event \<Rightarrow> RiskCache" where
  "cache_step c (CacheGet t cve sg) = snd (get_cached_score t cve sg c)"
| "cache_step c (CacheClear now) = clear_expired now c"

lemma cache_ok_store: "cache_ok c \<Longrightarrow> cache_ok (snd (cache_store t cve sg c))"
proof -
  assume ok: "cache_ok c"
  let ?x = "\<lparr>cs_timestamp = tc_history t, cs_score = calculate_exf_score sg,
    cs_runtime_reachable = (rs_runtime sg = Reachable)\<rparr>"
  let ?h = "case map_of (rc_history c) cve of None \<Rightarrow> [] | Some h \<Rightarrow> h"
  have h: "length ?h \<le> MAX_HISTORY_PER_CVE" "\<forall>x \<in> set ?h. fl_in 0 10 (cs_score x)"
    using ok by (auto simp: cache_ok_def split: option.splits)
  have "length (push_snapshot ?x ?h) \<le> MAX_HISTORY_PER_CVE"
    using snap.length_push_le[OF h(1)] .
  moreover have "fl_in 0 10 (cs_score x)" if "x \<in> set (push_snapshot ?x ?h)" for x
  proof -
    have "x = ?x \<or> x \<in> set ?h" using snap.set_push[OF h(1)] that by blast
    then show ?thesis
    proof
      assume "x = ?x"
      then have "cs_score x = calculate_exf_score sg" by simp
      then show ?thesis using score_in[of sg] by (simp only:)
    qed (use h(2) in blast)
  qed
  ultimately show ?thesis using ok score_in[of sg]
    by (auto simp: cache_ok_def cache_store_def Let_def distinct_update split: if_splits)
qed

lemma cache_ok_clear: "cache_ok c \<Longrightarrow> cache_ok (clear_expired now c)"
proof -
  assume ok: "cache_ok c"
  have "fl_in 0 10 (ce_score e)"
    if "map_of (filter (\<lambda>(k, e). entry_fresh now e) (rc_scores c)) k = Some e" for k e
  proof -
    from that have "(k, e) \<in> set (rc_scores c)" by (auto dest: map_of_SomeD)
    with ok show ?thesis by (auto simp: cache_ok_def)
  qed
  with ok show ?thesis by (auto simp: cache_ok_def clear_expired_def distinct_map_filter)
qed

interpretation cache: event_machine cache_step cache_ok
proof
  fix c e
  assume "cache_ok c"
  then show "cache_ok (cache_step c e)"
    by (cases e)
      (auto simp: get_cached_score_def cache_ok_store cache_ok_clear split: option.splits)
qed

lemma cache_ok_default [simp]: "cache_ok RiskCache_default"
  by (simp add: cache_ok_def RiskCache_default_def)

text \<open>While an entry is fresh the answer is the entry's, whatever signal is asked about.\<close>

lemma cached_again:
  assumes "get_cached_score t cve sg c = (s, c')"
    "\<And>e. map_of (rc_scores c') cve = Some e \<Longrightarrow> entry_fresh (tc_check t') e"
  shows "get_cached_score t' cve sg' c' = (s, c')"
  using assms
  by (auto simp: get_cached_score_def cache_lookup_def cache_store_def Let_def
      split: option.splits if_splits)

lemma summary_partition:
  assumes "\<forall>s \<in> set es. fl_in 0 10 s"
  shows "length (filter (\<lambda>s. fl_ge s (lit32 9)) es)
    + length (filter (\<lambda>s. fl_ge s (lit32 7) \<and> fl_lt s (lit32 9)) es)
    + length (filter (\<lambda>s. fl_ge s (lit32 4) \<and> fl_lt s (lit32 7)) es)
    + length (filter (\<lambda>s. fl_lt s (lit32 4)) es) = length es"
  using assms
proof (induction es)
  case (Cons a es)
  then show ?case by (cases a) auto
qed simp

section \<open>Properties\<close>

text \<open>C20. Every score is a number between 0 and 10, for every signal: infinities and NaN in the
  inputs included.\<close>

theorem score_range: "\<exists>s. calculate_exf_score sg = Fin s \<and> 0 \<le> s \<and> s \<le> 10"
  by (rule score_Fin)

text \<open>C21. More evidence never lowers the score: with a CVSS, EPSS and signal weight at least as
  high, a KEV listing kept and a runtime disposition at least as exposed, the rounded score
  is at least as high.\<close>

theorem score_monotone:
  "signal_le a b \<Longrightarrow> fl_le (calculate_exf_score a) (calculate_exf_score b)"
  by (rule score_mono)

theorem score_monotone_witness:
  "fl_le (calculate_exf_score \<lparr>rs_cve = ''CVE-1'', rs_cvss = Fin 5, rs_epss = Fin (1/2),
      rs_kev = False, rs_runtime = Dormant, rs_package = ''p'', rs_observed_paths = [],
      rs_signal_weight = Fin 0\<rparr>)
    (calculate_exf_score \<lparr>rs_cve = ''CVE-1'', rs_cvss = Fin 9, rs_epss = Fin (1/2),
      rs_kev = True, rs_runtime = Reachable, rs_package = ''p'', rs_observed_paths = [],
      rs_signal_weight = Fin 2\<rparr>)"
  by (rule score_monotone) (simp add: signal_le_def runtime_rank_def)

text \<open>C22. A finding is raised exactly for a KEV signal, or for a reachable one at or above both
  configured thresholds with a score of at least 4.\<close>

theorem finding_raised_iff:
  "rk_evaluate cfg dbg u now i sg ev \<noteq> None \<longleftrightarrow>
     rs_kev sg \<or>
     (\<not> fl_lt (rs_cvss sg) (fcast F32 (minimum_cvss cfg))
      \<and> \<not> fl_lt (rs_epss sg) (fcast F32 (minimum_epss cfg))
      \<and> rs_runtime sg = Reachable
      \<and> fl_ge (calculate_exf_score sg) (Fin 4))"
  by (rule evaluate_Some_iff)

text \<open>A finding carries the signal's own score and the priority of its band; it is never
  informational, and at least High when the CVE is in the KEV catalog.\<close>

theorem finding_priority:
  assumes "rk_evaluate cfg dbg u now i sg ev = Some f"
  shows "fd_signal f = sg \<and> fd_score f = calculate_exf_score sg
    \<and> fd_priority f \<noteq> Informational
    \<and> (fd_priority f = PCritical \<longleftrightarrow> fl_ge (calculate_exf_score sg) (Fin 9))
    \<and> (rs_kev sg \<longrightarrow> PHigh \<le> fd_priority f)"
proof -
  obtain s where "calculate_exf_score sg = Fin s" using score_Fin by blast
  then show ?thesis using evaluate_fields[OF assms]
    by (auto simp: priority_of_simps less_eq_Priority_def)
qed

theorem finding_priority_witness:
  "\<exists>f. rk_evaluate \<lparr>minimum_cvss = Fin 7, minimum_epss = Fin 0\<rparr> (\<lambda>_. []) ''id'' 0
     \<lparr>ri_node_name = [], ri_namespace = [], ri_pod_name = [], ri_container_name = [],
      ri_image = [], ri_workload = [], ri_labels = []\<rparr>
     \<lparr>rs_cve = ''CVE-1'', rs_cvss = Fin 5, rs_epss = Fin (1/2), rs_kev = True,
      rs_runtime = Dormant, rs_package = ''p'', rs_observed_paths = [], rs_signal_weight = Fin 0\<rparr>
     None = Some f \<and> PHigh \<le> fd_priority f"
proof -
  let ?sg = "\<lparr>rs_cve = ''CVE-1'', rs_cvss = Fin 5, rs_epss = Fin (1/2), rs_kev = True,
      rs_runtime = Dormant, rs_package = ''p'', rs_observed_paths = [], rs_signal_weight = Fin 0\<rparr>"
  let ?i = "\<lparr>ri_node_name = [], ri_namespace = [], ri_pod_name = [], ri_container_name = [],
      ri_image = [], ri_workload = [], ri_labels = []\<rparr>"
  let ?cfg = "\<lparr>minimum_cvss = Fin 7, minimum_epss = Fin 0\<rparr>"
  have "rk_evaluate ?cfg (\<lambda>_. []) ''id'' 0 ?i ?sg None \<noteq> None"
    unfolding evaluate_Some_iff by simp
  then obtain f where f: "rk_evaluate ?cfg (\<lambda>_. []) ''id'' 0 ?i ?sg None = Some f" by blast
  then show ?thesis using finding_priority[OF f] by simp
qed

text \<open>A NaN EPSS passes the threshold test and scores the maximum: a reachable signal with it
  is a Critical finding however low its CVSS above the threshold.\<close>

theorem nan_epss_is_critical:
  assumes "rs_epss sg = NaN" "rs_runtime sg = Reachable"
    "\<not> fl_lt (rs_cvss sg) (fcast F32 (minimum_cvss cfg))"
  shows "\<exists>f. rk_evaluate cfg dbg u now i sg ev = Some f \<and> fd_score f = Fin 10 \<and> fd_priority f = PCritical"
proof -
  have s: "calculate_exf_score sg = Fin 10" using assms(1) by (simp add: score_NaN)
  have "rk_evaluate cfg dbg u now i sg ev \<noteq> None"
    unfolding evaluate_Some_iff using assms s by simp
  then obtain f where f: "rk_evaluate cfg dbg u now i sg ev = Some f" by blast
  then show ?thesis using evaluate_fields[OF f] s by (simp add: priority_of_simps)
qed

theorem nan_epss_is_critical_witness:
  "\<exists>f. rk_evaluate \<lparr>minimum_cvss = Fin 0, minimum_epss = Fin 0\<rparr> (\<lambda>_. []) ''id'' 0
     \<lparr>ri_node_name = [], ri_namespace = [], ri_pod_name = [], ri_container_name = [],
      ri_image = [], ri_workload = [], ri_labels = []\<rparr>
     \<lparr>rs_cve = ''CVE-1'', rs_cvss = Fin 1, rs_epss = NaN, rs_kev = False,
      rs_runtime = Reachable, rs_package = ''p'', rs_observed_paths = [], rs_signal_weight = Fin 0\<rparr>
     None = Some f \<and> fd_score f = Fin 10 \<and> fd_priority f = PCritical"
  by (rule nan_epss_is_critical) (simp_all add: fcast_def fl_of_id)

text \<open>Whatever lookups and clean-ups run on an empty cache, every cached score is in the range
  of scores, keys are unique and no history has more than 100 entries.\<close>

theorem cache_run_wellformed: "cache_ok (foldl cache_step RiskCache_default es)"
  by (rule cache.run_inv) simp

text \<open>As long as the entry of a CVE is fresh the cache answers with it and changes nothing,
  whatever signal is asked about.\<close>

theorem cache_ignores_new_signal:
  assumes "get_cached_score t cve sg c = (s, c')"
    "\<And>e. map_of (rc_scores c') cve = Some e \<Longrightarrow> entry_fresh (tc_check t') e"
  shows "get_cached_score t' cve sg' c' = (s, c')"
  using assms by (rule cached_again)

theorem cache_ignores_new_signal_witness:
  "fst (get_cached_score \<lparr>tc_check = 5, tc_entry = 5, tc_history = 5\<rparr> ''CVE-1''
     \<lparr>rs_cve = ''CVE-1'', rs_cvss = Fin 0, rs_epss = Fin 0, rs_kev = False, rs_runtime = Dormant,
      rs_package = [], rs_observed_paths = [], rs_signal_weight = Fin 0\<rparr>
     (snd (get_cached_score \<lparr>tc_check = 0, tc_entry = 0, tc_history = 0\<rparr> ''CVE-1''
        \<lparr>rs_cve = ''CVE-1'', rs_cvss = NaN, rs_epss = NaN, rs_kev = True, rs_runtime = Reachable,
         rs_package = [], rs_observed_paths = [], rs_signal_weight = Fin 0\<rparr> RiskCache_default)))
   = Fin 10"
proof -
  let ?hot = "\<lparr>rs_cve = ''CVE-1'', rs_cvss = NaN, rs_epss = NaN, rs_kev = True,
    rs_runtime = Reachable, rs_package = [], rs_observed_paths = [], rs_signal_weight = Fin 0\<rparr>"
  let ?t = "\<lparr>tc_check = 0, tc_entry = 0, tc_history = 0\<rparr>"
  have s: "calculate_exf_score ?hot = Fin 10" by (rule score_NaN) simp
  obtain c' where c': "get_cached_score ?t ''CVE-1'' ?hot RiskCache_default = (Fin 10, c')"
    and m: "map_of (rc_scores c') ''CVE-1'' =
      Some \<lparr>ce_score = Fin 10, ce_calculated_at = 0, ce_ttl = cache_ttl\<rparr>"
    by (simp add: get_cached_score_def cache_lookup_def cache_store_def RiskCache_default_def s Let_def)
  from cache_ignores_new_signal[OF c', of "\<lparr>tc_check = 5, tc_entry = 5, tc_history = 5\<rparr>"
      "\<lparr>rs_cve = ''CVE-1'', rs_cvss = Fin 0, rs_epss = Fin 0, rs_kev = False, rs_runtime = Dormant,
      rs_package = [], rs_observed_paths = [], rs_signal_weight = Fin 0\<rparr>"]
  show ?thesis using c' m by (simp add: entry_fresh_def cache_ttl_def)
qed

text \<open>The summary's four bands partition the cached scores of every reachable cache.\<close>

theorem summary_bands_partition:
  "let m = export_risk_summary (foldl cache_step RiskCache_default es)
   in sm_critical_count m + sm_high_count m + sm_medium_count m + sm_low_count m = sm_total_cves m"
proof -
  let ?c = "foldl cache_step RiskCache_default es"
  have ok: "cache_ok ?c" by (rule cache.run_inv) simp
  have "\<forall>s \<in> set (map (\<lambda>(k, e). ce_score e) (rc_scores ?c)). fl_in 0 10 s"
    using ok by (auto simp: cache_ok_def)
  from summary_partition[OF this] show ?thesis by (simp add: export_risk_summary_def Let_def)
qed

end
