(* ===== verification/Safe_Enforcement.thy ===== *)
theory Safe_Enforcement
  imports Risk_Engine
begin

text \<open>
  \<open>safe_enforcement.rs\<close>: the graduated enforcer. \<open>evaluate\<close> computes the safety checks
  and the decision, \<open>enforce\<close> acts only behind that decision and a cooldown, and every
  action is stored with a sanitised rollback command. Instants are nanoseconds of the
  monotonic clock; each reading of the clock is an argument.
\<close>

datatype ScannerError =
    ErrConfig string | ErrIo string | ErrKube string | ErrHttp string | ErrJson string
  | ErrYaml string | ErrBpf string

fun ScannerError_display :: "ScannerError \<Rightarrow> string" where
  "ScannerError_display (ErrConfig s) = ''configuration error: '' @ s"
| "ScannerError_display (ErrIo s) = ''io error: '' @ s"
| "ScannerError_display (ErrKube s) = ''kubernetes error: '' @ s"
| "ScannerError_display (ErrHttp s) = ''http error: '' @ s"
| "ScannerError_display (ErrJson s) = ''serialization error: '' @ s"
| "ScannerError_display (ErrYaml s) = ''yaml error: '' @ s"
| "ScannerError_display (ErrBpf s) = ''ebpf error: '' @ s"

section \<open>State\<close>

datatype EnforcementMode = Audit | Warn | Enforce

record SafetyCheckResult =
  ck_runtime_proven :: bool
  ck_epss_threshold_met :: bool
  ck_kev_confirmed :: bool
  ck_has_rollback_plan :: bool
  ck_production_safe :: bool

definition SafetyCheckResult_default :: SafetyCheckResult where
  "SafetyCheckResult_default =
     \<lparr>ck_runtime_proven = False, ck_epss_threshold_met = False, ck_kev_confirmed = False,
      ck_has_rollback_plan = False, ck_production_safe = False\<rparr>"

record EnforcementDecision =
  dc_should_enforce :: bool
  dc_mode :: EnforcementMode
  dc_rationale :: string
  dc_safety_checks :: SafetyCheckResult

datatype ActionType =
    SeccompProfileAction string
  | NetworkBlock string u16
  | QuarantinePod string string

record SafeAction =
  sa_cve_id :: string
  sa_timestamp :: int
  sa_action_type :: ActionType
  sa_rollback_command :: "string option"

record SafeEnforcer =
  sf_mode :: EnforcementMode
  sf_risk_config :: RiskConfig
  sf_applied_actions :: "(string \<times> SafeAction) list"
  sf_cooldown_until :: "int option"

definition RiskConfig_default :: RiskConfig where
  "RiskConfig_default = \<lparr>minimum_cvss = lit64 7, minimum_epss = lit64 (40/100)\<rparr>"

definition SafeEnforcer_new :: "EnforcementMode \<Rightarrow> RiskConfig \<Rightarrow> SafeEnforcer" where
  "SafeEnforcer_new m cfg =
     \<lparr>sf_mode = m, sf_risk_config = cfg, sf_applied_actions = [], sf_cooldown_until = None\<rparr>"

definition SafeEnforcer_default :: SafeEnforcer where
  "SafeEnforcer_default = SafeEnforcer_new Audit RiskConfig_default"

section \<open>Sanitising\<close>

definition sanitize_shell_arg :: "string \<Rightarrow> string" where
  "sanitize_shell_arg s =
     filter (\<lambda>c. is_alnum_c c \<or> c = CHR ''-'' \<or> c = CHR ''_'' \<or> c = CHR ''.'') s"

text \<open>\<open>str::replace\<close> with the empty string: occurrences are removed from left to right.\<close>

function str_remove :: "string \<Rightarrow> string \<Rightarrow> string" where
  "str_remove p s =
     (case s of
        [] \<Rightarrow> []
      | c # cs \<Rightarrow> if p \<noteq> [] \<and> prefix p s then str_remove p (drop (length p) s)
                  else c # str_remove p cs)"
  by pat_completeness auto
termination
  by (relation "measure (\<lambda>(p, s). length s)") (auto simp: prefix_def)

declare str_remove.simps [simp del]

definition sanitize_path :: "string \<Rightarrow> string" where
  "sanitize_path p =
     filter (\<lambda>c. is_alnum_c c \<or> c = CHR ''/'' \<or> c = CHR ''-'' \<or> c = CHR ''_'' \<or> c = CHR ''.'')
       (str_remove ''..'' p)"

definition sanitize_ip :: "string \<Rightarrow> string" where
  "sanitize_ip ip = filter (\<lambda>c. is_digit_c c \<or> c = CHR ''.'') ip"

section \<open>Evaluation\<close>

definition is_production_safe :: "SafetyCheckResult \<Rightarrow> bool" where
  "is_production_safe ck \<longleftrightarrow>
     ck_runtime_proven ck \<and> ck_epss_threshold_met ck \<and> ck_kev_confirmed ck
     \<and> ck_has_rollback_plan ck"

definition can_rollback :: "SafeEnforcer \<Rightarrow> Finding \<Rightarrow> bool" where
  "can_rollback e f = True"

definition check_mark :: string where "check_mark = [CHR 0xE2, CHR 0x9C, CHR 0x93, CHR '' '']"
definition cross_mark :: string where "cross_mark = [CHR 0xE2, CHR 0x9C, CHR 0x97, CHR '' '']"
definition arrow_mark :: string where "arrow_mark = [CHR 0xE2, CHR 0x86, CHR 0x92, CHR '' '']"

definition build_rationale :: "EnforcementMode \<Rightarrow> SafetyCheckResult \<Rightarrow> bool \<Rightarrow> string" where
  "build_rationale m ck would =
     join '' | ''
       ((if m = Audit then [''Mode: AUDIT (no enforcement)'']
         else if m = Warn then [''Mode: WARN (alerts only)''] else [])
        @ [if ck_runtime_proven ck then check_mark @ ''Runtime proven''
           else cross_mark @ ''Runtime not proven'']
        @ [if ck_epss_threshold_met ck then check_mark @ ''EPSS threshold met''
           else cross_mark @ ''EPSS below threshold'']
        @ [if ck_kev_confirmed ck then check_mark @ ''KEV confirmed''
           else cross_mark @ ''Not in KEV catalog'']
        @ [if would then arrow_mark @ ''ENFORCEMENT APPROVED''
           else arrow_mark @ ''Enforcement blocked (see safety checks)''])"

definition safety_checks :: "SafeEnforcer \<Rightarrow> Finding \<Rightarrow> f32 \<Rightarrow> bool \<Rightarrow> SafetyCheckResult" where
  "safety_checks e f epss kev =
     (let ck = SafetyCheckResult_default;
          ck = ck\<lparr>ck_runtime_proven := fl_gt (fd_score f) (lit32 8)\<rparr>;
          ck = ck\<lparr>ck_epss_threshold_met :=
                    fl_ge epss (fcast F32 (minimum_epss (sf_risk_config e)))\<rparr>;
          ck = ck\<lparr>ck_kev_confirmed := kev\<rparr>;
          ck = ck\<lparr>ck_has_rollback_plan := can_rollback e f\<rparr>
      in ck\<lparr>ck_production_safe := is_production_safe ck\<rparr>)"

definition sf_evaluate :: "SafeEnforcer \<Rightarrow> Finding \<Rightarrow> f32 \<Rightarrow> bool \<Rightarrow> EnforcementDecision" where
  "sf_evaluate e f epss kev =
     (let ck = safety_checks e f epss kev;
          should = (case sf_mode e of
              Audit \<Rightarrow> False
            | Warn \<Rightarrow> False
            | Enforce \<Rightarrow> ck_production_safe ck \<and> fd_priority f = PCritical
                \<and> ck_kev_confirmed ck \<and> ck_runtime_proven ck)
      in \<lparr>dc_should_enforce = should, dc_mode = sf_mode e,
          dc_rationale = build_rationale (sf_mode e) ck should, dc_safety_checks = ck\<rparr>)"

section \<open>Enforcement and rollback\<close>

definition cooldown_ns :: int where "cooldown_ns = 300 * 10 ^ 9"

definition rollback_command_for :: "ActionType \<Rightarrow> string" where
  "rollback_command_for a =
     (case a of
        SeccompProfileAction p \<Rightarrow> ''kubectl delete seccompprofile '' @ sanitize_path p
      | NetworkBlock ip port \<Rightarrow>
          ''tc filter del dev eth0 protocol ip prio 1 u32 match ip dst '' @ sanitize_ip ip
          @ '' match ip dport '' @ dec_w port @ '' 0xffff''
      | QuarantinePod ns pod \<Rightarrow>
          ''kubectl label pods '' @ sanitize_shell_arg pod @ '' -n '' @ sanitize_shell_arg ns
          @ '' security.execution-aware-scanner/quarantine-'')"

text \<open>The three clock readings of \<open>enforce\<close>: at the cooldown check, for the record, for the
  next cooldown.\<close>

record clock =
  t_check :: int
  t_record :: int
  t_cool :: int

definition cooldown_active :: "int \<Rightarrow> SafeEnforcer \<Rightarrow> bool" where
  "cooldown_active now e =
     (case sf_cooldown_until e of None \<Rightarrow> False | Some u \<Rightarrow> now < u)"

definition sf_enforce ::
  "(int \<Rightarrow> string) \<Rightarrow> clock \<Rightarrow> Finding \<Rightarrow> ActionType \<Rightarrow> f32 \<Rightarrow> bool \<Rightarrow> SafeEnforcer
   \<Rightarrow> (ScannerError + string) \<times> SafeEnforcer" where
  "sf_enforce dbg t f act epss kev e =
     (let d = sf_evaluate e f epss kev; cve = rs_cve (fd_signal f)
      in if \<not> dc_should_enforce d
         then (Inl (ErrBpf (''Enforcement blocked for '' @ cve @ '': '' @ dc_rationale d)), e)
         else if cooldown_active (t_check t) e
         then (Inl (ErrBpf (''Enforcement cooldown active for '' @ cve @ '' until ''
                 @ dbg (the (sf_cooldown_until e)))), e)
         else
           (let safe_cve = sanitize_shell_arg cve;
                r = \<lparr>sa_cve_id = safe_cve, sa_timestamp = t_record t, sa_action_type = act,
                     sa_rollback_command = Some (rollback_command_for act)\<rparr>
            in (Inr (''Enforcement applied for '' @ safe_cve @ '' (tracked for rollback)''),
                e\<lparr>sf_applied_actions := AList.update safe_cve r (sf_applied_actions e),
                  sf_cooldown_until := Some (t_cool t + cooldown_ns)\<rparr>)))"

definition sf_rollback :: "string \<Rightarrow> SafeEnforcer \<Rightarrow> ScannerError + string" where
  "sf_rollback cve e =
     (case map_of (sf_applied_actions e) cve of
        Some a \<Rightarrow>
          (case sa_rollback_command a of
             Some cmd \<Rightarrow> Inr (''To rollback, execute: '' @ cmd)
           | None \<Rightarrow> Inl (ErrBpf (''No rollback command recorded for '' @ cve)))
      | None \<Rightarrow> Inl (ErrBpf (''No enforcement found for '' @ cve)))"

fun rollback_entries :: "(string \<times> SafeAction) list \<Rightarrow> (string \<times> string) list" where
  "rollback_entries [] = []"
| "rollback_entries ((cve, a) # xs) =
     (case sa_rollback_command a of
        Some cmd \<Rightarrow> (cve, cmd) # rollback_entries xs | None \<Rightarrow> rollback_entries xs)"

definition rollback_all :: "SafeEnforcer \<Rightarrow> (string \<times> string) list" where
  "rollback_all e = rollback_entries (sf_applied_actions e)"

record EnforcementReport =
  rp_total_enforced :: nat
  rp_audit_mode :: bool
  rp_by_priority :: "(string \<times> nat) list"
  rp_rollback_available :: nat

definition group_by_priority :: "SafeEnforcer \<Rightarrow> (string \<times> nat) list" where
  "group_by_priority e = AList.update ''Critical'' (length (sf_applied_actions e)) []"

definition sf_report :: "SafeEnforcer \<Rightarrow> EnforcementReport" where
  "sf_report e =
     \<lparr>rp_total_enforced = length (sf_applied_actions e), rp_audit_mode = (sf_mode e = Audit),
      rp_by_priority = group_by_priority e,
      rp_rollback_available = length (sf_applied_actions e)\<rparr>"

section \<open>The safety gate\<close>

definition enforce_checks :: "SafeEnforcer \<times> Finding \<times> f32 \<times> bool \<Rightarrow> bool list" where
  "enforce_checks = (\<lambda>(e, f, epss, kev).
     [sf_mode e = Enforce, fd_priority f = PCritical, kev, fl_gt (fd_score f) (Fin 8),
      fl_ge epss (fcast F32 (minimum_epss (sf_risk_config e)))])"

interpretation safe: gate enforce_checks
  "\<lambda>(e, f, epss, kev). dc_should_enforce (sf_evaluate e f epss kev)"
proof
  fix s :: "SafeEnforcer \<times> Finding \<times> f32 \<times> bool"
  obtain e f epss kev where s: "s = (e, f, epss, kev)" by (cases s) auto
  show "(case s of (e, f, epss, kev) \<Rightarrow> dc_should_enforce (sf_evaluate e f epss kev)) \<longleftrightarrow>
    list_all id (enforce_checks s)"
    by (cases "sf_mode e")
      (auto simp: s enforce_checks_def sf_evaluate_def safety_checks_def is_production_safe_def
        can_rollback_def SafetyCheckResult_default_def Let_def)
qed

lemma should_enforce_iff:
  "dc_should_enforce (sf_evaluate e f epss kev) \<longleftrightarrow>
     sf_mode e = Enforce \<and> fd_priority f = PCritical \<and> kev \<and> fl_gt (fd_score f) (Fin 8)
     \<and> fl_ge epss (fcast F32 (minimum_epss (sf_risk_config e)))"
  using safe.allows_iff[of "(e, f, epss, kev)"] by (simp add: enforce_checks_def)

definition takes_action :: "clock \<Rightarrow> Finding \<Rightarrow> f32 \<Rightarrow> bool \<Rightarrow> SafeEnforcer \<Rightarrow> bool" where
  "takes_action t f epss kev e \<longleftrightarrow>
     dc_should_enforce (sf_evaluate e f epss kev) \<and> \<not> cooldown_active (t_check t) e"

lemma enforce_acts:
  "takes_action t f epss kev e \<Longrightarrow>
   sf_enforce dbg t f act epss kev e =
     (Inr (''Enforcement applied for '' @ sanitize_shell_arg (rs_cve (fd_signal f))
        @ '' (tracked for rollback)''),
      e\<lparr>sf_applied_actions := AList.update (sanitize_shell_arg (rs_cve (fd_signal f)))
          \<lparr>sa_cve_id = sanitize_shell_arg (rs_cve (fd_signal f)),
           sa_timestamp = t_record t, sa_action_type = act,
           sa_rollback_command = Some (rollback_command_for act)\<rparr>
          (sf_applied_actions e),
        sf_cooldown_until := Some (t_cool t + cooldown_ns)\<rparr>)"
  by (simp add: sf_enforce_def Let_def takes_action_def)

lemma enforce_idle:
  "\<not> takes_action t f epss kev e \<Longrightarrow> snd (sf_enforce dbg t f act epss kev e) = e"
  by (auto simp: sf_enforce_def Let_def takes_action_def)

lemma enforce_ok_iff:
  "(\<exists>m. fst (sf_enforce dbg t f act epss kev e) = Inr m) \<longleftrightarrow> takes_action t f epss kev e"
  by (simp add: sf_enforce_def Let_def takes_action_def)

lemma enforce_error_unchanged:
  "fst (sf_enforce dbg t f act epss kev e) = Inl err \<Longrightarrow>
     snd (sf_enforce dbg t f act epss kev e) = e"
  by (auto simp: sf_enforce_def Let_def split: if_splits)

section \<open>Runs\<close>

datatype enforce_event = EnforceEvent clock Finding ActionType f32 bool

fun enforce_step :: "(int \<Rightarrow> string) \<Rightarrow> SafeEnforcer \<Rightarrow> enforce_event \<Rightarrow> SafeEnforcer" where
  "enforce_step dbg e (EnforceEvent t f act epss kev) = snd (sf_enforce dbg t f act epss kev e)"

text \<open>Every stored action is filed under its own sanitised id with its rollback command.\<close>

definition action_ok :: "string \<times> SafeAction \<Rightarrow> bool" where
  "action_ok = (\<lambda>(k, a). sa_cve_id a = k \<and> sanitize_shell_arg k = k
     \<and> sa_rollback_command a = Some (rollback_command_for (sa_action_type a)))"

definition enforcer_ok :: "SafeEnforcer \<Rightarrow> bool" where
  "enforcer_ok e \<longleftrightarrow>
     distinct (map fst (sf_applied_actions e))
     \<and> list_all action_ok (sf_applied_actions e)
     \<and> (sf_applied_actions e \<noteq> [] \<longrightarrow> sf_mode e = Enforce \<and> sf_cooldown_until e \<noteq> None)"

lemma sanitize_idem [simp]: "sanitize_shell_arg (sanitize_shell_arg s) = sanitize_shell_arg s"
  by (simp add: sanitize_shell_arg_def)

lemma list_all_update:
  "list_all P xs \<Longrightarrow> P (k, v) \<Longrightarrow> list_all P (AList.update k v xs)"
  by (induction xs) auto

interpretation enf: event_machine "enforce_step dbg" enforcer_ok for dbg
proof
  fix e ev
  assume ok: "enforcer_ok e"
  obtain t f act epss kev where ev: "ev = EnforceEvent t f act epss kev" by (cases ev) auto
  show "enforcer_ok (enforce_step dbg e ev)"
  proof (cases "takes_action t f epss kev e")
    case True
    then have "sf_mode e = Enforce" by (simp add: takes_action_def should_enforce_iff)
    with ok True show ?thesis
      by (simp add: ev enforce_acts enforcer_ok_def distinct_update list_all_update
          action_ok_def)
  next
    case False
    with ok show ?thesis by (simp add: ev enforce_idle)
  qed
qed

lemma enforcer_ok_new [simp]: "enforcer_ok (SafeEnforcer_new m cfg)"
  by (simp add: enforcer_ok_def SafeEnforcer_new_def)

lemma enforce_step_mode [simp]: "sf_mode (enforce_step dbg e ev) = sf_mode e"
  by (cases ev) (simp add: sf_enforce_def Let_def)

lemma run_mode [simp]: "sf_mode (foldl (enforce_step dbg) e es) = sf_mode e"
  by (induction es arbitrary: e) auto

text \<open>The times of the actions a run takes.\<close>

fun event_acts :: "SafeEnforcer \<Rightarrow> enforce_event \<Rightarrow> bool" where
  "event_acts e (EnforceEvent t f act epss kev) = takes_action t f epss kev e"

fun event_time :: "enforce_event \<Rightarrow> int" where
  "event_time (EnforceEvent t f act epss kev) = t_check t"

definition enforced_at :: "(int \<Rightarrow> string) \<Rightarrow> SafeEnforcer \<Rightarrow> enforce_event list \<Rightarrow> int list" where
  "enforced_at dbg = firings (enforce_step dbg) event_acts event_time"

fun clock_ok :: "enforce_event \<Rightarrow> bool" where
  "clock_ok (EnforceEvent t f act epss kev) \<longleftrightarrow> t_check t \<le> t_cool t"

interpretation cooldown: rate_limit "enforce_step dbg" "\<lambda>_. True" event_acts event_time clock_ok
  sf_cooldown_until cooldown_ns for dbg
proof
  fix e ev u
  show "event_acts e ev \<Longrightarrow> sf_cooldown_until e = Some u \<Longrightarrow> u \<le> event_time ev"
    by (cases ev) (simp add: takes_action_def cooldown_active_def)
  show "clock_ok ev \<Longrightarrow> event_acts e ev \<Longrightarrow>
    \<exists>u. sf_cooldown_until (enforce_step dbg e ev) = Some u \<and> event_time ev + cooldown_ns \<le> u"
    by (cases ev) (simp add: enforce_acts)
  show "\<not> event_acts e ev \<Longrightarrow> sf_cooldown_until (enforce_step dbg e ev) = sf_cooldown_until e"
    by (cases ev) (simp add: enforce_idle)
qed (simp_all add: cooldown_ns_def)

section \<open>What the sanitised commands contain\<close>

text \<open>No character the shell treats specially, the space included: such a string is one word.\<close>

definition shell_safe :: "char \<Rightarrow> bool" where
  "shell_safe c \<longleftrightarrow> is_alnum_c c \<or> c \<in> {CHR ''-'', CHR ''_'', CHR ''.'', CHR ''/''}"

lemma space_unsafe: "\<not> shell_safe (CHR '' '')"
  by (simp add: shell_safe_def is_alnum_c_def is_digit_c_def is_upper_c_def is_lower_c_def)

lemma sanitizers_safe:
  "list_all shell_safe (sanitize_shell_arg s)" "list_all shell_safe (sanitize_path s)"
  "list_all shell_safe (sanitize_ip s)"
  by (auto simp: list_all_iff shell_safe_def sanitize_shell_arg_def sanitize_path_def
      sanitize_ip_def is_alnum_c_def)

lemma dec_w_safe: "list_all shell_safe (dec_w w)"
  using dec_int_digits[of "uint w"]
  by (auto simp: list_all_iff shell_safe_def is_alnum_c_def dec_w_def)

text \<open>The words of a command: those of the template, with one word for each argument.\<close>

fun rollback_words :: "ActionType \<Rightarrow> string list" where
  "rollback_words (SeccompProfileAction p) = [''kubectl'', ''delete'', ''seccompprofile'', sanitize_path p]"
| "rollback_words (NetworkBlock ip port) =
     [''tc'', ''filter'', ''del'', ''dev'', ''eth0'', ''protocol'', ''ip'', ''prio'', ''1'', ''u32'', ''match'', ''ip'',
      ''dst'', sanitize_ip ip, ''match'', ''ip'', ''dport'', dec_w port, ''0xffff'']"
| "rollback_words (QuarantinePod ns pod) =
     [''kubectl'', ''label'', ''pods'', sanitize_shell_arg pod, ''-n'', sanitize_shell_arg ns,
      ''security.execution-aware-scanner/quarantine-'']"

lemma rollback_words_safe: "list_all (list_all shell_safe) (rollback_words a)"
proof -
  have "list_all (list_all shell_safe)
    [''kubectl'', ''delete'', ''seccompprofile'', ''tc'', ''filter'', ''del'', ''dev'', ''eth0'', ''protocol'', ''ip'',
     ''prio'', ''1'', ''u32'', ''match'', ''dst'', ''dport'', ''0xffff'', ''label'', ''pods'', ''-n'',
     ''security.execution-aware-scanner/quarantine-'']"
    by code_simp
  then show ?thesis by (cases a) (simp_all add: sanitizers_safe dec_w_safe)
qed

lemma one_word: "list_all shell_safe s \<Longrightarrow> CHR '' '' \<notin> set s"
  using space_unsafe by (auto simp: list_all_iff)

lemma split_words:
  "list_all (list_all shell_safe) ws \<Longrightarrow> ws \<noteq> [] \<Longrightarrow>
   split_on (CHR '' '') (concat (map (\<lambda>w. w @ '' '') (butlast ws)) @ last ws) = ws"
proof (induction ws)
  case (Cons w ws)
  then show ?case
    using one_word[of w] by (cases ws) (simp_all add: split_on_append split_on_none)
qed simp

lemma rollback_command_words:
  "rollback_command_for a =
     concat (map (\<lambda>w. w @ '' '') (butlast (rollback_words a))) @ last (rollback_words a)"
  by (cases a) (simp_all add: rollback_command_for_def)

section \<open>Properties\<close>

text \<open>C4. An action is applied exactly when the mode is Enforce, the finding is Critical, KEV listed
  and scored above 8, the EPSS reaches the configured minimum and no cooldown is running.\<close>

theorem enforces_iff_all_checks:
  "(\<exists>m. fst (sf_enforce dbg t f act epss kev e) = Inr m) \<longleftrightarrow>
     sf_mode e = Enforce \<and> fd_priority f = PCritical \<and> kev \<and> fl_gt (fd_score f) (Fin 8)
     \<and> fl_ge epss (fcast F32 (minimum_epss (sf_risk_config e)))
     \<and> \<not> cooldown_active (t_check t) e"
  by (auto simp: enforce_ok_iff takes_action_def should_enforce_iff)

text \<open>A refused action leaves the enforcer as it was; an applied one can be rolled back at
  once, under the sanitised CVE id, by its own command, and starts the cooldown.\<close>

theorem enforce_outcome:
  "case sf_enforce dbg t f act epss kev e of
     (Inl err, e') \<Rightarrow> e' = e
   | (Inr m, e') \<Rightarrow>
       sf_rollback (sanitize_shell_arg (rs_cve (fd_signal f))) e'
         = Inr (''To rollback, execute: '' @ rollback_command_for act)
       \<and> sf_cooldown_until e' = Some (t_cool t + cooldown_ns)"
proof (cases "takes_action t f epss kev e")
  case True
  then show ?thesis by (simp add: enforce_acts sf_rollback_def)
next
  case False
  then obtain err where "fst (sf_enforce dbg t f act epss kev e) = Inl err"
    using enforce_ok_iff[of dbg t f act epss kev e]
    by (cases "fst (sf_enforce dbg t f act epss kev e)") auto
  with enforce_idle[OF False, of dbg act] show ?thesis by (simp add: prod.case_eq_if)
qed

text \<open>C19. Over any sequence of requests whose clock readings do not run backwards within a request,
  two applied actions are at least 300 seconds apart.\<close>

theorem actions_are_spaced:
  "list_all clock_ok es \<Longrightarrow>
   sorted_wrt (\<lambda>x y. x + 300 * 10 ^ 9 \<le> y) (enforced_at dbg e es)"
  using cooldown.firings_spaced[where s = e and es = es and dbg = dbg] by (simp add: enforced_at_def cooldown_ns_def)

theorem actions_are_spaced_witness:
  "sorted_wrt (\<lambda>x y. x + 300 * 10 ^ 9 \<le> y)
     (enforced_at (\<lambda>_. []) (SafeEnforcer_new Enforce \<lparr>minimum_cvss = Fin 0, minimum_epss = Fin 0\<rparr>)
        [EnforceEvent \<lparr>t_check = 1, t_record = 2, t_cool = 3\<rparr> \<lparr>fd_id = [], fd_detected_at = 0,
          fd_identity = \<lparr>ri_node_name = [], ri_namespace = [], ri_pod_name = [],
            ri_container_name = [], ri_image = [], ri_workload = [], ri_labels = []\<rparr>,
          fd_signal = \<lparr>rs_cve = ''CVE-1'', rs_cvss = Fin 9, rs_epss = Fin 1, rs_kev = True,
            rs_runtime = Reachable, rs_package = [], rs_observed_paths = [],
            rs_signal_weight = Fin 0\<rparr>,
          fd_score = Fin 10, fd_priority = PCritical, fd_recommendation = [],
          fd_explainability = ExplainabilityReport_default\<rparr>
          (QuarantinePod ''ns'' ''pod'') (Fin 1) True,
         EnforceEvent \<lparr>t_check = 4, t_record = 5, t_cool = 6\<rparr> \<lparr>fd_id = [], fd_detected_at = 0,
          fd_identity = \<lparr>ri_node_name = [], ri_namespace = [], ri_pod_name = [],
            ri_container_name = [], ri_image = [], ri_workload = [], ri_labels = []\<rparr>,
          fd_signal = \<lparr>rs_cve = ''CVE-1'', rs_cvss = Fin 9, rs_epss = Fin 1, rs_kev = True,
            rs_runtime = Reachable, rs_package = [], rs_observed_paths = [],
            rs_signal_weight = Fin 0\<rparr>,
          fd_score = Fin 10, fd_priority = PCritical, fd_recommendation = [],
          fd_explainability = ExplainabilityReport_default\<rparr>
          (QuarantinePod ''ns'' ''pod'') (Fin 1) True])"
  by (rule actions_are_spaced) simp

text \<open>In Audit and Warn mode no sequence of requests changes the enforcer: nothing is ever
  applied, no cooldown starts.\<close>

theorem audit_and_warn_never_act:
  "foldl (enforce_step dbg) (SafeEnforcer_new Audit cfg) es = SafeEnforcer_new Audit cfg
   \<and> foldl (enforce_step dbg) (SafeEnforcer_new Warn cfg) es = SafeEnforcer_new Warn cfg"
proof -
  have idle: "sf_mode e \<noteq> Enforce \<Longrightarrow> enforce_step dbg e ev = e" for e ev
    by (cases ev) (simp add: enforce_idle takes_action_def should_enforce_iff)
  have "sf_mode e \<noteq> Enforce \<Longrightarrow> foldl (enforce_step dbg) e es = e" for e
    by (induction es) (simp_all add: idle)
  then show ?thesis by (simp add: SafeEnforcer_new_def)
qed

text \<open>Whatever ran, every stored action is filed under its own sanitised id with the command
  that undoes it, and actions exist only in Enforce mode with a cooldown set.\<close>

theorem enforcer_run_wellformed:
  "enforcer_ok (foldl (enforce_step dbg) (SafeEnforcer_new m cfg) es)"
  by (rule enf.run_inv) simp


text \<open>A word can be empty, and the shell drops empty words: when nothing of the namespace survives
  the sanitiser, the option takes the label for its namespace.\<close>

theorem empty_names_shift_arguments:
  "filter (\<lambda>w. w \<noteq> []) (split_on (CHR '' '') (rollback_command_for (QuarantinePod ''!'' ''web''))) =
     [''kubectl'', ''label'', ''pods'', ''web'', ''-n'', ''security.execution-aware-scanner/quarantine-'']"
  by code_simp

end
