(* ===== verification/Enforcement_Controller.thy ===== *)
theory Enforcement_Controller
  imports Interfaces Net_Addr Safe_Enforcement
begin

text \<open>
  The enforcement controller of \<open>enforcement.rs\<close>: what a finding's priority asks for, the
  seccomp profile built from the recorded syscalls, the blocked addresses and the statuses
  of what was applied. Each lock-protected table is a field of one state record; an
  operation is the whole method, and the readings of \<open>Utc::now\<close> it takes are arguments
  (nanoseconds). \<open>rfc3339\<close> stands for chrono's printer.
\<close>

section \<open>Actions, rules and statuses\<close>

datatype EnforcementAction =
  Notify | GenerateSeccomp | ApplySeccomp | BlockEgress | BlockIngress | Quarantine | Terminate

fun EnforcementAction_as_u8 :: "EnforcementAction \<Rightarrow> u8" where
  "EnforcementAction_as_u8 Notify = 0"
| "EnforcementAction_as_u8 GenerateSeccomp = 1"
| "EnforcementAction_as_u8 ApplySeccomp = 2"
| "EnforcementAction_as_u8 BlockEgress = 3"
| "EnforcementAction_as_u8 BlockIngress = 4"
| "EnforcementAction_as_u8 Quarantine = 5"
| "EnforcementAction_as_u8 Terminate = 6"

fun from_priority :: "Priority \<Rightarrow> EnforcementAction list" where
  "from_priority PCritical = [GenerateSeccomp, ApplySeccomp, BlockEgress]"
| "from_priority PHigh = [GenerateSeccomp, Notify]"
| "from_priority PMedium = [Notify]"
| "from_priority _ = [Notify]"

definition is_disruptive :: "EnforcementAction \<Rightarrow> bool" where
  "is_disruptive a \<longleftrightarrow> a = Quarantine \<or> a = Terminate"

datatype EnforcementCondition =
  MinCvss f32 | MinEpss f32 | IsKev | RuntimeReachable | SuspiciousNetworkActivity
| BlockedIpContacted u32

record EnforcementRule =
  el_workload_id :: string
  el_namespace :: string
  el_actions :: "EnforcementAction list"
  el_conditions :: "EnforcementCondition list"
  el_created_at :: int
  el_expires_at :: "int option"

datatype EnforcementStatusType = SPending | SApplying | SApplied | SFailed | SRolledBack

record EnforcementStatus =
  es_rule_id :: string
  es_action :: EnforcementAction
  es_status :: EnforcementStatusType
  es_applied_at :: "int option"
  es_error :: "string option"

record RemediatorConfig =
  rm_enabled :: bool
  rm_address :: string
  rm_timeout_secs :: u64
  rm_max_retries :: u32
  rm_enforce_critical :: bool
  rm_enforce_high :: bool
  rm_auto_seccomp :: bool
  rm_auto_quarantine :: bool

record EnforcementController =
  ec_config :: RemediatorConfig
  ec_rules :: "(string \<times> EnforcementRule) list"
  ec_statuses :: "(string \<times> EnforcementStatus list) list"
  ec_syscall_baselines :: "(string \<times> string list) list"
  ec_blocked_ips :: "u32 list"

definition EnforcementController_new :: "RemediatorConfig \<Rightarrow> EnforcementController" where
  "EnforcementController_new cfg =
     \<lparr>ec_config = cfg, ec_rules = [], ec_statuses = [], ec_syscall_baselines = [],
      ec_blocked_ips = []\<rparr>"

section \<open>Syscall baselines and profiles\<close>

definition record_syscalls ::
  "string \<Rightarrow> string list \<Rightarrow> EnforcementController \<Rightarrow> EnforcementController" where
  "record_syscalls wl syscalls c =
     c\<lparr>ec_syscall_baselines :=
        alist_modify wl [] (\<lambda>b. bset_extend b syscalls) (ec_syscall_baselines c)\<rparr>"

definition get_syscall_baseline :: "string \<Rightarrow> EnforcementController \<Rightarrow> string list option" where
  "get_syscall_baseline wl c = map_of (ec_syscall_baselines c) wl"

definition essential_syscalls :: "string list" where
  "essential_syscalls =
     [''exit'', ''exit_group'', ''rt_sigreturn'', ''sigreturn'', ''brk'', ''mmap'', ''munmap'',
      ''arch_prctl'', ''set_tid_address'']"

definition categorize_syscall :: "string \<Rightarrow> string" where
  "categorize_syscall s =
     (if s \<in> set [''mmap'', ''munmap'', ''mprotect'', ''brk'', ''sbrk''] then ''memory''
      else if s \<in> set [''openat'', ''openat2'', ''read'', ''write'', ''close'', ''fstat'',
                       ''lseek'', ''access''] then ''file''
      else if s \<in> set [''execve'', ''execveat'', ''clone'', ''fork'', ''vfork'', ''exit'',
                       ''wait4'', ''getpid''] then ''process''
      else if s \<in> set [''socket'', ''connect'', ''bind'', ''listen'', ''accept'', ''sendto'',
                       ''recvfrom'', ''setsockopt''] then ''network''
      else if s \<in> set [''rt_sigaction'', ''rt_sigprocmask'', ''rt_sigreturn'', ''kill'',
                       ''tkill'', ''tgkill''] then ''signal''
      else if s \<in> set [''clock_gettime'', ''gettimeofday'', ''nanosleep'', ''alarm'',
                       ''timer_create''] then ''time''
      else ''other'')"

text \<open>\<open>entry(categorize(s)).or_default().push(s)\<close> over a list of names.\<close>

fun group_by_category :: "string list \<Rightarrow> (string \<times> string list) list \<Rightarrow> (string \<times> string list) list" where
  "group_by_category [] m = m"
| "group_by_category (s # ss) m =
     group_by_category ss (alist_modify (categorize_syscall s) [] (\<lambda>v. v @ [s]) m)"

record SeccompMetadata =
  sx_generated_by :: string
  sx_generated_at :: string
  sx_workload_id :: string
  sx_syscall_count :: nat

record SeccompJson =
  sj_default_action :: string
  sj_architectures :: "string list"
  sj_syscalls :: "SeccompRule list"
  sj_categories :: "(string \<times> string list) list"
  sj_metadata :: SeccompMetadata

definition generate_seccomp_profile ::
  "(int \<Rightarrow> string) \<Rightarrow> int \<Rightarrow> string \<Rightarrow> EnforcementController \<Rightarrow> ScannerError + SeccompJson" where
  "generate_seccomp_profile rfc3339 now wl c =
     (let syscalls = (case map_of (ec_syscall_baselines c) wl of None \<Rightarrow> [] | Some b \<Rightarrow> b);
          allowed = bset_extend (bset_extend [] essential_syscalls) syscalls
      in Inr \<lparr>sj_default_action = ''SCMP_ACT_ERRNO'',
              sj_architectures = [''SCMP_ARCH_X86_64'', ''SCMP_ARCH_X86'', ''SCMP_ARCH_AARCH64''],
              sj_syscalls = [\<lparr>sr_names = allowed, sr_action = ''SCMP_ACT_ALLOW''\<rparr>],
              sj_categories = sort_key fst (group_by_category allowed []),
              sj_metadata = \<lparr>sx_generated_by = ''execution-aware-scanner'',
                             sx_generated_at = rfc3339 now, sx_workload_id = wl,
                             sx_syscall_count = length allowed\<rparr>\<rparr>)"

section \<open>Applying\<close>

text \<open>\<open>timestamp()\<close> is an \<open>i64\<close> of seconds.\<close>

definition dec_i64 :: "int \<Rightarrow> string" where
  "dec_i64 n = (if n < 0 then ''-'' @ dec_int (- n) else dec_int n)"

definition timestamp_secs :: "int \<Rightarrow> int" where
  "timestamp_secs ns = ns div 10 ^ 9"

record action_clock =
  t_rule :: int
  t_gen :: int
  t_applied :: int

definition new_status :: "string \<Rightarrow> EnforcementAction \<Rightarrow> EnforcementStatus" where
  "new_status rid a =
     \<lparr>es_rule_id = rid, es_action = a, es_status = SApplying, es_applied_at = None,
      es_error = None\<rparr>"

definition apply_seccomp ::
  "(int \<Rightarrow> string) \<Rightarrow> action_clock \<Rightarrow> string \<Rightarrow> string \<Rightarrow> EnforcementController
   \<Rightarrow> (ScannerError + EnforcementStatus) \<times> EnforcementController" where
  "apply_seccomp rfc3339 t wl ns c =
     (let rid = ''seccomp-'' @ wl @ ''-'' @ dec_i64 (timestamp_secs (t_rule t));
          st = new_status rid ApplySeccomp;
          c' = c\<lparr>ec_statuses := alist_modify wl [] (\<lambda>v. v @ [st]) (ec_statuses c)\<rparr>
      in case generate_seccomp_profile rfc3339 (t_gen t) wl c' of
           Inr p \<Rightarrow> (Inr (st\<lparr>es_status := SApplied, es_applied_at := Some (t_applied t)\<rparr>), c')
         | Inl e \<Rightarrow> (Inr (st\<lparr>es_status := SFailed, es_error := Some (ScannerError_display e)\<rparr>), c'))"

definition block_ip :: "u32 \<Rightarrow> string \<Rightarrow> EnforcementController \<Rightarrow> (ScannerError + unit) \<times> EnforcementController" where
  "block_ip ip reason c = (Inr (), c\<lparr>ec_blocked_ips := bset_insert ip (ec_blocked_ips c)\<rparr>)"

definition unblock_ip :: "u32 \<Rightarrow> EnforcementController \<Rightarrow> (ScannerError + unit) \<times> EnforcementController" where
  "unblock_ip ip c = (Inr (), c\<lparr>ec_blocked_ips := remove1 ip (ec_blocked_ips c)\<rparr>)"

definition block_egress :: "action_clock \<Rightarrow> string \<Rightarrow> string \<Rightarrow> nat \<Rightarrow> ScannerError + EnforcementStatus" where
  "block_egress t wl ns duration_secs =
     (let rid = ''egress-'' @ wl @ ''-'' @ dec_i64 (timestamp_secs (t_rule t))
      in Inr ((new_status rid BlockEgress)
                \<lparr>es_status := SApplied, es_applied_at := Some (t_applied t)\<rparr>))"

definition quarantine_workload ::
  "action_clock \<Rightarrow> Finding \<Rightarrow> bool \<Rightarrow> bool \<Rightarrow> ScannerError + EnforcementStatus" where
  "quarantine_workload t f isolate_network isolate_storage =
     (let rid = ''quarantine-'' @ ri_workload (fd_identity f) @ ''-''
                @ dec_i64 (timestamp_secs (t_rule t))
      in Inr ((new_status rid Quarantine)
                \<lparr>es_status := SApplied, es_applied_at := Some (t_applied t)\<rparr>))"

section \<open>Processing a finding\<close>

definition action_enabled :: "RemediatorConfig \<Rightarrow> EnforcementAction \<Rightarrow> bool" where
  "action_enabled cfg a =
     (case a of ApplySeccomp \<Rightarrow> rm_auto_seccomp cfg | Quarantine \<Rightarrow> rm_auto_quarantine cfg
      | _ \<Rightarrow> True)"

definition failed_status :: "string \<Rightarrow> Finding \<Rightarrow> EnforcementAction \<Rightarrow> ScannerError \<Rightarrow> EnforcementStatus" where
  "failed_status pre f a e =
     \<lparr>es_rule_id = pre @ fd_id f @ ''-'' @ dec_w (EnforcementAction_as_u8 a), es_action = a,
      es_status = SFailed, es_applied_at = None, es_error = Some (ScannerError_display e)\<rparr>"

definition done_status :: "string \<Rightarrow> Finding \<Rightarrow> EnforcementAction \<Rightarrow> int \<Rightarrow> EnforcementStatus" where
  "done_status pre f a now =
     \<lparr>es_rule_id = pre @ fd_id f @ ''-'' @ dec_w (EnforcementAction_as_u8 a), es_action = a,
      es_status = SApplied, es_applied_at = Some now, es_error = None\<rparr>"

definition run_action ::
  "(int \<Rightarrow> string) \<Rightarrow> (EnforcementAction \<Rightarrow> action_clock) \<Rightarrow> Finding \<Rightarrow> EnforcementAction
   \<Rightarrow> EnforcementController \<Rightarrow> EnforcementStatus \<times> EnforcementController" where
  "run_action rfc3339 clk f a c =
     (let wl = ri_workload (fd_identity f); ns = ri_namespace (fd_identity f); t = clk a
      in case a of
           GenerateSeccomp \<Rightarrow>
             (case generate_seccomp_profile rfc3339 (t_gen t) wl c of
                Inr p \<Rightarrow> (done_status ''gen-'' f a (t_applied t), c)
              | Inl e \<Rightarrow> (failed_status ''gen-'' f a e, c))
         | ApplySeccomp \<Rightarrow>
             (case apply_seccomp rfc3339 t wl ns c of
                (Inr s, c') \<Rightarrow> (s, c') | (Inl e, c') \<Rightarrow> (failed_status ''app-'' f a e, c'))
         | BlockEgress \<Rightarrow>
             (case block_egress t wl ns 3600 of
                Inr s \<Rightarrow> (s, c) | Inl e \<Rightarrow> (failed_status ''blk-'' f a e, c))
         | _ \<Rightarrow> (done_status ''notify-'' f a (t_applied t), c))"

fun process_actions ::
  "(int \<Rightarrow> string) \<Rightarrow> (EnforcementAction \<Rightarrow> action_clock) \<Rightarrow> Finding \<Rightarrow> EnforcementAction list
   \<Rightarrow> EnforcementController \<Rightarrow> EnforcementStatus list \<times> EnforcementController" where
  "process_actions rfc clk f [] c = ([], c)"
| "process_actions rfc clk f (a # as) c =
     (if \<not> action_enabled (ec_config c) a then process_actions rfc clk f as c
      else (let (s, c') = run_action rfc clk f a c; (ss, c'') = process_actions rfc clk f as c'
            in (s # ss, c'')))"

definition process_finding ::
  "(int \<Rightarrow> string) \<Rightarrow> (EnforcementAction \<Rightarrow> action_clock) \<Rightarrow> Finding \<Rightarrow> EnforcementController
   \<Rightarrow> EnforcementStatus list \<times> EnforcementController" where
  "process_finding rfc clk f c = process_actions rfc clk f (from_priority (fd_priority f)) c"

definition get_status :: "string \<Rightarrow> EnforcementController \<Rightarrow> EnforcementStatus list" where
  "get_status wl c = (case map_of (ec_statuses c) wl of None \<Rightarrow> [] | Some v \<Rightarrow> v)"

definition get_active_rules :: "EnforcementController \<Rightarrow> EnforcementRule list" where
  "get_active_rules c = map snd (ec_rules c)"

section \<open>Profiles\<close>

text \<open>What the kernel does for a syscall: the action of the first rule that names it, or the default.\<close>

definition profile_verdict :: "SeccompJson \<Rightarrow> string \<Rightarrow> string" where
  "profile_verdict p syscall =
     (case find (\<lambda>r. syscall \<in> set (sr_names r)) (sj_syscalls p) of
        None \<Rightarrow> sj_default_action p | Some r \<Rightarrow> sr_action r)"

definition profile_names :: "SeccompJson \<Rightarrow> string list" where
  "profile_names p = concat (map sr_names (sj_syscalls p))"

definition observed :: "EnforcementController \<Rightarrow> string \<Rightarrow> string list" where
  "observed c wl = (case get_syscall_baseline wl c of None \<Rightarrow> [] | Some b \<Rightarrow> b)"

lemma group_by_category_lookup:
  "map_of (group_by_category ss m) k =
     (if map_of m k = None \<and> filter (\<lambda>s. categorize_syscall s = k) ss = [] then None
      else Some ((case map_of m k of None \<Rightarrow> [] | Some v \<Rightarrow> v)
                 @ filter (\<lambda>s. categorize_syscall s = k) ss))"
  by (induction ss m rule: group_by_category.induct) (auto split: option.splits)

lemma distinct_group_by_category:
  "distinct (map fst m) \<Longrightarrow> distinct (map fst (group_by_category ss m))"
  by (induction ss m rule: group_by_category.induct) auto

lemma map_of_sort_key: "distinct (map fst m) \<Longrightarrow> map_of (sort_key fst m) = map_of m"
proof -
  assume d: "distinct (map fst m)"
  then have "distinct (map fst (sort_key fst m))" by (simp add: distinct_map)
  with d show ?thesis by (intro map_of_eqI) (auto simp: map_of_eq_Some_iff)
qed

lemma profile_fields:
  assumes "generate_seccomp_profile rfc now wl c = Inr p"
  shows "set (profile_names p) = set essential_syscalls \<union> set (observed c wl)"
    and "bset_ok (profile_names p)"
    and "sx_syscall_count (sj_metadata p) = length (profile_names p)"
    and "map_of (sj_categories p) k =
       (case filter (\<lambda>s. categorize_syscall s = k) (profile_names p) of [] \<Rightarrow> None | x # xs \<Rightarrow> Some (x # xs))"
    and "profile_verdict p syscall =
       (if syscall \<in> set essential_syscalls \<union> set (observed c wl) then ''SCMP_ACT_ALLOW'' else ''SCMP_ACT_ERRNO'')"
  using assms
  by (auto simp: profile_verdict_def generate_seccomp_profile_def profile_names_def observed_def Let_def
      get_syscall_baseline_def map_of_sort_key distinct_group_by_category group_by_category_lookup
      split: option.splits list.splits)

lemma generate_total: "\<exists>p. generate_seccomp_profile rfc now wl c = Inr p"
  by (simp add: generate_seccomp_profile_def Let_def)

section \<open>Statuses\<close>

lemma run_action_status:
  "es_action (fst (run_action rfc clk f a c)) = a"
  "es_status (fst (run_action rfc clk f a c)) = SApplied"
  "ec_config (snd (run_action rfc clk f a c)) = ec_config c"
  by (cases a; simp add: run_action_def generate_seccomp_profile_def apply_seccomp_def
      block_egress_def done_status_def new_status_def Let_def)+

lemma process_actions_status:
  "map es_action (fst (process_actions rfc clk f as c)) = filter (action_enabled (ec_config c)) as
   \<and> list_all (\<lambda>s. es_status s = SApplied) (fst (process_actions rfc clk f as c))"
proof (induction as arbitrary: c)
  case (Cons a as)
  obtain s c' where r: "run_action rfc clk f a c = (s, c')" by force
  have "es_action s = a" "es_status s = SApplied" "ec_config c' = ec_config c"
    using run_action_status[of rfc clk f a c] r by auto
  with Cons[of c] Cons[of c'] r show ?case by (simp add: split_beta)
qed simp

section \<open>Runs\<close>

datatype control_event =
  CRecord string "string list"
| CApply action_clock string string
| CBlock u32 string
| CUnblock u32
| CProcess "EnforcementAction \<Rightarrow> action_clock" Finding

fun control_step :: "(int \<Rightarrow> string) \<Rightarrow> EnforcementController \<Rightarrow> control_event \<Rightarrow> EnforcementController" where
  "control_step rfc c (CRecord wl ss) = record_syscalls wl ss c"
| "control_step rfc c (CApply t wl ns) = snd (apply_seccomp rfc t wl ns c)"
| "control_step rfc c (CBlock ip reason) = snd (block_ip ip reason c)"
| "control_step rfc c (CUnblock ip) = snd (unblock_ip ip c)"
| "control_step rfc c (CProcess clk f) = snd (process_finding rfc clk f c)"

text \<open>Baselines and blocked addresses are ordered sets; the only statuses the table holds are
  pending applications of a seccomp profile; no rule is ever stored.\<close>

definition stored_status_ok :: "EnforcementStatus \<Rightarrow> bool" where
  "stored_status_ok s \<longleftrightarrow>
     es_action s = ApplySeccomp \<and> es_status s = SApplying \<and> es_applied_at s = None"

definition control_ok :: "EnforcementController \<Rightarrow> bool" where
  "control_ok c \<longleftrightarrow>
     distinct (map fst (ec_syscall_baselines c)) \<and> distinct (map fst (ec_statuses c))
     \<and> list_all (\<lambda>(k, b). bset_ok b) (ec_syscall_baselines c)
     \<and> list_all (\<lambda>(k, v). list_all stored_status_ok v) (ec_statuses c)
     \<and> bset_ok (ec_blocked_ips c) \<and> ec_rules c = []"

lemma list_all_map_of: "list_all (\<lambda>(k, v). P v) m \<Longrightarrow> map_of m k = Some v \<Longrightarrow> P v"
  by (auto simp: list_all_iff dest: map_of_SomeD)

lemma list_all_alist_modify:
  "list_all (\<lambda>(k, v). P v) m \<Longrightarrow> P d \<Longrightarrow> (\<And>v. P v \<Longrightarrow> P (f v)) \<Longrightarrow>
   list_all (\<lambda>(k, v). P v) (alist_modify k d f m)"
  by (auto simp: alist_modify_def intro!: list_all_update dest: list_all_map_of split: option.splits)

lemma control_ok_apply: "control_ok c \<Longrightarrow> control_ok (snd (apply_seccomp rfc t wl ns c))"
  by (simp add: control_ok_def apply_seccomp_def generate_seccomp_profile_def Let_def
      list_all_alist_modify stored_status_ok_def new_status_def)

lemma control_ok_action: "control_ok c \<Longrightarrow> control_ok (snd (run_action rfc clk f a c))"
proof -
  assume ok: "control_ok c"
  obtain r c' where "apply_seccomp rfc (clk a) (ri_workload (fd_identity f)) (ri_namespace (fd_identity f)) c = (r, c')"
    by force
  with control_ok_apply[OF ok] have "control_ok c'" by (metis snd_conv)
  with \<open>apply_seccomp _ _ _ _ _ = _\<close> ok show ?thesis
    by (cases a) (auto simp: run_action_def Let_def split: sum.splits)
qed

lemma control_ok_actions: "control_ok c \<Longrightarrow> control_ok (snd (process_actions rfc clk f as c))"
proof (induction as arbitrary: c)
  case (Cons a as)
  then show ?case using Cons.IH[OF control_ok_action[OF Cons.prems]] by (simp add: split_beta)
qed simp

lemma bset_ok_remove1 [simp]: "bset_ok xs \<Longrightarrow> bset_ok (remove1 x xs)"
  by (simp add: bset_ok_def sorted_remove1)

lemma control_ok_record: "control_ok c \<Longrightarrow> control_ok (record_syscalls wl ss c)"
  by (auto simp: control_ok_def record_syscalls_def intro!: list_all_alist_modify)

lemma control_ok_block:
  "control_ok c \<Longrightarrow> control_ok (snd (block_ip ip r c))"
  "control_ok c \<Longrightarrow> control_ok (snd (unblock_ip ip c))"
  by (simp_all add: control_ok_def block_ip_def unblock_ip_def)

interpretation control: event_machine "control_step rfc" control_ok for rfc
proof
  fix c e
  assume "control_ok c"
  then show "control_ok (control_step rfc c e)"
    by (cases e) (simp_all add: control_ok_apply control_ok_actions process_finding_def
        control_ok_record control_ok_block)
qed

lemma control_ok_new [simp]: "control_ok (EnforcementController_new cfg)"
  by (simp add: control_ok_def EnforcementController_new_def)

text \<open>An operation other than \<open>record_syscalls\<close> leaves the baselines, one other than
  \<open>block_ip\<close> and \<open>unblock_ip\<close> the blocked addresses.\<close>

lemma apply_frame:
  "ec_syscall_baselines (snd (apply_seccomp rfc t wl ns c)) = ec_syscall_baselines c"
  "ec_blocked_ips (snd (apply_seccomp rfc t wl ns c)) = ec_blocked_ips c"
  by (simp_all add: apply_seccomp_def generate_seccomp_profile_def Let_def)

definition control_tables :: "EnforcementController \<Rightarrow> (string \<times> string list) list \<times> u32 list" where
  "control_tables c = (ec_syscall_baselines c, ec_blocked_ips c)"

lemma action_tables: "control_tables (snd (run_action rfc clk f a c)) = control_tables c"
  by (cases a; simp add: run_action_def generate_seccomp_profile_def apply_seccomp_def
      block_egress_def Let_def control_tables_def)

lemma actions_tables: "control_tables (snd (process_actions rfc clk f as c)) = control_tables c"
  by (induction as arbitrary: c) (simp_all add: split_beta action_tables)

lemma actions_frame:
  "ec_syscall_baselines (snd (process_actions rfc clk f as c)) = ec_syscall_baselines c"
  "ec_blocked_ips (snd (process_actions rfc clk f as c)) = ec_blocked_ips c"
  using actions_tables[of rfc clk f as c] by (simp_all add: control_tables_def)

fun recorded_for :: "string \<Rightarrow> control_event list \<Rightarrow> string set" where
  "recorded_for wl [] = {}"
| "recorded_for wl (CRecord w ss # es) = (if w = wl then set ss else {}) \<union> recorded_for wl es"
| "recorded_for wl (_ # es) = recorded_for wl es"

lemma observed_step:
  "set (observed (control_step rfc c e) wl) = set (observed c wl) \<union> recorded_for wl [e]"
  by (cases e) (auto simp: observed_def get_syscall_baseline_def record_syscalls_def apply_frame
      block_ip_def unblock_ip_def process_finding_def actions_frame split: option.splits)

lemma recorded_for_Cons: "recorded_for wl (e # es) = recorded_for wl [e] \<union> recorded_for wl es"
  by (cases e) auto

lemma observed_run:
  "set (observed (foldl (control_step rfc) c es) wl) = set (observed c wl) \<union> recorded_for wl es"
proof (induction es arbitrary: c)
  case (Cons e es)
  then show ?case
    by (subst recorded_for_Cons) (simp only: foldl_Cons observed_step Un_assoc)
qed simp

fun blocked_after :: "u32 \<Rightarrow> bool \<Rightarrow> control_event list \<Rightarrow> bool" where
  "blocked_after ip b [] = b"
| "blocked_after ip b (CBlock i r # es) = blocked_after ip (ip = i \<or> b) es"
| "blocked_after ip b (CUnblock i # es) = blocked_after ip (b \<and> ip \<noteq> i) es"
| "blocked_after ip b (_ # es) = blocked_after ip b es"

lemma blocked_run:
  "control_ok c \<Longrightarrow>
   ip \<in> set (ec_blocked_ips (foldl (control_step rfc) c es)) \<longleftrightarrow>
     blocked_after ip (ip \<in> set (ec_blocked_ips c)) es"
proof (induction es arbitrary: c)
  case (Cons e es)
  have ok: "control_ok (control_step rfc c e)" by (rule control.step_inv) (rule Cons.prems)
  have d: "distinct (ec_blocked_ips c)" using Cons.prems by (simp add: control_ok_def bset_ok_def)
  show ?case
    using Cons.IH[OF ok] d
    by (cases e) (auto simp: record_syscalls_def apply_frame block_ip_def unblock_ip_def
        process_finding_def actions_frame set_insort_insert)
qed simp

section \<open>Properties\<close>

text \<open>C35. After any sequence of operations the profile of a workload gives the verdict allow for
  exactly the essential syscalls and those recorded for it and an error for every other one;
  mprotect is allowed only when it was observed.\<close>

theorem profile_allows_exactly:
  "\<exists>p. generate_seccomp_profile rfc now wl
        (foldl (control_step rfc) (EnforcementController_new cfg) es) = Inr p
     \<and> profile_verdict p =
         (\<lambda>syscall. if syscall \<in> set essential_syscalls \<union> recorded_for wl es
                    then ''SCMP_ACT_ALLOW'' else ''SCMP_ACT_ERRNO'')
     \<and> set (profile_names p) = set essential_syscalls \<union> recorded_for wl es
     \<and> bset_ok (profile_names p)
     \<and> (profile_verdict p ''mprotect'' = ''SCMP_ACT_ALLOW'' \<longleftrightarrow> ''mprotect'' \<in> recorded_for wl es)"
proof -
  let ?c = "foldl (control_step rfc) (EnforcementController_new cfg) es"
  obtain p where p: "generate_seccomp_profile rfc now wl ?c = Inr p" using generate_total by blast
  have "set (observed ?c wl) = recorded_for wl es"
    using observed_run[of rfc "EnforcementController_new cfg" es wl]
    by (simp add: observed_def get_syscall_baseline_def EnforcementController_new_def)
  then have "profile_verdict p = (\<lambda>syscall. if syscall \<in> set essential_syscalls \<union> recorded_for wl es
      then ''SCMP_ACT_ALLOW'' else ''SCMP_ACT_ERRNO'')" and
    "set (profile_names p) = set essential_syscalls \<union> recorded_for wl es" "bset_ok (profile_names p)"
    using profile_fields[OF p] by (simp_all add: fun_eq_iff)
  then show ?thesis using p by (simp add: essential_syscalls_def)
qed

text \<open>The categories of a profile list each allowed syscall once, under its own category, in
  the order of the allow list, and have no empty category; the count is the number allowed.\<close>

theorem profile_categories_partition:
  "\<exists>p. generate_seccomp_profile rfc now wl c = Inr p
     \<and> map_of (sj_categories p) k =
         (case filter (\<lambda>s. categorize_syscall s = k) (profile_names p) of
            [] \<Rightarrow> None | x # xs \<Rightarrow> Some (x # xs))
     \<and> sx_syscall_count (sj_metadata p) = length (profile_names p)"
proof -
  obtain p where p: "generate_seccomp_profile rfc now wl c = Inr p" using generate_total by blast
  show ?thesis using p profile_fields(3)[OF p] profile_fields(4)[OF p, of k] by blast
qed

text \<open>A finding gets the actions of its priority that the configuration leaves on, in order,
  all reported as applied, and never a disruptive one.\<close>

theorem finding_actions:
  "map es_action (fst (process_finding rfc clk f c)) =
     filter (action_enabled (ec_config c)) (from_priority (fd_priority f))
   \<and> list_all (\<lambda>s. es_status s = SApplied) (fst (process_finding rfc clk f c))
   \<and> \<not> list_ex (\<lambda>s. is_disruptive (es_action s)) (fst (process_finding rfc clk f c))"
proof -
  let ?ss = "fst (process_finding rfc clk f c)"
  have m: "map es_action ?ss = filter (action_enabled (ec_config c)) (from_priority (fd_priority f))"
    and a: "list_all (\<lambda>s. es_status s = SApplied) ?ss"
    unfolding process_finding_def by (simp_all add: process_actions_status)
  have "list_ex is_disruptive (map es_action ?ss) = list_ex (\<lambda>s. is_disruptive (es_action s)) ?ss"
    by (induction ?ss) (simp_all add: list.pred_map list_ex_iff)
  moreover have "\<not> list_ex is_disruptive (map es_action ?ss)"
    unfolding m by (cases "fd_priority f") (auto simp: is_disruptive_def list_ex_iff)
  ultimately show ?thesis using m a by simp
qed

text \<open>The status table never says that a profile was applied: every status a workload has in
  it is a seccomp application in progress without a time, although the caller was told
  it succeeded.\<close>

theorem stored_statuses_stay_applying:
  "list_all stored_status_ok
     (get_status wl (foldl (control_step rfc) (EnforcementController_new cfg) es))"
proof -
  have "control_ok (foldl (control_step rfc) (EnforcementController_new cfg) es)"
    by (rule control.run_inv) simp
  then show ?thesis
    by (auto simp: control_ok_def get_status_def split: option.splits
        dest: list_all_map_of[where P = "list_all stored_status_ok"])
qed

text \<open>An address is blocked after a sequence of operations exactly when the last operation on
  it was a block.\<close>

theorem blocked_by_last_operation:
  "ip \<in> set (ec_blocked_ips (foldl (control_step rfc) (EnforcementController_new cfg) es))
     \<longleftrightarrow> blocked_after ip False es"
  using blocked_run[OF control_ok_new, of ip rfc cfg es]
  by (simp add: EnforcementController_new_def)

end
