(* ===== verification/Reliability.thy ===== *)
theory Reliability
  imports Interfaces Floats Formatting
begin

text \<open>
  \<open>reliability.rs\<close>: event counters, backpressure with two water marks, the circuit breaker,
  the watchdog and the health report. Atomics are \<open>u64\<close> words (\<open>fetch_add\<close> wraps), an
  \<open>Instant\<close> is a number of nanoseconds and \<open>duration_since\<close> saturates at zero. The
  per-component counters are updated by spawned tasks: a record call queues a task, and a
  task may run at any later time, in any order.
\<close>

section \<open>Configuration\<close>

record ReliabilityConfig =
  channel_buffer_size :: nat
  channel_high_water :: nat
  channel_low_water :: nat
  watchdog_timeout_secs :: u64
  max_consecutive_errors :: u32
  circuit_breaker_threshold :: u32
  circuit_breaker_recovery_secs :: u64
  health_check_interval_secs :: u64
  enable_degradation :: bool

definition ReliabilityConfig_default :: ReliabilityConfig where
  "ReliabilityConfig_default =
     (let buffer_size = 10000
      in \<lparr>channel_buffer_size = buffer_size,
          channel_high_water = fl_to_u64 (fmul F64 (fl_nat F64 buffer_size) (lit64 (8/10))),
          channel_low_water = fl_to_u64 (fmul F64 (fl_nat F64 buffer_size) (lit64 (5/10))),
          watchdog_timeout_secs = 60, max_consecutive_errors = 5,
          circuit_breaker_threshold = 10, circuit_breaker_recovery_secs = 60,
          health_check_interval_secs = 30, enable_degradation = True\<rparr>)"

datatype HealthStatus = Healthy | Degraded | Unhealthy

text \<open>\<open>duration_since(..).as_secs()\<close>.\<close>

definition elapsed_secs :: "int \<Rightarrow> int \<Rightarrow> int" where
  "elapsed_secs now t = max 0 (now - t) div 10 ^ 9"

section \<open>Metrics\<close>

record ComponentMetrics =
  cm_events_processed :: u64
  cm_events_dropped :: u64
  cm_events_queued :: u64
  cm_errors :: u64
  cm_latency_ms :: u64
  cm_last_event_time :: "int option"

definition ComponentMetrics_default :: ComponentMetrics where
  "ComponentMetrics_default =
     \<lparr>cm_events_processed = 0, cm_events_dropped = 0, cm_events_queued = 0, cm_errors = 0,
      cm_latency_ms = 0, cm_last_event_time = None\<rparr>"

datatype metric_task = TProcessed string | TDropped string u64 | TError string

record ReliabilityMetrics =
  mx_metrics :: "(string \<times> ComponentMetrics) list"
  mx_total_dropped :: u64
  mx_total_processed :: u64
  mx_start_time :: int
  mx_spawned :: "metric_task list"

definition ReliabilityMetrics_new :: "int \<Rightarrow> ReliabilityMetrics" where
  "ReliabilityMetrics_new now =
     \<lparr>mx_metrics = [], mx_total_dropped = 0, mx_total_processed = 0, mx_start_time = now,
      mx_spawned = []\<rparr>"

definition spawn_task :: "metric_task \<Rightarrow> ReliabilityMetrics \<Rightarrow> ReliabilityMetrics" where
  "spawn_task t m = m\<lparr>mx_spawned := mx_spawned m @ [t]\<rparr>"

definition record_processed :: "string \<Rightarrow> ReliabilityMetrics \<Rightarrow> ReliabilityMetrics" where
  "record_processed name m =
     spawn_task (TProcessed name) (m\<lparr>mx_total_processed := mx_total_processed m + 1\<rparr>)"

definition record_dropped :: "string \<Rightarrow> u64 \<Rightarrow> ReliabilityMetrics \<Rightarrow> ReliabilityMetrics" where
  "record_dropped name n m =
     spawn_task (TDropped name n) (m\<lparr>mx_total_dropped := mx_total_dropped m + n\<rparr>)"

definition mx_record_error :: "string \<Rightarrow> ReliabilityMetrics \<Rightarrow> ReliabilityMetrics" where
  "mx_record_error name m = spawn_task (TError name) m"

text \<open>The body of a spawned task: \<open>now\<close> is its reading of \<open>Utc::now().timestamp()\<close>.\<close>

fun run_task :: "int \<Rightarrow> metric_task \<Rightarrow> (string \<times> ComponentMetrics) list \<Rightarrow> (string \<times> ComponentMetrics) list" where
  "run_task now (TProcessed k) ms =
     alist_modify k ComponentMetrics_default
       (\<lambda>c. c\<lparr>cm_events_processed := cm_events_processed c + 1, cm_last_event_time := Some now\<rparr>) ms"
| "run_task now (TDropped k n) ms =
     alist_modify k ComponentMetrics_default
       (\<lambda>c. c\<lparr>cm_events_dropped := cm_events_dropped c + n\<rparr>) ms"
| "run_task now (TError k) ms =
     alist_modify k ComponentMetrics_default (\<lambda>c. c\<lparr>cm_errors := cm_errors c + 1\<rparr>) ms"

definition run_spawned :: "int \<Rightarrow> nat \<Rightarrow> ReliabilityMetrics \<Rightarrow> ReliabilityMetrics" where
  "run_spawned now i m =
     (if i < length (mx_spawned m)
      then m\<lparr>mx_metrics := run_task now (mx_spawned m ! i) (mx_metrics m),
             mx_spawned := take i (mx_spawned m) @ drop (Suc i) (mx_spawned m)\<rparr>
      else m)"

definition drop_rate :: "ReliabilityMetrics \<Rightarrow> f64" where
  "drop_rate m =
     (let processed = mx_total_processed m; dropped = mx_total_dropped m
      in if processed + dropped = 0 then Fin 0
         else fdiv F64 (fl_nat F64 (unat dropped)) (fl_nat F64 (unat (processed + dropped))))"

definition uptime_secs :: "int \<Rightarrow> ReliabilityMetrics \<Rightarrow> int" where
  "uptime_secs now m = elapsed_secs now (mx_start_time m)"

definition get_component_metrics :: "string \<Rightarrow> ReliabilityMetrics \<Rightarrow> ComponentMetrics option" where
  "get_component_metrics name m = map_of (mx_metrics m) name"

definition get_all_metrics :: "ReliabilityMetrics \<Rightarrow> (string \<times> ComponentMetrics) list" where
  "get_all_metrics m = mx_metrics m"

section \<open>Backpressure\<close>

record BackpressureController =
  bp_config :: ReliabilityConfig
  bp_current_load :: u64
  bp_in_backpressure :: bool

definition BackpressureController_new :: "ReliabilityConfig \<Rightarrow> BackpressureController" where
  "BackpressureController_new cfg =
     \<lparr>bp_config = cfg, bp_current_load = 0, bp_in_backpressure = False\<rparr>"

definition check_backpressure :: "nat \<Rightarrow> BackpressureController \<Rightarrow> bool \<times> BackpressureController" where
  "check_backpressure queue_size b =
     (let is_high = channel_high_water (bp_config b) \<le> queue_size;
          is_low = queue_size \<le> channel_low_water (bp_config b);
          b' = (if is_high \<and> \<not> bp_in_backpressure b then b\<lparr>bp_in_backpressure := True\<rparr>
                else if is_low \<and> bp_in_backpressure b then b\<lparr>bp_in_backpressure := False\<rparr>
                else b)
      in (bp_in_backpressure b', b'))"

definition update_load :: "u64 \<Rightarrow> BackpressureController \<Rightarrow> BackpressureController" where
  "update_load l b = b\<lparr>bp_current_load := l\<rparr>"

section \<open>Circuit breaker\<close>

datatype CircuitState = Closed | Open | HalfOpen

record CircuitBreaker =
  cb_config :: ReliabilityConfig
  cb_state :: CircuitState
  cb_failure_count :: u64
  cb_last_failure :: "int option"

definition CircuitBreaker_new :: "ReliabilityConfig \<Rightarrow> CircuitBreaker" where
  "CircuitBreaker_new cfg =
     \<lparr>cb_config = cfg, cb_state = Closed, cb_failure_count = 0, cb_last_failure = None\<rparr>"

definition should_proceed :: "int \<Rightarrow> CircuitBreaker \<Rightarrow> bool \<times> CircuitBreaker" where
  "should_proceed now b =
     (case cb_state b of
        Closed \<Rightarrow> (True, b)
      | Open \<Rightarrow>
          (case cb_last_failure b of
             Some last_time \<Rightarrow>
               if uint (circuit_breaker_recovery_secs (cb_config b)) \<le> elapsed_secs now last_time
               then (True, b\<lparr>cb_state := HalfOpen\<rparr>) else (False, b)
           | None \<Rightarrow> (True, b))
      | HalfOpen \<Rightarrow> (True, b))"

definition record_success :: "CircuitBreaker \<Rightarrow> CircuitBreaker" where
  "record_success b =
     (if cb_state b = HalfOpen then b\<lparr>cb_state := Closed, cb_failure_count := 0\<rparr> else b)"

definition record_failure :: "int \<Rightarrow> CircuitBreaker \<Rightarrow> CircuitBreaker" where
  "record_failure now b =
     (let count = cb_failure_count b + 1;
          b = b\<lparr>cb_failure_count := count, cb_last_failure := Some now\<rparr>
      in if ucast (circuit_breaker_threshold (cb_config b)) \<le> count
         then b\<lparr>cb_state := Open\<rparr> else b)"

section \<open>Watchdog and health\<close>

record Watchdog =
  wd_config :: ReliabilityConfig
  wd_last_heartbeat :: int
  wd_consecutive_errors :: u64

definition Watchdog_new :: "int \<Rightarrow> ReliabilityConfig \<Rightarrow> Watchdog" where
  "Watchdog_new now cfg = \<lparr>wd_config = cfg, wd_last_heartbeat = now, wd_consecutive_errors = 0\<rparr>"

definition heartbeat :: "int \<Rightarrow> Watchdog \<Rightarrow> Watchdog" where
  "heartbeat now w = w\<lparr>wd_last_heartbeat := now, wd_consecutive_errors := 0\<rparr>"

definition is_healthy :: "int \<Rightarrow> Watchdog \<Rightarrow> bool" where
  "is_healthy now w =
     (if uint (watchdog_timeout_secs (wd_config w)) < elapsed_secs now (wd_last_heartbeat w)
      then False
      else if ucast (max_consecutive_errors (wd_config w)) \<le> wd_consecutive_errors w then False
      else True)"

definition wd_record_error :: "Watchdog \<Rightarrow> Watchdog" where
  "wd_record_error w = w\<lparr>wd_consecutive_errors := wd_consecutive_errors w + 1\<rparr>"

record ComponentHealth =
  ch_status :: HealthStatus
  ch_message :: "string option"

record HealthCheck =
  hc_status :: HealthStatus
  hc_components :: "(string \<times> ComponentHealth) list"
  hc_uptime_secs :: int
  hc_drop_rate :: f64
  hc_total_processed :: u64
  hc_total_dropped :: u64

record HealthMonitor =
  hm_metrics :: ReliabilityMetrics
  hm_watchdogs :: "(string \<times> Watchdog) list"

definition register_watchdog :: "string \<Rightarrow> Watchdog \<Rightarrow> HealthMonitor \<Rightarrow> HealthMonitor" where
  "register_watchdog name w h = h\<lparr>hm_watchdogs := AList.update name w (hm_watchdogs h)\<rparr>"

definition component_health :: "int \<Rightarrow> Watchdog \<Rightarrow> ComponentHealth" where
  "component_health now w =
     (let ok = is_healthy now w
      in \<lparr>ch_status = (if ok then Healthy else Unhealthy),
          ch_message = (if \<not> ok then Some (dec_w (wd_consecutive_errors w) @ '' errors'') else None)\<rparr>)"

definition check_health :: "int \<Rightarrow> HealthMonitor \<Rightarrow> HealthCheck" where
  "check_health now h =
     (let components = map (\<lambda>(name, w). (name, component_health now w)) (hm_watchdogs h);
          overall = (if list_ex (\<lambda>(k, c). ch_status c = Unhealthy) components then Unhealthy
                     else if list_ex (\<lambda>(k, c). ch_status c = Degraded) components then Degraded
                     else Healthy)
      in \<lparr>hc_status = overall, hc_components = components,
          hc_uptime_secs = uptime_secs now (hm_metrics h), hc_drop_rate = drop_rate (hm_metrics h),
          hc_total_processed = mx_total_processed (hm_metrics h),
          hc_total_dropped = mx_total_dropped (hm_metrics h)\<rparr>)"

record ProductionRunner =
  pr_config :: ReliabilityConfig
  pr_monitor :: HealthMonitor

definition ProductionRunner_new :: "int \<Rightarrow> ReliabilityConfig \<Rightarrow> ProductionRunner" where
  "ProductionRunner_new now cfg =
     \<lparr>pr_config = cfg,
      pr_monitor = \<lparr>hm_metrics = ReliabilityMetrics_new now, hm_watchdogs = []\<rparr>\<rparr>"

section \<open>Counters\<close>

definition comp_sum :: "(ComponentMetrics \<Rightarrow> u64) \<Rightarrow> (string \<times> ComponentMetrics) list \<Rightarrow> u64" where
  "comp_sum g ms = sum_list (map (\<lambda>(k, c). g c) ms)"

fun task_processed :: "metric_task \<Rightarrow> u64" where
  "task_processed (TProcessed k) = 1"
| "task_processed _ = 0"

fun task_dropped :: "metric_task \<Rightarrow> u64" where
  "task_dropped (TDropped k n) = n"
| "task_dropped _ = 0"

text \<open>Every count is in the components or in a task that has not run.\<close>

definition metrics_ok :: "ReliabilityMetrics \<Rightarrow> bool" where
  "metrics_ok m \<longleftrightarrow>
     mx_total_processed m =
       comp_sum cm_events_processed (mx_metrics m) + sum_list (map task_processed (mx_spawned m))
     \<and> mx_total_dropped m =
       comp_sum cm_events_dropped (mx_metrics m) + sum_list (map task_dropped (mx_spawned m))"

datatype metric_event = MProcessed string | MDropped string u64 | MError string | MRun int nat

fun metric_step :: "ReliabilityMetrics \<Rightarrow> metric_event \<Rightarrow> ReliabilityMetrics" where
  "metric_step m (MProcessed k) = record_processed k m"
| "metric_step m (MDropped k n) = record_dropped k n m"
| "metric_step m (MError k) = mx_record_error k m"
| "metric_step m (MRun now i) = run_spawned now i m"

lemma comp_sum_update:
  "comp_sum g (AList.update k c ms) =
     comp_sum g ms + g c - (case map_of ms k of None \<Rightarrow> 0 | Some v \<Rightarrow> g v)"
  by (induction ms) (auto simp: comp_sum_def split: option.splits)

lemma comp_sum_run_task:
  "comp_sum cm_events_processed (run_task now t ms) = comp_sum cm_events_processed ms + task_processed t"
  "comp_sum cm_events_dropped (run_task now t ms) = comp_sum cm_events_dropped ms + task_dropped t"
  by (cases t; simp add: alist_modify_def comp_sum_update ComponentMetrics_default_def
      split: option.splits)+

lemma sum_list_remove_nth:
  "i < length xs \<Longrightarrow>
   sum_list (map g xs) = g (xs ! i) + sum_list (map g (take i xs @ drop (Suc i) xs))"
  for g :: "'b \<Rightarrow> 'a::comm_monoid_add"
proof -
  assume "i < length xs"
  then have "xs = take i xs @ xs ! i # drop (Suc i) xs" by (rule id_take_nth_drop)
  then have "sum_list (map g xs) = sum_list (map g (take i xs @ xs ! i # drop (Suc i) xs))" by simp
  then show ?thesis by (simp add: ac_simps)
qed

interpretation metrics: event_machine metric_step metrics_ok
proof
  fix m e
  assume ok: "metrics_ok m"
  show "metrics_ok (metric_step m e)"
  proof (cases e)
    case (MRun now i)
    with ok sum_list_remove_nth[of i "mx_spawned m" task_processed]
      sum_list_remove_nth[of i "mx_spawned m" task_dropped]
    show ?thesis by (simp add: run_spawned_def metrics_ok_def comp_sum_run_task ac_simps)
  qed (use ok in \<open>simp_all add: metrics_ok_def record_processed_def record_dropped_def
        mx_record_error_def spawn_task_def\<close>)
qed

lemma metrics_ok_new [simp]: "metrics_ok (ReliabilityMetrics_new now)"
  by (simp add: metrics_ok_def ReliabilityMetrics_new_def comp_sum_def)

section \<open>Drop rate\<close>

lemma fl_bound_pow64: "fl_bound F64 (2 ^ 64)"
proof -
  have "representable F64 (2 ^ 64)"
    unfolding representable_def
    by (rule exI[of _ 1], rule exI[of _ 64]) (simp add: F64_def powi2_nat)
  moreover have "(2 :: rat) powi 64 < 2 powi 1024" by (rule power_int_strict_increasing) auto
  moreover have "(2 :: rat) powi 64 = 2 ^ 64" by (simp add: powi2_nat)
  ultimately show ?thesis by (simp add: fl_bound_def F64_def)
qed

lemma ratio_in:
  assumes "d \<le> n" "0 < n" "n \<le> 2 ^ 64"
  shows "fl_in 0 1 (fdiv F64 (fl_nat F64 d) (fl_nat F64 n))"
proof -
  have "(of_nat n :: rat) \<le> of_nat (2 ^ 64)" using assms(3) by (simp only: of_nat_le_iff)
  then have n: "(of_nat n :: rat) \<le> 2 ^ 64" by simp
  have fn: "fl_in 1 (2 ^ 64) (fl_nat F64 n)"
    unfolding fl_nat_def using assms(2) n by (intro fl_of_in fl_bound_pow64) auto
  have dn: "(of_nat d :: rat) \<le> of_nat n" using assms(1) by simp
  have fd: "fl_in 0 (2 ^ 64) (fl_nat F64 d)"
    unfolding fl_nat_def using dn n by (intro fl_of_in fl_bound_pow64) auto
  have le: "fl_le (fl_nat F64 d) (fl_nat F64 n)"
    unfolding fl_nat_def using dn by (intro fl_of_mono) auto
  show ?thesis using fn fd le
    by (cases "fl_nat F64 d"; cases "fl_nat F64 n") (auto intro!: fl_of_in)
qed

lemma drop_rate_in:
  assumes "unat (mx_total_processed m) + unat (mx_total_dropped m) < 2 ^ 64"
  shows "fl_in 0 1 (drop_rate m)"
proof -
  let ?s = "mx_total_processed m + mx_total_dropped m"
  have s: "unat ?s = unat (mx_total_processed m) + unat (mx_total_dropped m)"
    using assms by (simp add: unat_word_ariths)
  show ?thesis
  proof (cases "?s = 0")
    case False
    then have "0 < unat ?s" by (simp add: unat_gt_0)
    moreover have "unat (mx_total_dropped m) \<le> unat ?s" "unat ?s \<le> 2 ^ 64" using s assms by simp_all
    ultimately show ?thesis using False by (simp add: drop_rate_def Let_def ratio_in)
  qed (simp add: drop_rate_def)
qed

section \<open>Hysteresis\<close>

definition backpressure_run :: "BackpressureController \<Rightarrow> nat list \<Rightarrow> BackpressureController" where
  "backpressure_run b qs = foldl (\<lambda>b q. snd (check_backpressure q b)) b qs"

text \<open>The last reading at or beyond a water mark decides.\<close>

definition last_crossing_high :: "ReliabilityConfig \<Rightarrow> nat list \<Rightarrow> bool" where
  "last_crossing_high cfg qs =
     (case find (\<lambda>q. channel_high_water cfg \<le> q \<or> q \<le> channel_low_water cfg) (rev qs) of
        Some q \<Rightarrow> channel_high_water cfg \<le> q | None \<Rightarrow> False)"

lemma check_backpressure_config [simp]: "bp_config (snd (check_backpressure q b)) = bp_config b"
  by (simp add: check_backpressure_def Let_def)

lemma run_config [simp]: "bp_config (backpressure_run b qs) = bp_config b"
  unfolding backpressure_run_def by (induction qs arbitrary: b) auto

lemma backpressure_run_eq:
  "channel_low_water cfg < channel_high_water cfg \<Longrightarrow>
   bp_in_backpressure (backpressure_run (BackpressureController_new cfg) qs)
     = last_crossing_high cfg qs"
proof (induction qs rule: rev_induct)
  case Nil
  then show ?case
    by (simp add: backpressure_run_def BackpressureController_new_def last_crossing_high_def)
next
  case (snoc q qs)
  let ?b = "backpressure_run (BackpressureController_new cfg) qs"
  have b: "bp_config ?b = cfg" by (simp add: BackpressureController_new_def)
  have "backpressure_run (BackpressureController_new cfg) (qs @ [q]) = snd (check_backpressure q ?b)"
    by (simp add: backpressure_run_def)
  then show ?case using snoc b
    by (auto simp: check_backpressure_def Let_def last_crossing_high_def split: option.splits)
qed

lemma unat_ucast_64: "unat (ucast (a :: u32) :: u64) = unat a"
  using unsigned_less[where 'a = nat, of a] by (simp add: unsigned_ucast_eq take_bit_nat_eq_self)

lemma ucast_le_iff: "(ucast (a :: u32) :: u64) \<le> b \<longleftrightarrow> unat a \<le> unat b"
  by (simp add: word_le_nat_alt unat_ucast_64)

section \<open>Breaker runs\<close>

datatype breaker_event = BProceed int | BSuccess | BFailure int

fun breaker_step :: "CircuitBreaker \<Rightarrow> breaker_event \<Rightarrow> CircuitBreaker" where
  "breaker_step b (BProceed now) = snd (should_proceed now b)"
| "breaker_step b BSuccess = record_success b"
| "breaker_step b (BFailure now) = record_failure now b"

definition breaker_ok :: "CircuitBreaker \<Rightarrow> bool" where
  "breaker_ok b \<longleftrightarrow> (cb_state b \<noteq> Closed \<longrightarrow> cb_last_failure b \<noteq> None)"

interpretation breaker: event_machine breaker_step breaker_ok
proof
  fix b e
  assume "breaker_ok b"
  then show "breaker_ok (breaker_step b e)"
    by (cases e) (auto simp: breaker_ok_def should_proceed_def record_success_def
        record_failure_def Let_def split: CircuitState.splits option.splits)
qed

lemma breaker_ok_new [simp]: "breaker_ok (CircuitBreaker_new cfg)"
  by (simp add: breaker_ok_def CircuitBreaker_new_def)

lemma breaker_config [simp]: "cb_config (breaker_step b e) = cb_config b"
  by (cases e) (auto simp: should_proceed_def record_success_def record_failure_def Let_def
      split: CircuitState.splits option.splits)

lemma breaker_run_config [simp]: "cb_config (foldl breaker_step b es) = cb_config b"
  by (induction es arbitrary: b) auto

lemma rejects_iff:
  "breaker_ok b \<Longrightarrow>
   \<not> fst (should_proceed now b) \<longleftrightarrow>
     cb_state b = Open \<and>
     elapsed_secs now (the (cb_last_failure b)) < uint (circuit_breaker_recovery_secs (cb_config b))"
  by (auto simp: should_proceed_def breaker_ok_def split: CircuitState.splits if_splits)

fun is_failure :: "breaker_event \<Rightarrow> bool" where
  "is_failure (BFailure now) = True"
| "is_failure _ = False"

definition failures :: "breaker_event list \<Rightarrow> nat" where
  "failures es = length (filter is_failure es)"

text \<open>A closed breaker below its threshold counts every failure, whatever succeeds in between.\<close>

lemma closed_run:
  assumes "cb_state b = Closed"
    and "unat (cb_failure_count b) + failures es < unat (circuit_breaker_threshold (cb_config b))"
  shows "cb_state (foldl breaker_step b es) = Closed \<and>
    unat (cb_failure_count (foldl breaker_step b es)) = unat (cb_failure_count b) + failures es"
  using assms
proof (induction es arbitrary: b)
  case (Cons e es)
  have th: "unat (circuit_breaker_threshold (cb_config b)) < 2 ^ 32" using unsigned_less[where 'a = nat, of "circuit_breaker_threshold (cb_config b)"] by simp
  show ?case
  proof (cases e)
    case (BFailure now)
    let ?b = "breaker_step b e"
    have "unat (cb_failure_count b) + 1 < 2 ^ 32" using Cons.prems BFailure th by (simp add: failures_def)
    then have n: "unat (cb_failure_count b + 1) = unat (cb_failure_count b) + 1"
      by (simp add: unat_word_ariths)
    have "\<not> ucast (circuit_breaker_threshold (cb_config b)) \<le> cb_failure_count b + 1"
      using Cons.prems BFailure n
      by (simp add: failures_def ucast_le_iff)
    then have "?b = b\<lparr>cb_failure_count := cb_failure_count b + 1, cb_last_failure := Some now\<rparr>"
      using BFailure by (simp add: record_failure_def Let_def)
    then show ?thesis using Cons.IH[of ?b] Cons.prems n BFailure by (simp add: failures_def)
  qed (use Cons.IH[of b] Cons.prems in
      \<open>simp_all add: should_proceed_def record_success_def failures_def\<close>)
qed (simp add: failures_def)

lemma opening_failure:
  assumes "cb_state b = Closed"
    and "unat (cb_failure_count b) + failures es = unat (circuit_breaker_threshold (cb_config b)) - 1"
    and "0 < circuit_breaker_threshold (cb_config b)"
  shows "cb_state (foldl breaker_step b (es @ [BFailure now])) = Open"
proof -
  let ?c = "foldl breaker_step b es"
  let ?th = "unat (circuit_breaker_threshold (cb_config b))"
  have pos: "0 < ?th" using assms(3) by (simp add: unat_gt_0 word_gt_0)
  have "cb_state ?c = Closed" and n: "unat (cb_failure_count ?c) = ?th - 1"
    using closed_run[OF assms(1), of es] assms(2) pos by auto
  have th: "?th < 2 ^ 32" using unsigned_less[where 'a = nat, of "circuit_breaker_threshold (cb_config b)"] by simp
  have "unat (cb_failure_count ?c + 1) = ?th" using n pos th by (simp add: unat_word_ariths)
  then show ?thesis
    by (simp add: record_failure_def Let_def ucast_le_iff)
qed

section \<open>Watchdog runs\<close>

datatype watchdog_event = WBeat int | WError

fun watchdog_step :: "Watchdog \<Rightarrow> watchdog_event \<Rightarrow> Watchdog" where
  "watchdog_step w (WBeat now) = heartbeat now w"
| "watchdog_step w WError = wd_record_error w"

fun last_beat :: "int \<Rightarrow> watchdog_event list \<Rightarrow> int" where
  "last_beat t [] = t"
| "last_beat t (WBeat now # es) = last_beat now es"
| "last_beat t (WError # es) = last_beat t es"

fun errors_since :: "nat \<Rightarrow> watchdog_event list \<Rightarrow> nat" where
  "errors_since n [] = n"
| "errors_since n (WBeat now # es) = errors_since 0 es"
| "errors_since n (WError # es) = errors_since (Suc n) es"

lemma watchdog_run:
  "wd_last_heartbeat (foldl watchdog_step w es) = last_beat (wd_last_heartbeat w) es \<and>
   wd_consecutive_errors (foldl watchdog_step w es)
     = of_nat (errors_since (unat (wd_consecutive_errors w)) es) \<and>
   wd_config (foldl watchdog_step w es) = wd_config w"
proof (induction es arbitrary: w)
  case (Cons e es)
  have eq: "of_nat (errors_since m es) = (of_nat (errors_since n es) :: u64)"
    if "of_nat m = (of_nat n :: u64)" for m n
    using that by (induction es arbitrary: m n rule: last_beat.induct[of _ 0]) auto
  have "of_nat (unat (wd_consecutive_errors w + 1)) = (of_nat (Suc (unat (wd_consecutive_errors w))) :: u64)"
    by simp
  from eq[OF this] Cons show ?case
    by (cases e) (simp_all add: heartbeat_def wd_record_error_def)
qed simp

lemma errors_since_le: "errors_since n es \<le> n + length es"
  by (induction n es rule: errors_since.induct) auto

lemma healthy_run:
  assumes "length es < 2 ^ 64"
  shows "is_healthy now (foldl watchdog_step (Watchdog_new t0 cfg) es) \<longleftrightarrow>
    elapsed_secs now (last_beat t0 es) \<le> uint (watchdog_timeout_secs cfg)
    \<and> errors_since 0 es < unat (max_consecutive_errors cfg)"
proof -
  let ?w = "foldl watchdog_step (Watchdog_new t0 cfg) es"
  have w: "wd_last_heartbeat ?w = last_beat t0 es" "wd_config ?w = cfg"
    "wd_consecutive_errors ?w = of_nat (errors_since 0 es)"
    using watchdog_run[of "Watchdog_new t0 cfg" es] by (auto simp: Watchdog_new_def)
  have "errors_since 0 es < 2 ^ 64" using errors_since_le[of 0 es] assms by simp
  then have "unat (wd_consecutive_errors ?w) = errors_since 0 es"
    by (simp add: w(3) unat_of_nat take_bit_nat_eq_self)
  then show ?thesis
    by (auto simp: is_healthy_def w(1,2) ucast_le_iff)
qed

lemma check_health_status:
  "hc_status (check_health now h) =
     (if list_all (\<lambda>(k, w). is_healthy now w) (hm_watchdogs h) then Healthy else Unhealthy)"
proof -
  have st: "ch_status (component_health now w) = (if is_healthy now w then Healthy else Unhealthy)" for w
    by (simp add: component_health_def Let_def)
  have u: "list_ex (\<lambda>(k, c). ch_status c = Unhealthy)
      (map (\<lambda>(name, w). (name, component_health now w)) ws)
      \<longleftrightarrow> \<not> list_all (\<lambda>(k, w). is_healthy now w) ws" for ws
    by (induction ws) (auto simp: st)
  have d: "\<not> list_ex (\<lambda>(k, c). ch_status c = Degraded)
      (map (\<lambda>(name, w). (name, component_health now w)) ws)" for ws
    by (induction ws) (auto simp: st split: if_splits)
  show ?thesis by (simp add: check_health_def Let_def u d)
qed

section \<open>Properties\<close>

text \<open>However calls and spawned tasks interleave, the totals equal the per-component counts plus
  what the tasks that have not run will add: no event is counted twice or lost.\<close>

theorem metrics_lose_nothing: "metrics_ok (foldl metric_step (ReliabilityMetrics_new now) es)"
  by (rule metrics.run_inv) simp

text \<open>As long as the number of events fits in 64 bits the drop rate is a number between 0 and 1.\<close>

theorem drop_rate_is_a_fraction:
  "unat (mx_total_processed m) + unat (mx_total_dropped m) < 2 ^ 64 \<Longrightarrow> fl_in 0 1 (drop_rate m)"
  by (rule drop_rate_in)

theorem drop_rate_is_a_fraction_witness:
  "fl_in 0 1 (drop_rate (foldl metric_step (ReliabilityMetrics_new 0)
     [MProcessed ''net'', MDropped ''net'' 3, MProcessed ''exec'']))"
  by (rule drop_rate_is_a_fraction)
    (simp add: ReliabilityMetrics_new_def record_processed_def record_dropped_def spawn_task_def)

text \<open>C36. With a low water mark below the high one, backpressure is on exactly when the last queue
  size at or beyond a mark was at or above the high one: sizes in between keep the state.\<close>

theorem backpressure_hysteresis:
  "channel_low_water cfg < channel_high_water cfg \<Longrightarrow>
   bp_in_backpressure (backpressure_run (BackpressureController_new cfg) qs)
     = last_crossing_high cfg qs"
  by (rule backpressure_run_eq)

theorem backpressure_hysteresis_witness:
  "bp_in_backpressure (backpressure_run
     (BackpressureController_new (ReliabilityConfig_default\<lparr>channel_high_water := 8, channel_low_water := 5\<rparr>))
     [3, 8, 6])"
  using backpressure_hysteresis[of "ReliabilityConfig_default\<lparr>channel_high_water := 8, channel_low_water := 5\<rparr>"
      "[3, 8, 6]"]
  by (simp add: last_crossing_high_def)

text \<open>The breaker opens at the failure that reaches the threshold and not before, counting
  from the start: successes in between do not reset the count.\<close>

theorem breaker_opens_at_threshold:
  assumes "Suc (failures es) = unat (circuit_breaker_threshold cfg)"
  shows "cb_state (foldl breaker_step (CircuitBreaker_new cfg) es) = Closed
    \<and> cb_state (foldl breaker_step (CircuitBreaker_new cfg) (es @ [BFailure now])) = Open"
proof -
  have "0 < unat (circuit_breaker_threshold cfg)" using assms by simp
  then have "0 < circuit_breaker_threshold cfg" by (simp add: unat_gt_0 word_gt_0)
  with assms closed_run[of "CircuitBreaker_new cfg" es] opening_failure[of "CircuitBreaker_new cfg" es now]
  show ?thesis by (simp add: CircuitBreaker_new_def)
qed

theorem breaker_opens_at_threshold_witness:
  "cb_state (foldl breaker_step
     (CircuitBreaker_new (ReliabilityConfig_default\<lparr>circuit_breaker_threshold := 3\<rparr>))
     ([BFailure 1, BSuccess, BProceed 2, BSuccess, BFailure 3] @ [BFailure 4])) = Open"
  using breaker_opens_at_threshold[of "[BFailure 1, BSuccess, BProceed 2, BSuccess, BFailure 3]"
      "ReliabilityConfig_default\<lparr>circuit_breaker_threshold := 3\<rparr>" 4]
  by (simp add: failures_def)

text \<open>In every reachable state a call is rejected exactly when the breaker is open and the last
  failure is less than the recovery time ago.\<close>

theorem breaker_rejects_iff:
  "\<not> fst (should_proceed now (foldl breaker_step (CircuitBreaker_new cfg) es)) \<longleftrightarrow>
     cb_state (foldl breaker_step (CircuitBreaker_new cfg) es) = Open
     \<and> elapsed_secs now (the (cb_last_failure (foldl breaker_step (CircuitBreaker_new cfg) es)))
         < uint (circuit_breaker_recovery_secs cfg)"
  using rejects_iff[OF breaker.run_inv[OF breaker_ok_new], of now cfg es]
  by (simp add: CircuitBreaker_new_def)

text \<open>After a run of heartbeats and errors the watchdog is healthy exactly when the last
  heartbeat is within the timeout and fewer errors than the limit came after it.\<close>

theorem watchdog_health:
  "length es < 2 ^ 64 \<Longrightarrow>
   is_healthy now (foldl watchdog_step (Watchdog_new t0 cfg) es) \<longleftrightarrow>
    elapsed_secs now (last_beat t0 es) \<le> uint (watchdog_timeout_secs cfg)
    \<and> errors_since 0 es < unat (max_consecutive_errors cfg)"
  by (rule healthy_run)

theorem watchdog_health_witness:
  "is_healthy 70000000000 (foldl watchdog_step
     (Watchdog_new 0 (ReliabilityConfig_default\<lparr>watchdog_timeout_secs := 60, max_consecutive_errors := 2\<rparr>))
     [WError, WError, WBeat 10000000000, WError])"
  using watchdog_health[of "[WError, WError, WBeat 10000000000, WError]" 70000000000 0
      "ReliabilityConfig_default\<lparr>watchdog_timeout_secs := 60, max_consecutive_errors := 2\<rparr>"]
  by (simp add: elapsed_secs_def)

text \<open>The health report is Healthy when every registered watchdog is and Unhealthy otherwise;
  it is never Degraded.\<close>

theorem health_report_status:
  "hc_status (check_health now h) =
     (if list_all (\<lambda>(k, w). is_healthy now w) (hm_watchdogs h) then Healthy else Unhealthy)"
  by (rule check_health_status)

end
