(* ===== verification/State_Store.thy ===== *)
theory State_Store
  imports Common
begin

text \<open>
  \<open>state.rs\<close>: the runtime state of each workload (keyed by cgroup id) that exec, file and
  network events build up, with its capacity limits, and the finding store behind the REST
  API.
\<close>

section \<open>Workload state\<close>

definition MAX_SIGNALS :: nat where "MAX_SIGNALS = 1000"
definition MAX_SET_ENTRIES :: nat where "MAX_SET_ENTRIES = 5000"
definition MAX_DATA_BYTES :: u64 where "MAX_DATA_BYTES = 1099511627776"

datatype SignalType =
    LibraryLoaded | LargeDataTransfer | MaliciousIP | SensitiveFileAccess | MprotectExec
  | SuspiciousExec

record RuntimeSignal =
  sg_signal_type :: SignalType
  sg_weight :: f32
  sg_timestamp_ns :: u64
  sg_details :: string

record WorkloadState =
  ws_observed_paths :: "string list"
  ws_observed_syscalls :: "string list"
  ws_commands :: "string list"
  ws_network_flows :: "string list"
  ws_loaded_libraries :: "string list"
  ws_signals :: "RuntimeSignal list"
  ws_data_transferred_bytes :: u64

definition WorkloadState_default :: WorkloadState where
  "WorkloadState_default =
     \<lparr>ws_observed_paths = [], ws_observed_syscalls = [], ws_commands = [],
      ws_network_flows = [], ws_loaded_libraries = [], ws_signals = [],
      ws_data_transferred_bytes = 0\<rparr>"

definition signal_weight :: "WorkloadState \<Rightarrow> f32" where
  "signal_weight w = fsum F32 (map sg_weight (ws_signals w))"

definition risk_boosting_signals :: "WorkloadState \<Rightarrow> RuntimeSignal list" where
  "risk_boosting_signals w = filter (\<lambda>s. fl_gt (sg_weight s) (Fin 1)) (ws_signals w)"

definition library_load_count :: "WorkloadState \<Rightarrow> nat" where
  "library_load_count w = length (ws_loaded_libraries w)"

definition push_signal_list :: "RuntimeSignal \<Rightarrow> RuntimeSignal list \<Rightarrow> RuntimeSignal list" where
  "push_signal_list sg xs = (if MAX_SIGNALS \<le> length xs then tl xs else xs) @ [sg]"

definition push_signal :: "RuntimeSignal \<Rightarrow> WorkloadState \<Rightarrow> WorkloadState" where
  "push_signal sg w = w\<lparr>ws_signals := push_signal_list sg (ws_signals w)\<rparr>"

definition capped_insert :: "string \<Rightarrow> string list \<Rightarrow> string list" where
  "capped_insert v xs =
     (if MAX_SET_ENTRIES \<le> length xs \<and> v \<notin> set xs then xs else bset_insert v xs)"

interpretation sig: bounded_history MAX_SIGNALS push_signal_list
proof
  fix xs :: "RuntimeSignal list" and x
  assume "length xs \<le> MAX_SIGNALS"
  then show "push_signal_list x xs = lastn MAX_SIGNALS (xs @ [x])"
    by (cases "length xs = MAX_SIGNALS")
      (auto simp: push_signal_list_def lastn_Suc_tl lastn_short MAX_SIGNALS_def)
qed

text \<open>What a full set does: known values stay, new ones are skipped.\<close>

lemma set_capped_insert:
  "set (capped_insert v xs) =
     (if MAX_SET_ENTRIES \<le> length xs \<and> v \<notin> set xs then set xs else insert v (set xs))"
  by (simp add: capped_insert_def set_insort_insert)

lemma capped_insert_keeps: "set xs \<subseteq> set (capped_insert v xs)"
  by (auto simp: set_capped_insert)

lemma bset_ok_capped [simp]: "bset_ok xs \<Longrightarrow> bset_ok (capped_insert v xs)"
  by (simp add: capped_insert_def)

lemma length_capped [simp]:
  "length xs \<le> MAX_SET_ENTRIES \<Longrightarrow> length (capped_insert v xs) \<le> MAX_SET_ENTRIES"
  by (auto simp: capped_insert_def length_bset_insert)

section \<open>Predicates on paths and commands\<close>

definition st_is_shared_library :: "string \<Rightarrow> bool" where
  "st_is_shared_library path \<longleftrightarrow> ends_with path ''.so'' \<or> contains path ''.so.''"

definition sensitive_prefixes :: "string list" where
  "sensitive_prefixes =
     [''/etc/passwd'', ''/etc/shadow'', ''/etc/ssh'', ''/.dockerenv'', ''/.kube'',
      ''/var/run/secrets'']"

definition st_is_sensitive_path :: "string \<Rightarrow> bool" where
  "st_is_sensitive_path path \<longleftrightarrow> list_ex (\<lambda>p. starts_with path p) sensitive_prefixes"

definition is_suspicious_command :: "string \<Rightarrow> bool" where
  "is_suspicious_command cmd \<longleftrightarrow>
     list_ex (\<lambda>s. contains cmd s)
       [''nc'', ''ncat'', ''bash -i'', ''python'', ''perl'', ''ruby'']"

section \<open>The state store\<close>

record StateStore =
  by_cgroup :: "u64 \<Rightarrow> WorkloadState option"

definition StateStore_default :: StateStore where
  "StateStore_default = \<lparr>by_cgroup = Map.empty\<rparr>"

definition entry_or_default :: "StateStore \<Rightarrow> u64 \<Rightarrow> WorkloadState" where
  "entry_or_default st c =
     (case by_cgroup st c of None \<Rightarrow> WorkloadState_default | Some w \<Rightarrow> w)"

definition set_entry :: "u64 \<Rightarrow> WorkloadState \<Rightarrow> StateStore \<Rightarrow> StateStore" where
  "set_entry c w st = st\<lparr>by_cgroup := (by_cgroup st)(c \<mapsto> w)\<rparr>"

text \<open>Capped insertion into each of the sets, and the saturating byte counter.\<close>

definition saturating_add :: "'a::len word \<Rightarrow> 'a word \<Rightarrow> 'a word" where
  "saturating_add a b = (if uint a + uint b < 2 ^ LENGTH('a) then a + b else - 1)"

definition add_path :: "string \<Rightarrow> WorkloadState \<Rightarrow> WorkloadState" where
  "add_path v w = w\<lparr>ws_observed_paths := capped_insert v (ws_observed_paths w)\<rparr>"

definition add_syscall :: "string \<Rightarrow> WorkloadState \<Rightarrow> WorkloadState" where
  "add_syscall v w = w\<lparr>ws_observed_syscalls := capped_insert v (ws_observed_syscalls w)\<rparr>"

definition add_command :: "string \<Rightarrow> WorkloadState \<Rightarrow> WorkloadState" where
  "add_command v w = w\<lparr>ws_commands := capped_insert v (ws_commands w)\<rparr>"

definition add_flow :: "string \<Rightarrow> WorkloadState \<Rightarrow> WorkloadState" where
  "add_flow v w = w\<lparr>ws_network_flows := capped_insert v (ws_network_flows w)\<rparr>"

definition add_library :: "string \<Rightarrow> WorkloadState \<Rightarrow> WorkloadState" where
  "add_library v w = w\<lparr>ws_loaded_libraries := capped_insert v (ws_loaded_libraries w)\<rparr>"

definition add_bytes :: "u32 \<Rightarrow> WorkloadState \<Rightarrow> WorkloadState" where
  "add_bytes n w = w\<lparr>ws_data_transferred_bytes :=
     min (saturating_add (ws_data_transferred_bytes w) (ucast n)) MAX_DATA_BYTES\<rparr>"

definition exec_update :: "ExecEvent \<Rightarrow> WorkloadState \<Rightarrow> WorkloadState" where
  "exec_update ev w =
     (let cmd = c_string (ex_command ev);
          w = add_syscall ''execve'' (add_command cmd w)
      in if is_suspicious_command cmd
         then push_signal \<lparr>sg_signal_type = SuspiciousExec, sg_weight = lit32 (3/2),
                sg_timestamp_ns = ex_timestamp_ns ev,
                sg_details = ''Suspicious command: '' @ cmd\<rparr> w
         else w)"

definition apply_exec :: "ExecEvent \<Rightarrow> StateStore \<Rightarrow> StateStore" where
  "apply_exec ev st =
     set_entry (ex_cgroup_id ev) (exec_update ev (entry_or_default st (ex_cgroup_id ev))) st"

definition file_syscall :: "EventKind \<Rightarrow> string" where
  "file_syscall k =
     (case k of KMmap \<Rightarrow> ''mmap'' | KOpen \<Rightarrow> ''openat'' | KMprotect \<Rightarrow> ''mprotect''
      | _ \<Rightarrow> ''unknown'')"

definition file_library_part :: "FileEvent \<Rightarrow> string \<Rightarrow> WorkloadState \<Rightarrow> WorkloadState" where
  "file_library_part ev path w =
     (if fe_kind ev = KMmap \<and> st_is_shared_library path
      then push_signal \<lparr>sg_signal_type = LibraryLoaded, sg_weight = lit32 2,
             sg_timestamp_ns = fe_timestamp_ns ev, sg_details = ''Library loaded: '' @ path\<rparr>
             (add_library path w)
      else w)"

definition file_update :: "FileEvent \<Rightarrow> WorkloadState \<Rightarrow> WorkloadState" where
  "file_update ev w =
     (let path = c_string (fe_path ev);
          w = add_syscall (file_syscall (fe_kind ev)) (add_path path w);
          w = file_library_part ev path w;
          w = (if st_is_sensitive_path path
               then push_signal \<lparr>sg_signal_type = SensitiveFileAccess, sg_weight = lit32 1,
                      sg_timestamp_ns = fe_timestamp_ns ev,
                      sg_details = ''Sensitive file: '' @ path\<rparr> w
               else w)
      in if fe_kind ev = KMprotect
         then push_signal \<lparr>sg_signal_type = MprotectExec, sg_weight = lit32 (3/2),
                sg_timestamp_ns = fe_timestamp_ns ev,
                sg_details = ''Memory protection changed''\<rparr> w
         else w)"

definition apply_file :: "FileEvent \<Rightarrow> StateStore \<Rightarrow> StateStore" where
  "apply_file ev st =
     set_entry (fe_cgroup_id ev) (file_update ev (entry_or_default st (fe_cgroup_id ev))) st"

definition net_syscall :: "EventKind \<Rightarrow> string" where
  "net_syscall k =
     (case k of KConnect \<Rightarrow> ''connect'' | KBind \<Rightarrow> ''bind'' | KTcpSend \<Rightarrow> ''tcp_sendmsg''
      | KTcpRecv \<Rightarrow> ''tcp_recvmsg'' | KUdpSend \<Rightarrow> ''udp_sendmsg''
      | KUdpRecv \<Rightarrow> ''udp_recvmsg'' | _ \<Rightarrow> ''unknown'')"

definition net_update :: "NetEvent \<Rightarrow> WorkloadState \<Rightarrow> WorkloadState" where
  "net_update ev w =
     (let flow = dec_w (ne_saddr ev) @ '':'' @ dec_w (ne_sport ev) @ ''->''
                 @ dec_w (ne_daddr ev) @ '':'' @ dec_w (ne_dport ev);
          w = add_bytes (ne_data_size ev)
                (add_syscall (net_syscall (ne_kind ev)) (add_flow flow w))
      in if 1024 < ne_data_size ev
         then push_signal \<lparr>sg_signal_type = LargeDataTransfer, sg_weight = lit32 (3/2),
                sg_timestamp_ns = ne_timestamp_ns ev,
                sg_details = ''Large transfer: '' @ dec_w (ne_data_size ev) @ '' bytes to ''
                             @ dec_w (ne_daddr ev) @ '':'' @ dec_w (ne_dport ev)\<rparr> w
         else w)"

definition apply_net :: "NetEvent \<Rightarrow> StateStore \<Rightarrow> StateStore" where
  "apply_net ev st =
     set_entry (ne_cgroup_id ev) (net_update ev (entry_or_default st (ne_cgroup_id ev))) st"

definition st_workload :: "StateStore \<Rightarrow> u64 \<Rightarrow> WorkloadState option" where
  "st_workload st c = by_cgroup st c"

definition st_workloads :: "StateStore \<Rightarrow> u64 \<Rightarrow> WorkloadState option" where
  "st_workloads st = by_cgroup st"

definition st_snapshot :: "StateStore \<Rightarrow> u64 \<Rightarrow> WorkloadState option" where
  "st_snapshot st = by_cgroup st"

definition st_clear :: "StateStore \<Rightarrow> StateStore" where
  "st_clear st = st\<lparr>by_cgroup := Map.empty\<rparr>"

section \<open>Invariant\<close>

definition ws_sets :: "WorkloadState \<Rightarrow> string list list" where
  "ws_sets w = [ws_observed_paths w, ws_observed_syscalls w, ws_commands w,
     ws_network_flows w, ws_loaded_libraries w]"

definition ws_ok :: "WorkloadState \<Rightarrow> bool" where
  "ws_ok w \<longleftrightarrow>
     (\<forall>xs \<in> set (ws_sets w). bset_ok xs \<and> length xs \<le> MAX_SET_ENTRIES)
     \<and> length (ws_signals w) \<le> MAX_SIGNALS
     \<and> ws_data_transferred_bytes w \<le> MAX_DATA_BYTES"

definition store_ok :: "StateStore \<Rightarrow> bool" where
  "store_ok st \<longleftrightarrow> (\<forall>c w. by_cgroup st c = Some w \<longrightarrow> ws_ok w)"

datatype store_event = SExec ExecEvent | SFile FileEvent | SNet NetEvent

fun store_step :: "StateStore \<Rightarrow> store_event \<Rightarrow> StateStore" where
  "store_step st (SExec ev) = apply_exec ev st"
| "store_step st (SFile ev) = apply_file ev st"
| "store_step st (SNet ev) = apply_net ev st"

fun event_cgroup :: "store_event \<Rightarrow> u64" where
  "event_cgroup (SExec ev) = ex_cgroup_id ev"
| "event_cgroup (SFile ev) = fe_cgroup_id ev"
| "event_cgroup (SNet ev) = ne_cgroup_id ev"

fun event_update :: "store_event \<Rightarrow> WorkloadState \<Rightarrow> WorkloadState" where
  "event_update (SExec ev) = exec_update ev"
| "event_update (SFile ev) = file_update ev"
| "event_update (SNet ev) = net_update ev"

lemma store_step_eq:
  "store_step st e =
     set_entry (event_cgroup e) (event_update e (entry_or_default st (event_cgroup e))) st"
  by (cases e) (simp_all add: apply_exec_def apply_file_def apply_net_def)

lemma ws_ok_default [simp]: "ws_ok WorkloadState_default"
  by (simp add: ws_ok_def ws_sets_def WorkloadState_default_def)

lemma ws_ok_push [simp]: "ws_ok w \<Longrightarrow> ws_ok (push_signal sg w)"
  using sig.length_push_le[of "ws_signals w" sg]
  by (simp add: ws_ok_def ws_sets_def push_signal_def)

lemmas ws_setters = add_path_def add_syscall_def add_command_def add_flow_def
  add_library_def add_bytes_def push_signal_def

lemma ws_ok_setters [simp]:
  assumes "ws_ok w"
  shows "ws_ok (add_path v w)" "ws_ok (add_syscall v w)" "ws_ok (add_command v w)"
    "ws_ok (add_flow v w)" "ws_ok (add_library v w)" "ws_ok (add_bytes n w)"
  using assms by (simp_all add: ws_ok_def ws_sets_def ws_setters)

lemma ws_ok_exec: "ws_ok w \<Longrightarrow> ws_ok (exec_update ev w)"
  by (simp add: exec_update_def Let_def)

lemma ws_ok_file: "ws_ok w \<Longrightarrow> ws_ok (file_update ev w)"
  by (simp add: file_update_def file_library_part_def Let_def)

lemma ws_ok_net: "ws_ok w \<Longrightarrow> ws_ok (net_update ev w)"
  by (simp add: net_update_def Let_def)

lemma ws_ok_update: "ws_ok w \<Longrightarrow> ws_ok (event_update e w)"
  by (cases e) (simp_all add: ws_ok_exec ws_ok_file ws_ok_net)

lemma store_ok_entry: "store_ok st \<Longrightarrow> ws_ok (entry_or_default st c)"
  by (auto simp: store_ok_def entry_or_default_def split: option.split)

lemma store_ok_default [simp]: "store_ok StateStore_default"
  by (simp add: store_ok_def StateStore_default_def)

interpretation store: event_machine store_step store_ok
proof
  fix st e
  assume "store_ok st"
  then show "store_ok (store_step st e)"
    using ws_ok_update[OF store_ok_entry]
    by (auto simp: store_step_eq store_ok_def set_entry_def)
qed

section \<open>What a run of events leaves behind\<close>

definition data_of :: "StateStore \<Rightarrow> u64 \<Rightarrow> nat" where
  "data_of st c = unat (ws_data_transferred_bytes (entry_or_default st c))"

definition event_bytes :: "u64 \<Rightarrow> store_event \<Rightarrow> nat" where
  "event_bytes c e =
     (case e of SNet ev \<Rightarrow> if ne_cgroup_id ev = c then unat (ne_data_size ev) else 0 | _ \<Rightarrow> 0)"

lemma entry_set_entry [simp]:
  "entry_or_default (set_entry c w st) d = (if d = c then w else entry_or_default st d)"
  by (simp add: entry_or_default_def set_entry_def)

lemma by_cgroup_set_entry [simp]:
  "by_cgroup (set_entry c w st) d = (if d = c then Some w else by_cgroup st d)"
  by (simp add: set_entry_def)

lemma unat_saturating_add:
  "unat (saturating_add a (b :: 'a::len word)) = min (2 ^ LENGTH('a) - 1) (unat a + unat b)"
proof -
  have "uint a + uint b < 2 ^ LENGTH('a) \<longleftrightarrow> unat a + unat b < 2 ^ LENGTH('a)"
    using of_nat_less_iff[of "unat a + unat b" "2 ^ LENGTH('a)", where ?'a = int] by simp
  then show ?thesis
    by (auto simp: saturating_add_def unat_word_ariths unsigned_minus_1_eq_mask
        mask_eq_exp_minus_1)
qed

lemma data_setters [simp]:
  "ws_data_transferred_bytes (add_path v w) = ws_data_transferred_bytes w"
  "ws_data_transferred_bytes (add_syscall v w) = ws_data_transferred_bytes w"
  "ws_data_transferred_bytes (add_command v w) = ws_data_transferred_bytes w"
  "ws_data_transferred_bytes (add_flow v w) = ws_data_transferred_bytes w"
  "ws_data_transferred_bytes (add_library v w) = ws_data_transferred_bytes w"
  "ws_data_transferred_bytes (push_signal sg w) = ws_data_transferred_bytes w"
  by (simp_all add: ws_setters)

lemma unat_min_word: "unat (min a b) = min (unat a) (unat (b :: 'a::len word))"
  by (simp add: min_def word_le_nat_alt)

lemma data_add_bytes:
  "unat (ws_data_transferred_bytes (add_bytes n w)) =
     min (2 ^ 40) (unat (ws_data_transferred_bytes w) + unat n)"
proof -
  have "unat n < 2 ^ 64" using unsigned_less[of n, where ?'a = nat] by simp
  then have "unat (ucast n :: u64) = unat n"
    by (simp add: unsigned_ucast_eq take_bit_nat_eq_self)
  then show ?thesis
    by (simp add: add_bytes_def unat_min_word unat_saturating_add MAX_DATA_BYTES_def)
qed

lemma data_event_update:
  assumes "ws_data_transferred_bytes w \<le> MAX_DATA_BYTES"
  shows "unat (ws_data_transferred_bytes (event_update e w)) =
    min (2 ^ 40) (unat (ws_data_transferred_bytes w) + event_bytes (event_cgroup e) e)"
proof -
  have "unat (ws_data_transferred_bytes w) \<le> 2 ^ 40"
    using assms by (simp add: word_le_nat_alt MAX_DATA_BYTES_def)
  then show ?thesis
    by (cases e)
      (simp_all add: event_bytes_def exec_update_def file_update_def file_library_part_def
        net_update_def Let_def data_add_bytes)
qed

lemma data_of_step:
  assumes "store_ok st"
  shows "data_of (store_step st e) c = min (2 ^ 40) (data_of st c + event_bytes c e)"
proof (cases "c = event_cgroup e")
  case True
  have "ws_data_transferred_bytes (entry_or_default st c) \<le> MAX_DATA_BYTES"
    using store_ok_entry[OF assms] by (simp add: ws_ok_def)
  from data_event_update[OF this, of e] True show ?thesis
    by (simp add: data_of_def store_step_eq)
next
  case False
  then have "event_bytes c e = 0" by (cases e) (auto simp: event_bytes_def)
  moreover have "data_of st c \<le> 2 ^ 40"
    using store_ok_entry[OF assms, of c]
    by (simp add: data_of_def ws_ok_def word_le_nat_alt MAX_DATA_BYTES_def)
  ultimately show ?thesis using False by (simp add: data_of_def store_step_eq)
qed

interpretation grow: growing_machine store_step store_ok "\<lambda>st. data_of st c" for c
proof
  fix st e
  assume "store_ok st"
  then have "ws_ok (entry_or_default st c)" by (rule store_ok_entry)
  then have "data_of st c \<le> 2 ^ 40"
    by (simp add: data_of_def ws_ok_def word_le_nat_alt MAX_DATA_BYTES_def)
  with data_of_step[OF \<open>store_ok st\<close>, of e c] show "data_of st c \<le> data_of (store_step st e) c"
    by simp
qed

lemma data_of_run:
  "store_ok st \<Longrightarrow> data_of (foldl store_step st es) c =
     min (2 ^ 40) (data_of st c + sum_list (map (event_bytes c) es))"
proof (induction es arbitrary: st)
  case Nil
  then have "ws_ok (entry_or_default st c)" by (simp add: store_ok_entry)
  then show ?case by (simp add: data_of_def ws_ok_def word_le_nat_alt MAX_DATA_BYTES_def)
next
  case (Cons e es)
  then show ?case by (simp add: data_of_step store.step_inv min_add_distrib_left)
qed

text \<open>Recorded sets only grow.\<close>

lemma add_sets_mono:
  "list_all2 (\<lambda>xs ys. set xs \<subseteq> set ys) (ws_sets w) (ws_sets (add_path v w))"
  "list_all2 (\<lambda>xs ys. set xs \<subseteq> set ys) (ws_sets w) (ws_sets (add_syscall v w))"
  "list_all2 (\<lambda>xs ys. set xs \<subseteq> set ys) (ws_sets w) (ws_sets (add_command v w))"
  "list_all2 (\<lambda>xs ys. set xs \<subseteq> set ys) (ws_sets w) (ws_sets (add_flow v w))"
  "list_all2 (\<lambda>xs ys. set xs \<subseteq> set ys) (ws_sets w) (ws_sets (add_library v w))"
  "ws_sets (add_bytes n w) = ws_sets w" "ws_sets (push_signal sg w) = ws_sets w"
  by (simp_all add: ws_sets_def ws_setters capped_insert_keeps)

definition sets_grow :: "WorkloadState \<Rightarrow> WorkloadState \<Rightarrow> bool" where
  "sets_grow w w' \<longleftrightarrow> list_all2 (\<lambda>xs ys. set xs \<subseteq> set ys) (ws_sets w) (ws_sets w')"

lemma sets_grow_refl [simp]: "sets_grow w w"
  by (simp add: sets_grow_def list.rel_refl)

lemma sets_grow_trans: "sets_grow u v \<Longrightarrow> sets_grow v w \<Longrightarrow> sets_grow u w"
  unfolding sets_grow_def
  by (rule list_all2_trans[of "\<lambda>xs ys. set xs \<subseteq> set ys" "\<lambda>xs ys. set xs \<subseteq> set ys"]) auto

lemma sets_grow_setters [intro]:
  "sets_grow u w \<Longrightarrow> sets_grow u (add_path v w)"
  "sets_grow u w \<Longrightarrow> sets_grow u (add_syscall v w)"
  "sets_grow u w \<Longrightarrow> sets_grow u (add_command v w)"
  "sets_grow u w \<Longrightarrow> sets_grow u (add_flow v w)"
  "sets_grow u w \<Longrightarrow> sets_grow u (add_library v w)"
  "sets_grow u w \<Longrightarrow> sets_grow u (add_bytes n w)"
  "sets_grow u w \<Longrightarrow> sets_grow u (push_signal sg w)"
  by (erule sets_grow_trans, simp add: sets_grow_def add_sets_mono list.rel_refl)+

lemma sets_grow_update: "sets_grow w (event_update e w)"
proof -
  note st = if_split[of "sets_grow w", THEN iffD2] sets_grow_setters sets_grow_refl
  have "sets_grow w (exec_update ev w)" for ev
    unfolding exec_update_def Let_def by (intro st conjI impI)
  moreover have "sets_grow w (file_update ev w)" for ev
    unfolding file_update_def file_library_part_def Let_def by (intro st conjI impI)
  moreover have "sets_grow w (net_update ev w)" for ev
    unfolding net_update_def Let_def by (intro st conjI impI)
  ultimately show ?thesis by (cases e) auto
qed

lemma sets_grow_run:
  "sets_grow (entry_or_default st c) (entry_or_default (foldl store_step st es) c)"
proof (induction es arbitrary: st)
  case (Cons e es)
  have "sets_grow (entry_or_default st c) (entry_or_default (store_step st e) c)"
    by (simp add: store_step_eq sets_grow_update)
  with Cons show ?case by (auto intro: sets_grow_trans)
qed simp

lemma other_cgroup_run:
  "c \<notin> event_cgroup ` set es \<Longrightarrow> by_cgroup (foldl store_step st es) c = by_cgroup st c"
  by (induction es arbitrary: st) (auto simp: store_step_eq)

section \<open>Finding store\<close>

definition MAX_FINDINGS :: nat where "MAX_FINDINGS = 10000"

record FindingSummary =
  fs_id :: string
  fs_detected_at :: int
  fs_cve :: string
  fs_cvss :: f32
  fs_epss :: f32
  fs_kev :: bool
  fs_priority :: string
  fs_namespace :: string
  fs_workload :: string
  fs_pod_name :: string
  fs_score :: f32
  fs_recommendation :: string
  fs_acknowledged :: bool
  fs_acknowledged_at :: "int option"
  fs_acknowledged_by :: "string option"

definition FindingSummary_from :: "Finding \<Rightarrow> FindingSummary" where
  "FindingSummary_from f =
     \<lparr>fs_id = fd_id f, fs_detected_at = fd_detected_at f, fs_cve = rs_cve (fd_signal f),
      fs_cvss = rs_cvss (fd_signal f), fs_epss = rs_epss (fd_signal f),
      fs_kev = rs_kev (fd_signal f), fs_priority = Priority_debug (fd_priority f),
      fs_namespace = ri_namespace (fd_identity f), fs_workload = ri_workload (fd_identity f),
      fs_pod_name = ri_pod_name (fd_identity f), fs_score = fd_score f,
      fs_recommendation = fd_recommendation f, fs_acknowledged = False,
      fs_acknowledged_at = None, fs_acknowledged_by = None\<rparr>"

record FindingStats =
  st_total :: nat
  st_critical :: nat
  st_high :: nat
  st_medium :: nat
  st_low :: nat
  st_informational :: nat
  st_acknowledged :: nat

definition FindingStats_default :: FindingStats where
  "FindingStats_default =
     \<lparr>st_total = 0, st_critical = 0, st_high = 0, st_medium = 0, st_low = 0,
      st_informational = 0, st_acknowledged = 0\<rparr>"

record FindingStore =
  findings :: "FindingSummary list"

definition FindingStore_new :: FindingStore where
  "FindingStore_new = \<lparr>findings = []\<rparr>"

definition push_finding :: "FindingSummary \<Rightarrow> FindingSummary list \<Rightarrow> FindingSummary list" where
  "push_finding x xs = (if MAX_FINDINGS \<le> length xs then tl xs else xs) @ [x]"

definition fst_insert :: "Finding \<Rightarrow> FindingStore \<Rightarrow> FindingStore" where
  "fst_insert f s = s\<lparr>findings := push_finding (FindingSummary_from f) (findings s)\<rparr>"

definition fst_get_all :: "FindingStore \<Rightarrow> FindingSummary list" where
  "fst_get_all s = findings s"

definition fst_get :: "string \<Rightarrow> FindingStore \<Rightarrow> FindingSummary option" where
  "fst_get i s = find (\<lambda>f. fs_id f = i) (findings s)"

definition mark_acknowledged :: "int \<Rightarrow> string option \<Rightarrow> FindingSummary \<Rightarrow> FindingSummary" where
  "mark_acknowledged now reason f =
     f\<lparr>fs_acknowledged := True, fs_acknowledged_at := Some now, fs_acknowledged_by := reason\<rparr>"

text \<open>\<open>iter_mut().find\<close> changes the first finding with the id, in place.\<close>

fun update_first :: "('a \<Rightarrow> bool) \<Rightarrow> ('a \<Rightarrow> 'a) \<Rightarrow> 'a list \<Rightarrow> 'a list option" where
  "update_first P g [] = None"
| "update_first P g (x # xs) =
     (if P x then Some (g x # xs) else map_option ((#) x) (update_first P g xs))"

definition fst_acknowledge ::
  "int \<Rightarrow> string \<Rightarrow> string option \<Rightarrow> FindingStore \<Rightarrow> string + FindingStore" where
  "fst_acknowledge now i reason s =
     (case update_first (\<lambda>f. fs_id f = i) (mark_acknowledged now reason) (findings s) of
        None \<Rightarrow> Inl (''Finding '' @ i @ '' not found'')
      | Some fs \<Rightarrow> Inr (s\<lparr>findings := fs\<rparr>))"

definition count_priority :: "string \<Rightarrow> FindingStats \<Rightarrow> FindingStats" where
  "count_priority p st =
     (if p = ''Critical'' then st\<lparr>st_critical := st_critical st + 1\<rparr>
      else if p = ''High'' then st\<lparr>st_high := st_high st + 1\<rparr>
      else if p = ''Medium'' then st\<lparr>st_medium := st_medium st + 1\<rparr>
      else if p = ''Low'' then st\<lparr>st_low := st_low st + 1\<rparr>
      else st\<lparr>st_informational := st_informational st + 1\<rparr>)"

definition count_finding :: "FindingSummary \<Rightarrow> FindingStats \<Rightarrow> FindingStats" where
  "count_finding f st =
     (let st = count_priority (fs_priority f) st
      in if fs_acknowledged f then st\<lparr>st_acknowledged := st_acknowledged st + 1\<rparr> else st)"

definition fst_stats :: "FindingStore \<Rightarrow> FindingStats" where
  "fst_stats s =
     fold count_finding (findings s)
       (FindingStats_default\<lparr>st_total := length (findings s)\<rparr>)"

interpretation fhist: bounded_history MAX_FINDINGS push_finding
proof
  fix xs :: "FindingSummary list" and x
  assume "length xs \<le> MAX_FINDINGS"
  then show "push_finding x xs = lastn MAX_FINDINGS (xs @ [x])"
    by (cases "length xs = MAX_FINDINGS")
      (auto simp: push_finding_def lastn_Suc_tl lastn_short MAX_FINDINGS_def)
qed

lemma update_first_None: "update_first P g xs = None \<longleftrightarrow> (\<forall>x \<in> set xs. \<not> P x)"
  by (induction xs) auto

lemma update_first_split:
  "update_first P g xs = Some ys \<Longrightarrow>
     \<exists>us x vs. xs = us @ x # vs \<and> ys = us @ g x # vs \<and> P x \<and> (\<forall>u \<in> set us. \<not> P u)"
proof (induction xs arbitrary: ys)
  case (Cons x xs)
  show ?case
  proof (cases "P x")
    case True
    with Cons.prems show ?thesis by (intro exI[of _ "[]"] exI[of _ x] exI[of _ xs]) simp
  next
    case False
    with Cons.prems obtain zs where z: "update_first P g xs = Some zs" "ys = x # zs" by auto
    with Cons.IH obtain us y vs where
      "xs = us @ y # vs" "zs = us @ g y # vs" "P y" "\<forall>u \<in> set us. \<not> P u" by blast
    with False z(2) show ?thesis
      by (intro exI[of _ "x # us"] exI[of _ y] exI[of _ vs]) simp
  qed
qed simp

lemma fold_insert_findings:
  "findings (fold fst_insert fs s) = fold push_finding (map FindingSummary_from fs) (findings s)"
  by (induction fs arbitrary: s) (simp_all add: fst_insert_def)

lemma find_skip: "\<forall>u \<in> set us. \<not> P u \<Longrightarrow> find P (us @ xs) = find P xs"
  by (induction us) auto

lemma acknowledge_cases:
  "(\<exists>e. fst_acknowledge now i reason s = Inl e \<and> fst_get i s = None) \<or>
   (\<exists>s' f. fst_acknowledge now i reason s = Inr s' \<and> fst_get i s = Some f
      \<and> fst_get i s' = Some (mark_acknowledged now reason f)
      \<and> length (findings s') = length (findings s))"
proof (cases "update_first (\<lambda>f. fs_id f = i) (mark_acknowledged now reason) (findings s)")
  case None
  then have "fst_acknowledge now i reason s = Inl (''Finding '' @ i @ '' not found'')"
    "fst_get i s = None"
    by (simp add: fst_acknowledge_def, simp add: fst_get_def update_first_None find_None_iff)
  then show ?thesis by blast
next
  case (Some ys)
  then obtain us x vs where "findings s = us @ x # vs"
    "ys = us @ mark_acknowledged now reason x # vs" "fs_id x = i" "\<forall>u \<in> set us. fs_id u \<noteq> i"
    using update_first_split[OF Some] by auto
  then have "fst_get i s = Some x"
    "fst_get i (s\<lparr>findings := ys\<rparr>) = Some (mark_acknowledged now reason x)"
    "length ys = length (findings s)"
    by (simp_all add: fst_get_def find_skip mark_acknowledged_def)
  with Some show ?thesis by (simp add: fst_acknowledge_def)
qed

definition stats_sum :: "FindingStats \<Rightarrow> nat" where
  "stats_sum st = st_critical st + st_high st + st_medium st + st_low st + st_informational st"

lemma stats_sum_count: "stats_sum (count_finding f st) = Suc (stats_sum st)"
  by (simp add: count_finding_def count_priority_def stats_sum_def Let_def)

lemma stats_sum_fold: "stats_sum (fold count_finding fs st) = stats_sum st + length fs"
  by (induction fs arbitrary: st) (simp_all add: stats_sum_count)

lemma total_fold: "st_total (fold count_finding fs st) = st_total st"
  by (induction fs arbitrary: st) (simp_all add: count_finding_def count_priority_def Let_def)

lemma acknowledged_fold:
  "st_acknowledged (fold count_finding fs st) =
     st_acknowledged st + length (filter fs_acknowledged fs)"
  by (induction fs arbitrary: st) (simp_all add: count_finding_def count_priority_def Let_def)

section \<open>Properties\<close>

text \<open>C3. From an empty store, whatever events arrive: every workload's evidence sets are sorted
  without duplicates and hold at most 5000 entries, at most 1000 signals are kept and the
  transferred bytes never exceed the cap.\<close>

theorem store_run_wellformed: "store_ok (foldl store_step StateStore_default es)"
  by (rule store.run_inv) simp

text \<open>The byte counter of a cgroup is the sum of the sizes of its network events, capped at
  one terabyte: the saturating word arithmetic loses nothing below the cap.\<close>

theorem data_transferred_total:
  "data_of (foldl store_step StateStore_default es) c =
     min (2 ^ 40) (sum_list (map (event_bytes c) es))"
  using data_of_run[OF store_ok_default, of es c]
  by (simp add: data_of_def entry_or_default_def StateStore_default_def WorkloadState_default_def)

text \<open>Events leave the workloads of other cgroups alone.\<close>

theorem events_touch_their_cgroup:
  "\<forall>e \<in> set es. event_cgroup e \<noteq> c \<Longrightarrow>
   by_cgroup (foldl store_step st es) c = by_cgroup st c"
  by (rule other_cgroup_run) auto

theorem events_touch_their_cgroup_witness:
  "by_cgroup (foldl store_step StateStore_default
     [SExec \<lparr>ex_timestamp_ns = 1, ex_pid = 7, ex_tgid = 7, ex_uid = 0, ex_gid = 0,
        ex_cgroup_id = 42, ex_ppid = 1, ex_command = [115, 104], ex_argv = []\<rparr>]) 41 = None"
  using events_touch_their_cgroup[of "[SExec \<lparr>ex_timestamp_ns = 1, ex_pid = 7, ex_tgid = 7,
      ex_uid = 0, ex_gid = 0, ex_cgroup_id = 42, ex_ppid = 1, ex_command = [115, 104],
      ex_argv = []\<rparr>]" 41 StateStore_default]
  by (simp add: StateStore_default_def)

text \<open>No event removes evidence: paths, syscalls, commands, flows and libraries recorded for a
  cgroup stay recorded, even when a set is full.\<close>

theorem evidence_is_kept:
  "sets_grow (entry_or_default st c) (entry_or_default (foldl store_step st es) c)"
  by (rule sets_grow_run)

text \<open>The finding store holds exactly the last 10000 findings, in the order of arrival.\<close>

theorem findings_keep_latest:
  "findings (fold fst_insert fs FindingStore_new) = lastn 10000 (map FindingSummary_from fs)"
  using fhist.fold_push[of "[]" "map FindingSummary_from fs"]
  by (simp add: fold_insert_findings FindingStore_new_def MAX_FINDINGS_def)

text \<open>Acknowledging an id either fails, when no finding has it, or marks the finding that a
  lookup of the id returns, and changes nothing else about the number of findings.\<close>

theorem acknowledge_outcome:
  "case fst_acknowledge now i reason s of
     Inl e \<Rightarrow> fst_get i s = None \<and> e = ''Finding '' @ i @ '' not found''
   | Inr s' \<Rightarrow>
       fst_get i s' = map_option (mark_acknowledged now reason) (fst_get i s)
       \<and> fst_get i s \<noteq> None \<and> length (findings s') = length (findings s)"
  using acknowledge_cases[of now i reason s]
  by (auto simp: fst_acknowledge_def split: option.splits)

text \<open>The statistics count every finding once: the priorities add up to the total, which is
  the number stored, and the acknowledged ones are counted.\<close>

theorem stats_add_up:
  "stats_sum (fst_stats s) = length (findings s) \<and> st_total (fst_stats s) = length (findings s)
   \<and> st_acknowledged (fst_stats s) = length (filter fs_acknowledged (findings s))"
  by (simp add: fst_stats_def stats_sum_fold total_fold acknowledged_fold)
    (simp add: stats_sum_def FindingStats_default_def)

end
