(* ===== verification/Ordered_Map.thy ===== *)
theory Ordered_Map
  imports Prelude
begin

text \<open>
  A \<open>BTreeMap\<close> that is iterated, as the list of its entries in key order.
\<close>

fun bmap_insert :: "'k::linorder \<Rightarrow> 'v \<Rightarrow> ('k \<times> 'v) list \<Rightarrow> ('k \<times> 'v) list" where
  "bmap_insert k v [] = [(k, v)]"
| "bmap_insert k v ((k', v') # m) =
     (if k < k' then (k, v) # (k', v') # m
      else if k = k' then (k, v) # m else (k', v') # bmap_insert k v m)"

definition bmap_ok :: "('k::linorder \<times> 'v) list \<Rightarrow> bool" where
  "bmap_ok m \<longleftrightarrow> sorted_wrt (<) (map fst m)"

lemma set_bmap_insert: "set (map fst (bmap_insert k v m)) = insert k (set (map fst m))"
  by (induction k v m rule: bmap_insert.induct) auto

lemma bmap_ok_insert [simp]: "bmap_ok m \<Longrightarrow> bmap_ok (bmap_insert k v m)"
  unfolding bmap_ok_def
proof (induction k v m rule: bmap_insert.induct)
  case (2 k v k' v' m)
  then show ?case using set_bmap_insert[of k v m] by (auto simp: not_less order.order_iff_strict)
qed simp

lemma map_of_bmap_insert [simp]: "map_of (bmap_insert k v m) = (map_of m)(k \<mapsto> v)"
  by (induction k v m rule: bmap_insert.induct) auto

lemma length_bmap_insert: "length (bmap_insert k v m) \<le> Suc (length m)"
  by (induction k v m rule: bmap_insert.induct) auto

text \<open>\<open>map.entry(k).or_insert(d)\<close> followed by a change of the entry.\<close>

definition bmap_modify :: "'k::linorder \<Rightarrow> 'v \<Rightarrow> ('v \<Rightarrow> 'v) \<Rightarrow> ('k \<times> 'v) list \<Rightarrow> ('k \<times> 'v) list" where
  "bmap_modify k d f m = bmap_insert k (f (case map_of m k of None \<Rightarrow> d | Some v \<Rightarrow> v)) m"

lemma map_of_bmap_modify [simp]:
  "map_of (bmap_modify k d f m) = (map_of m)(k \<mapsto> f (case map_of m k of None \<Rightarrow> d | Some v \<Rightarrow> v))"
  by (simp add: bmap_modify_def)

lemma bmap_ok_modify [simp]: "bmap_ok m \<Longrightarrow> bmap_ok (bmap_modify k d f m)"
  by (simp add: bmap_modify_def)

lemma bmap_ok_Nil [simp]: "bmap_ok []"
  by (simp add: bmap_ok_def)

lemma bmap_ok_distinct: "bmap_ok m \<Longrightarrow> distinct (map fst m)"
  by (simp add: bmap_ok_def strict_sorted_iff)

lemma bmap_ok_filter [simp]: "bmap_ok m \<Longrightarrow> bmap_ok (filter P m)"
  unfolding bmap_ok_def by (induction m) auto

lemma map_of_bmap_delete:
  "bmap_ok m \<Longrightarrow> map_of (filter (\<lambda>(k', v). k' \<noteq> k) m) = (map_of m)(k := None)"
  by (induction m) (auto simp: bmap_ok_def)

lemma bmap_ok_in: "bmap_ok m \<Longrightarrow> (k, v) \<in> set m \<longleftrightarrow> map_of m k = Some v"
  by (simp add: bmap_ok_distinct)

end
