(* ===== verification/Cgroup.thy ===== *)
theory Cgroup
  imports Interfaces Ordered_Map Safe_Enforcement
begin

text \<open>
  \<open>cgroup.rs\<close>: the resolver from cgroup ids to containers. The host's /proc is an argument:
  the directory entries in the order \<open>read_dir\<close> yields them, each with its name and the text
  of its \<open>cgroup\<close> file when that can be read. The cache is the \<open>BTreeMap\<close> as a list sorted
  by key.
\<close>

section \<open>Container ids\<close>

definition normalize_id :: "string \<Rightarrow> string" where
  "normalize_id raw =
     trim_end_matches ''.scope''
       (trim_start_matches ''systemd-''
         (trim_start_matches ''libpod-''
           (trim_start_matches ''crio-''
             (trim_start_matches ''containerd-''
               (trim_start_matches ''docker-'' raw)))))"

definition is_container_id :: "string \<Rightarrow> bool" where
  "is_container_id s =
     (let n = normalize_id s
      in 8 \<le> length n \<and> length n \<le> 128
         \<and> list_all (\<lambda>c. is_hex_c c \<or> c = CHR ''-'' \<or> c = CHR ''_'') n)"

definition get_next_id :: "string list \<Rightarrow> string option" where
  "get_next_id rest =
     (case rest of [] \<Rightarrow> None
      | s # _ \<Rightarrow> if is_container_id (normalize_id s) then Some (normalize_id s) else None)"

text \<open>The loop over the parts: \<open>last_part\<close> is \<open>parts.last()\<close>.\<close>

fun scan_parts :: "string \<Rightarrow> string list \<Rightarrow> string option" where
  "scan_parts last_part [] = None"
| "scan_parts last_part (part # rest) =
     (if part = ''docker'' then get_next_id rest
      else if part = ''containerd'' \<or> part = ''cri-o'' then get_next_id rest
      else if part = ''kubepods'' \<and> is_container_id (normalize_id last_part)
      then Some (normalize_id last_part)
      else if normalize_id part \<noteq> part \<and> is_container_id (normalize_id part)
      then Some (normalize_id part)
      else scan_parts last_part rest)"

definition extract_container_id :: "string \<Rightarrow> string option" where
  "extract_container_id path =
     (let parts = filter (\<lambda>p. p \<noteq> []) (split_on (CHR ''/'') path)
      in scan_parts (last parts) parts)"

section \<open>Reading /proc\<close>

text \<open>\<open>str::parse\<close> for an unsigned integer below \<open>bound\<close>: an optional sign, then digits.\<close>

definition parse_uint :: "int \<Rightarrow> string \<Rightarrow> int option" where
  "parse_uint bound s =
     (let ds = (case s of c # cs \<Rightarrow> if c = CHR ''+'' then cs else s | [] \<Rightarrow> [])
      in if ds \<noteq> [] \<and> list_all is_digit_c ds \<and> read_dec ds < bound then Some (read_dec ds) else None)"

text \<open>\<open>str::lines\<close>: a line ends at LF or CR LF, and a final empty line is not a line.\<close>

definition strip_cr :: "string \<Rightarrow> string" where
  "strip_cr l = (if l \<noteq> [] \<and> last l = CHR 0x0D then butlast l else l)"

definition str_lines :: "string \<Rightarrow> string list" where
  "str_lines s =
     (let ps = split_on (CHR 0x0A) s
      in map strip_cr (butlast ps) @ (if last ps = [] then [] else [last ps]))"

definition hierarchy_rejects :: "u64 \<Rightarrow> string \<Rightarrow> bool" where
  "hierarchy_rejects cgroup_id h =
     (case parse_uint (2 ^ 64) h of Some hid \<Rightarrow> hid \<noteq> 0 \<and> hid \<noteq> uint cgroup_id | None \<Rightarrow> False)"

fun parse_cgroup_lines :: "u64 \<Rightarrow> string list \<Rightarrow> string option" where
  "parse_cgroup_lines cgroup_id [] = None"
| "parse_cgroup_lines cgroup_id (line # ls) =
     (let parts = split_on (CHR '':'') line
      in if length parts < 3 then parse_cgroup_lines cgroup_id ls
         else if hierarchy_rejects cgroup_id (parts ! 0) then parse_cgroup_lines cgroup_id ls
         else (case extract_container_id (parts ! 2) of
                 Some i \<Rightarrow> Some i | None \<Rightarrow> parse_cgroup_lines cgroup_id ls))"

definition parse_cgroup_file :: "string option \<Rightarrow> u64 \<Rightarrow> string option" where
  "parse_cgroup_file content cgroup_id =
     (case content of None \<Rightarrow> None | Some c \<Rightarrow> parse_cgroup_lines cgroup_id (str_lines c))"

text \<open>An item of the directory stream: an entry, or the error that ends the scan.\<close>

datatype dir_item = DirEntry string "string option" | DirError string

fun scan_entries :: "u64 \<Rightarrow> dir_item list \<Rightarrow> ScannerError + (string \<times> u32)" where
  "scan_entries cgroup_id [] = Inl (ErrBpf (''cgroup '' @ dec_w cgroup_id @ '' not found''))"
| "scan_entries cgroup_id (DirError e # ds) = Inl (ErrIo e)"
| "scan_entries cgroup_id (DirEntry name content # ds) =
     (case parse_uint (2 ^ 32) name of
        None \<Rightarrow> scan_entries cgroup_id ds
      | Some pid \<Rightarrow>
          (case parse_cgroup_file content cgroup_id of
             Some i \<Rightarrow> Inr (i, word_of_int pid)
           | None \<Rightarrow> scan_entries cgroup_id ds))"

type_synonym proc_dir = "string + dir_item list"

definition scan_for_cgroup :: "proc_dir \<Rightarrow> u64 \<Rightarrow> ScannerError + (string \<times> u32)" where
  "scan_for_cgroup pd cgroup_id =
     (case pd of Inl e \<Rightarrow> Inl (ErrIo e) | Inr ds \<Rightarrow> scan_entries cgroup_id ds)"

section \<open>The resolver\<close>

definition MAX_CACHE_ENTRIES :: nat where "MAX_CACHE_ENTRIES = 10000"

record CgroupResolver =
  cg_cache :: "(u64 \<times> (string \<times> u32)) list"
  cg_proc_path :: string

definition CgroupResolver_new :: "string \<Rightarrow> CgroupResolver" where
  "CgroupResolver_new p = \<lparr>cg_cache = [], cg_proc_path = p\<rparr>"

definition evict_for_insert :: "(u64 \<times> 'v) list \<Rightarrow> (u64 \<times> 'v) list" where
  "evict_for_insert m = (if MAX_CACHE_ENTRIES \<le> length m then tl m else m)"

text \<open>\<open>proc\<close> is what the host shows at the path when the call scans it.\<close>

definition resolve ::
  "(string \<Rightarrow> proc_dir) \<Rightarrow> u64 \<Rightarrow> CgroupResolver \<Rightarrow> (string \<times> u32) option \<times> CgroupResolver" where
  "resolve proc cgroup_id r =
     (case map_of (cg_cache r) cgroup_id of
        Some entry \<Rightarrow> (Some entry, r)
      | None \<Rightarrow>
          (case scan_for_cgroup (proc (cg_proc_path r)) cgroup_id of
             Inr res \<Rightarrow>
               (Some res, r\<lparr>cg_cache := bmap_insert cgroup_id res (evict_for_insert (cg_cache r))\<rparr>)
           | Inl e \<Rightarrow> (None, r)))"

definition clear_cache :: "CgroupResolver \<Rightarrow> CgroupResolver" where
  "clear_cache r = r\<lparr>cg_cache := []\<rparr>"

section \<open>What extraction promises\<close>

lemma scan_parts_id: "scan_parts l ps = Some i \<Longrightarrow> is_container_id i"
  by (induction l ps rule: scan_parts.induct)
    (auto simp: get_next_id_def split: if_splits list.splits)

lemma extract_id: "extract_container_id p = Some i \<Longrightarrow> is_container_id i"
  by (auto simp: extract_container_id_def Let_def dest: scan_parts_id)

lemma parse_lines_id: "parse_cgroup_lines c ls = Some i \<Longrightarrow> is_container_id i"
  by (induction c ls rule: parse_cgroup_lines.induct)
    (auto simp: Let_def dest: extract_id split: if_splits option.splits)

lemma scan_entries_id: "scan_entries c ds = Inr (i, pid) \<Longrightarrow> is_container_id i"
  by (induction c ds rule: scan_entries.induct)
    (auto simp: parse_cgroup_file_def dest: parse_lines_id split: option.splits)

text \<open>Lines of the unified hierarchy carry no id to compare.\<close>

definition unified_line :: "string \<Rightarrow> bool" where
  "unified_line l \<longleftrightarrow> starts_with l ''0:''"

lemma unified_hierarchy: "unified_line l \<Longrightarrow> \<not> hierarchy_rejects c (split_on (CHR '':'') l ! 0)"
  by (auto simp: unified_line_def prefix_def hierarchy_rejects_def parse_uint_def is_digit_c_def
      read_dec_def)

lemma unified_lines:
  "list_all unified_line ls \<Longrightarrow> parse_cgroup_lines c ls = parse_cgroup_lines c' ls"
  by (induction ls) (auto simp: Let_def unified_hierarchy split: option.splits)

fun unified_item :: "dir_item \<Rightarrow> bool" where
  "unified_item (DirEntry name (Some c)) = list_all unified_line (str_lines c)"
| "unified_item _ = True"

lemma unified_scan:
  "list_all unified_item ds \<Longrightarrow> scan_entries c ds = Inr r \<Longrightarrow> scan_entries c' ds = Inr r"
proof (induction c ds rule: scan_entries.induct)
  case (3 c name content ds)
  have "parse_cgroup_file content c' = parse_cgroup_file content c"
    using 3(3) by (cases content) (auto simp: parse_cgroup_file_def intro: unified_lines)
  with 3 show ?case by (auto split: option.splits)
qed simp_all

section \<open>The cache\<close>

definition resolver_ok :: "CgroupResolver \<Rightarrow> bool" where
  "resolver_ok r \<longleftrightarrow>
     bmap_ok (cg_cache r) \<and> length (cg_cache r) \<le> MAX_CACHE_ENTRIES
     \<and> list_all (\<lambda>(c, i, pid). is_container_id i) (cg_cache r)"

datatype resolver_event = RResolve "string \<Rightarrow> proc_dir" u64 | RClear

fun resolver_step :: "CgroupResolver \<Rightarrow> resolver_event \<Rightarrow> CgroupResolver" where
  "resolver_step r (RResolve proc c) = snd (resolve proc c r)"
| "resolver_step r RClear = clear_cache r"

lemma bmap_ok_tl [simp]: "bmap_ok m \<Longrightarrow> bmap_ok (tl m)"
  by (cases m) (auto simp: bmap_ok_def)

lemma list_all_tl: "list_all P m \<Longrightarrow> list_all P (tl m)"
  by (cases m) auto

lemma list_all_bmap_insert: "list_all P m \<Longrightarrow> P (k, v) \<Longrightarrow> list_all P (bmap_insert k v m)"
  by (induction k v m rule: bmap_insert.induct) auto

lemma resolver_ok_insert:
  assumes "resolver_ok r" "is_container_id i"
  shows "resolver_ok (r\<lparr>cg_cache := bmap_insert c (i, pid) (evict_for_insert (cg_cache r))\<rparr>)"
proof -
  have l: "Suc (length (evict_for_insert (cg_cache r))) \<le> MAX_CACHE_ENTRIES"
    using assms(1) by (auto simp: resolver_ok_def evict_for_insert_def MAX_CACHE_ENTRIES_def)
  have "length (bmap_insert c (i, pid) (evict_for_insert (cg_cache r))) \<le> MAX_CACHE_ENTRIES"
    by (rule order.trans[OF length_bmap_insert l])
  with assms show ?thesis
    by (auto simp: resolver_ok_def evict_for_insert_def list_all_tl intro!: list_all_bmap_insert)
qed

lemma resolve_miss_result:
  "scan_for_cgroup p c = Inr (i, pid) \<Longrightarrow> is_container_id i"
  by (auto simp: scan_for_cgroup_def dest: scan_entries_id split: sum.splits)

interpretation resolver: event_machine resolver_step resolver_ok
proof
  fix r e
  assume ok: "resolver_ok r"
  show "resolver_ok (resolver_step r e)"
  proof (cases e)
    case (RResolve proc c)
    with ok show ?thesis
      by (auto simp: resolve_def intro!: resolver_ok_insert dest: resolve_miss_result
          split: option.splits sum.splits)
  next
    case RClear
    with ok show ?thesis by (simp add: clear_cache_def resolver_ok_def bmap_ok_def)
  qed
qed

lemma resolver_ok_new [simp]: "resolver_ok (CgroupResolver_new p)"
  by (simp add: resolver_ok_def CgroupResolver_new_def bmap_ok_def)

lemma resolve_id: "resolver_ok r \<Longrightarrow> fst (resolve proc c r) = Some (i, pid) \<Longrightarrow> is_container_id i"
  by (auto simp: resolve_def resolver_ok_def list_all_iff dest: resolve_miss_result map_of_SomeD
      split: option.splits sum.splits)

text \<open>An answer is remembered: the next call gives it again, whatever /proc shows by then.\<close>

lemma resolve_again:
  "fst (resolve proc c r) = Some e \<Longrightarrow>
   resolve proc' c (snd (resolve proc c r)) = (Some e, snd (resolve proc c r))"
  by (auto simp: resolve_def split: option.splits sum.splits)

section \<open>Properties\<close>

text \<open>C40. After any sequence of lookups and cache clears, whatever /proc shows at each of them, the
  cache is sorted with at most 10000 entries and holds container ids only.\<close>

theorem resolver_run_wellformed: "resolver_ok (foldl resolver_step (CgroupResolver_new p) es)"
  by (rule resolver.run_inv) simp

text \<open>On a host with the unified hierarchy only, the id that is asked for plays no part: the
  container found for one cgroup is found for every other.\<close>

theorem unified_hosts_ignore_the_id:
  "list_all unified_item ds \<Longrightarrow> scan_for_cgroup (Inr ds) c = Inr r \<Longrightarrow>
   scan_for_cgroup (Inr ds) c' = Inr r"
  unfolding scan_for_cgroup_def by (simp add: unified_scan[of ds c r c'])

theorem unified_hosts_ignore_the_id_witness:
  "scan_for_cgroup (Inr [DirEntry ''17'' (Some ''0::/docker/0123456789ab'')]) 2
     = Inr (''0123456789ab'', 17)"
  by (rule unified_hosts_ignore_the_id[of _ 1]) code_simp+

text \<open>An answer is kept: the next lookup of the same cgroup returns it again and changes
  nothing, whatever /proc shows by then.\<close>

theorem resolve_is_sticky:
  "fst (resolve proc c r) = Some e \<Longrightarrow>
   resolve proc' c (snd (resolve proc c r)) = (Some e, snd (resolve proc c r))"
  by (rule resolve_again)

theorem resolve_is_sticky_witness:
  "resolve (\<lambda>_. Inr []) 5 (snd (resolve (\<lambda>_. Inr [DirEntry ''17'' (Some ''5:cpu:/docker/0123456789ab'')])
      5 (CgroupResolver_new ''/proc''))) =
   (Some (''0123456789ab'', 17),
    snd (resolve (\<lambda>_. Inr [DirEntry ''17'' (Some ''5:cpu:/docker/0123456789ab'')]) 5
      (CgroupResolver_new ''/proc'')))"
  by (rule resolve_is_sticky) code_simp

end
