(* ===== verification/Event_Wire.thy ===== *)
theory Event_Wire
  imports Interfaces State_Store Net_Addr
begin

text \<open>
  The bytes of the ring buffers and the parsers of \<open>event_consumer.rs\<close>. A \<open>repr(C)\<close>
  structure is a byte list with each field at its offset, little-endian, with the padding
  of the C layout; a parser checks the length and a discriminant and reinterprets the bytes.
  Reinterpreting bytes whose discriminant is no variant is undefined behaviour in Rust: a
  parser has the outcome \<open>Undefined\<close> then.
\<close>

section \<open>Little-endian words\<close>

fun le_bytes :: "nat \<Rightarrow> 'a::len word \<Rightarrow> u8 list" where
  "le_bytes 0 w = []"
| "le_bytes (Suc n) w = ucast w # le_bytes n (drop_bit 8 w)"

fun le_word :: "u8 list \<Rightarrow> 'a::len word" where
  "le_word [] = 0"
| "le_word (b # bs) = ucast b OR push_bit 8 (le_word bs)"

lemma length_le_bytes [simp]: "length (le_bytes n w) = n"
  by (induction n w rule: le_bytes.induct) auto

lemma le_word_bytes: "le_word (le_bytes n w) = take_bit (8 * n) w"
proof (induction n w rule: le_bytes.induct)
  case (2 n w)
  show ?case
    by (rule bit_word_eqI) (auto simp: 2 bit_simps less_diff_conv2 not_less)
qed simp

lemma take_bit_word_full: "LENGTH('a) \<le> n \<Longrightarrow> take_bit n w = (w :: 'a::len word)"
  by (rule bit_word_eqI) (auto simp: bit_take_bit_iff)

lemma le_word_full [simp]:
  "le_word (le_bytes 8 (a :: u64)) = a" "le_word (le_bytes 4 (b :: u32)) = b"
  "le_word (le_bytes 2 (c :: u16)) = c" "le_word (le_bytes 1 (d :: u8)) = d"
  by (simp_all add: le_word_bytes take_bit_word_full)

text \<open>The \<open>n\<close> bytes at an offset.\<close>

definition at_off :: "nat \<Rightarrow> nat \<Rightarrow> u8 list \<Rightarrow> u8 list" where
  "at_off off n bs = take n (drop off bs)"

section \<open>Layouts\<close>

text \<open>The structures as the kernel side writes them; padding bytes are zero here.\<close>

definition pad :: "nat \<Rightarrow> u8 list" where "pad n = replicate n 0"

lemma length_pad [simp]: "length (pad n) = n"
  by (simp add: pad_def)

definition EXEC_SIZE :: nat where "EXEC_SIZE = 312"
definition FILE_SIZE :: nat where "FILE_SIZE = 304"
definition NET_SIZE :: nat where "NET_SIZE = 48"
definition SECURITY_SIZE :: nat where "SECURITY_SIZE = 192"

definition encode_exec :: "ExecEvent \<Rightarrow> u8 list" where
  "encode_exec e =
     le_bytes 8 (ex_timestamp_ns e) @ le_bytes 4 (ex_pid e) @ le_bytes 4 (ex_tgid e)
     @ le_bytes 4 (ex_uid e) @ le_bytes 4 (ex_gid e) @ le_bytes 8 (ex_cgroup_id e)
     @ le_bytes 4 (ex_ppid e) @ ex_command e @ ex_argv e @ pad 4"

definition read_exec :: "u8 list \<Rightarrow> ExecEvent" where
  "read_exec bs =
     \<lparr>ex_timestamp_ns = le_word (at_off 0 8 bs), ex_pid = le_word (at_off 8 4 bs),
      ex_tgid = le_word (at_off 12 4 bs), ex_uid = le_word (at_off 16 4 bs),
      ex_gid = le_word (at_off 20 4 bs), ex_cgroup_id = le_word (at_off 24 8 bs),
      ex_ppid = le_word (at_off 32 4 bs), ex_command = at_off 36 16 bs,
      ex_argv = at_off 52 256 bs\<rparr>"

definition encode_file :: "FileEvent \<Rightarrow> u8 list" where
  "encode_file e =
     le_bytes 8 (fe_timestamp_ns e) @ le_bytes 4 (fe_pid e) @ le_bytes 4 (fe_tgid e)
     @ le_bytes 8 (fe_cgroup_id e) @ fe_command e @ fe_path e
     @ [EventKind_as_u8 (fe_kind e)] @ pad 7"

definition read_file :: "u8 list \<Rightarrow> FileEvent option" where
  "read_file bs =
     map_option (\<lambda>k.
       \<lparr>fe_timestamp_ns = le_word (at_off 0 8 bs), fe_pid = le_word (at_off 8 4 bs),
        fe_tgid = le_word (at_off 12 4 bs), fe_cgroup_id = le_word (at_off 16 8 bs),
        fe_command = at_off 24 16 bs, fe_path = at_off 40 256 bs, fe_kind = k\<rparr>)
       (EventKind_try_from_u8 (bs ! 296))"

definition encode_net :: "NetEvent \<Rightarrow> u8 list" where
  "encode_net e =
     le_bytes 8 (ne_timestamp_ns e) @ le_bytes 4 (ne_pid e) @ le_bytes 4 (ne_tgid e)
     @ le_bytes 8 (ne_cgroup_id e) @ le_bytes 4 (ne_saddr e) @ le_bytes 4 (ne_daddr e)
     @ le_bytes 2 (ne_sport e) @ le_bytes 2 (ne_dport e) @ le_bytes 2 (ne_family e)
     @ [ne_protocol e, EventKind_as_u8 (ne_kind e)] @ le_bytes 4 (ne_data_size e) @ pad 4"

definition read_net :: "u8 list \<Rightarrow> NetEvent option" where
  "read_net bs =
     map_option (\<lambda>k.
       \<lparr>ne_timestamp_ns = le_word (at_off 0 8 bs), ne_pid = le_word (at_off 8 4 bs),
        ne_tgid = le_word (at_off 12 4 bs), ne_cgroup_id = le_word (at_off 16 8 bs),
        ne_saddr = le_word (at_off 24 4 bs), ne_daddr = le_word (at_off 28 4 bs),
        ne_sport = le_word (at_off 32 2 bs), ne_dport = le_word (at_off 34 2 bs),
        ne_family = le_word (at_off 36 2 bs), ne_protocol = bs ! 38, ne_kind = k,
        ne_data_size = le_word (at_off 40 4 bs)\<rparr>)
       (EventKind_try_from_u8 (bs ! 39))"

section \<open>Unified security events\<close>

datatype SecurityEventKind =
  SkExec | SkFile | SkMmap | SkConnect | SkNetTransfer | SkDns | SkExit | SkSuspicious

fun SecurityEventKind_as_u8 :: "SecurityEventKind \<Rightarrow> u8" where
  "SecurityEventKind_as_u8 SkExec = 0"
| "SecurityEventKind_as_u8 SkFile = 1"
| "SecurityEventKind_as_u8 SkMmap = 2"
| "SecurityEventKind_as_u8 SkConnect = 3"
| "SecurityEventKind_as_u8 SkNetTransfer = 4"
| "SecurityEventKind_as_u8 SkDns = 5"
| "SecurityEventKind_as_u8 SkExit = 6"
| "SecurityEventKind_as_u8 SkSuspicious = 7"

definition SecurityEventKind_try_from_u8 :: "u8 \<Rightarrow> SecurityEventKind option" where
  "SecurityEventKind_try_from_u8 v =
     (if v \<le> 7
      then Some ([SkExec, SkFile, SkMmap, SkConnect, SkNetTransfer, SkDns, SkExit, SkSuspicious]
                 ! unat v)
      else None)"

lemma SecurityEventKind_roundtrip [simp]:
  "SecurityEventKind_try_from_u8 (SecurityEventKind_as_u8 k) = Some k"
  by (cases k) (simp_all add: SecurityEventKind_try_from_u8_def)

text \<open>The union is its 128 raw bytes; the three views read them.\<close>

record SecurityEvent =
  sv_ts :: u64
  sv_kind :: SecurityEventKind
  sv_pid :: u32
  sv_tgid :: u32
  sv_uid :: u32
  sv_gid :: u32
  sv_cgroup_id :: u64
  sv_confidence :: u8
  sv_data :: "u8 list"
  sv_comm :: "u8 list"

record SecurityExecData =
  xd_ppid :: u32
  xd_is_setuid :: u8
  xd_args :: "u8 list"

record SecurityFileData =
  ld_path :: "u8 list"
  ld_flags :: u32
  ld_is_sensitive :: u8

record SecurityNetData =
  nd_saddr :: u32
  nd_daddr :: u32
  nd_sport :: u16
  nd_dport :: u16
  nd_bytes :: u64
  nd_protocol :: u8
  nd_is_external :: u8
  nd_is_suspicious_port :: u8

definition data_exec :: "u8 list \<Rightarrow> SecurityExecData" where
  "data_exec d = \<lparr>xd_ppid = le_word (at_off 0 4 d), xd_is_setuid = d ! 4, xd_args = at_off 8 120 d\<rparr>"

definition data_file :: "u8 list \<Rightarrow> SecurityFileData" where
  "data_file d =
     \<lparr>ld_path = at_off 0 96 d, ld_flags = le_word (at_off 96 4 d), ld_is_sensitive = d ! 100\<rparr>"

definition data_net :: "u8 list \<Rightarrow> SecurityNetData" where
  "data_net d =
     \<lparr>nd_saddr = le_word (at_off 0 4 d), nd_daddr = le_word (at_off 4 4 d),
      nd_sport = le_word (at_off 8 2 d), nd_dport = le_word (at_off 10 2 d),
      nd_bytes = le_word (at_off 16 8 d), nd_protocol = d ! 24, nd_is_external = d ! 25,
      nd_is_suspicious_port = d ! 26\<rparr>"

definition SecurityEvent_ok :: "SecurityEvent \<Rightarrow> bool" where
  "SecurityEvent_ok e \<longleftrightarrow> length (sv_data e) = 128 \<and> length (sv_comm e) = 16"

definition encode_security :: "SecurityEvent \<Rightarrow> u8 list" where
  "encode_security e =
     le_bytes 8 (sv_ts e) @ [SecurityEventKind_as_u8 (sv_kind e)] @ pad 3
     @ le_bytes 4 (sv_pid e) @ le_bytes 4 (sv_tgid e) @ le_bytes 4 (sv_uid e)
     @ le_bytes 4 (sv_gid e) @ pad 4 @ le_bytes 8 (sv_cgroup_id e) @ [sv_confidence e] @ pad 7
     @ sv_data e @ sv_comm e"

definition read_security :: "u8 list \<Rightarrow> SecurityEvent option" where
  "read_security bs =
     map_option (\<lambda>k.
       \<lparr>sv_ts = le_word (at_off 0 8 bs), sv_kind = k, sv_pid = le_word (at_off 12 4 bs),
        sv_tgid = le_word (at_off 16 4 bs), sv_uid = le_word (at_off 20 4 bs),
        sv_gid = le_word (at_off 24 4 bs), sv_cgroup_id = le_word (at_off 32 8 bs),
        sv_confidence = bs ! 40, sv_data = at_off 48 128 bs, sv_comm = at_off 176 16 bs\<rparr>)
       (SecurityEventKind_try_from_u8 (bs ! 8))"

section \<open>Parsers\<close>

datatype 'e parsed = Rejected | Parsed 'e | Undefined

definition reinterpret :: "'e option \<Rightarrow> 'e parsed" where
  "reinterpret r = (case r of Some e \<Rightarrow> Parsed e | None \<Rightarrow> Undefined)"

definition parse_exec_event :: "u8 list \<Rightarrow> ExecEvent parsed" where
  "parse_exec_event data = (if length data < EXEC_SIZE then Rejected else Parsed (read_exec data))"

definition parse_file_event :: "u8 list \<Rightarrow> FileEvent parsed" where
  "parse_file_event data =
     (if length data < FILE_SIZE then Rejected
      else (let kind_offset = FILE_SIZE - 1
            in if EventKind_try_from_u8 (data ! kind_offset) = None then Rejected
               else reinterpret (read_file data)))"

definition NET_EVENT_KIND_OFFSET :: nat where "NET_EVENT_KIND_OFFSET = 73"

definition parse_net_event :: "u8 list \<Rightarrow> NetEvent parsed" where
  "parse_net_event data =
     (if length data < NET_SIZE then Rejected
      else if length data \<le> NET_EVENT_KIND_OFFSET
              \<or> EventKind_try_from_u8 (data ! NET_EVENT_KIND_OFFSET) = None then Rejected
      else reinterpret (read_net data))"

definition parse_security_event :: "u8 list \<Rightarrow> SecurityEvent parsed" where
  "parse_security_event data =
     (if length data < SECURITY_SIZE then Rejected
      else if 8 < length data \<and> SecurityEventKind_try_from_u8 (data ! 8) = None then Rejected
      else reinterpret (read_security data))"

text \<open>\<open>buf[..src.len()].copy_from_slice(src)\<close> into a zeroed array.\<close>

definition zero_extend :: "nat \<Rightarrow> u8 list \<Rightarrow> u8 list" where
  "zero_extend n xs = xs @ replicate (n - length xs) 0"

definition security_to_exec :: "SecurityEvent \<Rightarrow> ExecEvent option" where
  "security_to_exec e =
     (if sv_kind e \<noteq> SkExec then None
      else (let exec = data_exec (sv_data e)
            in Some \<lparr>ex_timestamp_ns = sv_ts e, ex_pid = sv_pid e, ex_tgid = sv_tgid e,
                     ex_uid = sv_uid e, ex_gid = sv_gid e, ex_cgroup_id = sv_cgroup_id e,
                     ex_ppid = xd_ppid exec, ex_command = sv_comm e,
                     ex_argv = zero_extend 256 (xd_args exec)\<rparr>))"

definition file_kind :: "SecurityEventKind \<Rightarrow> EventKind option" where
  "file_kind k = (case k of SkFile \<Rightarrow> Some KOpen | SkMmap \<Rightarrow> Some KMmap | _ \<Rightarrow> None)"

definition security_to_file :: "SecurityEvent \<Rightarrow> FileEvent option" where
  "security_to_file e =
     (case file_kind (sv_kind e) of
        None \<Rightarrow> None
      | Some k \<Rightarrow>
          Some \<lparr>fe_timestamp_ns = sv_ts e, fe_pid = sv_pid e, fe_tgid = sv_tgid e,
                fe_cgroup_id = sv_cgroup_id e, fe_command = sv_comm e,
                fe_path = zero_extend 256 (ld_path (data_file (sv_data e))), fe_kind = k\<rparr>)"

definition security_to_net :: "SecurityEvent \<Rightarrow> NetEvent option" where
  "security_to_net e =
     (let net = data_net (sv_data e)
      in case (case sv_kind e of
                 SkConnect \<Rightarrow> Some KConnect
               | SkNetTransfer \<Rightarrow> if nd_protocol net = 17 then Some KUdpSend else Some KTcpSend
               | _ \<Rightarrow> None) of
           None \<Rightarrow> None
         | Some k \<Rightarrow>
             Some \<lparr>ne_timestamp_ns = sv_ts e, ne_pid = sv_pid e, ne_tgid = sv_tgid e,
                   ne_cgroup_id = sv_cgroup_id e, ne_saddr = nd_saddr net,
                   ne_daddr = nd_daddr net, ne_sport = nd_sport net, ne_dport = nd_dport net,
                   ne_family = 2, ne_protocol = nd_protocol net, ne_kind = k,
                   ne_data_size = ucast (min (nd_bytes net) 4294967295)\<rparr>)"

section \<open>Filters and classification\<close>

definition system_procs :: "string list" where
  "system_procs =
     [''kworker'', ''ksoftirqd'', ''migration'', ''rcu_gp'', ''rcu_par_gp'', ''kthre'',
      ''systemd'', ''dbus-daemon'', ''networkd'', ''resolved'']"

definition should_filter_exec :: "ExecEvent \<Rightarrow> bool" where
  "should_filter_exec e \<longleftrightarrow>
     (let command = c_string (ex_command e) in list_ex (\<lambda>p. starts_with command p) system_procs)"

definition should_filter_file :: "FileEvent \<Rightarrow> bool" where
  "should_filter_file e \<longleftrightarrow>
     (let path = c_string (fe_path e)
      in if (starts_with path ''/tmp/'' \<or> starts_with path ''/var/tmp/'')
            \<and> \<not> ends_with path ''.so'' \<and> fe_kind e = KMmap then True
         else starts_with path ''/proc/'' \<or> starts_with path ''/sys/'')"

definition should_filter_net :: "NetEvent \<Rightarrow> bool" where
  "should_filter_net e \<longleftrightarrow>
     ne_daddr e AND 0xFF = 0x7F \<or> drop_bit 24 (ne_daddr e) AND 0xFF = 0x7F"

definition is_sensitive_path :: "string \<Rightarrow> bool" where
  "is_sensitive_path path \<longleftrightarrow>
     list_ex (\<lambda>p. starts_with path p)
       [''/etc/passwd'', ''/etc/shadow'', ''/etc/ssh'', ''/.dockerenv'', ''/.kube'',
        ''/var/run/secrets'']"

definition is_suspicious_destination :: "u32 \<Rightarrow> u16 \<Rightarrow> bool" where
  "is_suspicious_destination addr port \<longleftrightarrow> port \<in> set [4444, 5555, 6666, 8888, 9999, 31337]"

definition is_shared_library :: "string \<Rightarrow> bool" where
  "is_shared_library path \<longleftrightarrow>
     ends_with path ''.so'' \<or> contains path ''.so.'' \<or> ends_with path ''.so.1''
     \<or> ends_with path ''.so.2'' \<or> contains path ''/lib/'' \<or> contains path ''/usr/lib/''"

section \<open>The layouts as contracts\<close>

lemma at_off_skip: "length a \<le> off \<Longrightarrow> at_off off n (a @ b) = at_off (off - length a) n b"
  by (simp add: at_off_def)

lemma at_off_here: "length a = n \<Longrightarrow> at_off 0 n (a @ b) = a"
  by (simp add: at_off_def)

lemma at_off_Cons: "0 < off \<Longrightarrow> at_off off n (x # b) = at_off (off - 1) n b"
  by (cases off) (simp_all add: at_off_def)

lemma nth_skip: "length a \<le> i \<Longrightarrow> (a @ b) ! i = b ! (i - length a)"
  by (simp add: nth_append)

lemmas layout = at_off_skip at_off_here at_off_Cons nth_skip nth_Cons'

definition accepted :: "'e parsed \<Rightarrow> 'e option" where
  "accepted p = (case p of Parsed e \<Rightarrow> Some e | _ \<Rightarrow> None)"

lemma accepted_simps [simp]:
  "accepted Rejected = None" "accepted (Parsed e) = Some e" "accepted Undefined = None"
  by (simp_all add: accepted_def)

lemma accepted_reinterpret [simp]: "accepted (reinterpret r) = r"
  by (cases r) (simp_all add: reinterpret_def)

definition sized :: "nat \<Rightarrow> (u8 list \<Rightarrow> 'e option) \<Rightarrow> u8 list \<Rightarrow> 'e option" where
  "sized n d bs = (if length bs < n then None else d bs)"

lemma encode_lengths:
  "ExecEvent_ok x \<Longrightarrow> length (encode_exec x) = EXEC_SIZE"
  "FileEvent_ok f \<Longrightarrow> length (encode_file f) = FILE_SIZE"
  "length (encode_net n) = NET_SIZE"
  "SecurityEvent_ok s \<Longrightarrow> length (encode_security s) = SECURITY_SIZE"
  by (simp_all add: encode_exec_def encode_file_def encode_net_def encode_security_def
      ExecEvent_ok_def FileEvent_ok_def SecurityEvent_ok_def ARGS_LEN_def PATH_LEN_def
      EXEC_SIZE_def FILE_SIZE_def NET_SIZE_def SECURITY_SIZE_def)

lemma read_exec_encode: "ExecEvent_ok x \<Longrightarrow> read_exec (encode_exec x @ rest) = x"
  by (simp add: read_exec_def encode_exec_def ExecEvent_ok_def ARGS_LEN_def layout)

lemma read_file_encode: "FileEvent_ok f \<Longrightarrow> read_file (encode_file f @ rest) = Some f"
  by (simp add: read_file_def encode_file_def FileEvent_ok_def PATH_LEN_def layout)

lemma read_net_encode: "read_net (encode_net n @ rest) = Some n"
  by (simp add: read_net_def encode_net_def layout)

lemma read_security_encode: "SecurityEvent_ok s \<Longrightarrow> read_security (encode_security s @ rest) = Some s"
  by (simp add: read_security_def encode_security_def SecurityEvent_ok_def layout)

interpretation exec_wire: wire_layout EXEC_SIZE ExecEvent_ok encode_exec
  "\<lambda>bs. accepted (parse_exec_event bs)"
  by unfold_locales (auto simp: encode_lengths parse_exec_event_def read_exec_encode)

interpretation file_wire: wire_layout FILE_SIZE FileEvent_ok encode_file
  "sized FILE_SIZE read_file"
  by unfold_locales (auto simp: encode_lengths sized_def read_file_encode)

interpretation net_wire: wire_layout NET_SIZE "\<lambda>_. True" encode_net "sized NET_SIZE read_net"
  by unfold_locales (auto simp: encode_lengths sized_def read_net_encode)

lemma encode_security_kind: "encode_security s ! 8 = SecurityEventKind_as_u8 (sv_kind s)"
  by (simp add: encode_security_def layout)

interpretation security_wire: wire_layout SECURITY_SIZE SecurityEvent_ok encode_security
  "\<lambda>bs. accepted (parse_security_event bs)"
proof
  fix e :: SecurityEvent and rest
  assume ok: "SecurityEvent_ok e"
  then have "(encode_security e @ rest) ! 8 = SecurityEventKind_as_u8 (sv_kind e)"
    by (simp add: nth_append encode_lengths SECURITY_SIZE_def encode_security_kind)
  with ok show "accepted (parse_security_event (encode_security e @ rest)) = Some e"
    by (simp add: parse_security_event_def encode_lengths read_security_encode)
qed (auto simp: encode_lengths parse_security_event_def)

section \<open>What the parsers accept\<close>

text \<open>The security parser checks the byte it reinterprets.\<close>

lemma security_defined: "parse_security_event bs \<noteq> Undefined"
  by (auto simp: parse_security_event_def read_security_def reinterpret_def SECURITY_SIZE_def
      split: option.splits)

lemma exec_defined: "parse_exec_event bs \<noteq> Undefined"
  by (simp add: parse_exec_event_def)

text \<open>The file parser checks a padding byte: a record it should take is rejected when the
  padding is no kind, and a record of no kind gets through when the padding is one.\<close>

lemma file_padding_decides:
  assumes "length data = FILE_SIZE"
  shows "parse_file_event data = Rejected \<longleftrightarrow> EventKind_try_from_u8 (data ! 303) = None"
  using assms by (auto simp: parse_file_event_def reinterpret_def FILE_SIZE_def split: option.splits)

lemma file_zero_padding_rejected: "FileEvent_ok f \<Longrightarrow> parse_file_event (encode_file f) = Rejected"
proof -
  assume ok: "FileEvent_ok f"
  then have "encode_file f ! 303 = 0"
    by (simp add: encode_file_def FileEvent_ok_def PATH_LEN_def layout pad_def)
  with ok show ?thesis
    by (simp add: file_padding_decides encode_lengths EventKind_try_from_u8_None)
qed

lemma file_undefined:
  assumes "length data = FILE_SIZE" "EventKind_try_from_u8 (data ! 303) \<noteq> None"
    "EventKind_try_from_u8 (data ! 296) = None"
  shows "parse_file_event data = Undefined"
  using assms by (simp add: parse_file_event_def reinterpret_def FILE_SIZE_def read_file_def)

text \<open>A network record has 48 bytes and the parser asks for a kind at offset 73.\<close>

lemma net_always_rejected: "length data = NET_SIZE \<Longrightarrow> parse_net_event data = Rejected"
  by (simp add: parse_net_event_def NET_SIZE_def NET_EVENT_KIND_OFFSET_def)

section \<open>Conversions\<close>

text \<open>At most one of the three views of a security event is taken.\<close>

lemma security_views:
  "(security_to_exec e \<noteq> None) = (sv_kind e = SkExec)"
  "(security_to_file e \<noteq> None) = (sv_kind e \<in> {SkFile, SkMmap})"
  "(security_to_net e \<noteq> None) = (sv_kind e \<in> {SkConnect, SkNetTransfer})"
  by (cases "sv_kind e"; simp add: security_to_exec_def security_to_file_def file_kind_def
      security_to_net_def Let_def)+

lemma security_exec_ok: "SecurityEvent_ok s \<Longrightarrow> security_to_exec s = Some x \<Longrightarrow> ExecEvent_ok x"
  by (auto simp: security_to_exec_def Let_def ExecEvent_ok_def zero_extend_def data_exec_def
      at_off_def SecurityEvent_ok_def ARGS_LEN_def split: if_splits)

lemma security_file_ok: "SecurityEvent_ok s \<Longrightarrow> security_to_file s = Some f \<Longrightarrow> FileEvent_ok f"
  by (auto simp: security_to_file_def Let_def FileEvent_ok_def zero_extend_def data_file_def
      at_off_def SecurityEvent_ok_def PATH_LEN_def split: option.splits)

text \<open>The byte count saturates instead of being cut to its low 32 bits.\<close>

lemma unat_ucast_min: "unat (ucast (min b 4294967295) :: u32) = min (unat b) (2 ^ 32 - 1)"
  for b :: u64
proof -
  let ?m = "4294967295 :: u64"
  have u: "unat (min b ?m) = min (unat b) (2 ^ 32 - 1)" by (simp add: unat_min_word)
  then have "unat (min b ?m) < 2 ^ 32" by simp
  then have "unat (ucast (min b ?m) :: u32) = unat (min b ?m)"
    by (simp add: unsigned_ucast_eq take_bit_nat_eq_self)
  with u show ?thesis by simp
qed

lemma security_net_size:
  "security_to_net s = Some n \<Longrightarrow>
   unat (ne_data_size n) = min (unat (nd_bytes (data_net (sv_data s)))) (2 ^ 32 - 1)"
  by (auto simp: security_to_net_def Let_def unat_ucast_min split: option.splits)

lemma security_cgroup:
  "security_to_exec s = Some x \<Longrightarrow> ex_cgroup_id x = sv_cgroup_id s"
  "security_to_file s = Some f \<Longrightarrow> fe_cgroup_id f = sv_cgroup_id s"
  "security_to_net s = Some n \<Longrightarrow> ne_cgroup_id n = sv_cgroup_id s"
  by (auto simp: security_to_exec_def security_to_file_def security_to_net_def Let_def
      split: option.splits if_splits)

section \<open>Properties\<close>

text \<open>A security event reads back field for field from the bytes of its layout, whatever bytes
  follow it, and a record cut short is rejected.\<close>

theorem security_event_roundtrip:
  "SecurityEvent_ok s \<Longrightarrow>
   accepted (parse_security_event (encode_security s @ rest)) = Some s
   \<and> (n < SECURITY_SIZE \<longrightarrow> accepted (parse_security_event (take n (encode_security s))) = None)"
  using security_wire.decode_encode[of s rest] security_wire.truncated[of s n] by blast

theorem security_event_roundtrip_witness:
  "accepted (parse_security_event (encode_security
     \<lparr>sv_ts = 5, sv_kind = SkMmap, sv_pid = 7, sv_tgid = 8, sv_uid = 0, sv_gid = 0, sv_cgroup_id = 42,
      sv_confidence = 9, sv_data = replicate 128 1, sv_comm = replicate 16 2\<rparr> @ [1, 2])) =
   Some \<lparr>sv_ts = 5, sv_kind = SkMmap, sv_pid = 7, sv_tgid = 8, sv_uid = 0, sv_gid = 0,
      sv_cgroup_id = 42, sv_confidence = 9, sv_data = replicate 128 1, sv_comm = replicate 16 2\<rparr>"
  using security_event_roundtrip[of "\<lparr>sv_ts = 5, sv_kind = SkMmap, sv_pid = 7, sv_tgid = 8,
      sv_uid = 0, sv_gid = 0, sv_cgroup_id = 42, sv_confidence = 9, sv_data = replicate 128 1,
      sv_comm = replicate 16 2\<rparr>" "[1, 2]" 0]
  by (simp add: SecurityEvent_ok_def)

text \<open>An exec event reads back from its bytes; no byte string makes the exec or the security
  parser reinterpret a discriminant that is no variant.\<close>

theorem exec_event_roundtrip:
  "ExecEvent_ok x \<Longrightarrow>
   accepted (parse_exec_event (encode_exec x @ rest)) = Some x
   \<and> parse_exec_event bs \<noteq> Undefined \<and> parse_security_event bs \<noteq> Undefined"
  using exec_wire.decode_encode[of x rest] exec_defined[of bs] security_defined[of bs] by blast

theorem exec_event_roundtrip_witness:
  "accepted (parse_exec_event (encode_exec \<lparr>ex_timestamp_ns = 1, ex_pid = 7, ex_tgid = 7, ex_uid = 0,
      ex_gid = 0, ex_cgroup_id = 42, ex_ppid = 1, ex_command = replicate 16 3,
      ex_argv = replicate 256 4\<rparr> @ [])) =
   Some \<lparr>ex_timestamp_ns = 1, ex_pid = 7, ex_tgid = 7, ex_uid = 0, ex_gid = 0, ex_cgroup_id = 42,
      ex_ppid = 1, ex_command = replicate 16 3, ex_argv = replicate 256 4\<rparr>"
  using exec_event_roundtrip[of "\<lparr>ex_timestamp_ns = 1, ex_pid = 7, ex_tgid = 7, ex_uid = 0,
      ex_gid = 0, ex_cgroup_id = 42, ex_ppid = 1, ex_command = replicate 16 3,
      ex_argv = replicate 256 4\<rparr>" "[]" "[]"]
  by (simp add: ExecEvent_ok_def ARGS_LEN_def)

text \<open>The file parser checks the last padding byte and not the kind: a file record is rejected
  exactly when that byte is no kind (a well-formed record with zero padding is), and a record
  without a valid kind is reinterpreted, which is undefined, when the byte happens to be one.\<close>

theorem file_parser_checks_padding:
  assumes "length data = FILE_SIZE"
  shows "(parse_file_event data = Rejected \<longleftrightarrow> EventKind_try_from_u8 (data ! 303) = None)
    \<and> (parse_file_event data = Undefined \<longleftrightarrow>
         EventKind_try_from_u8 (data ! 303) \<noteq> None \<and> EventKind_try_from_u8 (data ! 296) = None)"
  using file_padding_decides[OF assms] assms
  by (auto simp: parse_file_event_def reinterpret_def FILE_SIZE_def read_file_def split: option.splits)

theorem file_parser_checks_padding_witness:
  "parse_file_event (encode_file \<lparr>fe_timestamp_ns = 1, fe_pid = 7, fe_tgid = 7, fe_cgroup_id = 42,
      fe_command = replicate 16 0, fe_path = replicate 256 0, fe_kind = KMmap\<rparr>) = Rejected"
proof -
  let ?f = "\<lparr>fe_timestamp_ns = 1, fe_pid = 7, fe_tgid = 7, fe_cgroup_id = 42,
      fe_command = replicate 16 0, fe_path = replicate 256 0, fe_kind = KMmap\<rparr>"
  have "FileEvent_ok ?f" by (simp add: FileEvent_ok_def PATH_LEN_def)
  then have l: "length (encode_file ?f) = FILE_SIZE" by (rule encode_lengths)
  moreover have "encode_file ?f ! 303 = 0" by (simp add: encode_file_def layout pad_def)
  ultimately show ?thesis
    using file_parser_checks_padding[OF l] by (simp add: EventKind_try_from_u8_None)
qed

text \<open>The network parser looks for the kind at an offset past the end of the structure: a
  record of the structure's size is rejected whatever it holds.\<close>

theorem net_records_are_rejected:
  "length data = NET_SIZE \<Longrightarrow> parse_net_event data = Rejected"
  by (rule net_always_rejected)

theorem net_records_are_rejected_witness:
  "parse_net_event (encode_net \<lparr>ne_timestamp_ns = 1, ne_pid = 7, ne_tgid = 7, ne_cgroup_id = 42,
     ne_saddr = 1, ne_daddr = 2, ne_sport = 3, ne_dport = 443, ne_family = 2, ne_protocol = 6,
     ne_kind = KConnect, ne_data_size = 10\<rparr>) = Rejected"
  by (rule net_records_are_rejected) (rule encode_lengths)

text \<open>A security event has at most one typed view: exec for Exec, file for File and Mmap, net
  for Connect and NetTransfer; the views keep the cgroup, and the byte count of the network view
  saturates at the largest 32-bit number.\<close>

theorem security_views_exclusive:
  "(security_to_exec e \<noteq> None) = (sv_kind e = SkExec)
   \<and> (security_to_file e \<noteq> None) = (sv_kind e \<in> {SkFile, SkMmap})
   \<and> (case security_to_net e of
        None \<Rightarrow> sv_kind e \<notin> {SkConnect, SkNetTransfer}
      | Some n \<Rightarrow> sv_kind e \<in> {SkConnect, SkNetTransfer} \<and> ne_cgroup_id n = sv_cgroup_id e
          \<and> unat (ne_data_size n) = min (unat (nd_bytes (data_net (sv_data e)))) (2 ^ 32 - 1))"
  using security_views[of e] security_net_size[of e] security_cgroup(3)[of e]
  by (auto split: option.splits)

end
