(* ===== verification/Graph_Types.thy ===== *)
theory Graph_Types
  imports Common Formatting
begin

text \<open>
  The data of \<open>runtime_attack_graph_v2.rs\<close>: nodes, edges, paths and graph updates, with
  the functions on one path (ids, summary, enforcement criteria, confidence). The graph
  itself is a petgraph structure and not part of this theory.
\<close>

record AttackGraphConfig =
  ac_mmap_window_secs :: u64
  ac_network_window_secs :: u64
  ac_min_bytes_threshold :: u64
  ac_top_k :: nat
  ac_min_enforcement_confidence :: f32
  ac_min_enforcement_depth :: nat
  ac_dedup_enabled :: bool

definition AttackGraphConfig_default :: AttackGraphConfig where
  "AttackGraphConfig_default =
     \<lparr>ac_mmap_window_secs = 300, ac_network_window_secs = 30, ac_min_bytes_threshold = 1024,
      ac_top_k = 3, ac_min_enforcement_confidence = lit32 (8/10), ac_min_enforcement_depth = 3,
      ac_dedup_enabled = True\<rparr>"

record VulnerabilityNode =
  vn_cve_id :: string
  vn_package :: string
  vn_cvss :: f32
  vn_epss :: f32
  vn_kev :: bool

datatype RuntimeNode =
  NProcess u32 string u64
| NLibrary string "string list"
| NNetwork string u16 string
| NVulnerability VulnerabilityNode
| NTechnique string "string option"

fun node_id :: "RuntimeNode \<Rightarrow> string" where
  "node_id (NProcess pid name cg) = ''proc:'' @ dec_w pid"
| "node_id (NLibrary path cves) = ''lib:'' @ path"
| "node_id (NNetwork ip port proto) = ''net:'' @ ip @ '':'' @ dec_w port"
| "node_id (NVulnerability v) = ''vuln:'' @ vn_cve_id v"
| "node_id (NTechnique name tac) = ''tech:'' @ name"

fun node_type :: "RuntimeNode \<Rightarrow> string" where
  "node_type (NProcess pid name cg) = ''process''"
| "node_type (NLibrary path cves) = ''library''"
| "node_type (NNetwork ip port proto) = ''network''"
| "node_type (NVulnerability v) = ''vulnerability''"
| "node_type (NTechnique name tac) = ''technique''"

datatype RuntimeEdge =
  EProcessCreated u64 f32
| ELibraryLoaded u64 f32
| EVulnerable f32
| ENetworkConnection u64 u64 u32 f32
| EExploitationAttempt f32 string
| EUsesTechnique f32

fun is_burst :: "RuntimeEdge \<Rightarrow> bool" where
  "is_burst (ENetworkConnection t b n c) = (1 < n)"
| "is_burst _ = False"

fun edge_timestamp_ns :: "RuntimeEdge \<Rightarrow> u64 option" where
  "edge_timestamp_ns (EProcessCreated t c) = Some t"
| "edge_timestamp_ns (ELibraryLoaded t c) = Some t"
| "edge_timestamp_ns (ENetworkConnection t b n c) = Some t"
| "edge_timestamp_ns _ = None"

record AttackPath =
  ap_path_id :: string
  ap_nodes :: "RuntimeNode list"
  ap_edges :: "(nat \<times> nat \<times> RuntimeEdge) list"
  ap_confidence :: f32
  ap_risk_score :: f32
  ap_time_window_secs :: u64
  ap_indicators :: "string list"
  ap_depth :: nat
  ap_signal_types :: "string list"
  ap_total_bytes :: u64
  ap_rank :: "nat option"

record AttackPathSummary =
  as_path_id :: string
  as_node_types :: "string list"
  as_node_count :: nat
  as_depth :: nat
  as_confidence :: f32
  as_risk_score :: f32
  as_total_bytes :: u64
  as_signal_types :: "string list"
  as_indicators :: "string list"
  as_rank :: "nat option"
  as_is_burst :: bool

definition to_summary :: "AttackPath \<Rightarrow> AttackPathSummary" where
  "to_summary p =
     \<lparr>as_path_id = ap_path_id p, as_node_types = map node_type (ap_nodes p),
      as_node_count = length (ap_nodes p), as_depth = ap_depth p,
      as_confidence = ap_confidence p, as_risk_score = ap_risk_score p,
      as_total_bytes = ap_total_bytes p, as_signal_types = ap_signal_types p,
      as_indicators = ap_indicators p, as_rank = ap_rank p,
      as_is_burst = list_ex (\<lambda>(i, j, e). is_burst e) (ap_edges p)\<rparr>"

definition meets_enforcement_criteria :: "AttackGraphConfig \<Rightarrow> AttackPath \<Rightarrow> bool" where
  "meets_enforcement_criteria cfg p \<longleftrightarrow>
     ac_min_enforcement_depth cfg \<le> ap_depth p
     \<and> fl_ge (ap_confidence p) (ac_min_enforcement_confidence cfg)
     \<and> 2 \<le> length (ap_signal_types p)"

record AttackPathMetrics =
  am_paths_total :: u64
  am_high_confidence_paths :: u64
  am_avg_confidence :: f32
  am_paths_per_pid :: "(u32 \<times> u64) list"
  am_burst_events_collapsed :: u64

definition AttackPathMetrics_default :: AttackPathMetrics where
  "AttackPathMetrics_default =
     \<lparr>am_paths_total = 0, am_high_confidence_paths = 0, am_avg_confidence = Fin 0,
      am_paths_per_pid = [], am_burst_events_collapsed = 0\<rparr>"

datatype GraphUpdate =
  EdgeAdded string string RuntimeEdge
| EdgeUpdated string string u64
| GConfidenceChanged string f32 f32
| NewPath AttackPath

section \<open>Confidence of a path\<close>

definition is_library_edge :: "RuntimeEdge \<Rightarrow> bool" where
  "is_library_edge e \<longleftrightarrow> (case e of ELibraryLoaded t c \<Rightarrow> True | _ \<Rightarrow> False)"

definition is_network_edge :: "RuntimeEdge \<Rightarrow> bool" where
  "is_network_edge e \<longleftrightarrow> (case e of ENetworkConnection t b n c \<Rightarrow> True | _ \<Rightarrow> False)"

definition is_strong_edge :: "RuntimeEdge \<Rightarrow> bool" where
  "is_strong_edge e \<longleftrightarrow>
     (case e of ENetworkConnection t b n c \<Rightarrow> fl_ge c (lit32 (9/10)) | _ \<Rightarrow> False)"

text \<open>The accumulation of \<open>calculate_path_confidence\<close>, one term per statement.\<close>

definition raw_path_confidence :: "RuntimeNode list \<Rightarrow> (nat \<times> nat \<times> RuntimeEdge) list \<Rightarrow> Finding \<Rightarrow> f32" where
  "raw_path_confidence nodes edges f =
     (let es = map (\<lambda>(i, j, e). e) edges;
          c = fadd F32 (Fin 0) (lit32 (3/10));
          c = (if 4 \<le> length nodes then fadd F32 c (lit32 (2/10))
               else if 3 \<le> length nodes then fadd F32 c (lit32 (1/10)) else c);
          c = (if list_ex is_library_edge es \<and> list_ex is_network_edge es
               then fadd F32 c (lit32 (2/10)) else c);
          c = (if rs_kev (fd_signal f) then fadd F32 c (lit32 (15/100)) else c);
          c = (if fl_ge (rs_epss (fd_signal f)) (lit32 (7/10)) then fadd F32 c (lit32 (1/10)) else c);
          c = (if length nodes < 3 then fsub F32 c (lit32 (2/10)) else c)
      in if length (filter is_strong_edge es) = 0 \<and> edges \<noteq> []
         then fsub F32 c (lit32 (1/10)) else c)"

definition calculate_path_confidence ::
  "RuntimeNode list \<Rightarrow> (nat \<times> nat \<times> RuntimeEdge) list \<Rightarrow> Finding \<Rightarrow> f32" where
  "calculate_path_confidence nodes edges f =
     fclamp (raw_path_confidence nodes edges f) (Fin 0) (Fin 1)"

definition ag_library_matches_package :: "string \<Rightarrow> string \<Rightarrow> bool" where
  "ag_library_matches_package path package =
     (let path_lc = to_ascii_lowercase path; package_lc = to_ascii_lowercase package;
          file_name = last (split_on (CHR ''/'') path_lc);
          lib_stem = until ''.so'' (trim_start_matches ''lib'' file_name)
      in contains path_lc package_lc \<or> contains package_lc file_name
         \<or> contains package_lc lib_stem
         \<or> package_lc = ''openssl'' \<and> lib_stem = ''ssl''
         \<or> package_lc = ''openssl'' \<and> lib_stem = ''crypto'')"

end
