(* ===== verification/Streaming_Engine.thy ===== *)
theory Streaming_Engine
  imports Interfaces Graph_Types
begin

text \<open>
  \<open>streaming_engine.rs\<close>: the events of the bus, the state behind the alerts and the handler
  of each event. What a handler prints or sends to the webhooks is returned as a list of
  outputs, in order; the readings of the monotonic clock (nanoseconds) and of \<open>Utc::now\<close>
  (seconds) are arguments.
\<close>

section \<open>Configuration and events\<close>

record StreamingConfig =
  sn_output_interval_ms :: u64
  sn_alert_threshold :: f32
  sn_risk_escalation_threshold :: f32
  sn_channel_buffer_size :: nat
  sn_stream_json :: bool
  sn_top_k :: nat
  sn_export_graph :: bool
  sn_graph_export_interval_secs :: u64

definition StreamingConfig_default :: StreamingConfig where
  "StreamingConfig_default =
     \<lparr>sn_output_interval_ms = 1000, sn_alert_threshold = lit32 (8/10),
      sn_risk_escalation_threshold = lit32 (7/10), sn_channel_buffer_size = 1000,
      sn_stream_json = True, sn_top_k = 3, sn_export_graph = True,
      sn_graph_export_interval_secs = 60\<rparr>"

datatype StreamEvent =
  BpfEvent u64 string string
| SGraphUpdate GraphUpdate
| SPathDetected AttackPath
| SConfidenceChanged string f32 f32
| SRiskEscalated string f32
| SShutdown

datatype AlertSeverity = ACritical | AHigh | AMedium | ALow

datatype StreamingOutput =
  PathUpdated string f32 string string int f32
| PathDetected string f32 "string list" string int f32
| Alert AlertSeverity string string f32 int "string list"
| GraphExported string nat nat int
| Stats u64 u64 f32 u64 int

text \<open>A JSON line or a text line on standard output, or a call of the webhook manager.\<close>

datatype stream_out = OJson StreamingOutput | OLine string | OWebhook AttackPath string

section \<open>State\<close>

record StreamingState =
  sm_path_confidence :: "(string \<times> f32) list"
  sm_path_risk :: "(string \<times> f32) list"
  sm_events_processed :: u64
  sm_last_alert :: "(string \<times> int) list"
  sm_alert_cooldown :: int

definition StreamingState_new :: StreamingState where
  "StreamingState_new =
     \<lparr>sm_path_confidence = [], sm_path_risk = [], sm_events_processed = 0, sm_last_alert = [],
      sm_alert_cooldown = 30 * 10 ^ 9\<rparr>"

definition lookup_or_zero :: "(string \<times> f32) list \<Rightarrow> string \<Rightarrow> f32" where
  "lookup_or_zero m k = (case map_of m k of Some v \<Rightarrow> v | None \<Rightarrow> Fin 0)"

record alert_clock =
  ta_check :: int
  ta_insert :: int

definition in_cooldown :: "int \<Rightarrow> string \<Rightarrow> StreamingState \<Rightarrow> bool" where
  "in_cooldown now path_id s =
     (case map_of (sm_last_alert s) path_id of
        Some last_time \<Rightarrow> max 0 (now - last_time) < sm_alert_cooldown s | None \<Rightarrow> False)"

definition should_alert ::
  "alert_clock \<Rightarrow> string \<Rightarrow> f32 \<Rightarrow> StreamingState \<Rightarrow> bool \<times> StreamingState" where
  "should_alert t path_id new_confidence s =
     (let old_confidence = lookup_or_zero (sm_path_confidence s) path_id;
          alert = fl_lt old_confidence (lit32 (8/10)) \<and> fl_ge new_confidence (lit32 (8/10))
      in if alert \<and> in_cooldown (ta_check t) path_id s then (False, s)
         else (let s = (if alert
                        then s\<lparr>sm_last_alert := AList.update path_id (ta_insert t) (sm_last_alert s)\<rparr>
                        else s)
               in (alert, s\<lparr>sm_path_confidence :=
                              AList.update path_id new_confidence (sm_path_confidence s)\<rparr>)))"

definition check_escalation :: "string \<Rightarrow> f32 \<Rightarrow> StreamingState \<Rightarrow> f32 option \<times> StreamingState" where
  "check_escalation path_id new_risk s =
     (let delta = fsub F32 new_risk (lookup_or_zero (sm_path_risk s) path_id);
          s = s\<lparr>sm_path_risk := AList.update path_id new_risk (sm_path_risk s)\<rparr>
      in (if fl_gt delta (lit32 (2/10)) then Some delta else None, s))"

section \<open>Handlers\<close>

text \<open>The readings of \<open>Utc::now().timestamp()\<close> for the update and for the alert.\<close>

record utc_clock =
  tu_update :: int
  tu_alert :: int

record StreamingEngine =
  en_config :: StreamingConfig
  en_webhooks :: bool
  en_scanner_id :: string

definition arrow :: string where "arrow = [CHR 0xE2, CHR 0x86, CHR 0x92]"

definition strip_lib :: "string \<Rightarrow> string" where
  "strip_lib s = (if starts_with s ''lib:'' then drop 4 s else s)"

fun handle_graph_update :: "StreamingEngine \<Rightarrow> GraphUpdate \<Rightarrow> stream_out list" where
  "handle_graph_update en (EdgeAdded from to edge) =
     (if sn_stream_json (en_config en)
      then if starts_with from ''proc:'' \<and> starts_with to ''lib:''
           then [OLine (''[STREAM] mmap '' @ arrow @ '' '' @ strip_lib to)]
           else if starts_with from ''proc:'' \<and> starts_with to ''net:''
           then [OLine (''[STREAM] Network connection detected: '' @ to)] else []
      else [])"
| "handle_graph_update en (EdgeUpdated from to delta_bytes) =
     (if sn_stream_json (en_config en) \<and> 1024 < delta_bytes
      then [OLine (''[STREAM] Data transfer: +'' @ dec_w delta_bytes @ '' bytes'')] else [])"
| "handle_graph_update en (GConfidenceChanged cve old new) = []"
| "handle_graph_update en (NewPath path) = []"

definition path_severity :: "f32 \<Rightarrow> AlertSeverity" where
  "path_severity c =
     (if fl_ge c (lit32 (9/10)) then ACritical
      else if fl_ge c (lit32 (8/10)) then AHigh else AMedium)"

definition handle_path_detected ::
  "StreamingEngine \<Rightarrow> utc_clock \<Rightarrow> AttackPath \<Rightarrow> StreamingState \<Rightarrow> stream_out list \<times> StreamingState" where
  "handle_path_detected en now path s =
     (let summary = to_summary path;
          node_names = map node_id (ap_nodes path);
          trigger = join '' + '' (ap_signal_types path);
          s = s\<lparr>sm_path_confidence :=
                  AList.update (ap_path_id path) (ap_confidence path) (sm_path_confidence s),
                sm_path_risk := AList.update (ap_path_id path) (ap_risk_score path) (sm_path_risk s)\<rparr>;
          json = sn_stream_json (en_config en);
          detected = (if json
             then [OJson (PathDetected (ap_path_id path) (ap_confidence path) node_names trigger
                            (tu_update now) (ap_risk_score path))] else []);
          alert = Alert (path_severity (ap_confidence path)) (ap_path_id path)
             (''HIGH RISK PATH ACTIVATED: '' @ join ('' '' @ arrow @ '' '') (as_node_types summary)
              @ '' (confidence: '' @ fmt_fixed 2 (ap_confidence path) @ '')'')
             (ap_confidence path) (tu_alert now) (ap_indicators path);
          alerts = (if fl_ge (ap_confidence path) (sn_alert_threshold (en_config en))
             then (if json then [OJson alert] else [])
                  @ (if en_webhooks en then [OWebhook path (en_scanner_id en)] else [])
             else [])
      in (detected @ alerts, s))"

text \<open>\<open>{delta:+.2}\<close>: the sign is printed for every number.\<close>

definition fmt_signed :: "nat \<Rightarrow> fl \<Rightarrow> string" where
  "fmt_signed n a =
     (case a of Fin x \<Rightarrow> (if x < 0 then [] else ''+'') @ fmt_fixed n a
      | PInf \<Rightarrow> ''+'' @ fmt_fixed n a | _ \<Rightarrow> fmt_fixed n a)"

definition handle_confidence_change ::
  "StreamingEngine \<Rightarrow> utc_clock \<Rightarrow> alert_clock \<Rightarrow> string \<Rightarrow> f32 \<Rightarrow> f32 \<Rightarrow> StreamingState
   \<Rightarrow> stream_out list \<times> StreamingState" where
  "handle_confidence_change en now t path_id old new s =
     (let delta = fsub F32 new old;
          json = sn_stream_json (en_config en);
          updated = (if json
             then OJson (PathUpdated path_id new (fmt_signed 2 delta) ''signal accumulation''
                     (tu_update now) (Fin 0))
                  # (if fl_gt (fabs delta) (lit32 (1/10))
                     then [OLine (''[UPDATE] Path confidence '' @ fmt_fixed 2 old @ '' '' @ arrow
                                  @ '' '' @ fmt_fixed 2 new)] else [])
             else []);
          (alert, s) = should_alert t path_id new s;
          alerts = (if alert \<and> json
             then [OJson (Alert (if fl_ge new (lit32 (9/10)) then ACritical else AHigh) path_id
                    (''CONFIDENCE THRESHOLD CROSSED: '' @ fmt_fixed 2 old @ '' '' @ arrow @ '' ''
                     @ fmt_fixed 2 new) new (tu_alert now) [''confidence_threshold_crossed''])]
             else [])
      in (updated @ alerts, s))"

definition handle_risk_escalation :: "StreamingEngine \<Rightarrow> string \<Rightarrow> f32 \<Rightarrow> stream_out list" where
  "handle_risk_escalation en path_id risk_delta =
     (if sn_stream_json (en_config en)
      then [OLine (''[ALERT] Risk escalation for '' @ path_id @ '': +'' @ fmt_fixed 2 risk_delta)]
      else [])"

definition process_event ::
  "StreamingEngine \<Rightarrow> utc_clock \<Rightarrow> alert_clock \<Rightarrow> StreamEvent \<Rightarrow> StreamingState
   \<Rightarrow> stream_out list \<times> StreamingState" where
  "process_event en now t e s =
     (let s = s\<lparr>sm_events_processed := sm_events_processed s + 1\<rparr>
      in case e of
           SGraphUpdate u \<Rightarrow> (handle_graph_update en u, s)
         | SPathDetected path \<Rightarrow> handle_path_detected en now path s
         | SConfidenceChanged p old new \<Rightarrow> handle_confidence_change en now t p old new s
         | SRiskEscalated p d \<Rightarrow> (handle_risk_escalation en p d, s)
         | BpfEvent ts k d \<Rightarrow> ([], s)
         | SShutdown \<Rightarrow> ([], s))"

definition emit_stats :: "StreamingEngine \<Rightarrow> int \<Rightarrow> AttackPathMetrics \<Rightarrow> StreamingState \<Rightarrow> stream_out list" where
  "emit_stats en now m s =
     (if sn_stream_json (en_config en)
      then [OJson (Stats (am_paths_total m) (am_high_confidence_paths m) (am_avg_confidence m)
              (sm_events_processed s) now)]
      else [])"

text \<open>The loop of \<open>run\<close>: what its \<open>select!\<close> took, in order. A shutdown event ends it.\<close>

datatype loop_event = LRecv utc_clock alert_clock StreamEvent | LTick int AttackPathMetrics

fun stream_run :: "StreamingEngine \<Rightarrow> StreamingState \<Rightarrow> loop_event list \<Rightarrow> stream_out list \<times> StreamingState" where
  "stream_run en s [] = ([], s)"
| "stream_run en s (LTick now m # es) =
     (let (outs, s') = stream_run en s es in (emit_stats en now m s @ outs, s'))"
| "stream_run en s (LRecv now t e # es) =
     (if e = SShutdown then ([], s)
      else (let (o1, s1) = process_event en now t e s; (o2, s2) = stream_run en s1 es
            in (o1 @ o2, s2)))"

section \<open>Alerts\<close>

lemma should_alert_iff:
  "fst (should_alert t p c s) \<longleftrightarrow>
     fl_lt (lookup_or_zero (sm_path_confidence s) p) (lit32 (8/10)) \<and> fl_ge c (lit32 (8/10))
     \<and> \<not> in_cooldown (ta_check t) p s"
  by (auto simp: should_alert_def Let_def)

lemma should_alert_state:
  "sm_last_alert (snd (should_alert t p c s)) =
     (if fst (should_alert t p c s) then AList.update p (ta_insert t) (sm_last_alert s)
      else sm_last_alert s)"
  "sm_alert_cooldown (snd (should_alert t p c s)) = sm_alert_cooldown s"
  "sm_events_processed (snd (should_alert t p c s)) = sm_events_processed s"
  "sm_path_risk (snd (should_alert t p c s)) = sm_path_risk s"
  by (auto simp: should_alert_def Let_def)

text \<open>A crossing inside the cooldown is not recorded: the old confidence stays.\<close>

lemma suppressed_crossing:
  "fl_lt (lookup_or_zero (sm_path_confidence s) p) (lit32 (8/10)) \<Longrightarrow> fl_ge c (lit32 (8/10)) \<Longrightarrow>
   in_cooldown (ta_check t) p s \<Longrightarrow> should_alert t p c s = (False, s)"
  by (simp add: should_alert_def Let_def)

lemma recorded_confidence:
  "\<not> (fl_lt (lookup_or_zero (sm_path_confidence s) p) (lit32 (8/10)) \<and> fl_ge c (lit32 (8/10))
      \<and> in_cooldown (ta_check t) p s) \<Longrightarrow>
   map_of (sm_path_confidence (snd (should_alert t p c s))) q =
     (if q = p then Some c else map_of (sm_path_confidence s) q)"
  by (auto simp: should_alert_def Let_def)

lemma handle_confidence_state:
  "snd (handle_confidence_change en now t p old new s) = snd (should_alert t p new s)"
  by (simp add: handle_confidence_change_def split_beta Let_def)

lemma path_detected_state:
  "sm_last_alert (snd (handle_path_detected en now path s)) = sm_last_alert s"
  "sm_alert_cooldown (snd (handle_path_detected en now path s)) = sm_alert_cooldown s"
  "sm_events_processed (snd (handle_path_detected en now path s)) = sm_events_processed s"
  by (simp_all add: handle_path_detected_def Let_def)

lemma process_event_keeps:
  "sm_alert_cooldown (snd (process_event en now t e s)) = sm_alert_cooldown s"
  "sm_events_processed (snd (process_event en now t e s)) = sm_events_processed s + 1"
  by (cases e; simp add: process_event_def handle_confidence_state should_alert_state
      path_detected_state)+

text \<open>The rate limit of the crossing alerts of one path.\<close>

datatype bus_event = BusEvent utc_clock alert_clock StreamEvent

fun bus_step :: "StreamingEngine \<Rightarrow> StreamingState \<Rightarrow> bus_event \<Rightarrow> StreamingState" where
  "bus_step en s (BusEvent now t e) = snd (process_event en now t e s)"

fun crossing_alert :: "string \<Rightarrow> StreamingState \<Rightarrow> bus_event \<Rightarrow> bool" where
  "crossing_alert p s (BusEvent now t (SConfidenceChanged q old new)) \<longleftrightarrow>
     q = p \<and> fst (should_alert t q new (s\<lparr>sm_events_processed := sm_events_processed s + 1\<rparr>))"
| "crossing_alert p s _ = False"

fun bus_time :: "bus_event \<Rightarrow> int" where
  "bus_time (BusEvent now t e) = ta_check t"

fun bus_clock_ok :: "bus_event \<Rightarrow> bool" where
  "bus_clock_ok (BusEvent now t e) \<longleftrightarrow> ta_check t \<le> ta_insert t"

definition alert_gap :: int where "alert_gap = 30 * 10 ^ 9"

definition alert_free_from :: "string \<Rightarrow> StreamingState \<Rightarrow> int option" where
  "alert_free_from p s = map_option (\<lambda>t. t + alert_gap) (map_of (sm_last_alert s) p)"

definition stream_ok :: "StreamingState \<Rightarrow> bool" where
  "stream_ok s \<longleftrightarrow> sm_alert_cooldown s = alert_gap"

lemma bus_last_alert:
  "map_of (sm_last_alert (bus_step en s (BusEvent now t e))) p =
     (if crossing_alert p s (BusEvent now t e) then Some (ta_insert t)
      else map_of (sm_last_alert s) p)"
  by (cases e) (auto simp: process_event_def handle_confidence_state should_alert_state
      path_detected_state)

interpretation alerts: rate_limit "bus_step en" stream_ok "crossing_alert p" bus_time bus_clock_ok
  "alert_free_from p" alert_gap for en p
proof
  fix s ev u
  obtain now t e where ev: "ev = BusEvent now t e" by (cases ev) auto
  show "stream_ok s \<Longrightarrow> bus_clock_ok ev \<Longrightarrow> stream_ok (bus_step en s ev)"
    by (simp add: ev stream_ok_def process_event_keeps)
  show "stream_ok s \<Longrightarrow> crossing_alert p s ev \<Longrightarrow> alert_free_from p s = Some u \<Longrightarrow> u \<le> bus_time ev"
    by (cases e) (auto simp: ev should_alert_iff in_cooldown_def alert_free_from_def stream_ok_def
        alert_gap_def)
  show "stream_ok s \<Longrightarrow> bus_clock_ok ev \<Longrightarrow> crossing_alert p s ev \<Longrightarrow>
    \<exists>u. alert_free_from p (bus_step en s ev) = Some u \<and> bus_time ev + alert_gap \<le> u"
    using bus_last_alert[of en s now t e p] by (simp add: ev alert_free_from_def)
  show "stream_ok s \<Longrightarrow> bus_clock_ok ev \<Longrightarrow> \<not> crossing_alert p s ev \<Longrightarrow>
    alert_free_from p (bus_step en s ev) = alert_free_from p s"
    using bus_last_alert[of en s now t e p] by (simp add: ev alert_free_from_def)
qed (simp add: alert_gap_def)

lemma stream_ok_new [simp]: "stream_ok StreamingState_new"
  by (simp add: stream_ok_def StreamingState_new_def alert_gap_def)

section \<open>Detected paths\<close>

lemma path_alert_iff:
  "(\<exists>sv msg. OJson (Alert sv (ap_path_id path) msg (ap_confidence path) (tu_alert now) (ap_indicators path))
      \<in> set (fst (handle_path_detected en now path s))) \<longleftrightarrow>
     sn_stream_json (en_config en)
     \<and> fl_ge (ap_confidence path) (sn_alert_threshold (en_config en))"
  by (auto simp: handle_path_detected_def Let_def)

lemma path_webhook_iff:
  "OWebhook q sid \<in> set (fst (handle_path_detected en now path s)) \<longleftrightarrow>
     q = path \<and> sid = en_scanner_id en \<and> en_webhooks en
     \<and> fl_ge (ap_confidence path) (sn_alert_threshold (en_config en))"
  by (auto simp: handle_path_detected_def Let_def)

section \<open>The loop\<close>

fun received :: "loop_event list \<Rightarrow> nat" where
  "received [] = 0"
| "received (LTick now m # es) = received es"
| "received (LRecv now t e # es) = (if e = SShutdown then 0 else Suc (received es))"

lemma stream_run_counts:
  "sm_events_processed (snd (stream_run en s es)) = sm_events_processed s + of_nat (received es)"
  by (induction es arbitrary: s rule: received.induct) (simp_all add: split_beta process_event_keeps)

lemma stream_run_after_shutdown:
  "stream_run en s (es @ LRecv now t SShutdown # fs) = stream_run en s (es @ [LRecv now t SShutdown])"
  by (induction es arbitrary: s rule: received.induct) (simp_all add: split_beta)

section \<open>Properties\<close>



text \<open>A crossing inside the cooldown raises no alert and is not recorded: the path keeps its
  old confidence, so a later event that crosses nothing can raise the alert.\<close>

theorem suppressed_crossings_are_forgotten:
  "fl_lt (lookup_or_zero (sm_path_confidence s) p) (lit32 (8/10)) \<Longrightarrow> fl_ge c (lit32 (8/10)) \<Longrightarrow>
   in_cooldown (ta_check t) p s \<Longrightarrow> should_alert t p c s = (False, s)"
  by (rule suppressed_crossing)

theorem suppressed_crossings_are_forgotten_witness:
  "should_alert \<lparr>ta_check = 5, ta_insert = 6\<rparr> ''p'' (Fin 1)
     (StreamingState_new\<lparr>sm_last_alert := [(''p'', 1)]\<rparr>)
   = (False, StreamingState_new\<lparr>sm_last_alert := [(''p'', 1)]\<rparr>)"
proof (rule suppressed_crossings_are_forgotten)
  show "fl_lt (lookup_or_zero (sm_path_confidence (StreamingState_new\<lparr>sm_last_alert := [(''p'', 1)]\<rparr>)) ''p'')
     (lit32 (8/10))" by code_simp
  show "fl_ge (Fin 1) (lit32 (8/10))" by code_simp
  show "in_cooldown (ta_check \<lparr>ta_check = 5, ta_insert = 6\<rparr>) ''p''
     (StreamingState_new\<lparr>sm_last_alert := [(''p'', 1)]\<rparr>)"
    by (simp add: in_cooldown_def StreamingState_new_def)
qed

text \<open>A detected path calls the webhooks exactly when they are configured and its confidence
  reaches the alert threshold.\<close>

theorem path_webhook_threshold:
  "OWebhook q sid \<in> set (fst (handle_path_detected en now path s)) \<longleftrightarrow>
     q = path \<and> sid = en_scanner_id en \<and> en_webhooks en
     \<and> fl_ge (ap_confidence path) (sn_alert_threshold (en_config en))"
  by (rule path_webhook_iff)

text \<open>The loop counts every event it receives before the shutdown, and a shutdown ends it:
  what arrives later changes nothing.\<close>

theorem stream_loop_counts_until_shutdown:
  "sm_events_processed (snd (stream_run en s es)) = sm_events_processed s + of_nat (received es)
   \<and> stream_run en s (es @ LRecv now t SShutdown # fs) = stream_run en s (es @ [LRecv now t SShutdown])"
  by (rule conjI [OF stream_run_counts stream_run_after_shutdown])

end
