(* ===== verification/Event_Consumer.thy ===== *)
theory Event_Consumer
  imports Event_Wire Cgroup Streaming_Engine "HOL-Library.Monad_Syntax"
begin

text \<open>
  The loops of \<open>event_consumer.rs\<close>: ring buffers are drained into batches and the state
  store, and batches are flushed to the event bus. A ring buffer is the list of the records
  not yet taken, oldest first; the bus is the list of what was sent. The world collects what
  the handlers lock: the consumer, the store, the cgroup resolver and the number of
  \<open>inc_events\<close> calls. A step of undefined behaviour has no result (\<open>None\<close>).
\<close>

section \<open>State\<close>

record EventConsumer =
  ek_exec_rb :: "u8 list list option"
  ek_file_rb :: "u8 list list option"
  ek_net_rb :: "u8 list list option"
  ek_security_rb :: "u8 list list option"
  ek_exec_batch :: "ExecEvent list"
  ek_file_batch :: "FileEvent list"
  ek_net_batch :: "NetEvent list"
  ek_batch_size :: nat
  ek_batch_timeout :: int
  ek_last_flush :: int
  ek_events_received :: u64
  ek_events_dropped :: u64
  ek_events_filtered :: u64
  ek_batches_processed :: u64
  ek_event_tx :: "StreamEvent list option"

record world =
  wo_con :: EventConsumer
  wo_store :: StateStore
  wo_resolver :: CgroupResolver
  wo_inc_events :: nat

datatype EventSources =
  Legacy "u8 list list" "u8 list list" "u8 list list"
| Unified "u8 list list"

definition EventConsumer_new :: "int \<Rightarrow> EventSources \<Rightarrow> EventConsumer" where
  "EventConsumer_new now src =
     (let (e, f, n, s) = (case src of
            Legacy e f n \<Rightarrow> (Some e, Some f, Some n, None)
          | Unified s \<Rightarrow> (None, None, None, Some s))
      in \<lparr>ek_exec_rb = e, ek_file_rb = f, ek_net_rb = n, ek_security_rb = s,
          ek_exec_batch = [], ek_file_batch = [], ek_net_batch = [], ek_batch_size = 100,
          ek_batch_timeout = 100 * 10 ^ 6, ek_last_flush = now, ek_events_received = 0,
          ek_events_dropped = 0, ek_events_filtered = 0, ek_batches_processed = 0,
          ek_event_tx = None\<rparr>)"

definition set_event_sender :: "StreamEvent list \<Rightarrow> EventConsumer \<Rightarrow> EventConsumer" where
  "set_event_sender chan c = c\<lparr>ek_event_tx := Some chan\<rparr>"

abbreviation upd_con :: "(EventConsumer \<Rightarrow> EventConsumer) \<Rightarrow> world \<Rightarrow> world" where
  "upd_con f w \<equiv> w\<lparr>wo_con := f (wo_con w)\<rparr>"

definition inc_received :: "world \<Rightarrow> world" where
  "inc_received = upd_con (\<lambda>c. c\<lparr>ek_events_received := ek_events_received c + 1\<rparr>)"

definition inc_dropped :: "world \<Rightarrow> world" where
  "inc_dropped = upd_con (\<lambda>c. c\<lparr>ek_events_dropped := ek_events_dropped c + 1\<rparr>)"

definition inc_filtered :: "world \<Rightarrow> world" where
  "inc_filtered = upd_con (\<lambda>c. c\<lparr>ek_events_filtered := ek_events_filtered c + 1\<rparr>)"

definition inc_events :: "world \<Rightarrow> world" where
  "inc_events w = w\<lparr>wo_inc_events := Suc (wo_inc_events w)\<rparr>"

definition store_exec :: "ExecEvent \<Rightarrow> world \<Rightarrow> world" where
  "store_exec e w =
     (upd_con (\<lambda>c. c\<lparr>ek_exec_batch := ek_exec_batch c @ [e]\<rparr>) w)
       \<lparr>wo_store := apply_exec e (wo_store w)\<rparr>"

definition store_file :: "FileEvent \<Rightarrow> world \<Rightarrow> world" where
  "store_file e w =
     (upd_con (\<lambda>c. c\<lparr>ek_file_batch := ek_file_batch c @ [e]\<rparr>) w)
       \<lparr>wo_store := apply_file e (wo_store w)\<rparr>"

definition store_net :: "NetEvent \<Rightarrow> world \<Rightarrow> world" where
  "store_net e w =
     (upd_con (\<lambda>c. c\<lparr>ek_net_batch := ek_net_batch c @ [e]\<rparr>) w)
       \<lparr>wo_store := apply_net e (wo_store w)\<rparr>"

section \<open>Draining a buffer\<close>

text \<open>
  The loop of \<open>consume_exec_batch\<close>, \<open>consume_file_batch\<close> and \<open>consume_net_batch\<close> over the
  records of one buffer. A filtered event skips the check for a full batch.
\<close>

fun consume_loop ::
  "(u8 list \<Rightarrow> 'e parsed) \<Rightarrow> ('e \<Rightarrow> bool) \<Rightarrow> ('e \<Rightarrow> world \<Rightarrow> world) \<Rightarrow> (EventConsumer \<Rightarrow> bool)
   \<Rightarrow> u8 list list \<Rightarrow> nat \<Rightarrow> world \<Rightarrow> (nat \<times> u8 list list \<times> world) option" where
  "consume_loop parse filt keep full [] count w = Some (count, [], w)"
| "consume_loop parse filt keep full (item # rb) count w =
     (let w = inc_received w
      in case parse item of
           Undefined \<Rightarrow> None
         | Rejected \<Rightarrow>
             (let w = inc_dropped w
              in if full (wo_con w) then Some (count, rb, w)
                 else consume_loop parse filt keep full rb count w)
         | Parsed e \<Rightarrow>
             if filt e then consume_loop parse filt keep full rb count (inc_filtered w)
             else (let w = inc_events (keep e w)
                   in if full (wo_con w) then Some (Suc count, rb, w)
                      else consume_loop parse filt keep full rb (Suc count) w))"

definition exec_full :: "EventConsumer \<Rightarrow> bool" where
  "exec_full c \<longleftrightarrow> ek_batch_size c \<le> length (ek_exec_batch c)"

definition file_full :: "EventConsumer \<Rightarrow> bool" where
  "file_full c \<longleftrightarrow> ek_batch_size c \<le> length (ek_file_batch c)"

definition net_full :: "EventConsumer \<Rightarrow> bool" where
  "net_full c \<longleftrightarrow> ek_batch_size c \<le> length (ek_net_batch c)"

definition consume_exec_batch :: "world \<Rightarrow> (nat \<times> world) option" where
  "consume_exec_batch w =
     (case ek_exec_rb (wo_con w) of
        None \<Rightarrow> Some (0, w)
      | Some rb \<Rightarrow> do {
          (n, rb', w') \<leftarrow> consume_loop parse_exec_event should_filter_exec store_exec exec_full rb 0 w;
          Some (n, upd_con (\<lambda>c. c\<lparr>ek_exec_rb := Some rb'\<rparr>) w') })"

definition consume_file_batch :: "world \<Rightarrow> (nat \<times> world) option" where
  "consume_file_batch w =
     (case ek_file_rb (wo_con w) of
        None \<Rightarrow> Some (0, w)
      | Some rb \<Rightarrow> do {
          (n, rb', w') \<leftarrow> consume_loop parse_file_event should_filter_file store_file file_full rb 0 w;
          Some (n, upd_con (\<lambda>c. c\<lparr>ek_file_rb := Some rb'\<rparr>) w') })"

definition consume_net_batch :: "world \<Rightarrow> (nat \<times> world) option" where
  "consume_net_batch w =
     (case ek_net_rb (wo_con w) of
        None \<Rightarrow> Some (0, w)
      | Some rb \<Rightarrow> do {
          (n, rb', w') \<leftarrow> consume_loop parse_net_event should_filter_net store_net net_full rb 0 w;
          Some (n, upd_con (\<lambda>c. c\<lparr>ek_net_rb := Some rb'\<rparr>) w') })"

text \<open>One security event: the views it has that are not filtered.\<close>

definition take_view :: "'e option \<Rightarrow> ('e \<Rightarrow> bool) \<Rightarrow> ('e \<Rightarrow> world \<Rightarrow> world) \<Rightarrow> bool \<times> world \<Rightarrow> bool \<times> world" where
  "take_view view filt keep = (\<lambda>(accepted, w).
     case view of
       Some e \<Rightarrow> if \<not> filt e then (True, keep e w) else (accepted, w)
     | None \<Rightarrow> (accepted, w))"

definition accept_security :: "SecurityEvent \<Rightarrow> world \<Rightarrow> bool \<times> world" where
  "accept_security e w =
     take_view (security_to_net e) should_filter_net store_net
       (take_view (security_to_file e) should_filter_file store_file
         (take_view (security_to_exec e) should_filter_exec store_exec (False, w)))"

definition any_full :: "EventConsumer \<Rightarrow> bool" where
  "any_full c \<longleftrightarrow> exec_full c \<or> file_full c \<or> net_full c"

fun security_loop :: "u8 list list \<Rightarrow> nat \<Rightarrow> world \<Rightarrow> (nat \<times> u8 list list \<times> world) option" where
  "security_loop [] count w = Some (count, [], w)"
| "security_loop (item # rb) count w =
     (let w = inc_received w
      in case parse_security_event item of
           Undefined \<Rightarrow> None
         | Rejected \<Rightarrow>
             (let w = inc_dropped w
              in if any_full (wo_con w) then Some (count, rb, w) else security_loop rb count w)
         | Parsed e \<Rightarrow>
             (let (accepted, w) = accept_security e w;
                  count = (if accepted then Suc count else count);
                  w = (if accepted then inc_events w else inc_filtered w)
              in if any_full (wo_con w) then Some (count, rb, w) else security_loop rb count w))"

definition consume_security_batch :: "world \<Rightarrow> (nat \<times> world) option" where
  "consume_security_batch w =
     (case ek_security_rb (wo_con w) of
        None \<Rightarrow> Some (0, w)
      | Some rb \<Rightarrow> do {
          (n, rb', w') \<leftarrow> security_loop rb 0 w;
          Some (n, upd_con (\<lambda>c. c\<lparr>ek_security_rb := Some rb'\<rparr>) w') })"

section \<open>Flushing\<close>

definition emit :: "StreamEvent \<Rightarrow> world \<Rightarrow> world" where
  "emit e = upd_con (\<lambda>c. c\<lparr>ek_event_tx := map_option (\<lambda>chan. chan @ [e]) (ek_event_tx c)\<rparr>)"

definition emit_bpf_event :: "u64 \<Rightarrow> string \<Rightarrow> string \<Rightarrow> world \<Rightarrow> world" where
  "emit_bpf_event ts kind details = emit (BpfEvent ts kind details)"

definition emit_graph_update :: "GraphUpdate \<Rightarrow> world \<Rightarrow> world" where
  "emit_graph_update u = emit (SGraphUpdate u)"

type_synonym procfs = "string \<Rightarrow> proc_dir"

definition resolve_in :: "procfs \<Rightarrow> u64 \<Rightarrow> world \<Rightarrow> (string \<times> u32) option \<times> world" where
  "resolve_in proc c w =
     (let (res, r) = resolve proc c (wo_resolver w) in (res, w\<lparr>wo_resolver := r\<rparr>))"

definition process_exec :: "procfs \<Rightarrow> ExecEvent \<Rightarrow> world \<Rightarrow> world" where
  "process_exec proc e w =
     (let command = c_string (ex_command e);
          (_, w) = resolve_in proc (ex_cgroup_id e) w;
          w = emit_bpf_event (ex_timestamp_ns e) ''exec''
                (''pid='' @ dec_w (ex_pid e) @ '' command='' @ command) w
      in emit_graph_update
           (EdgeAdded (''cgroup:'' @ dec_w (ex_cgroup_id e))
              (''proc:'' @ dec_w (ex_pid e) @ '':'' @ command)
              (EProcessCreated (ex_timestamp_ns e) (Fin 1))) w)"

definition process_name_of :: "(string \<times> u32) option \<Rightarrow> string" where
  "process_name_of res = (case res of Some (_, pid) \<Rightarrow> ''pid-'' @ dec_w pid | None \<Rightarrow> ''unknown'')"

definition process_file :: "procfs \<Rightarrow> FileEvent \<Rightarrow> world \<Rightarrow> world" where
  "process_file proc e w =
     (let path = c_string (fe_path e);
          w = (if is_sensitive_path path
               then emit_bpf_event (fe_timestamp_ns e) ''file'' (''sensitive: '' @ path) w else w)
      in if fe_kind e = KMmap \<and> is_shared_library path
         then (let (res, w) = resolve_in proc (fe_cgroup_id e) w;
                   process_name = process_name_of res;
                   w = emit_bpf_event (fe_timestamp_ns e) ''library_load''
                         (process_name @ '' -> '' @ path) w
               in emit_graph_update
                    (EdgeAdded (''proc:'' @ dec_w (fe_pid e) @ '':'' @ process_name)
                       (''lib:'' @ path) (ELibraryLoaded (fe_timestamp_ns e) (Fin 1))) w)
         else w)"

definition process_net :: "procfs \<Rightarrow> NetEvent \<Rightarrow> world \<Rightarrow> world" where
  "process_net proc e w =
     (let daddr_str = ipv4_be (ne_daddr e);
          w = (if is_suspicious_destination (ne_daddr e) (ne_dport e)
               then emit_bpf_event (ne_timestamp_ns e) ''suspicious_net''
                      (daddr_str @ '':'' @ dec_w (ne_dport e)) w else w)
      in if ne_kind e = KConnect
         then (let (res, w) = resolve_in proc (ne_cgroup_id e) w;
                   process_name = process_name_of res
               in emit_graph_update
                    (EdgeAdded (''proc:'' @ dec_w (ne_pid e) @ '':'' @ process_name)
                       (''net:'' @ daddr_str @ '':'' @ dec_w (ne_dport e))
                       (ENetworkConnection (ne_timestamp_ns e) (ucast (ne_data_size e)) 1 (Fin 1))) w)
         else w)"

definition process_exec_batch :: "procfs \<Rightarrow> world \<Rightarrow> world" where
  "process_exec_batch proc w = fold (process_exec proc) (ek_exec_batch (wo_con w)) w"

definition process_file_batch :: "procfs \<Rightarrow> world \<Rightarrow> world" where
  "process_file_batch proc w = fold (process_file proc) (ek_file_batch (wo_con w)) w"

definition process_net_batch :: "procfs \<Rightarrow> world \<Rightarrow> world" where
  "process_net_batch proc w = fold (process_net proc) (ek_net_batch (wo_con w)) w"

definition flush_all :: "procfs \<Rightarrow> int \<Rightarrow> world \<Rightarrow> world" where
  "flush_all proc now w =
     (let c = wo_con w
      in if ek_exec_batch c = [] \<and> ek_file_batch c = [] \<and> ek_net_batch c = [] then w
         else (let w = process_net_batch proc (process_file_batch proc (process_exec_batch proc w))
               in upd_con (\<lambda>c. c\<lparr>ek_exec_batch := [], ek_file_batch := [], ek_net_batch := [],
                                 ek_last_flush := now,
                                 ek_batches_processed := ek_batches_processed c + 1\<rparr>) w))"

section \<open>The loops\<close>

definition consume_all :: "world \<Rightarrow> (nat \<times> world) option" where
  "consume_all w =
     (if ek_security_rb (wo_con w) \<noteq> None then consume_security_batch w
      else do {
        (n1, w) \<leftarrow> consume_exec_batch w;
        (n2, w) \<leftarrow> consume_file_batch w;
        (n3, w) \<leftarrow> consume_net_batch w;
        Some (n1 + n2 + n3, w) })"

text \<open>The readings of the clock in an iteration: at the check for a flush and in the flush.\<close>

record flush_clock =
  tf_check :: int
  tf_flush :: int

definition timed_out :: "int \<Rightarrow> EventConsumer \<Rightarrow> bool" where
  "timed_out now c \<longleftrightarrow> ek_batch_timeout c \<le> max 0 (now - ek_last_flush c)"

definition run_tick :: "procfs \<Rightarrow> flush_clock \<Rightarrow> world \<Rightarrow> world option" where
  "run_tick proc t w = do {
     (n, w) \<leftarrow> consume_all w;
     Some (if timed_out (tf_check t) (wo_con w) \<or> any_full (wo_con w)
           then flush_all proc (tf_flush t) w else w) }"

text \<open>\<open>consume_with_timeout\<close>: one element of the list per iteration before the deadline, then
  the final flush at \<open>final\<close>.\<close>

fun timeout_iterations :: "procfs \<Rightarrow> flush_clock list \<Rightarrow> nat \<Rightarrow> world \<Rightarrow> (nat \<times> world) option" where
  "timeout_iterations proc [] sofar w = Some (sofar, w)"
| "timeout_iterations proc (t # ts) sofar w = do {
     (n, w) \<leftarrow> consume_all w;
     timeout_iterations proc ts (sofar + n)
       (if timed_out (tf_check t) (wo_con w) then flush_all proc (tf_flush t) w else w) }"

definition consume_with_timeout ::
  "procfs \<Rightarrow> flush_clock list \<Rightarrow> int \<Rightarrow> world \<Rightarrow> (nat \<times> world) option" where
  "consume_with_timeout proc ts final w = do {
     (sofar, w) \<leftarrow> timeout_iterations proc ts 0 w;
     Some (sofar, flush_all proc final w) }"

record ConsumerStats =
  cn_events_received :: u64
  cn_events_dropped :: u64
  cn_events_filtered :: u64
  cn_batches_processed :: u64
  cn_exec_batch_size :: nat
  cn_file_batch_size :: nat
  cn_net_batch_size :: nat

definition get_stats :: "EventConsumer \<Rightarrow> ConsumerStats" where
  "get_stats c =
     \<lparr>cn_events_received = ek_events_received c, cn_events_dropped = ek_events_dropped c,
      cn_events_filtered = ek_events_filtered c, cn_batches_processed = ek_batches_processed c,
      cn_exec_batch_size = length (ek_exec_batch c), cn_file_batch_size = length (ek_file_batch c),
      cn_net_batch_size = length (ek_net_batch c)\<rparr>"

text \<open>What the loop of \<open>run\<close> sees: records that arrive, ticks, and the shutdown.\<close>

datatype rb_name = RbExec | RbFile | RbNet | RbSecurity

datatype run_event = Arrive rb_name "u8 list" | Tick procfs flush_clock | Shutdown procfs int

fun arrive :: "rb_name \<Rightarrow> u8 list \<Rightarrow> EventConsumer \<Rightarrow> EventConsumer" where
  "arrive RbExec item c = c\<lparr>ek_exec_rb := map_option (\<lambda>q. q @ [item]) (ek_exec_rb c)\<rparr>"
| "arrive RbFile item c = c\<lparr>ek_file_rb := map_option (\<lambda>q. q @ [item]) (ek_file_rb c)\<rparr>"
| "arrive RbNet item c = c\<lparr>ek_net_rb := map_option (\<lambda>q. q @ [item]) (ek_net_rb c)\<rparr>"
| "arrive RbSecurity item c = c\<lparr>ek_security_rb := map_option (\<lambda>q. q @ [item]) (ek_security_rb c)\<rparr>"

fun consumer_run :: "run_event list \<Rightarrow> world \<Rightarrow> world option" where
  "consumer_run [] w = Some w"
| "consumer_run (Arrive b item # es) w = consumer_run es (upd_con (arrive b item) w)"
| "consumer_run (Tick proc t # es) w = run_tick proc t w \<bind> consumer_run es"
| "consumer_run (Shutdown proc now # es) w = Some (flush_all proc now w)"

section \<open>What one record does\<close>

definition item_effect ::
  "(u8 list \<Rightarrow> 'e parsed) \<Rightarrow> ('e \<Rightarrow> bool) \<Rightarrow> ('e \<Rightarrow> world \<Rightarrow> world) \<Rightarrow> u8 list \<Rightarrow> world \<Rightarrow> world" where
  "item_effect parse filt keep item w =
     (let w = inc_received w
      in case parse item of
           Parsed e \<Rightarrow> if filt e then inc_filtered w else inc_events (keep e w)
         | _ \<Rightarrow> inc_dropped w)"

definition item_kept :: "(u8 list \<Rightarrow> 'e parsed) \<Rightarrow> ('e \<Rightarrow> bool) \<Rightarrow> u8 list \<Rightarrow> bool" where
  "item_kept parse filt item =
     (case parse item of Parsed e \<Rightarrow> \<not> filt e | _ \<Rightarrow> False)"

definition item_checks :: "(u8 list \<Rightarrow> 'e parsed) \<Rightarrow> ('e \<Rightarrow> bool) \<Rightarrow> u8 list \<Rightarrow> bool" where
  "item_checks parse filt item =
     (case parse item of Parsed e \<Rightarrow> \<not> filt e | _ \<Rightarrow> True)"

lemma consume_loop_Cons:
  "consume_loop parse filt keep full (item # rb) n w =
     (if parse item = Undefined then None
      else (let w' = item_effect parse filt keep item w;
                n' = (if item_kept parse filt item then Suc n else n)
            in if item_checks parse filt item \<and> full (wo_con w') then Some (n', rb, w')
               else consume_loop parse filt keep full rb n' w'))"
  by (cases "parse item") (simp_all add: item_effect_def item_kept_def item_checks_def Let_def)

declare consume_loop.simps(2) [simp del]

text \<open>A drain takes a prefix of the buffer, record by record, and stops early only on a full
  batch.\<close>

definition drained ::
  "(u8 list \<Rightarrow> 'e parsed) \<Rightarrow> ('e \<Rightarrow> bool) \<Rightarrow> ('e \<Rightarrow> world \<Rightarrow> world) \<Rightarrow> (EventConsumer \<Rightarrow> bool)
   \<Rightarrow> u8 list list \<Rightarrow> nat \<Rightarrow> world \<Rightarrow> nat \<times> u8 list list \<times> world \<Rightarrow> nat \<Rightarrow> bool" where
  "drained parse filt keep full rb n w r k \<longleftrightarrow>
     k \<le> length rb
     \<and> r = (n + length (filter (item_kept parse filt) (take k rb)), drop k rb,
            fold (item_effect parse filt keep) (take k rb) w)
     \<and> Undefined \<notin> parse ` set (take k rb)
     \<and> (k = length rb \<or> full (wo_con (snd (snd r))))"

lemma drained_Suc:
  "parse item \<noteq> Undefined \<Longrightarrow>
   drained parse filt keep full rb (if item_kept parse filt item then Suc n else n)
     (item_effect parse filt keep item w) r k \<Longrightarrow>
   drained parse filt keep full (item # rb) n w r (Suc k)"
  by (auto simp: drained_def)

lemma consume_loop_drained:
  "consume_loop parse filt keep full rb n w = Some r \<Longrightarrow> \<exists>k. drained parse filt keep full rb n w r k"
proof (induction rb arbitrary: n w)
  case Nil
  then show ?case by (auto simp: drained_def)
next
  case (Cons item rb)
  let ?w = "item_effect parse filt keep item w"
  let ?n = "if item_kept parse filt item then Suc n else n"
  have d: "parse item \<noteq> Undefined" using Cons.prems by (auto simp: consume_loop_Cons)
  show ?case
  proof (cases "item_checks parse filt item \<and> full (wo_con ?w)")
    case True
    with Cons.prems d have "r = (?n, rb, ?w)" by (simp add: consume_loop_Cons Let_def)
    with True have "drained parse filt keep full rb ?n ?w r 0" by (simp add: drained_def)
    with d show ?thesis by (blast intro: drained_Suc)
  next
    case False
    with Cons.prems d have "consume_loop parse filt keep full rb ?n ?w = Some r"
      by (simp add: consume_loop_Cons Let_def split: if_splits)
    from Cons.IH[OF this] d show ?thesis by (blast intro: drained_Suc)
  qed
qed

lemma consume_loop_defined:
  "(\<And>item. item \<in> set rb \<Longrightarrow> parse item \<noteq> Undefined) \<Longrightarrow>
   \<exists>r. consume_loop parse filt keep full rb n w = Some r"
  by (induction rb arbitrary: n w) (auto simp: consume_loop_Cons Let_def)

definition security_effect :: "u8 list \<Rightarrow> world \<Rightarrow> world" where
  "security_effect item w =
     (let w = inc_received w
      in case parse_security_event item of
           Parsed e \<Rightarrow>
             (let (accepted, w) = accept_security e w
              in if accepted then inc_events w else inc_filtered w)
         | _ \<Rightarrow> inc_dropped w)"

definition security_kept :: "u8 list \<Rightarrow> world \<Rightarrow> bool" where
  "security_kept item w =
     (case parse_security_event item of
        Parsed e \<Rightarrow> fst (accept_security e (inc_received w)) | _ \<Rightarrow> False)"

lemma security_loop_Cons:
  "security_loop (item # rb) n w =
     (let w' = security_effect item w; n' = (if security_kept item w then Suc n else n)
      in if any_full (wo_con w') then Some (n', rb, w') else security_loop rb n' w')"
  using security_defined[of item]
  by (cases "parse_security_event item")
    (auto simp: security_effect_def security_kept_def Let_def split_beta)

declare security_loop.simps(2) [simp del]

lemma security_loop_prefix:
  "\<exists>m k. security_loop rb n w = Some (m, drop k rb, fold security_effect (take k rb) w)
     \<and> (length rb \<le> k \<or> any_full (wo_con (fold security_effect (take k rb) w)))"
proof (induction rb arbitrary: n w)
  case Nil
  show ?case by auto
next
  case (Cons item rb)
  let ?w = "security_effect item w"
  let ?n = "if security_kept item w then Suc n else n"
  show ?case
  proof (cases "any_full (wo_con ?w)")
    case True
    then show ?thesis by (intro exI[of _ ?n] exI[of _ 1]) (simp add: security_loop_Cons Let_def)
  next
    case False
    obtain m k where "security_loop rb ?n ?w = Some (m, drop k rb, fold security_effect (take k rb) ?w)
     \<and> (length rb \<le> k \<or> any_full (wo_con (fold security_effect (take k rb) ?w)))"
      using Cons.IH by blast
    with False show ?thesis
      by (intro exI[of _ m] exI[of _ "Suc k"]) (simp add: security_loop_Cons Let_def)
  qed
qed

section \<open>What a run preserves\<close>

text \<open>The records that have been counted as received and are not dropped, filtered or kept.\<close>

definition balance :: "world \<Rightarrow> u64" where
  "balance w =
     ek_events_received (wo_con w) - ek_events_dropped (wo_con w)
     - ek_events_filtered (wo_con w) - of_nat (wo_inc_events w)"

text \<open>From one world to a later one: no record is lost from the counts, the store has seen
  events and nothing else, the resolver stays sound.\<close>

definition advances :: "world \<Rightarrow> world \<Rightarrow> bool" where
  "advances w w' \<longleftrightarrow>
     balance w' = balance w \<and> ek_batch_size (wo_con w') = ek_batch_size (wo_con w)
     \<and> (\<exists>es. wo_store w' = foldl store_step (wo_store w) es)
     \<and> (resolver_ok (wo_resolver w) \<longrightarrow> resolver_ok (wo_resolver w'))"

lemma advances_refl [simp]: "advances w w"
  by (auto simp: advances_def intro: exI[of _ "[]"])

lemma advances_trans [trans]: "advances u v \<Longrightarrow> advances v w \<Longrightarrow> advances u w"
  unfolding advances_def by (metis foldl_append)

lemma advances_fold: "(\<And>x w. advances w (f x w)) \<Longrightarrow> advances w (fold f xs w)"
  by (induction xs arbitrary: w) (auto intro: advances_trans)

lemmas counters = inc_received_def inc_dropped_def inc_filtered_def inc_events_def
lemmas keepers = store_exec_def store_file_def store_net_def

lemma advances_store:
  "ek_batch_size (wo_con w') = ek_batch_size (wo_con w) \<Longrightarrow> balance w' = balance w \<Longrightarrow>
   wo_store w' = store_step (wo_store w) e \<Longrightarrow> wo_resolver w' = wo_resolver w \<Longrightarrow> advances w w'"
  by (auto simp: advances_def intro: exI[of _ "[e]"])

lemma keepers_store:
  "wo_store (store_exec x w) = store_step (wo_store w) (SExec x)"
  "wo_store (store_file f w) = store_step (wo_store w) (SFile f)"
  "wo_store (store_net n w) = store_step (wo_store w) (SNet n)"
  by (simp_all add: keepers)

lemma keepers_advance:
  "advances w (store_exec x w)" "advances w (store_file f w)" "advances w (store_net n w)"
proof -
  show "advances w (store_exec x w)"
    by (rule advances_store[OF _ _ keepers_store(1)]) (simp_all add: keepers balance_def)
  show "advances w (store_file f w)"
    by (rule advances_store[OF _ _ keepers_store(2)]) (simp_all add: keepers balance_def)
  show "advances w (store_net n w)"
    by (rule advances_store[OF _ _ keepers_store(3)]) (simp_all add: keepers balance_def)
qed

lemma counted:
  "advances w v \<Longrightarrow> advances w (inc_received (inc_dropped v))"
  "advances w v \<Longrightarrow> advances w (inc_received (inc_filtered v))"
  "advances w v \<Longrightarrow> advances w (inc_received (inc_events v))"
proof -
  have b: "balance (inc_received (inc_dropped v)) = balance v"
    "balance (inc_received (inc_filtered v)) = balance v"
    "balance (inc_received (inc_events v)) = balance v"
    by (simp_all add: counters balance_def algebra_simps)
  show "advances w v \<Longrightarrow> advances w (inc_received (inc_dropped v))"
    "advances w v \<Longrightarrow> advances w (inc_received (inc_filtered v))"
    "advances w v \<Longrightarrow> advances w (inc_received (inc_events v))"
    by (simp_all add: advances_def b) (simp_all add: counters)
qed

lemma received_last:
  "inc_dropped (inc_received w) = inc_received (inc_dropped w)"
  "inc_filtered (inc_received w) = inc_received (inc_filtered w)"
  "inc_events (inc_received w) = inc_received (inc_events w)"
  "store_exec x (inc_received w) = inc_received (store_exec x w)"
  "store_file f (inc_received w) = inc_received (store_file f w)"
  "store_net n (inc_received w) = inc_received (store_net n w)"
  by (simp_all add: counters keepers)

lemma item_effect_advances:
  assumes "\<And>e w. advances w (keep e w)"
    and "\<And>e w. keep e (inc_received w) = inc_received (keep e w)"
  shows "advances w (item_effect parse filt keep item w)"
  by (cases "parse item") (auto simp: item_effect_def Let_def received_last assms(2) counted assms(1))

lemma accept_received:
  "accept_security e (inc_received w) = (fst (accept_security e w), inc_received (snd (accept_security e w)))"
  by (simp add: accept_security_def take_view_def received_last split: option.splits)

lemma take_view_advances:
  "advances w (snd v) \<Longrightarrow> (\<And>e w. advances w (keep e w)) \<Longrightarrow>
   advances w (snd (take_view view filt keep v))"
  by (cases v; cases view) (auto simp: take_view_def intro: advances_trans)

lemma accept_advances: "advances w (snd (accept_security e w))"
  unfolding accept_security_def by (intro take_view_advances keepers_advance) simp

lemma security_effect_advances: "advances w (security_effect item w)"
  by (cases "parse_security_event item")
    (auto simp: security_effect_def Let_def received_last counted split_beta accept_received
      accept_advances)

section \<open>Batches stay within their size\<close>

definition batches_within :: "world \<Rightarrow> bool" where
  "batches_within w \<longleftrightarrow>
     (let c = wo_con w; n = ek_batch_size c
      in length (ek_exec_batch c) \<le> n \<and> length (ek_file_batch c) \<le> n \<and> length (ek_net_batch c) \<le> n)"

lemma within_not_full: "\<not> any_full (wo_con w) \<Longrightarrow> batches_within w"
  by (simp add: batches_within_def any_full_def exec_full_def file_full_def net_full_def Let_def)

definition other_fields :: "EventConsumer \<Rightarrow> nat \<times> ExecEvent list \<times> FileEvent list \<times> NetEvent list" where
  "other_fields c = (ek_batch_size c, ek_exec_batch c, ek_file_batch c, ek_net_batch c)"

lemma consume_loop_bound:
  assumes full: "\<And>c. full c \<longleftrightarrow> ek_batch_size c \<le> length (batch c)"
    and item: "\<And>item w. item_kept parse filt item \<Longrightarrow>
      length (batch (wo_con (item_effect parse filt keep item w))) = Suc (length (batch (wo_con w)))"
      "\<And>item w. \<not> item_kept parse filt item \<Longrightarrow>
      length (batch (wo_con (item_effect parse filt keep item w))) = length (batch (wo_con w))"
      "\<And>item w. ek_batch_size (wo_con (item_effect parse filt keep item w)) = ek_batch_size (wo_con w)"
    and start: "\<not> full (wo_con w)"
    and run: "consume_loop parse filt keep full rb n w = Some (m, rb', w')"
  shows "length (batch (wo_con w')) \<le> ek_batch_size (wo_con w')"
  using start run
proof (induction rb arbitrary: n w)
  case Nil
  then show ?case by (simp add: full)
next
  case (Cons it rb)
  let ?w = "item_effect parse filt keep it w"
  have le: "length (batch (wo_con ?w)) \<le> ek_batch_size (wo_con ?w)"
    using Cons.prems(1) item[of it w] by (cases "item_kept parse filt it") (auto simp: full)
  have keep_not: "item_kept parse filt it \<Longrightarrow> item_checks parse filt it"
    by (auto simp: item_kept_def item_checks_def split: parsed.splits)
  show ?case
  proof (cases "item_checks parse filt it \<and> full (wo_con ?w)")
    case True
    with Cons.prems le show ?thesis by (simp add: consume_loop_Cons Let_def split: if_splits)
  next
    case False
    have "\<not> full (wo_con ?w)"
    proof (cases "item_checks parse filt it")
      case True
      with False show ?thesis by simp
    next
      case nc: False
      with keep_not have "\<not> item_kept parse filt it" by blast
      with Cons.prems(1) item(2,3)[of it w] show ?thesis by (simp add: full)
    qed
    with Cons.prems False show ?thesis
      by (auto simp: consume_loop_Cons Let_def split: if_splits intro: Cons.IH)
  qed
qed

lemma item_effect_batches:
  "other_fields (wo_con (item_effect parse filt store_exec item w)) =
     (ek_batch_size (wo_con w),
      ek_exec_batch (wo_con w) @ (case parse item of Parsed e \<Rightarrow> if filt e then [] else [e] | _ \<Rightarrow> []),
      ek_file_batch (wo_con w), ek_net_batch (wo_con w))"
  "other_fields (wo_con (item_effect parse' filt' store_file item w)) =
     (ek_batch_size (wo_con w), ek_exec_batch (wo_con w),
      ek_file_batch (wo_con w) @ (case parse' item of Parsed e \<Rightarrow> if filt' e then [] else [e] | _ \<Rightarrow> []),
      ek_net_batch (wo_con w))"
  "other_fields (wo_con (item_effect parse'' filt'' store_net item w)) =
     (ek_batch_size (wo_con w), ek_exec_batch (wo_con w), ek_file_batch (wo_con w),
      ek_net_batch (wo_con w) @ (case parse'' item of Parsed e \<Rightarrow> if filt'' e then [] else [e] | _ \<Rightarrow> []))"
  by (auto simp: item_effect_def Let_def other_fields_def counters keepers split: parsed.splits)

lemma item_kept_iff: "item_kept parse filt item \<longleftrightarrow> (\<exists>e. parse item = Parsed e \<and> \<not> filt e)"
  by (auto simp: item_kept_def split: parsed.splits)

lemma loop_bounds:
  "\<not> exec_full (wo_con w) \<Longrightarrow> consume_loop parse filt store_exec exec_full rb n w = Some (m, rb', w') \<Longrightarrow>
   length (ek_exec_batch (wo_con w')) \<le> ek_batch_size (wo_con w')"
  "\<not> file_full (wo_con w) \<Longrightarrow> consume_loop parse' filt' store_file file_full rb n w = Some (m, rb', w') \<Longrightarrow>
   length (ek_file_batch (wo_con w')) \<le> ek_batch_size (wo_con w')"
  "\<not> net_full (wo_con w) \<Longrightarrow> consume_loop parse'' filt'' store_net net_full rb n w = Some (m, rb', w') \<Longrightarrow>
   length (ek_net_batch (wo_con w')) \<le> ek_batch_size (wo_con w')"
proof -
  note eff = item_effect_batches[unfolded other_fields_def prod.inject]
  show "\<not> exec_full (wo_con w) \<Longrightarrow> consume_loop parse filt store_exec exec_full rb n w = Some (m, rb', w') \<Longrightarrow>
   length (ek_exec_batch (wo_con w')) \<le> ek_batch_size (wo_con w')"
    by (rule consume_loop_bound[where batch = ek_exec_batch])
      (auto simp: exec_full_def eff item_kept_iff split: parsed.splits)
  show "\<not> file_full (wo_con w) \<Longrightarrow> consume_loop parse' filt' store_file file_full rb n w = Some (m, rb', w') \<Longrightarrow>
   length (ek_file_batch (wo_con w')) \<le> ek_batch_size (wo_con w')"
    by (rule consume_loop_bound[where batch = ek_file_batch])
      (auto simp: file_full_def eff item_kept_iff split: parsed.splits)
  show "\<not> net_full (wo_con w) \<Longrightarrow> consume_loop parse'' filt'' store_net net_full rb n w = Some (m, rb', w') \<Longrightarrow>
   length (ek_net_batch (wo_con w')) \<le> ek_batch_size (wo_con w')"
    by (rule consume_loop_bound[where batch = ek_net_batch])
      (auto simp: net_full_def eff item_kept_iff split: parsed.splits)
qed

definition taken :: "(u8 list \<Rightarrow> 'e parsed) \<Rightarrow> ('e \<Rightarrow> bool) \<Rightarrow> u8 list list \<Rightarrow> 'e list" where
  "taken parse filt items =
     concat (map (\<lambda>item. case parse item of Parsed e \<Rightarrow> if filt e then [] else [e] | _ \<Rightarrow> []) items)"

lemma taken_Cons:
  "taken parse filt (item # items) =
     (case parse item of Parsed e \<Rightarrow> if filt e then [] else [e] | _ \<Rightarrow> []) @ taken parse filt items"
  by (simp add: taken_def)

lemma fold_effect_batches:
  "other_fields (wo_con (fold (item_effect parse filt store_exec) items w)) =
     (ek_batch_size (wo_con w), ek_exec_batch (wo_con w) @ taken parse filt items,
      ek_file_batch (wo_con w), ek_net_batch (wo_con w))"
  "other_fields (wo_con (fold (item_effect parse' filt' store_file) items w)) =
     (ek_batch_size (wo_con w), ek_exec_batch (wo_con w),
      ek_file_batch (wo_con w) @ taken parse' filt' items, ek_net_batch (wo_con w))"
  "other_fields (wo_con (fold (item_effect parse'' filt'' store_net) items w)) =
     (ek_batch_size (wo_con w), ek_exec_batch (wo_con w), ek_file_batch (wo_con w),
      ek_net_batch (wo_con w) @ taken parse'' filt'' items)"
proof -
  note eff = item_effect_batches[unfolded other_fields_def prod.inject]
  show "other_fields (wo_con (fold (item_effect parse filt store_exec) items w)) =
     (ek_batch_size (wo_con w), ek_exec_batch (wo_con w) @ taken parse filt items,
      ek_file_batch (wo_con w), ek_net_batch (wo_con w))"
    by (induction items arbitrary: w) (simp_all add: taken_Cons eff, simp_all add: other_fields_def taken_def)
  show "other_fields (wo_con (fold (item_effect parse' filt' store_file) items w)) =
     (ek_batch_size (wo_con w), ek_exec_batch (wo_con w),
      ek_file_batch (wo_con w) @ taken parse' filt' items, ek_net_batch (wo_con w))"
    by (induction items arbitrary: w) (simp_all add: taken_Cons eff, simp_all add: other_fields_def taken_def)
  show "other_fields (wo_con (fold (item_effect parse'' filt'' store_net) items w)) =
     (ek_batch_size (wo_con w), ek_exec_batch (wo_con w), ek_file_batch (wo_con w),
      ek_net_batch (wo_con w) @ taken parse'' filt'' items)"
    by (induction items arbitrary: w) (simp_all add: taken_Cons eff, simp_all add: other_fields_def taken_def)
qed

section \<open>One call of each consumer\<close>

lemma advances_rb [simp]:
  "advances w (upd_con (\<lambda>c. c\<lparr>ek_exec_rb := q\<rparr>) v) = advances w v"
  "advances w (upd_con (\<lambda>c. c\<lparr>ek_file_rb := q\<rparr>) v) = advances w v"
  "advances w (upd_con (\<lambda>c. c\<lparr>ek_net_rb := q\<rparr>) v) = advances w v"
  "advances w (upd_con (\<lambda>c. c\<lparr>ek_security_rb := q\<rparr>) v) = advances w v"
  by (simp_all add: advances_def balance_def)

lemma drained_advances:
  assumes "drained parse filt keep full rb n w (m, rb', w') k"
    and "\<And>e w. advances w (keep e w)" "\<And>e w. keep e (inc_received w) = inc_received (keep e w)"
  shows "advances w w'"
  using assms(1) unfolding drained_def
  by (auto intro!: advances_fold item_effect_advances assms(2,3))

text \<open>The batches of a world, and which of them a consumer touches.\<close>

lemma consume_exec_facts:
  assumes "consume_exec_batch w = Some (n, w')"
  shows "advances w w' \<and> ek_file_batch (wo_con w') = ek_file_batch (wo_con w)
    \<and> ek_net_batch (wo_con w') = ek_net_batch (wo_con w)
    \<and> (\<not> exec_full (wo_con w) \<longrightarrow> length (ek_exec_batch (wo_con w')) \<le> ek_batch_size (wo_con w'))"
proof (cases "ek_exec_rb (wo_con w)")
  case (Some rb)
  then obtain rb' v where run: "consume_loop parse_exec_event should_filter_exec store_exec exec_full rb 0 w
      = Some (n, rb', v)" and w': "w' = upd_con (\<lambda>c. c\<lparr>ek_exec_rb := Some rb'\<rparr>) v"
    using assms by (auto simp: consume_exec_batch_def split: bind_splits)
  obtain k where k: "drained parse_exec_event should_filter_exec store_exec exec_full rb 0 w (n, rb', v) k"
    using consume_loop_drained[OF run] by blast
  have a: "advances w v" by (rule drained_advances[OF k]) (simp_all add: keepers_advance received_last)
  have v: "v = fold (item_effect parse_exec_event should_filter_exec store_exec) (take k rb) w"
    using k by (simp add: drained_def)
  have f: "ek_file_batch (wo_con v) = ek_file_batch (wo_con w)" "ek_net_batch (wo_con v) = ek_net_batch (wo_con w)"
    using fold_effect_batches(1)[of parse_exec_event should_filter_exec "take k rb" w]
    by (simp_all add: v other_fields_def)
  show ?thesis
    using a f loop_bounds(1)[OF _ run] by (simp add: w')
qed (use assms in \<open>simp add: consume_exec_batch_def exec_full_def\<close>)

lemma consume_file_facts:
  assumes "consume_file_batch w = Some (n, w')"
  shows "advances w w' \<and> ek_exec_batch (wo_con w') = ek_exec_batch (wo_con w)
    \<and> ek_net_batch (wo_con w') = ek_net_batch (wo_con w)
    \<and> (\<not> file_full (wo_con w) \<longrightarrow> length (ek_file_batch (wo_con w')) \<le> ek_batch_size (wo_con w'))"
proof (cases "ek_file_rb (wo_con w)")
  case (Some rb)
  then obtain rb' v where run: "consume_loop parse_file_event should_filter_file store_file file_full rb 0 w
      = Some (n, rb', v)" and w': "w' = upd_con (\<lambda>c. c\<lparr>ek_file_rb := Some rb'\<rparr>) v"
    using assms by (auto simp: consume_file_batch_def split: bind_splits)
  obtain k where k: "drained parse_file_event should_filter_file store_file file_full rb 0 w (n, rb', v) k"
    using consume_loop_drained[OF run] by blast
  have a: "advances w v" by (rule drained_advances[OF k]) (simp_all add: keepers_advance received_last)
  have v: "v = fold (item_effect parse_file_event should_filter_file store_file) (take k rb) w"
    using k by (simp add: drained_def)
  have f: "ek_exec_batch (wo_con v) = ek_exec_batch (wo_con w)" "ek_net_batch (wo_con v) = ek_net_batch (wo_con w)"
    using fold_effect_batches(2)[of parse_file_event should_filter_file "take k rb" w]
    by (simp_all add: v other_fields_def)
  show ?thesis
    using a f loop_bounds(2)[OF _ run] by (simp add: w')
qed (use assms in \<open>simp add: consume_file_batch_def file_full_def\<close>)

lemma consume_net_facts:
  assumes "consume_net_batch w = Some (n, w')"
  shows "advances w w' \<and> ek_exec_batch (wo_con w') = ek_exec_batch (wo_con w)
    \<and> ek_file_batch (wo_con w') = ek_file_batch (wo_con w)
    \<and> (\<not> net_full (wo_con w) \<longrightarrow> length (ek_net_batch (wo_con w')) \<le> ek_batch_size (wo_con w'))"
proof (cases "ek_net_rb (wo_con w)")
  case (Some rb)
  then obtain rb' v where run: "consume_loop parse_net_event should_filter_net store_net net_full rb 0 w
      = Some (n, rb', v)" and w': "w' = upd_con (\<lambda>c. c\<lparr>ek_net_rb := Some rb'\<rparr>) v"
    using assms by (auto simp: consume_net_batch_def split: bind_splits)
  obtain k where k: "drained parse_net_event should_filter_net store_net net_full rb 0 w (n, rb', v) k"
    using consume_loop_drained[OF run] by blast
  have a: "advances w v" by (rule drained_advances[OF k]) (simp_all add: keepers_advance received_last)
  have v: "v = fold (item_effect parse_net_event should_filter_net store_net) (take k rb) w"
    using k by (simp add: drained_def)
  have f: "ek_exec_batch (wo_con v) = ek_exec_batch (wo_con w)" "ek_file_batch (wo_con v) = ek_file_batch (wo_con w)"
    using fold_effect_batches(3)[of parse_net_event should_filter_net "take k rb" w]
    by (simp_all add: v other_fields_def)
  show ?thesis
    using a f loop_bounds(3)[OF _ run] by (simp add: w')
qed (use assms in \<open>simp add: consume_net_batch_def net_full_def\<close>)

definition lens :: "world \<Rightarrow> nat \<times> nat \<times> nat" where
  "lens w =
     (length (ek_exec_batch (wo_con w)), length (ek_file_batch (wo_con w)),
      length (ek_net_batch (wo_con w)))"

definition lens_step :: "world \<Rightarrow> world \<Rightarrow> bool" where
  "lens_step w w' \<longleftrightarrow>
     ek_batch_size (wo_con w') = ek_batch_size (wo_con w) \<and>
     (case (lens w, lens w') of ((a, b, c), (a', b', c')) \<Rightarrow> a' \<le> Suc a \<and> b' \<le> Suc b \<and> c' \<le> Suc c)"

lemma security_effect_lens: "lens_step w (security_effect item w)"
  by (cases "parse_security_event item")
    (auto simp: security_effect_def Let_def accept_security_def take_view_def lens_step_def lens_def
      counters keepers split: option.splits)

lemma step_within: "\<not> any_full (wo_con w) \<Longrightarrow> lens_step w w' \<Longrightarrow> batches_within w'"
  by (auto simp: any_full_def exec_full_def file_full_def net_full_def lens_step_def lens_def
      batches_within_def Let_def)

lemma security_loop_within:
  "\<not> any_full (wo_con w) \<Longrightarrow> security_loop rb n w = Some (m, rb', w') \<Longrightarrow> batches_within w'"
proof (induction rb arbitrary: n w)
  case Nil
  then show ?case by (simp add: within_not_full)
next
  case (Cons item rb)
  let ?w = "security_effect item w"
  show ?case
  proof (cases "any_full (wo_con ?w)")
    case True
    with Cons.prems have "w' = ?w" by (simp add: security_loop_Cons Let_def)
    then show ?thesis using step_within[OF Cons.prems(1) security_effect_lens[of w item]] by simp
  next
    case False
    then show ?thesis using Cons.IH[OF False] Cons.prems(2)
      by (auto simp: security_loop_Cons Let_def)
  qed
qed

lemma consume_security_facts:
  assumes "consume_security_batch w = Some (n, w')"
  shows "advances w w' \<and> (\<not> any_full (wo_con w) \<longrightarrow> batches_within w')"
proof (cases "ek_security_rb (wo_con w)")
  case (Some rb)
  then obtain rb' v where run: "security_loop rb 0 w = Some (n, rb', v)"
    and w': "w' = upd_con (\<lambda>c. c\<lparr>ek_security_rb := Some rb'\<rparr>) v"
    using assms by (auto simp: consume_security_batch_def split: bind_splits)
  from security_loop_prefix[of rb 0 w] run obtain k where "v = fold security_effect (take k rb) w" by auto
  then have "advances w v" by (simp add: advances_fold security_effect_advances)
  with security_loop_within[OF _ run] show ?thesis by (auto simp: w' batches_within_def Let_def)
qed (use assms in \<open>simp add: consume_security_batch_def within_not_full\<close>)

lemma security_total: "\<exists>n w'. consume_security_batch w = Some (n, w')"
proof (cases "ek_security_rb (wo_con w)")
  case (Some rb)
  then show ?thesis using security_loop_prefix[of rb 0 w] by (auto simp: consume_security_batch_def)
qed (simp add: consume_security_batch_def)

lemma advances_size: "advances w w' \<Longrightarrow> ek_batch_size (wo_con w') = ek_batch_size (wo_con w)"
  by (simp add: advances_def)

lemma consume_all_facts:
  assumes "consume_all w = Some (n, w')"
  shows "advances w w' \<and> (\<not> any_full (wo_con w) \<longrightarrow> batches_within w')"
proof (cases "ek_security_rb (wo_con w) = None")
  case True
  then obtain n1 u n2 v n3 where u: "consume_exec_batch w = Some (n1, u)"
    and v: "consume_file_batch u = Some (n2, v)" and x: "consume_net_batch v = Some (n3, w')"
    using assms by (auto simp: consume_all_def split: bind_splits prod.splits)
  note facts = consume_exec_facts[OF u] consume_file_facts[OF v] consume_net_facts[OF x]
  have adv3: "advances w u" "advances u v" "advances v w'" using facts by blast+
  then have adv: "advances w w'" by (blast intro: advances_trans)
  have sz: "ek_batch_size (wo_con u) = ek_batch_size (wo_con w)"
    "ek_batch_size (wo_con v) = ek_batch_size (wo_con w)"
    "ek_batch_size (wo_con w') = ek_batch_size (wo_con w)"
    using adv3[THEN advances_size] by simp_all
  show ?thesis using adv facts sz
    by (auto simp: any_full_def exec_full_def file_full_def net_full_def batches_within_def Let_def)
next
  case False
  then have "consume_security_batch w = Some (n, w')" using assms by (simp add: consume_all_def)
  then show ?thesis by (rule consume_security_facts)
qed

section \<open>Flushes\<close>

lemma emit_advances: "advances w v \<Longrightarrow> advances w (emit e v)"
  by (simp add: emit_def advances_def balance_def)

lemma resolve_advances: "advances w v \<Longrightarrow> advances w (snd (resolve_in proc c v))"
  using resolver.step_inv[of "wo_resolver v" "RResolve proc c"]
  by (auto simp: resolve_in_def split_beta advances_def balance_def)

lemma process_advances:
  "advances w (process_exec proc x w)" "advances w (process_file proc f w)"
  "advances w (process_net proc n w)"
  by (auto simp: process_exec_def process_file_def process_net_def emit_bpf_event_def
      emit_graph_update_def Let_def split_beta intro!: emit_advances resolve_advances)

lemma flush_advances: "advances w (flush_all proc now w)"
proof -
  have "advances w (process_net_batch proc (process_file_batch proc (process_exec_batch proc w)))"
    unfolding process_net_batch_def process_file_batch_def process_exec_batch_def
    by (rule advances_trans[OF advances_fold advances_trans[OF advances_fold advances_fold]])
      (rule process_advances)+
  then show ?thesis
    by (cases "ek_exec_batch (wo_con w) = [] \<and> ek_file_batch (wo_con w) = [] \<and> ek_net_batch (wo_con w) = []")
      (simp add: flush_all_def, simp only: flush_all_def Let_def if_False, simp add: advances_def balance_def)
qed

lemma flush_empty:
  "ek_exec_batch (wo_con (flush_all proc now w)) = []"
  "ek_file_batch (wo_con (flush_all proc now w)) = []"
  "ek_net_batch (wo_con (flush_all proc now w)) = []"
  by (simp_all add: flush_all_def Let_def)

text \<open>A flush leaves the store and the buffers alone.\<close>

definition untouched :: "world \<Rightarrow> StateStore \<times> u8 list list option" where
  "untouched w = (wo_store w, ek_security_rb (wo_con w))"

lemma process_untouched:
  "untouched (process_exec proc x w) = untouched w"
  "untouched (process_file proc f w) = untouched w"
  "untouched (process_net proc n w) = untouched w"
  by (auto simp: process_exec_def process_file_def process_net_def emit_bpf_event_def
      emit_graph_update_def emit_def resolve_in_def Let_def split_beta untouched_def)

lemma fold_untouched:
  "(\<And>x w. untouched (f x w) = untouched w) \<Longrightarrow> untouched (fold f xs w) = untouched w"
  by (induction xs arbitrary: w) simp_all

lemma flush_untouched: "untouched (flush_all proc now w) = untouched w"
proof -
  have "untouched (process_net_batch proc (process_file_batch proc (process_exec_batch proc w))) = untouched w"
    by (simp add: process_exec_batch_def process_file_batch_def process_net_batch_def
        fold_untouched process_untouched)
  then show ?thesis by (simp add: flush_all_def Let_def untouched_def)
qed

section \<open>Runs\<close>

definition world_ok :: "world \<Rightarrow> bool" where
  "world_ok w \<longleftrightarrow>
     0 < ek_batch_size (wo_con w) \<and> \<not> any_full (wo_con w)
     \<and> balance w = 0 \<and> store_ok (wo_store w) \<and> resolver_ok (wo_resolver w)"

lemma advances_ok:
  "world_ok w \<Longrightarrow> advances w w' \<Longrightarrow> \<not> any_full (wo_con w') \<Longrightarrow> world_ok w'"
  by (auto simp: world_ok_def advances_def intro: store.run_inv)

lemma flush_ok: "world_ok w \<Longrightarrow> advances w v \<Longrightarrow> world_ok (flush_all proc now v)"
proof -
  assume ok: "world_ok w" and adv: "advances w v"
  have "0 < ek_batch_size (wo_con (flush_all proc now v))"
    using ok adv flush_advances[of v proc now] by (auto simp: world_ok_def dest!: advances_size)
  then have "\<not> any_full (wo_con (flush_all proc now v))"
    by (simp add: any_full_def exec_full_def file_full_def net_full_def flush_empty)
  with advances_ok[OF ok advances_trans[OF adv flush_advances]] show ?thesis by blast
qed

lemma tick_ok: "world_ok w \<Longrightarrow> run_tick proc t w = Some w' \<Longrightarrow> world_ok w' \<and> advances w w'"
proof -
  assume ok: "world_ok w" and run: "run_tick proc t w = Some w'"
  then obtain n v where v: "consume_all w = Some (n, v)"
    and w': "w' = (if timed_out (tf_check t) (wo_con v) \<or> any_full (wo_con v)
                   then flush_all proc (tf_flush t) v else v)"
    by (auto simp: run_tick_def split: bind_splits)
  have adv: "advances w v" using consume_all_facts[OF v] by blast
  with ok w' show ?thesis by (auto intro: flush_ok advances_ok advances_trans flush_advances)
qed

lemma arrive_ok: "world_ok (upd_con (arrive b item) w) = world_ok w"
  by (cases b) (simp_all add: world_ok_def any_full_def exec_full_def file_full_def net_full_def balance_def)

lemma run_ok: "world_ok w \<Longrightarrow> consumer_run es w = Some w' \<Longrightarrow> world_ok w'"
proof (induction es w rule: consumer_run.induct)
  case (2 b item es w)
  then show ?case by (simp add: arrive_ok)
next
  case (3 proc t es w)
  then obtain v where "run_tick proc t w = Some v" "consumer_run es v = Some w'"
    by (auto split: bind_splits)
  with 3 show ?case by (blast dest: tick_ok)
next
  case (4 proc now es w)
  then show ?case using flush_ok[OF 4(1) advances_refl, of proc now] by simp
qed simp

definition world_new :: "int \<Rightarrow> EventSources \<Rightarrow> string \<Rightarrow> world" where
  "world_new now src p =
     \<lparr>wo_con = EventConsumer_new now src, wo_store = StateStore_default,
      wo_resolver = CgroupResolver_new p, wo_inc_events = 0\<rparr>"

lemma world_ok_new: "world_ok (world_new now src p)"
  by (cases src) (simp_all add: world_ok_def world_new_def EventConsumer_new_def any_full_def
      exec_full_def file_full_def net_full_def balance_def)

text \<open>On unified sources nothing is undefined: every run has a result.\<close>

lemma unified_tick: 
  "ek_security_rb (wo_con w) \<noteq> None \<Longrightarrow>
   \<exists>w'. run_tick proc t w = Some w' \<and> ek_security_rb (wo_con w') \<noteq> None"
proof -
  assume u: "ek_security_rb (wo_con w) \<noteq> None"
  obtain n v where v: "consume_security_batch w = Some (n, v)" using security_total by blast
  then have "ek_security_rb (wo_con v) \<noteq> None"
    using u by (auto simp: consume_security_batch_def split: bind_splits option.splits)
  then have "ek_security_rb (wo_con (flush_all proc now v)) \<noteq> None" for now
    using flush_untouched[of proc now v] by (simp add: untouched_def)
  with \<open>ek_security_rb (wo_con v) \<noteq> None\<close> u v show ?thesis
    by (simp add: run_tick_def consume_all_def)
qed

lemma unified_run_total:
  "ek_security_rb (wo_con w) \<noteq> None \<Longrightarrow> \<exists>w'. consumer_run es w = Some w'"
proof (induction es w rule: consumer_run.induct)
  case (2 b item es w)
  then show ?case by (cases b) simp_all
next
  case (3 proc t es w)
  then obtain v where "run_tick proc t w = Some v" "ek_security_rb (wo_con v) \<noteq> None"
    using unified_tick by blast
  with 3 show ?case by simp
qed simp_all

section \<open>What a drain and a flush produce\<close>

text \<open>The store after a drain of the exec buffer has seen the accepted events, in order.\<close>

lemma fold_exec_store:
  "wo_store (fold (item_effect parse filt store_exec) items w) =
     foldl store_step (wo_store w) (map SExec (taken parse filt items))"
proof (induction items arbitrary: w)
  case (Cons item items)
  have "wo_store (item_effect parse filt store_exec item w) =
      foldl store_step (wo_store w) (map SExec (taken parse filt [item]))"
    by (auto simp: item_effect_def Let_def counters keepers taken_def split: parsed.splits)
  with Cons show ?case by (simp add: taken_Cons) (simp add: taken_def)
qed (simp add: taken_def)

lemma consume_exec_spec:
  assumes "ek_exec_rb (wo_con w) = Some rb"
  shows "\<exists>k n w'. consume_exec_batch w = Some (n, w') \<and> k \<le> length rb
    \<and> ek_exec_rb (wo_con w') = Some (drop k rb)
    \<and> n = length (taken parse_exec_event should_filter_exec (take k rb))
    \<and> ek_exec_batch (wo_con w')
        = ek_exec_batch (wo_con w) @ taken parse_exec_event should_filter_exec (take k rb)
    \<and> wo_store w' = foldl store_step (wo_store w)
        (map SExec (taken parse_exec_event should_filter_exec (take k rb)))
    \<and> (k = length rb \<or> exec_full (wo_con w'))"
proof -
  let ?loop = "consume_loop parse_exec_event should_filter_exec store_exec exec_full rb 0 w"
  obtain n rb' v where run: "?loop = Some (n, rb', v)"
    using consume_loop_defined[of rb parse_exec_event should_filter_exec store_exec exec_full 0 w]
    by (auto simp: exec_defined)
  obtain k where k: "drained parse_exec_event should_filter_exec store_exec exec_full rb 0 w (n, rb', v) k"
    using consume_loop_drained[OF run] by blast
  have len: "length (filter (item_kept parse filt) items) = length (taken parse filt items)"
    for parse :: "u8 list \<Rightarrow> ExecEvent parsed" and filt items
    by (induction items) (auto simp: taken_def item_kept_def split: parsed.splits)
  let ?items = "take k rb"
  have v: "v = fold (item_effect parse_exec_event should_filter_exec store_exec) ?items w"
    "rb' = drop k rb" "k \<le> length rb" "k = length rb \<or> exec_full (wo_con v)"
    "n = length (taken parse_exec_event should_filter_exec ?items)"
    using k by (auto simp: drained_def len)
  have b: "ek_exec_batch (wo_con v) = ek_exec_batch (wo_con w) @ taken parse_exec_event should_filter_exec ?items"
    using fold_effect_batches(1)[of parse_exec_event should_filter_exec ?items w]
    by (simp add: v(1) other_fields_def)
  have "consume_exec_batch w = Some (n, upd_con (\<lambda>c. c\<lparr>ek_exec_rb := Some rb'\<rparr>) v)"
    using assms run by (simp add: consume_exec_batch_def)
  moreover have "wo_store v = foldl store_step (wo_store w)
      (map SExec (taken parse_exec_event should_filter_exec ?items))"
    by (simp add: v(1) fold_exec_store)
  ultimately show ?thesis using v(2-5) b
    by (intro exI[of _ k] exI[of _ n] exI[of _ "upd_con (\<lambda>c. c\<lparr>ek_exec_rb := Some rb'\<rparr>) v"])
      (auto simp: exec_full_def)
qed

text \<open>A 48-byte network record never reaches the store.\<close>

lemma net_record_effect:
  "length item = NET_SIZE \<Longrightarrow>
   item_effect parse_net_event filt keep item w = inc_dropped (inc_received w)"
  by (simp add: item_effect_def net_always_rejected)

lemma fold_net_dropped:
  "list_all (\<lambda>item. length item = NET_SIZE) items \<Longrightarrow>
   wo_store (fold (item_effect parse_net_event filt keep) items w) = wo_store w
   \<and> ek_events_dropped (wo_con (fold (item_effect parse_net_event filt keep) items w))
       = ek_events_dropped (wo_con w) + of_nat (length items)
   \<and> ek_net_batch (wo_con (fold (item_effect parse_net_event filt keep) items w)) = ek_net_batch (wo_con w)"
  by (induction items arbitrary: w) (simp_all add: net_record_effect counters)

lemma legacy_net_lost:
  assumes "ek_net_rb (wo_con w) = Some rb" "list_all (\<lambda>item. length item = NET_SIZE) rb"
    "consume_net_batch w = Some (n, w')"
  shows "n = 0 \<and> wo_store w' = wo_store w \<and> ek_net_batch (wo_con w') = ek_net_batch (wo_con w)
    \<and> (\<exists>k \<le> length rb. ek_net_rb (wo_con w') = Some (drop k rb)
        \<and> ek_events_dropped (wo_con w') = ek_events_dropped (wo_con w) + of_nat k)"
proof -
  obtain rb' v where run: "consume_loop parse_net_event should_filter_net store_net net_full rb 0 w
      = Some (n, rb', v)" and w': "w' = upd_con (\<lambda>c. c\<lparr>ek_net_rb := Some rb'\<rparr>) v"
    using assms by (auto simp: consume_net_batch_def split: bind_splits)
  obtain k where k: "drained parse_net_event should_filter_net store_net net_full rb 0 w (n, rb', v) k"
    using consume_loop_drained[OF run] by blast
  have all: "list_all (\<lambda>item. length item = NET_SIZE) (take k rb)"
    using assms(2) by (auto simp: list_all_iff dest: in_set_takeD)
  have n: "n = 0" using k all
    by (auto simp: drained_def filter_empty_conv item_kept_def net_always_rejected list_all_iff)
  show ?thesis using fold_net_dropped[OF all, of should_filter_net store_net w] k n
    by (auto simp: drained_def w')
qed

text \<open>The messages of the exec events of a flush, in order.\<close>

definition exec_messages :: "ExecEvent \<Rightarrow> StreamEvent list" where
  "exec_messages e =
     [BpfEvent (ex_timestamp_ns e) ''exec''
        (''pid='' @ dec_w (ex_pid e) @ '' command='' @ c_string (ex_command e)),
      SGraphUpdate (EdgeAdded (''cgroup:'' @ dec_w (ex_cgroup_id e))
        (''proc:'' @ dec_w (ex_pid e) @ '':'' @ c_string (ex_command e))
        (EProcessCreated (ex_timestamp_ns e) (Fin 1)))]"

lemma process_exec_tx:
  "ek_event_tx (wo_con (process_exec proc e w)) =
     map_option (\<lambda>q. q @ exec_messages e) (ek_event_tx (wo_con w))"
  by (cases "ek_event_tx (wo_con w)")
    (auto simp: process_exec_def emit_bpf_event_def emit_graph_update_def emit_def resolve_in_def
      Let_def split_beta exec_messages_def)

lemma process_exec_batch_tx:
  "ek_event_tx (wo_con (process_exec_batch proc w)) =
     map_option (\<lambda>q. q @ concat (map exec_messages (ek_exec_batch (wo_con w)))) (ek_event_tx (wo_con w))"
proof -
  have "ek_event_tx (wo_con (fold (process_exec proc) es w)) =
     map_option (\<lambda>q. q @ concat (map exec_messages es)) (ek_event_tx (wo_con w))" for es
    by (induction es arbitrary: w)
      (simp_all add: process_exec_tx option.map_comp comp_def option.map_ident)
  then show ?thesis by (simp add: process_exec_batch_def)
qed

section \<open>Properties\<close>

text \<open>C1. Whatever records arrive and however ticks and flushes interleave, after every defined run
  of a fresh consumer: the batches are below their size, the received events are the dropped,
  the filtered and the accepted ones, and the state store and the cgroup cache keep their
  invariants.\<close>

theorem consumer_run_wellformed:
  "consumer_run es (world_new now src p) = Some w \<Longrightarrow> world_ok w"
  by (rule run_ok[OF world_ok_new])

theorem consumer_run_wellformed_witness:
  "world_ok (the (consumer_run
     [Arrive RbSecurity [1, 2], Tick (\<lambda>_. Inr []) \<lparr>tf_check = 1, tf_flush = 2\<rparr>,
      Shutdown (\<lambda>_. Inr []) 3] (world_new 0 (Unified []) ''/proc'')))"
proof -
  let ?es = "[Arrive RbSecurity [1, 2], Tick (\<lambda>_. Inr []) \<lparr>tf_check = 1, tf_flush = 2\<rparr>,
      Shutdown (\<lambda>_. Inr []) 3]"
  have "ek_security_rb (wo_con (world_new 0 (Unified []) ''/proc'')) \<noteq> None"
    by (simp add: world_new_def EventConsumer_new_def)
  from unified_run_total[OF this, of ?es] obtain w where
    w: "consumer_run ?es (world_new 0 (Unified []) ''/proc'') = Some w" by blast
  show ?thesis using consumer_run_wellformed[OF w] by (simp only: w option.sel)
qed

text \<open>On the unified buffer no run of the consumer is undefined: every sequence of arrivals,
  ticks and a shutdown has a result, whatever bytes arrive.\<close>

theorem unified_runs_are_defined:
  "\<exists>w. consumer_run es (world_new now (Unified rb) p) = Some w"
  by (rule unified_run_total) (simp add: world_new_def EventConsumer_new_def)

text \<open>C23. Draining the exec buffer takes a prefix of its records, appends the accepted events to
  the batch and applies them to the store, in order, and stops before the end only on a full
  batch.\<close>

theorem exec_drain_applies_a_prefix:
  "ek_exec_rb (wo_con w) = Some rb \<Longrightarrow>
   \<exists>k n w'. consume_exec_batch w = Some (n, w') \<and> k \<le> length rb
    \<and> ek_exec_rb (wo_con w') = Some (drop k rb)
    \<and> n = length (taken parse_exec_event should_filter_exec (take k rb))
    \<and> ek_exec_batch (wo_con w')
        = ek_exec_batch (wo_con w) @ taken parse_exec_event should_filter_exec (take k rb)
    \<and> wo_store w' = foldl store_step (wo_store w)
        (map SExec (taken parse_exec_event should_filter_exec (take k rb)))
    \<and> (k = length rb \<or> exec_full (wo_con w'))"
  by (rule consume_exec_spec)

theorem exec_drain_applies_a_prefix_witness:
  "\<exists>n w'. consume_exec_batch (world_new 0 (Legacy [[1]] [] []) ''/proc'') = Some (n, w')"
  using exec_drain_applies_a_prefix[of "world_new 0 (Legacy [[1]] [] []) ''/proc''" "[[1]]"]
  by (auto simp: world_new_def EventConsumer_new_def)

text \<open>On the legacy buffers every network record of the structure's size is dropped: the store
  and the network batch never see one.\<close>

theorem legacy_network_events_are_lost:
  "ek_net_rb (wo_con w) = Some rb \<Longrightarrow> list_all (\<lambda>item. length item = NET_SIZE) rb \<Longrightarrow>
   consume_net_batch w = Some (n, w') \<Longrightarrow>
   n = 0 \<and> wo_store w' = wo_store w \<and> ek_net_batch (wo_con w') = ek_net_batch (wo_con w)
    \<and> (\<exists>k \<le> length rb. ek_net_rb (wo_con w') = Some (drop k rb)
        \<and> ek_events_dropped (wo_con w') = ek_events_dropped (wo_con w) + of_nat k)"
  by (rule legacy_net_lost)

theorem legacy_network_events_are_lost_witness:
  "\<exists>w'. consume_net_batch (world_new 0 (Legacy [] [] [replicate 48 1]) ''/proc'') = Some (0, w')
     \<and> wo_store w' = StateStore_default"
proof -
  let ?w = "world_new 0 (Legacy [] [] [replicate 48 1]) ''/proc''"
  obtain n w' where r: "consume_net_batch ?w = Some (n, w')"
    using consume_loop_defined[of "[replicate 48 1]" parse_net_event should_filter_net store_net net_full 0 ?w]
    by (auto simp: world_new_def EventConsumer_new_def consume_net_batch_def net_always_rejected NET_SIZE_def)
  show ?thesis
    using legacy_network_events_are_lost[OF _ _ r, of "[replicate 48 1]"] r
    by (simp add: world_new_def EventConsumer_new_def NET_SIZE_def)
qed

text \<open>A flush sends, for each exec event of the batch and in order, the event and the edge from
  its cgroup to its process, and nothing else for it.\<close>

theorem exec_flush_messages:
  "ek_event_tx (wo_con (process_exec_batch proc w)) =
     map_option (\<lambda>q. q @ concat (map exec_messages (ek_exec_batch (wo_con w)))) (ek_event_tx (wo_con w))"
  by (rule process_exec_batch_tx)

end
