(* ===== verification/Float_Sums.thy ===== *)
theory Float_Sums
  imports Floats
begin

text \<open>
  Sums, averages and square roots of floats, with the facts statistics rest on: sums of
  non-negative values are non-negative and never NaN, short sums stay in their range, and a
  rounded difference is at most twice the exact one. \<open>sqrt\<close> is correctly rounded, as IEEE 754
  requires; it is computed by an integer square root.
\<close>

section \<open>Non-negative values\<close>

abbreviation fl_nonneg :: "fl \<Rightarrow> bool" where "fl_nonneg a \<equiv> fl_le (Fin 0) a"

lemma fl_nonneg_cases:
  assumes "fl_nonneg a"
  obtains (Fin) x where "a = Fin x" "0 \<le> x" | (PInf) "a = PInf"
  using assms by (cases a) auto

lemma fl_nonneg_not_NaN: "fl_nonneg a \<Longrightarrow> a \<noteq> NaN" by auto

lemma fl_of_nonneg: "0 \<le> x \<Longrightarrow> 0 < prec F \<Longrightarrow> fl_nonneg (fl_of F x)"
proof -
  assume "0 \<le> x" "0 < prec F"
  then have "0 \<le> round_rat F x" using round_rat_mono[of 0 x F] by (simp add: round_rat_def)
  then show ?thesis using powi2_pos[of "emax F + 1"] by (auto simp: fl_of_def Let_def)
qed

lemma fadd_nonneg: "fl_nonneg a \<Longrightarrow> fl_nonneg b \<Longrightarrow> 0 < prec F \<Longrightarrow> fl_nonneg (fadd F a b)"
  by (erule fl_nonneg_cases; erule fl_nonneg_cases) (auto intro: fl_of_nonneg)

lemma fmul_square_nonneg: "a \<noteq> NaN \<Longrightarrow> 0 < prec F \<Longrightarrow> fl_nonneg (fmul F a a)"
  by (cases a) (auto intro: fl_of_nonneg simp: inf_of_sgn_def)

lemma fdiv_nonneg:
  "fl_nonneg a \<Longrightarrow> 0 < y \<Longrightarrow> 0 < prec F \<Longrightarrow> fl_nonneg (fdiv F a (Fin y))"
  by (erule fl_nonneg_cases) (auto intro: fl_of_nonneg simp: inf_of_sgn_def)

lemma foldl_fadd_nonneg:
  "fl_nonneg a \<Longrightarrow> \<forall>x \<in> set xs. fl_nonneg x \<Longrightarrow> 0 < prec F \<Longrightarrow> fl_nonneg (foldl (fadd F) a xs)"
  by (induction xs arbitrary: a) (auto intro: fadd_nonneg)

lemma fsum_nonneg: "\<forall>x \<in> set xs. fl_nonneg x \<Longrightarrow> 0 < prec F \<Longrightarrow> fl_nonneg (fsum F xs)"
  unfolding fsum_def by (rule foldl_fadd_nonneg) simp_all

text \<open>The reciprocal of one plus a non-negative value is a fraction.\<close>

lemma fl_of_1: "fl_of F64 1 = Fin 1"
  by (rule fl_of_id) simp

lemma reciprocal_in:
  assumes "fl_nonneg v"
  shows "fl_in 0 1 (fdiv F64 (Fin 1) (fadd F64 (Fin 1) v))"
  using assms
proof (cases v rule: fl_nonneg_cases)
  case (Fin x)
  have "fl_le (fl_of F64 1) (fl_of F64 (1 + x))" using Fin by (intro fl_of_mono) auto
  then have "fl_le (Fin 1) (fl_of F64 (1 + x))" by (simp add: fl_of_1)
  then show ?thesis using Fin
    by (cases "fl_of F64 (1 + x)") (auto intro!: fl_of_in simp: divide_le_eq)
qed simp

section \<open>Counts\<close>

text \<open>A positive count as a float is at least 1, and a small one is exact.\<close>

lemma fl_nat_ge_1: "0 < n \<Longrightarrow> fl_le (Fin 1) (fl_nat F64 n)"
  using fl_of_mono[of 1 "of_nat n" F64] by (simp add: fl_nat_def fl_of_1)

lemma fl_nat_small: "n < 2 ^ 24 \<Longrightarrow> fl_nat F64 n = Fin (of_nat n)"
  using fl_bound_int(2)[of "int n"] by (auto simp: fl_nat_def intro: fl_of_id)

lemma div_count_nonneg: "fl_nonneg a \<Longrightarrow> 0 < n \<Longrightarrow> n < 2 ^ 24 \<Longrightarrow> fl_nonneg (fdiv F64 a (fl_nat F64 n))"
  by (simp add: fl_nat_small fdiv_nonneg)

section \<open>Evaluation\<close>

text \<open>A small value is rounded without looking at the overflow threshold.\<close>

lemma fl_of_eval: "round_rat F64 x = r \<Longrightarrow> \<bar>r\<bar> \<le> 2 ^ 23 \<Longrightarrow> fl_of F64 x = Fin r"
proof -
  assume r: "round_rat F64 x = r" "\<bar>r\<bar> \<le> 2 ^ 23"
  have "(2::rat) ^ 23 < 2 powi (emax F64 + 1)"
    using fl_bound_int(2)[of "2 ^ 23"] by (simp add: fl_bound_def)
  with r show ?thesis by (auto simp: fl_of_def Let_def abs_le_iff)
qed

section \<open>Short sums\<close>

lemma foldl_fadd_in:
  "fl_in (of_int k * lo) (of_int k * hi) a \<Longrightarrow> \<forall>x \<in> set xs. fl_in lo hi x \<Longrightarrow>
   (\<And>j. k \<le> j \<Longrightarrow> j \<le> k + int (length xs) \<Longrightarrow> fl_bound F (of_int j * lo) \<and> fl_bound F (of_int j * hi)) \<Longrightarrow>
   fl_in (of_int (k + int (length xs)) * lo) (of_int (k + int (length xs)) * hi) (foldl (fadd F) a xs)"
proof (induction xs arbitrary: a k)
  case (Cons x xs)
  have b: "fl_bound F (of_int (k + 1) * lo)" "fl_bound F (of_int (k + 1) * hi)"
    using Cons.prems(3)[of "k + 1"] by simp_all
  have "fl_in (of_int (k + 1) * lo) (of_int (k + 1) * hi) (fadd F a x)"
    using Cons.prems(1,2) b
    by (intro fadd_in[of "of_int k * lo" "of_int k * hi" a lo hi x]) (auto simp: algebra_simps)
  then show ?case
    using Cons.IH[of "k + 1" "fadd F a x"] Cons.prems(2,3) by (simp add: algebra_simps)
qed simp

text \<open>The sum of up to five scores between 0 and 10.\<close>

lemma fsum_scores:
  assumes "\<forall>x \<in> set xs. fl_in 0 10 x" "length xs \<le> 5"
  shows "fl_in 0 50 (fsum F64 xs)"
proof -
  have b: "fl_bound F64 (of_int j * 10)" if "0 \<le> j" "j \<le> 5" for j :: int
    using fl_bound_int(2)[of "j * 10"] that by simp
  have "fl_in (of_int (0 + int (length xs)) * 0) (of_int (0 + int (length xs)) * 10)
      (foldl (fadd F64) (Fin 0) xs)"
    using assms b by (intro foldl_fadd_in) auto
  then show ?thesis
    unfolding fsum_def using assms(2) by (elim fl_in_mono) auto
qed

text \<open>The mean of values between 0 and an integer, as long as their sum stays exact.\<close>

lemma mean32_in:
  assumes "\<forall>x \<in> set xs. fl_in 0 (of_int k) x" "0 < k" "int (length xs) * k < 2 ^ 24" "xs \<noteq> []"
  shows "fl_in 0 (of_int k) (fdiv F32 (fsum F32 xs) (fl_nat F32 (length xs)))"
proof -
  let ?n = "int (length xs)"
  have m: "j * k < 2 ^ 24" if "0 \<le> j" "j \<le> ?n" for j
    using that assms(2,3) mult_right_mono[of j ?n k] by linarith
  have b: "fl_bound F32 (of_int j * of_int k)" if "0 \<le> j" "j \<le> ?n" for j :: int
    using fl_bound_int(1)[of "j * k"] m[OF that] that assms(2) by simp
  have "fl_in (of_int (0 + ?n) * 0) (of_int (0 + ?n) * of_int k) (foldl (fadd F32) (Fin 0) xs)"
    using assms(1) b by (intro foldl_fadd_in) auto
  then obtain s where s: "foldl (fadd F32) (Fin 0) xs = Fin s" "0 \<le> s" "s \<le> of_int (?n * k)"
    by (cases "foldl (fadd F32) (Fin 0) xs") auto
  have p: "0 < length xs" "?n \<le> ?n * k" using assms(2,4) by (simp_all add: mult_le_cancel_left1)
  then have "?n < 2 ^ 24" using assms(3) by linarith
  then have n: "fl_nat F32 (length xs) = Fin (of_nat (length xs))"
    using fl_of_id[of F32 "of_int ?n"] fl_bound_int(1)[of ?n] by (simp add: fl_nat_def)
  have kb: "fl_bound F32 (of_int k)" using b[of 1] p(1) by simp
  have "s / of_nat (length xs) \<le> of_int k"
    using s(3) p(1) by (simp add: divide_le_eq mult.commute)
  with s n p(1) kb show ?thesis unfolding fsum_def by (auto intro!: fl_of_in)
qed

section \<open>Rounded differences\<close>

lemma powi2_representable: "emin F \<le> e \<Longrightarrow> 0 < prec F \<Longrightarrow> representable F (2 powi e)"
  unfolding representable_def
  by (intro exI[of _ 1] exI[of _ e]) (auto simp: power_int_def)

text \<open>A value on the grid of the format is at most doubled by rounding.\<close>

lemma round_rat_le_double:
  assumes "0 \<le> x" "x = of_int m * 2 powi emin F" "0 < prec F"
  shows "round_rat F x \<le> 2 * x"
proof (cases "x = 0")
  case False
  with assms(1) have x: "0 < x" by simp
  have m: "1 \<le> m"
  proof (rule ccontr)
    assume "\<not> 1 \<le> m"
    then have "m \<le> 0" by simp
    then have "of_int m * (2::rat) powi emin F \<le> 0" by (simp add: mult_le_0_iff)
    with x assms(2) show False by simp
  qed
  have "(2::rat) powi emin F \<le> x" using m assms(2) by (simp add: le_divide_eq)
  also have "x < 2 powi (ilog2 x + 1)" using ilog2_spec(2)[OF x] .
  finally have e: "emin F < ilog2 x + 1" by (rule powi2_less_cancel)
  have "round_rat F x \<le> round_rat F (2 powi (ilog2 x + 1))"
    using ilog2_spec(2)[OF x] assms(3) by (intro round_rat_mono) auto
  also have "\<dots> = 2 powi (ilog2 x + 1)"
    using e assms(3) by (intro round_rat_id powi2_representable) auto
  also have "\<dots> \<le> 2 * x"
    using ilog2_spec(1)[OF x] by (simp add: power_int_add)
  finally show ?thesis .
qed (simp add: round_rat_def)

section \<open>Square roots\<close>

function isqrt :: "int \<Rightarrow> int" where
  "isqrt n = (if n \<le> 0 then 0
              else (let r = 2 * isqrt (n div 4) in if (r + 1) * (r + 1) \<le> n then r + 1 else r))"
  by pat_completeness auto
termination
  by (relation "measure nat") auto

declare isqrt.simps [simp del]

lemma isqrt_spec:
  "0 \<le> n \<Longrightarrow> 0 \<le> isqrt n \<and> isqrt n * isqrt n \<le> n \<and> n < (isqrt n + 1) * (isqrt n + 1)"
proof (induction n rule: isqrt.induct)
  case (1 n)
  show ?case
  proof (cases "n \<le> 0")
    case False
    let ?s = "isqrt (n div 4)"
    have a: "0 \<le> ?s" "?s * ?s \<le> n div 4" "n div 4 < (?s + 1) * (?s + 1)" using 1 False by auto
    have n: "n = 4 * (n div 4) + n mod 4" "0 \<le> n mod 4" "n mod 4 < 4" by simp_all
    have "4 * (?s * ?s) \<le> n" using a n by linarith
    moreover have "n < 4 * ((?s + 1) * (?s + 1))"
    proof -
      have "n div 4 + 1 \<le> (?s + 1) * (?s + 1)" using a by linarith
      then show ?thesis using n by linarith
    qed
    ultimately show ?thesis
      using False a by (subst (1 2 3 4 5) isqrt.simps) (auto simp: Let_def algebra_simps)
  qed (use 1 in \<open>simp add: isqrt.simps\<close>)
qed

text \<open>The integer nearest to the square root of a rational that is not negative.\<close>

definition rne_sqrt :: "rat \<Rightarrow> int" where
  "rne_sqrt x =
     (let f = isqrt \<lfloor>x\<rfloor>; h = (of_int f + 1/2) * (of_int f + 1/2)
      in if x < h then f else if h < x then f + 1 else if even f then f else f + 1)"

definition fsqrt :: "float_format \<Rightarrow> fl \<Rightarrow> fl" where
  "fsqrt F a =
     (case a of
        NaN \<Rightarrow> NaN | NInf \<Rightarrow> NaN | PInf \<Rightarrow> PInf
      | Fin x \<Rightarrow>
          if x < 0 then NaN
          else if x = 0 then Fin 0
          else (let e = max (ilog2 x div 2 - (prec F - 1)) (emin F)
                in Fin (of_int (rne_sqrt (x / 2 powi (2 * e))) * 2 powi e)))"

lemma fsqrt_nonneg: "fl_nonneg a \<Longrightarrow> fl_nonneg (fsqrt F a)"
proof (erule fl_nonneg_cases)
  fix x :: rat
  assume "a = Fin x" "0 \<le> x"
  moreover have "0 \<le> isqrt n" for n
    using isqrt_spec[of n] by (cases "0 \<le> n") (simp_all add: isqrt.simps)
  then have "0 \<le> rne_sqrt y" for y by (auto simp: rne_sqrt_def Let_def intro: order_trans[of _ "isqrt _"])
  ultimately show "fl_nonneg (fsqrt F a)" by (auto simp: fsqrt_def Let_def less_imp_le)
qed (simp add: fsqrt_def)

lemma fsqrt_examples: "fsqrt F64 (Fin 0) = Fin 0" "fsqrt F64 (Fin 1) = Fin 1" "fsqrt F64 (Fin (9/4)) = Fin (3/2)"
  "fsqrt F64 (Fin 2) = Fin (6369051672525773 / 2 ^ 52)"
  by code_simp+

end
