(* ===== verification/Petgraph.thy ===== *)
theory Petgraph
  imports Prelude "HOL-Library.Multiset"
begin

text \<open>
  The directed graphs of the petgraph crate as the attack graphs use them. The crate is not
  part of the program: a graph is an abstract value, its operations are the fields of one
  record that every operation of an attack graph takes as its first argument, and
  \<open>digraph_laws\<close> states what the crate documents. Indices are compact, of 32 bits and in
  insertion order; \<open>add_node\<close> and \<open>add_edge\<close> panic (no result) when there is no index left,
  \<open>add_edge\<close> also for an index without a node; the order in which the
  edges of a node are visited is not documented, so only their multiset is fixed. The lists
  \<open>node_list\<close> and \<open>edge_list\<close> are the weights in index order (\<open>node_weights\<close> and
  \<open>edge_references\<close>).
\<close>

record ('g, 'n, 'e) graph_ops =
  g_empty :: 'g
  node_list :: "'g \<Rightarrow> 'n list"
  edge_list :: "'g \<Rightarrow> (nat \<times> nat \<times> 'e) list"
  g_add_node :: "'n \<Rightarrow> 'g \<Rightarrow> (nat \<times> 'g) option"
  g_add_edge :: "nat \<Rightarrow> nat \<Rightarrow> 'e \<Rightarrow> 'g \<Rightarrow> 'g option"
  node_weight :: "'g \<Rightarrow> nat \<Rightarrow> 'n option"
  edges_out :: "'g \<Rightarrow> nat \<Rightarrow> (nat \<times> 'e) list"
  edges_in :: "'g \<Rightarrow> nat \<Rightarrow> (nat \<times> 'e) list"
  find_edge :: "'g \<Rightarrow> nat \<Rightarrow> nat \<Rightarrow> nat option"
  edge_weight :: "'g \<Rightarrow> nat \<Rightarrow> 'e option"
  set_edge_weight :: "nat \<Rightarrow> 'e \<Rightarrow> 'g \<Rightarrow> 'g"

definition out_of :: "nat \<Rightarrow> (nat \<times> nat \<times> 'e) list \<Rightarrow> (nat \<times> 'e) list" where
  "out_of a es = map (\<lambda>(x, y, e). (y, e)) (filter (\<lambda>(x, y, e). x = a) es)"

definition into :: "nat \<Rightarrow> (nat \<times> nat \<times> 'e) list \<Rightarrow> (nat \<times> 'e) list" where
  "into b es = map (\<lambda>(x, y, e). (x, e)) (filter (\<lambda>(x, y, e). y = b) es)"

definition reweigh :: "nat \<Rightarrow> 'e \<Rightarrow> (nat \<times> nat \<times> 'e) list \<Rightarrow> (nat \<times> nat \<times> 'e) list" where
  "reweigh i w es = (if i < length es then es[i := (fst (es ! i), fst (snd (es ! i)), w)] else es)"

lemma length_reweigh [simp]: "length (reweigh i w es) = length es"
  by (simp add: reweigh_def)

text \<open>\<open>u32::MAX\<close>, the index that ends a list and so the most nodes and the most edges.\<close>

definition index_limit :: nat where "index_limit = 4294967295"

definition digraph_laws :: "('g, 'n, 'e) graph_ops \<Rightarrow> bool" where
  "digraph_laws G \<longleftrightarrow>
     node_list G (g_empty G) = [] \<and> edge_list G (g_empty G) = []
     \<and> (\<forall>n g. case g_add_node G n g of
            None \<Rightarrow> index_limit \<le> length (node_list G g)
          | Some (i, g') \<Rightarrow> length (node_list G g) < index_limit \<and> i = length (node_list G g)
              \<and> node_list G g' = node_list G g @ [n] \<and> edge_list G g' = edge_list G g)
     \<and> (\<forall>a b e g. case g_add_edge G a b e g of
            None \<Rightarrow> \<not> (a < length (node_list G g) \<and> b < length (node_list G g)
                       \<and> length (edge_list G g) < index_limit)
          | Some g' \<Rightarrow> a < length (node_list G g) \<and> b < length (node_list G g)
              \<and> length (edge_list G g) < index_limit
              \<and> node_list G g' = node_list G g
              \<and> edge_list G g' = edge_list G g @ [(a, b, e)])
     \<and> (\<forall>g i. node_weight G g i =
          (if i < length (node_list G g) then Some (node_list G g ! i) else None))
     \<and> (\<forall>g a. mset (edges_out G g a) = mset (out_of a (edge_list G g)))
     \<and> (\<forall>g b. mset (edges_in G g b) = mset (into b (edge_list G g)))
     \<and> (\<forall>g a b. case find_edge G g a b of
            None \<Rightarrow> \<forall>e. (a, b, e) \<notin> set (edge_list G g)
          | Some i \<Rightarrow> i < length (edge_list G g) \<and> (\<exists>e. edge_list G g ! i = (a, b, e)))
     \<and> (\<forall>g i. edge_weight G g i =
          (if i < length (edge_list G g) then Some (snd (snd (edge_list G g ! i))) else None))
     \<and> (\<forall>i w g. node_list G (set_edge_weight G i w g) = node_list G g
          \<and> edge_list G (set_edge_weight G i w g) = reweigh i w (edge_list G g))"

lemma digraph_simps:
  assumes "digraph_laws G"
  shows "node_list G (g_empty G) = []" "edge_list G (g_empty G) = []"
    "node_weight G g i = (if i < length (node_list G g) then Some (node_list G g ! i) else None)"
    "edge_weight G g i = (if i < length (edge_list G g) then Some (snd (snd (edge_list G g ! i))) else None)"
    "node_list G (set_edge_weight G i w g) = node_list G g"
    "edge_list G (set_edge_weight G i w g) = reweigh i w (edge_list G g)"
  using assms unfolding digraph_laws_def by simp_all

lemma digraph_add_node:
  assumes "digraph_laws G"
  obtains (full) "g_add_node G n g = None" "index_limit \<le> length (node_list G g)"
  | (added) g' where "g_add_node G n g = Some (length (node_list G g), g')"
      "node_list G g' = node_list G g @ [n]" "edge_list G g' = edge_list G g"
proof -
  have "case g_add_node G n g of
            None \<Rightarrow> index_limit \<le> length (node_list G g)
          | Some (i, g') \<Rightarrow> length (node_list G g) < index_limit \<and> i = length (node_list G g)
              \<and> node_list G g' = node_list G g @ [n] \<and> edge_list G g' = edge_list G g"
    using assms unfolding digraph_laws_def by blast
  then show ?thesis by (cases "g_add_node G n g") (auto intro: full added split: prod.splits)
qed

lemma digraph_add_edge:
  assumes "digraph_laws G" "a < length (node_list G g)" "b < length (node_list G g)"
  obtains (full) "g_add_edge G a b e g = None" "index_limit \<le> length (edge_list G g)"
  | (added) g' where "g_add_edge G a b e g = Some g'" "node_list G g' = node_list G g"
      "edge_list G g' = edge_list G g @ [(a, b, e)]"
proof -
  have "case g_add_edge G a b e g of
            None \<Rightarrow> \<not> (a < length (node_list G g) \<and> b < length (node_list G g)
                       \<and> length (edge_list G g) < index_limit)
          | Some g' \<Rightarrow> a < length (node_list G g) \<and> b < length (node_list G g)
              \<and> length (edge_list G g) < index_limit
              \<and> node_list G g' = node_list G g
              \<and> edge_list G g' = edge_list G g @ [(a, b, e)]"
    using assms(1) unfolding digraph_laws_def by blast
  with assms(2,3) show ?thesis by (cases "g_add_edge G a b e g") (auto intro: full added)
qed

lemma digraph_find_edge:
  assumes "digraph_laws G"
  shows "find_edge G g a b = None \<Longrightarrow> (a, b, e) \<notin> set (edge_list G g)"
    "find_edge G g a b = Some i \<Longrightarrow> i < length (edge_list G g)"
    "find_edge G g a b = Some i \<Longrightarrow> fst (edge_list G g ! i) = a"
    "find_edge G g a b = Some i \<Longrightarrow> fst (snd (edge_list G g ! i)) = b"
proof -
  have "case find_edge G g a b of
            None \<Rightarrow> \<forall>e. (a, b, e) \<notin> set (edge_list G g)
          | Some i \<Rightarrow> i < length (edge_list G g) \<and> (\<exists>e. edge_list G g ! i = (a, b, e))"
    using assms unfolding digraph_laws_def by blast
  then show "find_edge G g a b = None \<Longrightarrow> (a, b, e) \<notin> set (edge_list G g)"
    "find_edge G g a b = Some i \<Longrightarrow> i < length (edge_list G g)"
    "find_edge G g a b = Some i \<Longrightarrow> fst (edge_list G g ! i) = a"
    "find_edge G g a b = Some i \<Longrightarrow> fst (snd (edge_list G g ! i)) = b"
    by auto
qed

lemma digraph_edges_out:
  "digraph_laws G \<Longrightarrow> (b, e) \<in> set (edges_out G g a) \<longleftrightarrow> (a, b, e) \<in> set (edge_list G g)"
proof -
  assume "digraph_laws G"
  then have "set (edges_out G g a) = set (out_of a (edge_list G g))"
    unfolding digraph_laws_def by (metis set_mset_mset)
  then show ?thesis by (force simp: out_of_def)
qed

lemma digraph_edges_in:
  "digraph_laws G \<Longrightarrow> (a, e) \<in> set (edges_in G g b) \<longleftrightarrow> (a, b, e) \<in> set (edge_list G g)"
proof -
  assume "digraph_laws G"
  then have "set (edges_in G g b) = set (into b (edge_list G g))"
    unfolding digraph_laws_def by (metis set_mset_mset)
  then show ?thesis by (force simp: into_def)
qed

section \<open>An instance\<close>

text \<open>Two lists with these laws: they can hold together. The limit is tested on integers, which the
  simplifier evaluates in binary.\<close>

definition has_index :: "nat \<Rightarrow> bool" where "has_index n \<longleftrightarrow> int n < 4294967295"

lemma has_index_iff: "has_index n \<longleftrightarrow> n < index_limit"
  unfolding has_index_def index_limit_def by linarith

definition first_edge :: "nat \<Rightarrow> nat \<Rightarrow> (nat \<times> nat \<times> 'e) list \<Rightarrow> nat option" where
  "first_edge a b es =
     (case filter (\<lambda>i. fst (es ! i) = a \<and> fst (snd (es ! i)) = b) [0..<length es] of
        [] \<Rightarrow> None | i # js \<Rightarrow> Some i)"

definition list_graph :: "('n list \<times> (nat \<times> nat \<times> 'e) list, 'n, 'e) graph_ops" where
  "list_graph =
     \<lparr>g_empty = ([], []), node_list = fst, edge_list = snd,
      g_add_node = (\<lambda>n (ns, es). if has_index (length ns) then Some (length ns, ns @ [n], es) else None),
      g_add_edge = (\<lambda>a b e (ns, es).
        if a < length ns \<and> b < length ns \<and> has_index (length es) then Some (ns, es @ [(a, b, e)]) else None),
      node_weight = (\<lambda>(ns, es) i. if i < length ns then Some (ns ! i) else None),
      edges_out = (\<lambda>(ns, es) a. out_of a es), edges_in = (\<lambda>(ns, es) b. into b es),
      find_edge = (\<lambda>(ns, es) a b. first_edge a b es),
      edge_weight = (\<lambda>(ns, es) i. if i < length es then Some (snd (snd (es ! i))) else None),
      set_edge_weight = (\<lambda>i w (ns, es). (ns, reweigh i w es))\<rparr>"

lemma first_edge_cases:
  "case first_edge a b es of
     None \<Rightarrow> \<forall>e. (a, b, e) \<notin> set es
   | Some i \<Rightarrow> i < length es \<and> (\<exists>e. es ! i = (a, b, e))"
proof (cases "filter (\<lambda>i. fst (es ! i) = a \<and> fst (snd (es ! i)) = b) [0..<length es]")
  case Nil
  then have "\<forall>i < length es. \<not> (fst (es ! i) = a \<and> fst (snd (es ! i)) = b)"
    by (auto simp: filter_empty_conv)
  then show ?thesis using Nil by (fastforce simp: first_edge_def in_set_conv_nth)
next
  case (Cons i js)
  then have "i \<in> set (filter (\<lambda>i. fst (es ! i) = a \<and> fst (snd (es ! i)) = b) [0..<length es])" by simp
  then have "i < length es \<and> fst (es ! i) = a \<and> fst (snd (es ! i)) = b" by simp
  then have "i < length es \<and> es ! i = (a, b, snd (snd (es ! i)))" by (metis prod.collapse)
  then show ?thesis using Cons by (auto simp: first_edge_def)
qed

lemma first_edge_None: "first_edge a b es = None \<Longrightarrow> (a, b, e) \<notin> set es"
  using first_edge_cases[where a = a and b = b and es = es] by simp

lemma first_edge_Some:
  "first_edge a b es = Some i \<Longrightarrow> i < length es \<and> (\<exists>e. es ! i = (a, b, e))"
  using first_edge_cases[where a = a and b = b and es = es] by simp

lemma list_graph_laws: "digraph_laws list_graph"
  unfolding digraph_laws_def list_graph_def
  by (auto split: option.splits simp: has_index_iff first_edge_None dest: first_edge_Some)

end
