(* ===== verification/Ordering.thy ===== *)
theory Ordering
  imports Floats "HOL-Library.Multiset"
begin

text \<open>
  Sorting with a comparator, as \<open>slice::sort_by\<close> does it: stable, so that elements the
  comparator calls equal keep their order. \<open>le a b\<close> is \<open>cmp(a, b) != Greater\<close>.
  \<open>total_le\<close> is \<open>total_cmp\<close> on floats; the one NaN of the model is the positive one.
\<close>

fun ins_by :: "('a \<Rightarrow> 'a \<Rightarrow> bool) \<Rightarrow> 'a \<Rightarrow> 'a list \<Rightarrow> 'a list" where
  "ins_by le x [] = [x]"
| "ins_by le x (y # ys) = (if le x y then x # y # ys else y # ins_by le x ys)"

definition sort_by :: "('a \<Rightarrow> 'a \<Rightarrow> bool) \<Rightarrow> 'a list \<Rightarrow> 'a list" where
  "sort_by le xs = foldr (ins_by le) xs []"

definition preorder_on_all :: "('a \<Rightarrow> 'a \<Rightarrow> bool) \<Rightarrow> bool" where
  "preorder_on_all le \<longleftrightarrow>
     (\<forall>x y. le x y \<or> le y x) \<and> (\<forall>x y z. le x y \<longrightarrow> le y z \<longrightarrow> le x z)"

lemma mset_ins_by [simp]: "mset (ins_by le x xs) = add_mset x (mset xs)"
  by (induction xs) auto

lemma mset_sort_by [simp]: "mset (sort_by le xs) = mset xs"
  by (induction xs) (simp_all add: sort_by_def)

lemma set_sort_by [simp]: "set (sort_by le xs) = set xs"
  by (metis mset_sort_by set_mset_mset)

lemma length_sort_by [simp]: "length (sort_by le xs) = length xs"
  by (metis mset_sort_by size_mset)

lemma sorted_ins_by:
  "preorder_on_all le \<Longrightarrow> sorted_wrt le xs \<Longrightarrow> sorted_wrt le (ins_by le x xs)"
proof (induction xs)
  case (Cons y ys)
  have s: "set (ins_by le x ys) = insert x (set ys)"
    by (metis mset_ins_by set_mset_add_mset_insert set_mset_mset)
  show ?case using Cons s unfolding preorder_on_all_def by auto
qed simp

lemma sorted_sort_by: "preorder_on_all le \<Longrightarrow> sorted_wrt le (sort_by le xs)"
  by (induction xs) (simp_all add: sort_by_def sorted_ins_by)

lemma ins_by_head: "\<forall>y \<in> set ys. le x y \<Longrightarrow> ins_by le x ys = x # ys"
  by (cases ys) simp_all

lemma sort_by_sorted: "sorted_wrt le xs \<Longrightarrow> sort_by le xs = xs"
  by (induction xs) (simp_all add: sort_by_def ins_by_head)

section \<open>Total comparison of floats\<close>

fun total_rank :: "fl \<Rightarrow> int" where
  "total_rank NInf = 0"
| "total_rank (Fin x) = 1"
| "total_rank PInf = 2"
| "total_rank NaN = 3"

fun total_le :: "fl \<Rightarrow> fl \<Rightarrow> bool" where
  "total_le (Fin x) (Fin y) = (x \<le> y)"
| "total_le a b = (total_rank a \<le> total_rank b)"

lemma total_le_linear: "total_le a b \<or> total_le b a"
  by (cases a; cases b) auto

lemma total_le_trans: "total_le a b \<Longrightarrow> total_le b c \<Longrightarrow> total_le a c"
  by (cases a; cases b; cases c) auto

lemma total_le_fl: "a \<noteq> NaN \<Longrightarrow> b \<noteq> NaN \<Longrightarrow> total_le a b = fl_le a b"
  by (cases a; cases b) auto

text \<open>A descending sort by a float key.\<close>

definition key_desc :: "('a \<Rightarrow> fl) \<Rightarrow> 'a \<Rightarrow> 'a \<Rightarrow> bool" where
  "key_desc f a b = total_le (f b) (f a)"

lemma key_desc_preorder: "preorder_on_all (key_desc f)"
  unfolding preorder_on_all_def key_desc_def using total_le_linear total_le_trans by blast

lemma sort_desc_sorted: "sorted_wrt (key_desc f) (sort_by (key_desc f) xs)"
  by (rule sorted_sort_by[OF key_desc_preorder])

end
