(* ===== verification/Attack_Graph.thy ===== *)
theory Attack_Graph
  imports Graph_Types Petgraph Ordering Net_Addr "HOL-Library.Monad_Syntax"
begin

text \<open>
  The runtime attack graph of \<open>runtime_attack_graph_v2.rs\<close>: library loads, network events
  and CVE associations extend the graph, and a finding is turned into an attack path by
  walking it. Every operation takes the petgraph operations \<open>G\<close> first; \<open>None\<close> is a panic.
  Maps that are only looked up are functions.
\<close>

section \<open>State\<close>

record 'g RuntimeAttackGraph =
  rg_graph :: 'g
  rg_node_indices :: "string \<rightharpoonup> nat"
  rg_process_libraries :: "u32 \<rightharpoonup> (string \<times> u64) list"
  rg_process_connections :: "u32 \<rightharpoonup> (NetEvent \<times> u64) list"
  rg_cve_to_library :: "string \<rightharpoonup> string list"
  rg_config :: AttackGraphConfig
  rg_metrics :: AttackPathMetrics
  rg_update_queue :: "GraphUpdate list"
  rg_last_network_update :: "(u32 \<times> u16) \<rightharpoonup> u64"

type_synonym 'g path_ops = "('g, RuntimeNode, RuntimeEdge) graph_ops"

definition RuntimeAttackGraph_new :: "'g path_ops \<Rightarrow> AttackGraphConfig \<Rightarrow> 'g RuntimeAttackGraph" where
  "RuntimeAttackGraph_new G cfg =
     \<lparr>rg_graph = g_empty G, rg_node_indices = Map.empty, rg_process_libraries = Map.empty,
      rg_process_connections = Map.empty, rg_cve_to_library = Map.empty, rg_config = cfg,
      rg_metrics = AttackPathMetrics_default, rg_update_queue = [],
      rg_last_network_update = Map.empty\<rparr>"

definition with_defaults :: "'g path_ops \<Rightarrow> 'g RuntimeAttackGraph" where
  "with_defaults G = RuntimeAttackGraph_new G AttackGraphConfig_default"

text \<open>\<open>map.entry(k).or_default().push(x)\<close>\<close>

definition push_entry :: "'k \<Rightarrow> 'v \<Rightarrow> ('k \<rightharpoonup> 'v list) \<Rightarrow> ('k \<rightharpoonup> 'v list)" where
  "push_entry k x m = m(k \<mapsto> (case m k of None \<Rightarrow> [] | Some xs \<Rightarrow> xs) @ [x])"

section \<open>Events\<close>

definition rg_add_node ::
  "'g path_ops \<Rightarrow> RuntimeNode \<Rightarrow> 'g RuntimeAttackGraph \<Rightarrow> (nat \<times> 'g RuntimeAttackGraph) option" where
  "rg_add_node G node s =
     (case rg_node_indices s (node_id node) of
        Some idx \<Rightarrow> Some (idx, s)
      | None \<Rightarrow>
          (case g_add_node G node (rg_graph s) of
             None \<Rightarrow> None
           | Some (idx, g) \<Rightarrow>
               Some (idx, s\<lparr>rg_graph := g, rg_node_indices := (rg_node_indices s)(node_id node \<mapsto> idx)\<rparr>)))"

definition rg_add_edge ::
  "'g path_ops \<Rightarrow> nat \<Rightarrow> nat \<Rightarrow> RuntimeEdge \<Rightarrow> 'g RuntimeAttackGraph \<Rightarrow> 'g RuntimeAttackGraph option" where
  "rg_add_edge G a b e s = map_option (\<lambda>g. s\<lparr>rg_graph := g\<rparr>) (g_add_edge G a b e (rg_graph s))"

definition push_update :: "GraphUpdate \<Rightarrow> 'g RuntimeAttackGraph \<Rightarrow> 'g RuntimeAttackGraph" where
  "push_update u s = s\<lparr>rg_update_queue := rg_update_queue s @ [u]\<rparr>"

definition proc_id :: "u32 \<Rightarrow> string" where "proc_id pid = ''proc:'' @ dec_w pid"
definition lib_id :: "string \<Rightarrow> string" where "lib_id path = ''lib:'' @ path"
definition net_id :: "string \<Rightarrow> u16 \<Rightarrow> string" where "net_id ip port = ''net:'' @ ip @ '':'' @ dec_w port"

definition process_library_load ::
  "'g path_ops \<Rightarrow> u32 \<Rightarrow> string \<Rightarrow> u64 \<Rightarrow> string \<Rightarrow> u64 \<Rightarrow> 'g RuntimeAttackGraph
   \<Rightarrow> 'g RuntimeAttackGraph option" where
  "process_library_load G pid name cgroup path ts s =
     do {
        (process_idx, s) \<leftarrow> rg_add_node G (NProcess pid name cgroup) s;
        (lib_idx, s) \<leftarrow> rg_add_node G (NLibrary path []) s;
        s \<leftarrow> rg_add_edge G process_idx lib_idx (ELibraryLoaded ts (lit32 1)) s;
        let s = s\<lparr>rg_process_libraries := push_entry pid (path, ts) (rg_process_libraries s)\<rparr>;
        Some (push_update (EdgeAdded (proc_id pid) (lib_id path) (ELibraryLoaded ts (lit32 1))) s) }"

text \<open>\<open>Duration::from_secs(n).as_nanos() as u64\<close>\<close>

definition secs_ns :: "u64 \<Rightarrow> u64" where "secs_ns n = n * 1000000000"

definition net_protocol :: "EventKind \<Rightarrow> string" where
  "net_protocol k =
     (case k of KTcpSend \<Rightarrow> ''TCP'' | KTcpRecv \<Rightarrow> ''TCP''
      | KUdpSend \<Rightarrow> ''UDP'' | KUdpRecv \<Rightarrow> ''UDP'' | _ \<Rightarrow> ''UNKNOWN'')"

definition aggregate_network_event ::
  "'g path_ops \<Rightarrow> u32 \<Rightarrow> NetEvent \<Rightarrow> 'g RuntimeAttackGraph \<Rightarrow> 'g RuntimeAttackGraph" where
  "aggregate_network_event G pid ev s =
     (let daddr = ipv4_be (ne_daddr ev); size = ucast (ne_data_size ev)
      in case (rg_node_indices s (proc_id pid), rg_node_indices s (net_id daddr (ne_dport ev))) of
           (Some process_idx, Some net_idx) \<Rightarrow>
             (case find_edge G (rg_graph s) process_idx net_idx of
                None \<Rightarrow> s
              | Some i \<Rightarrow>
                  (case edge_weight G (rg_graph s) i of
                     Some (ENetworkConnection t bytes n conf) \<Rightarrow>
                       push_update (EdgeUpdated (proc_id pid) (net_id daddr (ne_dport ev)) size)
                         (s\<lparr>rg_graph := set_edge_weight G i
                              (ENetworkConnection t (bytes + size) (n + 1)
                                 (fmin (fadd F32 conf (lit32 (5/100))) (lit32 (95/100))))
                              (rg_graph s)\<rparr>)
                   | _ \<Rightarrow> s))
         | _ \<Rightarrow> s)"

definition correlate_library ::
  "'g path_ops \<Rightarrow> nat \<Rightarrow> u64 \<Rightarrow> f32 \<Rightarrow> string \<times> u64 \<Rightarrow> 'g RuntimeAttackGraph
   \<Rightarrow> 'g RuntimeAttackGraph option" where
  "correlate_library G net_idx event_time confidence lib s =
     (case lib of (path, load_time) \<Rightarrow>
        if load_time < event_time \<and> event_time - load_time < secs_ns (ac_mmap_window_secs (rg_config s))
        then (case rg_node_indices s (lib_id path) of
                None \<Rightarrow> Some s
              | Some lib_idx \<Rightarrow>
                  rg_add_edge G lib_idx net_idx
                    (EExploitationAttempt (fmul F32 confidence (lit32 (8/10)))
                       (''Library '' @ path @ '' loaded '' @ dec_w ((event_time - load_time) div 1000000000)
                        @ ''s before network activity'')) s)
        else Some s)"

primrec correlate_all ::
  "'g path_ops \<Rightarrow> nat \<Rightarrow> u64 \<Rightarrow> f32 \<Rightarrow> (string \<times> u64) list \<Rightarrow> 'g RuntimeAttackGraph
   \<Rightarrow> 'g RuntimeAttackGraph option" where
  "correlate_all G net_idx event_time confidence [] s = Some s"
| "correlate_all G net_idx event_time confidence (lib # libs) s =
     Option.bind (correlate_library G net_idx event_time confidence lib s)
       (correlate_all G net_idx event_time confidence libs)"

definition correlate_with_libraries ::
  "'g path_ops \<Rightarrow> u32 \<Rightarrow> nat \<Rightarrow> NetEvent \<Rightarrow> f32 \<Rightarrow> 'g RuntimeAttackGraph
   \<Rightarrow> 'g RuntimeAttackGraph option" where
  "correlate_with_libraries G pid net_idx ev confidence s =
     (case rg_process_libraries s pid of
        None \<Rightarrow> Some s
      | Some libs \<Rightarrow> correlate_all G net_idx (ne_timestamp_ns ev) confidence libs s)"

definition is_collapsed :: "u32 \<Rightarrow> NetEvent \<Rightarrow> 'g RuntimeAttackGraph \<Rightarrow> bool" where
  "is_collapsed pid ev s \<longleftrightarrow>
     ac_dedup_enabled (rg_config s)
     \<and> (case rg_last_network_update s (pid, ne_dport ev) of
          None \<Rightarrow> False
        | Some last_time \<Rightarrow>
            last_time < ne_timestamp_ns ev
            \<and> ne_timestamp_ns ev - last_time < secs_ns (ac_network_window_secs (rg_config s)))"

definition event_confidence :: "NetEvent \<Rightarrow> AttackGraphConfig \<Rightarrow> f32" where
  "event_confidence ev cfg =
     (if ac_min_bytes_threshold cfg < ucast (ne_data_size ev) then lit32 (9/10) else lit32 (7/10))"

definition count_collapsed :: "'g RuntimeAttackGraph \<Rightarrow> 'g RuntimeAttackGraph" where
  "count_collapsed s =
     s\<lparr>rg_metrics := (rg_metrics s)\<lparr>am_burst_events_collapsed := am_burst_events_collapsed (rg_metrics s) + 1\<rparr>\<rparr>"

definition process_network_event ::
  "'g path_ops \<Rightarrow> u32 \<Rightarrow> string \<Rightarrow> u64 \<Rightarrow> NetEvent \<Rightarrow> 'g RuntimeAttackGraph
   \<Rightarrow> 'g RuntimeAttackGraph option" where
  "process_network_event G pid name cgroup ev s =
     (let daddr = ipv4_be (ne_daddr ev)
      in if is_collapsed pid ev s
         then Some (count_collapsed (aggregate_network_event G pid ev s))
         else
           (let s = s\<lparr>rg_last_network_update :=
                        (rg_last_network_update s)((pid, ne_dport ev) \<mapsto> ne_timestamp_ns ev)\<rparr>
            in do {
              (process_idx, s) \<leftarrow> rg_add_node G (NProcess pid name cgroup) s;
              (net_idx, s) \<leftarrow> rg_add_node G (NNetwork daddr (ne_dport ev) (net_protocol (ne_kind ev))) s;
              let confidence = event_confidence ev (rg_config s);
              let edge = ENetworkConnection (ne_timestamp_ns ev) (ucast (ne_data_size ev)) 1 confidence;
              s \<leftarrow> rg_add_edge G process_idx net_idx edge s;
              s \<leftarrow> correlate_with_libraries G pid net_idx ev confidence s;
              let s = s\<lparr>rg_process_connections :=
                          push_entry pid (ev, ne_timestamp_ns ev) (rg_process_connections s)\<rparr>;
              Some (push_update (EdgeAdded (proc_id pid) (net_id daddr (ne_dport ev)) edge) s) }))"

primrec associate_all ::
  "'g path_ops \<Rightarrow> nat \<Rightarrow> string \<Rightarrow> nat list \<Rightarrow> 'g RuntimeAttackGraph \<Rightarrow> 'g RuntimeAttackGraph option" where
  "associate_all G vuln_idx package [] s = Some s"
| "associate_all G vuln_idx package (idx # js) s =
     Option.bind
       (case node_weight G (rg_graph s) idx of
          Some (NLibrary path cves) \<Rightarrow>
            if ag_library_matches_package path package
            then rg_add_edge G vuln_idx idx (EVulnerable (lit32 (95/100))) s
            else Some s
        | _ \<Rightarrow> Some s)
       (associate_all G vuln_idx package js)"

definition associate_cve_with_library ::
  "'g path_ops \<Rightarrow> string \<Rightarrow> string \<Rightarrow> f32 \<Rightarrow> f32 \<Rightarrow> bool \<Rightarrow> 'g RuntimeAttackGraph
   \<Rightarrow> 'g RuntimeAttackGraph option" where
  "associate_cve_with_library G cve package cvss epss kev s =
     do {
        (vuln_idx, s) \<leftarrow> rg_add_node G (NVulnerability
            \<lparr>vn_cve_id = cve, vn_package = package, vn_cvss = cvss, vn_epss = epss, vn_kev = kev\<rparr>) s;
        s \<leftarrow> associate_all G vuln_idx package [0..<length (node_list G (rg_graph s))] s;
        Some (s\<lparr>rg_cve_to_library := push_entry cve package (rg_cve_to_library s)\<rparr>) }"

section \<open>Paths\<close>

record path_acc =
  pa_nodes :: "RuntimeNode list"
  pa_edges :: "(nat \<times> nat \<times> RuntimeEdge) list"
  pa_indicators :: "string list"
  pa_signal_types :: "string list"
  pa_total_bytes :: u64

definition add_hop :: "nat \<Rightarrow> RuntimeNode \<Rightarrow> RuntimeEdge \<Rightarrow> path_acc \<Rightarrow> path_acc" where
  "add_hop src n e a =
     a\<lparr>pa_nodes := pa_nodes a @ [n], pa_edges := pa_edges a @ [(src, length (pa_nodes a), e)]\<rparr>"

definition walk_network ::
  "'g path_ops \<Rightarrow> 'g \<Rightarrow> nat \<times> RuntimeEdge \<Rightarrow> path_acc \<Rightarrow> path_acc" where
  "walk_network G g net_edge a =
     (case net_edge of
        (net_idx, ENetworkConnection t bytes n c) \<Rightarrow>
          (case node_weight G g net_idx of
             None \<Rightarrow> a
           | Some net_node \<Rightarrow>
               (let a = add_hop (length (pa_nodes a) - 1) net_node (ENetworkConnection t bytes n c) a
                in a\<lparr>pa_total_bytes := pa_total_bytes a + bytes,
                     pa_indicators := pa_indicators a
                       @ [''Network: '' @ dec_w bytes @ '' bytes to '' @ node_id net_node],
                     pa_signal_types := pa_signal_types a @ [''network'']\<rparr>))
      | _ \<Rightarrow> a)"

definition walk_process ::
  "'g path_ops \<Rightarrow> 'g \<Rightarrow> nat \<times> RuntimeEdge \<Rightarrow> path_acc \<Rightarrow> path_acc" where
  "walk_process G g proc_edge a =
     (case proc_edge of
        (proc_idx, ELibraryLoaded t c) \<Rightarrow>
          (case node_weight G g proc_idx of
             None \<Rightarrow> a
           | Some proc_node \<Rightarrow>
               (let a = (if list_ex (\<lambda>n. node_id n = node_id proc_node) (pa_nodes a) then a
                         else (add_hop (length (pa_nodes a) - 1) proc_node (ELibraryLoaded t c) a)
                                \<lparr>pa_signal_types := pa_signal_types a @ [''library_loaded'']\<rparr>)
                in fold (walk_network G g) (edges_out G g proc_idx) a))
      | _ \<Rightarrow> a)"

definition walk_library ::
  "'g path_ops \<Rightarrow> 'g \<Rightarrow> nat \<times> RuntimeEdge \<Rightarrow> path_acc \<Rightarrow> path_acc" where
  "walk_library G g lib_edge a =
     (case lib_edge of
        (lib_idx, EVulnerable c) \<Rightarrow>
          (case node_weight G g lib_idx of
             None \<Rightarrow> a
           | Some lib_node \<Rightarrow>
               (let a = add_hop 0 lib_node (EVulnerable (lit32 (95/100))) a;
                    a = a\<lparr>pa_indicators := pa_indicators a @ [''Vulnerable library: '' @ node_id lib_node],
                          pa_signal_types := pa_signal_types a @ [''vulnerability'']\<rparr>
                in fold (walk_process G g) (edges_in G g lib_idx) a))
      | _ \<Rightarrow> a)"

definition vuln_node_of :: "Finding \<Rightarrow> RuntimeNode" where
  "vuln_node_of f =
     NVulnerability \<lparr>vn_cve_id = rs_cve (fd_signal f), vn_package = rs_package (fd_signal f),
       vn_cvss = rs_cvss (fd_signal f), vn_epss = rs_epss (fd_signal f), vn_kev = rs_kev (fd_signal f)\<rparr>"

definition walk_finding :: "'g path_ops \<Rightarrow> 'g RuntimeAttackGraph \<Rightarrow> Finding \<Rightarrow> path_acc" where
  "walk_finding G s f =
     (let a = \<lparr>pa_nodes = [vuln_node_of f], pa_edges = [], pa_indicators = [],
               pa_signal_types = [], pa_total_bytes = 0\<rparr>
      in case rg_node_indices s (''vuln:'' @ rs_cve (fd_signal f)) of
           None \<Rightarrow> a
         | Some vuln_idx \<Rightarrow> fold (walk_library G (rg_graph s)) (edges_out G (rg_graph s) vuln_idx) a)"

text \<open>
  What the code takes from its environment for one path: a fresh uuid, and the order in which
  the set of signal types is iterated (a permutation of it).
\<close>

record path_env =
  pe_uuid :: string
  pe_order :: "string list \<Rightarrow> string list"

definition build_path_for_finding ::
  "'g path_ops \<Rightarrow> path_env \<Rightarrow> 'g RuntimeAttackGraph \<Rightarrow> Finding \<Rightarrow> AttackPath" where
  "build_path_for_finding G env s f =
     (let a = walk_finding G s f
      in \<lparr>ap_path_id = ''path-'' @ pe_uuid env, ap_nodes = pa_nodes a, ap_edges = pa_edges a,
          ap_confidence = calculate_path_confidence (pa_nodes a) (pa_edges a) f,
          ap_risk_score = fmul F32 (fd_score f)
            (fmin (fmul F32 (fl_nat F32 (length (pa_nodes a))) (lit32 (2/10))) (lit32 1)),
          ap_time_window_secs = ac_mmap_window_secs (rg_config s),
          ap_indicators = pa_indicators a, ap_depth = length (pa_nodes a),
          ap_signal_types = pe_order env (remdups (pa_signal_types a)),
          ap_total_bytes = pa_total_bytes a, ap_rank = None\<rparr>)"

definition is_reachable :: "Finding \<Rightarrow> bool" where
  "is_reachable f \<longleftrightarrow> rs_runtime (fd_signal f) = Reachable"

definition path_score :: "AttackPath \<Rightarrow> f32" where
  "path_score p = fmul F32 (ap_confidence p) (ap_risk_score p)"

text \<open>\<open>envs i\<close> is what the \<open>i\<close>-th path takes.\<close>

definition candidate_paths ::
  "'g path_ops \<Rightarrow> (nat \<Rightarrow> path_env) \<Rightarrow> 'g RuntimeAttackGraph \<Rightarrow> Finding list \<Rightarrow> AttackPath list" where
  "candidate_paths G envs s fs =
     map (\<lambda>(i, f). build_path_for_finding G (envs i) s f) (enumerate 0 (filter is_reachable fs))"

definition rank_paths :: "AttackPath list \<Rightarrow> AttackPath list" where
  "rank_paths ps = map (\<lambda>(i, p). p\<lparr>ap_rank := Some (i + 1)\<rparr>) (enumerate 0 ps)"

definition is_confident :: "AttackPath \<Rightarrow> bool" where
  "is_confident p \<longleftrightarrow> fl_ge (ap_confidence p) (lit32 (8/10))"

definition avg_update :: "AttackPath list \<Rightarrow> f32 \<Rightarrow> f32" where
  "avg_update ps avg =
     (let batch_avg = fdiv F32 (fsum F32 (map ap_confidence ps)) (fl_nat F32 (length ps));
          alpha = lit32 (3/10)
      in fadd F32 (fmul F32 alpha batch_avg) (fmul F32 (fsub F32 (lit32 1) alpha) avg))"

definition build_attack_paths ::
  "'g path_ops \<Rightarrow> (nat \<Rightarrow> path_env) \<Rightarrow> Finding list \<Rightarrow> 'g RuntimeAttackGraph
   \<Rightarrow> AttackPath list \<times> 'g RuntimeAttackGraph" where
  "build_attack_paths G envs fs s =
     (let paths = filter (\<lambda>p. ap_nodes p \<noteq> []) (candidate_paths G envs s fs);
          paths = rank_paths (sort_by (key_desc path_score) paths);
          m = rg_metrics s;
          m = m\<lparr>am_paths_total := am_paths_total m + of_nat (length paths),
                am_high_confidence_paths :=
                  am_high_confidence_paths m + of_nat (length (filter is_confident paths))\<rparr>;
          m = (if paths = [] then m else m\<lparr>am_avg_confidence := avg_update paths (am_avg_confidence m)\<rparr>)
      in (take (ac_top_k (rg_config s)) paths, s\<lparr>rg_metrics := m\<rparr>))"

definition get_top_k_paths ::
  "'g path_ops \<Rightarrow> (nat \<Rightarrow> path_env) \<Rightarrow> Finding list \<Rightarrow> 'g RuntimeAttackGraph
   \<Rightarrow> AttackPathSummary list \<times> 'g RuntimeAttackGraph" where
  "get_top_k_paths G envs fs s =
     (let (ps, s) = build_attack_paths G envs fs s in (map to_summary ps, s))"

definition drain_updates :: "'g RuntimeAttackGraph \<Rightarrow> GraphUpdate list \<times> 'g RuntimeAttackGraph" where
  "drain_updates s = (rg_update_queue s, s\<lparr>rg_update_queue := []\<rparr>)"

definition get_enforceable_paths ::
  "'g path_ops \<Rightarrow> (nat \<Rightarrow> path_env) \<Rightarrow> 'g RuntimeAttackGraph \<Rightarrow> Finding list \<Rightarrow> AttackPath list" where
  "get_enforceable_paths G envs s fs =
     filter (meets_enforcement_criteria (rg_config s)) (candidate_paths G envs s fs)"

definition rg_nodes :: "'g path_ops \<Rightarrow> 'g RuntimeAttackGraph \<Rightarrow> RuntimeNode list" where
  "rg_nodes G s = node_list G (rg_graph s)"

definition node_id_at :: "'g path_ops \<Rightarrow> 'g RuntimeAttackGraph \<Rightarrow> nat \<Rightarrow> string" where
  "node_id_at G s i = (case node_weight G (rg_graph s) i of None \<Rightarrow> [] | Some n \<Rightarrow> node_id n)"

definition rg_edges :: "'g path_ops \<Rightarrow> 'g RuntimeAttackGraph \<Rightarrow> (string \<times> string \<times> RuntimeEdge) list" where
  "rg_edges G s =
     map (\<lambda>(a, b, e). (node_id_at G s a, node_id_at G s b, e)) (edge_list G (rg_graph s))"

definition rg_paths :: "'g RuntimeAttackGraph \<Rightarrow> AttackPath list" where
  "rg_paths s = []"

section \<open>Findings with their paths\<close>

definition path_cve :: "AttackPath \<Rightarrow> string option" where
  "path_cve p =
     (case filter (\<lambda>n. node_type n = ''vulnerability'') (ap_nodes p) of
        NVulnerability v # ns \<Rightarrow> Some (vn_cve_id v) | _ \<Rightarrow> None)"

text \<open>Collecting pairs into a map keeps the last value of a key.\<close>

definition cve_to_path :: "AttackPath list \<Rightarrow> string \<rightharpoonup> AttackPath" where
  "cve_to_path ps = map_of (rev (List.map_filter (\<lambda>p. map_option (\<lambda>c. (c, p)) (path_cve p)) ps))"

definition rank_debug :: "nat option \<Rightarrow> string" where
  "rank_debug r = (case r of None \<Rightarrow> ''None'' | Some n \<Rightarrow> ''Some('' @ dec_nat n @ '')'')"

definition attach_path :: "AttackPath \<Rightarrow> Finding \<Rightarrow> Finding" where
  "attach_path path f =
     (let x = fd_explainability f; m = to_summary path
      in f\<lparr>fd_explainability := x\<lparr>
           er_signals := er_signals x @ map (\<lambda>i. \<lparr>se_signal_type = ''attack_path'', se_timestamp_ns = 0,
             se_details = i, se_confidence = ap_confidence path\<rparr>) (ap_indicators path),
           er_decision := er_decision x @ '' + Attack Path (depth='' @ dec_nat (as_depth m)
             @ '', confidence='' @ fmt_display F32 (as_confidence m)
             @ '', rank='' @ rank_debug (as_rank m) @ '')''\<rparr>\<rparr>)"

definition attach_attack_paths_to_findings ::
  "'g path_ops \<Rightarrow> (nat \<Rightarrow> path_env) \<Rightarrow> Finding list \<Rightarrow> 'g RuntimeAttackGraph
   \<Rightarrow> Finding list \<times> 'g RuntimeAttackGraph" where
  "attach_attack_paths_to_findings G envs fs s =
     (let (paths, s) = build_attack_paths G envs fs s
      in (map (\<lambda>f. case cve_to_path paths (rs_cve (fd_signal f)) of
                     None \<Rightarrow> f | Some p \<Rightarrow> attach_path p f) fs, s))"

section \<open>Well-formed graphs\<close>

fun edge_fits :: "string \<Rightarrow> RuntimeEdge \<Rightarrow> string \<Rightarrow> bool" where
  "edge_fits a (ELibraryLoaded t c) b \<longleftrightarrow> a = ''process'' \<and> b = ''library''"
| "edge_fits a (ENetworkConnection t y n c) b \<longleftrightarrow> a = ''process'' \<and> b = ''network''"
| "edge_fits a (EVulnerable c) b \<longleftrightarrow> a = ''vulnerability'' \<and> b = ''library''"
| "edge_fits a (EExploitationAttempt c x) b \<longleftrightarrow> a = ''library'' \<and> b = ''network''"
| "edge_fits a _ b \<longleftrightarrow> False"

definition edges_fit :: "RuntimeNode list \<Rightarrow> (nat \<times> nat \<times> RuntimeEdge) list \<Rightarrow> bool" where
  "edges_fit ns es \<longleftrightarrow>
     (\<forall>(a, b, e) \<in> set es. a < length ns \<and> b < length ns
        \<and> edge_fits (node_type (ns ! a)) e (node_type (ns ! b)))"

definition indexed :: "RuntimeNode list \<Rightarrow> (string \<rightharpoonup> nat) \<Rightarrow> bool" where
  "indexed ns m \<longleftrightarrow> (\<forall>x i. m x = Some i \<longleftrightarrow> i < length ns \<and> node_id (ns ! i) = x)"

definition graph_ok :: "'g path_ops \<Rightarrow> 'g RuntimeAttackGraph \<Rightarrow> bool" where
  "graph_ok G s \<longleftrightarrow>
     indexed (node_list G (rg_graph s)) (rg_node_indices s)
     \<and> edges_fit (node_list G (rg_graph s)) (edge_list G (rg_graph s))"

lemma node_id_type: "node_id m = node_id n \<Longrightarrow> node_type m = node_type n"
  by (cases m; cases n) auto

lemma ids [simp]:
  "node_id (NProcess pid name cg) = proc_id pid" "node_id (NLibrary path cves) = lib_id path"
  "node_id (NNetwork ip port proto) = net_id ip port"
  by (simp_all add: proc_id_def lib_id_def net_id_def)

declare node_id.simps(1-3) [simp del]

lemma indexed_append:
  "indexed ns m \<Longrightarrow> m (node_id n) = None \<Longrightarrow> indexed (ns @ [n]) (m(node_id n \<mapsto> length ns))"
  unfolding indexed_def
  by (auto simp: nth_append less_Suc_eq split: if_splits) (metis option.discI)+

lemma edges_fit_append: "edges_fit ns es \<Longrightarrow> edges_fit (ns @ ms) es"
  by (fastforce simp: edges_fit_def nth_append)

lemma edges_fit_snoc:
  "edges_fit ns (es @ [(a, b, e)]) \<longleftrightarrow>
     edges_fit ns es \<and> a < length ns \<and> b < length ns
     \<and> edge_fits (node_type (ns ! a)) e (node_type (ns ! b))"
  by (auto simp: edges_fit_def)

text \<open>There is no room for \<open>n\<close> more nodes and \<open>k\<close> more edges; and a graph has grown by at most as many.\<close>

abbreviation nodes_of :: "'g path_ops \<Rightarrow> 'g RuntimeAttackGraph \<Rightarrow> RuntimeNode list" where
  "nodes_of G s \<equiv> node_list G (rg_graph s)"

abbreviation edges_of :: "'g path_ops \<Rightarrow> 'g RuntimeAttackGraph \<Rightarrow> (nat \<times> nat \<times> RuntimeEdge) list" where
  "edges_of G s \<equiv> edge_list G (rg_graph s)"

definition full_for :: "'g path_ops \<Rightarrow> nat \<Rightarrow> nat \<Rightarrow> 'g RuntimeAttackGraph \<Rightarrow> bool" where
  "full_for G n k s \<longleftrightarrow>
     index_limit < length (nodes_of G s) + n \<or> index_limit < length (edges_of G s) + k"

definition grown :: "'g path_ops \<Rightarrow> nat \<Rightarrow> nat \<Rightarrow> 'g RuntimeAttackGraph \<Rightarrow> 'g RuntimeAttackGraph \<Rightarrow> bool" where
  "grown G n k s t \<longleftrightarrow>
     length (nodes_of G t) \<le> length (nodes_of G s) + n \<and> length (edges_of G t) \<le> length (edges_of G s) + k"

text \<open>What adding a node gives: a panic, or an index of a node with that id, and more nodes.\<close>

lemma add_node_cases:
  assumes "digraph_laws G" "graph_ok G s"
  obtains (full) "rg_add_node G n s = None" "full_for G 1 0 s"
  | (added) i g m where "rg_add_node G n s = Some (i, s\<lparr>rg_graph := g, rg_node_indices := m\<rparr>)"
      "graph_ok G (s\<lparr>rg_graph := g, rg_node_indices := m\<rparr>)" "i < length (node_list G g)"
      "node_id (node_list G g ! i) = node_id n" "\<exists>ms. node_list G g = nodes_of G s @ ms"
      "length (node_list G g) \<le> Suc (length (nodes_of G s))" "edge_list G g = edges_of G s"
proof (cases "rg_node_indices s (node_id n)")
  case None
  show thesis
  proof (rule digraph_add_node[OF assms(1), of n "rg_graph s"])
    assume "g_add_node G n (rg_graph s) = None" "index_limit \<le> length (nodes_of G s)"
    then show thesis using None by (intro full) (simp_all add: rg_add_node_def full_for_def)
  next
    fix g
    assume "g_add_node G n (rg_graph s) = Some (length (nodes_of G s), g)"
      "node_list G g = nodes_of G s @ [n]" "edge_list G g = edges_of G s"
    then show thesis using None assms(2)
      by (intro added[where i = "length (nodes_of G s)" and g = g and m = "(rg_node_indices s)(node_id n \<mapsto> length (nodes_of G s))"])
        (auto simp: rg_add_node_def graph_ok_def indexed_append edges_fit_append)
  qed
next
  case (Some j)
  then have "j < length (nodes_of G s)" "node_id (nodes_of G s ! j) = node_id n"
    using assms(2) by (auto simp: graph_ok_def indexed_def)
  then show thesis using Some assms(2)
    by (intro added[where i = j and g = "rg_graph s" and m = "rg_node_indices s"]) (simp_all add: rg_add_node_def)
qed

lemma add_edge_cases:
  assumes "digraph_laws G" "graph_ok G s" "a < length (nodes_of G s)" "b < length (nodes_of G s)"
    "edge_fits (node_type (nodes_of G s ! a)) e (node_type (nodes_of G s ! b))"
  obtains (full) "rg_add_edge G a b e s = None" "full_for G 0 1 s"
  | (added) g where "rg_add_edge G a b e s = Some (s\<lparr>rg_graph := g\<rparr>)" "graph_ok G (s\<lparr>rg_graph := g\<rparr>)"
      "node_list G g = nodes_of G s" "edge_list G g = edges_of G s @ [(a, b, e)]"
proof (rule digraph_add_edge[OF assms(1,3,4), of e])
  assume "g_add_edge G a b e (rg_graph s) = None" "index_limit \<le> length (edges_of G s)"
  then show thesis by (intro full) (simp_all add: rg_add_edge_def full_for_def)
next
  fix g
  assume "g_add_edge G a b e (rg_graph s) = Some g" "node_list G g = nodes_of G s"
    "edge_list G g = edges_of G s @ [(a, b, e)]"
  with assms show thesis
    by (intro added[of g]) (auto simp: rg_add_edge_def graph_ok_def edges_fit_snoc)
qed

text \<open>Two nodes and an edge between them, as the event handlers add them.\<close>

definition add_link ::
  "'g path_ops \<Rightarrow> RuntimeNode \<Rightarrow> RuntimeNode \<Rightarrow> (AttackGraphConfig \<Rightarrow> RuntimeEdge) \<Rightarrow> 'g RuntimeAttackGraph
   \<Rightarrow> (nat \<times> 'g RuntimeAttackGraph) option" where
  "add_link G m n f s =
     do {
       (i, s) \<leftarrow> rg_add_node G m s;
       (j, s) \<leftarrow> rg_add_node G n s;
       s \<leftarrow> rg_add_edge G i j (f (rg_config s)) s;
       Some (j, s) }"

lemma link_cases:
  assumes "digraph_laws G" "graph_ok G s" "edge_fits (node_type m) (f (rg_config s)) (node_type n)"
  obtains (full) "add_link G m n f s = None" "full_for G 2 1 s"
  | (added) i j g x where "add_link G m n f s = Some (j, s\<lparr>rg_graph := g, rg_node_indices := x\<rparr>)"
      "graph_ok G (s\<lparr>rg_graph := g, rg_node_indices := x\<rparr>)"
      "edge_list G g = edges_of G s @ [(i, j, f (rg_config s))]"
      "j < length (node_list G g)" "node_type (node_list G g ! j) = node_type n"
      "length (node_list G g) \<le> length (nodes_of G s) + 2"
proof (rule add_node_cases[OF assms(1,2), of m])
  assume "rg_add_node G m s = None" "full_for G 1 0 s"
  then show thesis by (intro full) (auto simp: add_link_def full_for_def)
next
  fix i g y
  let ?s = "s\<lparr>rg_graph := g, rg_node_indices := y\<rparr>"
  assume 1: "rg_add_node G m s = Some (i, ?s)" "graph_ok G ?s" "i < length (node_list G g)"
    "node_id (node_list G g ! i) = node_id m" "\<exists>ms. node_list G g = nodes_of G s @ ms"
    "length (node_list G g) \<le> Suc (length (nodes_of G s))" "edge_list G g = edges_of G s"
  show thesis
  proof (rule add_node_cases[OF assms(1) 1(2), of n])
    assume "rg_add_node G n ?s = None" "full_for G 1 0 ?s"
    then show thesis using 1(1,6,7) by (intro full) (auto simp: add_link_def full_for_def)
  next
    fix j h z
    let ?t = "?s\<lparr>rg_graph := h, rg_node_indices := z\<rparr>"
    assume 2: "rg_add_node G n ?s = Some (j, ?t)" "graph_ok G ?t" "j < length (node_list G h)"
      "node_id (node_list G h ! j) = node_id n" "\<exists>ms. node_list G h = nodes_of G ?s @ ms"
      "length (node_list G h) \<le> Suc (length (nodes_of G ?s))" "edge_list G h = edges_of G ?s"
    have i: "i < length (node_list G h)" "node_id (node_list G h ! i) = node_id m"
      using 1(3,4) 2(5) by (auto simp: nth_append)
    have t: "node_type (node_list G h ! i) = node_type m" "node_type (node_list G h ! j) = node_type n"
      using i(2) 2(4) node_id_type by blast+
    show thesis
    proof (rule add_edge_cases[OF assms(1) 2(2), of i j "f (rg_config s)"])
      show "i < length (nodes_of G ?t)" "j < length (nodes_of G ?t)"
        "edge_fits (node_type (nodes_of G ?t ! i)) (f (rg_config s)) (node_type (nodes_of G ?t ! j))"
        using i(1) 2(3) t assms(3) by simp_all
    next
      assume "rg_add_edge G i j (f (rg_config s)) ?t = None" "full_for G 0 1 ?t"
      then show thesis using 1(1,6,7) 2(1,6,7) by (intro full) (auto simp: add_link_def full_for_def)
    next
      fix k
      assume "rg_add_edge G i j (f (rg_config s)) ?t = Some (?t\<lparr>rg_graph := k\<rparr>)" "graph_ok G (?t\<lparr>rg_graph := k\<rparr>)"
        "node_list G k = nodes_of G ?t" "edge_list G k = edges_of G ?t @ [(i, j, f (rg_config s))]"
      then show thesis using 1(1,6,7) 2(1,3,6,7) t(2)
        by (intro added[where j = j and g = k and x = z and i = i]) (simp_all add: add_link_def graph_ok_def)
    qed
  qed
qed

lemma graph_ok_cong:
  "rg_graph s' = rg_graph s \<Longrightarrow> rg_node_indices s' = rg_node_indices s \<Longrightarrow> graph_ok G s' = graph_ok G s"
  by (simp add: graph_ok_def)

lemma push_update_keeps [simp]:
  "rg_graph (push_update u s) = rg_graph s"
  "rg_node_indices (push_update u s) = rg_node_indices s"
  "rg_process_libraries (push_update u s) = rg_process_libraries s"
  "graph_ok G (push_update u s) = graph_ok G s"
  by (simp_all add: push_update_def graph_ok_def)

lemma count_collapsed_keeps [simp]:
  "rg_graph (count_collapsed s) = rg_graph s" "graph_ok G (count_collapsed s) = graph_ok G s"
  "rg_process_libraries (count_collapsed s) = rg_process_libraries s"
  by (simp_all add: count_collapsed_def graph_ok_def)

lemma library_load_link:
  "process_library_load G pid name cg path ts s =
     map_option (\<lambda>(j, s). push_update (EdgeAdded (proc_id pid) (lib_id path) (ELibraryLoaded ts (lit32 1)))
         (s\<lparr>rg_process_libraries := push_entry pid (path, ts) (rg_process_libraries s)\<rparr>))
       (add_link G (NProcess pid name cg) (NLibrary path []) (\<lambda>_. ELibraryLoaded ts (lit32 1)) s)"
  by (auto simp: process_library_load_def add_link_def Let_def split: Option.bind_split prod.splits)

lemma library_load_cases:
  assumes "digraph_laws G" "graph_ok G s"
  shows "case process_library_load G pid name cg path ts s of
      None \<Rightarrow> full_for G 2 1 s
    | Some t \<Rightarrow> graph_ok G t \<and> grown G 2 1 s t
        \<and> rg_process_libraries t = push_entry pid (path, ts) (rg_process_libraries s)"
proof (rule link_cases[OF assms, of "NProcess pid name cg" "\<lambda>_. ELibraryLoaded ts (lit32 1)" "NLibrary path []"])
  let ?link = "add_link G (NProcess pid name cg) (NLibrary path []) (\<lambda>_. ELibraryLoaded ts (lit32 1)) s"
  show "edge_fits (node_type (NProcess pid name cg)) (ELibraryLoaded ts (lit32 1)) (node_type (NLibrary path []))"
    by simp
  show ?thesis if "?link = None" "full_for G 2 1 s" using that by (simp add: library_load_link)
  show ?thesis if "?link = Some (j, s\<lparr>rg_graph := g, rg_node_indices := x\<rparr>)"
    "graph_ok G (s\<lparr>rg_graph := g, rg_node_indices := x\<rparr>)"
    "edge_list G g = edges_of G s @ [(i, j, ELibraryLoaded ts (lit32 1))]"
    "length (node_list G g) \<le> length (nodes_of G s) + 2" for i j g x
    using that by (simp add: library_load_link graph_ok_def grown_def push_update_def)
qed

section \<open>Network events\<close>

definition edge_bytes :: "(nat \<times> nat \<times> RuntimeEdge) list \<Rightarrow> u64" where
  "edge_bytes es =
     sum_list (map (\<lambda>(a, b, e). case e of ENetworkConnection t y n c \<Rightarrow> y | _ \<Rightarrow> 0) es)"

lemma edge_bytes_append [simp]: "edge_bytes (es @ fs) = edge_bytes es + edge_bytes fs"
  by (simp add: edge_bytes_def)

lemma correlate_library_cases:
  assumes "digraph_laws G" "graph_ok G s" "j < length (nodes_of G s)" "node_type (nodes_of G s ! j) = ''network''"
  shows "case correlate_library G j t c lib s of
      None \<Rightarrow> full_for G 0 1 s
    | Some s' \<Rightarrow> \<exists>g. s' = s\<lparr>rg_graph := g\<rparr> \<and> graph_ok G (s\<lparr>rg_graph := g\<rparr>) \<and> node_list G g = nodes_of G s
        \<and> edge_bytes (edge_list G g) = edge_bytes (edges_of G s)
        \<and> length (edge_list G g) \<le> Suc (length (edges_of G s))"
proof -
  obtain path lt where lib: "lib = (path, lt)" by (cases lib)
  show ?thesis
  proof (cases "rg_node_indices s (lib_id path)")
    case None
    then show ?thesis using assms(2) by (auto simp: correlate_library_def lib intro: exI[of _ "rg_graph s"])
  next
    case (Some k)
    then have k: "k < length (nodes_of G s)" "node_id (nodes_of G s ! k) = lib_id path"
      using assms(2) by (auto simp: graph_ok_def indexed_def)
    then have kt: "node_type (nodes_of G s ! k) = ''library''"
      using node_id_type[of _ "NLibrary path []"] by simp
    let ?e = "EExploitationAttempt (fmul F32 c (lit32 (8/10)))
      (''Library '' @ path @ '' loaded '' @ dec_w ((t - lt) div 1000000000) @ ''s before network activity'')"
    have fits: "edge_fits (node_type (nodes_of G s ! k)) ?e (node_type (nodes_of G s ! j))"
      using kt assms(4) by simp
    have "case rg_add_edge G k j ?e s of
        None \<Rightarrow> full_for G 0 1 s
      | Some s' \<Rightarrow> \<exists>g. s' = s\<lparr>rg_graph := g\<rparr> \<and> graph_ok G (s\<lparr>rg_graph := g\<rparr>) \<and> node_list G g = nodes_of G s
          \<and> edge_bytes (edge_list G g) = edge_bytes (edges_of G s)
          \<and> length (edge_list G g) \<le> Suc (length (edges_of G s))"
      by (rule add_edge_cases[OF assms(1,2) k(1) assms(3) fits]) (auto simp: edge_bytes_def)
    then show ?thesis using Some assms(2)
      by (auto simp: correlate_library_def lib intro: exI[of _ "rg_graph s"])
  qed
qed

lemma correlate_all_cases:
  assumes "digraph_laws G"
  shows "graph_ok G s \<Longrightarrow> j < length (nodes_of G s) \<Longrightarrow> node_type (nodes_of G s ! j) = ''network'' \<Longrightarrow>
    case correlate_all G j t c libs s of
      None \<Rightarrow> full_for G 0 (length libs) s
    | Some s' \<Rightarrow> \<exists>g. s' = s\<lparr>rg_graph := g\<rparr> \<and> graph_ok G (s\<lparr>rg_graph := g\<rparr>) \<and> node_list G g = nodes_of G s
        \<and> edge_bytes (edge_list G g) = edge_bytes (edges_of G s)
        \<and> length (edge_list G g) \<le> length (edges_of G s) + length libs"
proof (induction libs arbitrary: s)
  case Nil
  then show ?case by (auto intro: exI[of _ "rg_graph s"])
next
  case (Cons lib libs)
  note one = correlate_library_cases[OF assms Cons.prems, of t c lib]
  show ?case
  proof (cases "correlate_library G j t c lib s")
    case None
    then show ?thesis using one by (auto simp: full_for_def)
  next
    case (Some s1)
    then obtain g where g: "s1 = s\<lparr>rg_graph := g\<rparr>" "graph_ok G (s\<lparr>rg_graph := g\<rparr>)" "node_list G g = nodes_of G s"
      "edge_bytes (edge_list G g) = edge_bytes (edges_of G s)" "length (edge_list G g) \<le> Suc (length (edges_of G s))"
      using one by auto
    have "case correlate_all G j t c libs (s\<lparr>rg_graph := g\<rparr>) of
        None \<Rightarrow> full_for G 0 (length libs) (s\<lparr>rg_graph := g\<rparr>)
      | Some s' \<Rightarrow> \<exists>h. s' = s\<lparr>rg_graph := h\<rparr> \<and> graph_ok G (s\<lparr>rg_graph := h\<rparr>) \<and> node_list G h = node_list G g
          \<and> edge_bytes (edge_list G h) = edge_bytes (edge_list G g)
          \<and> length (edge_list G h) \<le> length (edge_list G g) + length libs"
      using Cons.IH[OF g(2)] g(3) Cons.prems(2,3) by (simp split: option.splits)
    then show ?thesis using Some g(1,3-5)
      by (fastforce simp: full_for_def split: option.splits)
  qed
qed

lemma edge_bytes_reweigh:
  assumes "i < length es" "es ! i = (a, b, ENetworkConnection t y n c)"
  shows "edge_bytes (reweigh i (ENetworkConnection t' (y + d) n' c') es) = edge_bytes es + d"
proof -
  have "es = take i es @ (a, b, ENetworkConnection t y n c) # drop (Suc i) es"
    using id_take_nth_drop[OF assms(1)] assms(2) by simp
  then have "edge_bytes es = edge_bytes (take i es @ (a, b, ENetworkConnection t y n c) # drop (Suc i) es)"
    by (rule arg_cong)
  also have "\<dots> = edge_bytes (take i es) + y + edge_bytes (drop (Suc i) es)"
    by (simp add: edge_bytes_def)
  finally have "edge_bytes es = edge_bytes (take i es) + y + edge_bytes (drop (Suc i) es)" .
  moreover have "reweigh i (ENetworkConnection t' (y + d) n' c') es
    = take i es @ (a, b, ENetworkConnection t' (y + d) n' c') # drop (Suc i) es"
    using assms by (simp add: reweigh_def upd_conv_take_nth_drop)
  ultimately show ?thesis by (simp add: edge_bytes_def)
qed

lemma edges_fit_reweigh:
  assumes "edges_fit ns es" "i < length es" "es ! i = (a, b, ENetworkConnection t y n c)"
  shows "edges_fit ns (reweigh i (ENetworkConnection t' y' n' c') es)"
proof -
  have "(a, b, ENetworkConnection t y n c) \<in> set es" using assms(2,3) by (metis nth_mem)
  then have "a < length ns \<and> b < length ns \<and> edge_fits (node_type (ns ! a)) (ENetworkConnection t' y' n' c') (node_type (ns ! b))"
    using assms(1) by (fastforce simp: edges_fit_def)
  moreover have "set (reweigh i (ENetworkConnection t' y' n' c') es)
      \<subseteq> insert (a, b, ENetworkConnection t' y' n' c') (set es)"
    using assms by (simp add: reweigh_def set_update_subset_insert)
  ultimately show ?thesis using assms(1) by (fastforce simp: edges_fit_def)
qed

definition linked :: "RuntimeNode list \<Rightarrow> (nat \<times> nat \<times> RuntimeEdge) list \<Rightarrow> string \<Rightarrow> string \<Rightarrow> bool" where
  "linked ns es x y \<longleftrightarrow> list_ex (\<lambda>(a, b, e). node_id (ns ! a) = x \<and> node_id (ns ! b) = y) es"

lemma indexed_unique:
  "indexed ns m \<Longrightarrow> i < length ns \<Longrightarrow> j < length ns \<Longrightarrow> node_id (ns ! i) = node_id (ns ! j) \<Longrightarrow> i = j"
  unfolding indexed_def by (metis option.inject)

lemma linked_iff:
  assumes "indexed ns m" "edges_fit ns es"
  shows "linked ns es x y \<longleftrightarrow> (\<exists>a b e. m x = Some a \<and> m y = Some b \<and> (a, b, e) \<in> set es)"
proof
  assume "linked ns es x y"
  then obtain a b e where "(a, b, e) \<in> set es" "node_id (ns ! a) = x" "node_id (ns ! b) = y"
    by (auto simp: linked_def list_ex_iff)
  then show "\<exists>a b e. m x = Some a \<and> m y = Some b \<and> (a, b, e) \<in> set es"
    using assms by (fastforce simp: indexed_def edges_fit_def)
next
  assume "\<exists>a b e. m x = Some a \<and> m y = Some b \<and> (a, b, e) \<in> set es"
  then show "linked ns es x y"
    using assms(1) by (fastforce simp: linked_def list_ex_iff indexed_def)
qed

lemma network_edge_kind:
  "edge_fits ''process'' e ''network'' \<Longrightarrow> \<exists>t y n c. e = ENetworkConnection t y n c"
  by (cases e) auto

abbreviation event_link :: "u32 \<Rightarrow> NetEvent \<Rightarrow> 'g path_ops \<Rightarrow> 'g RuntimeAttackGraph \<Rightarrow> bool" where
  "event_link pid ev G s \<equiv> linked (node_list G (rg_graph s)) (edge_list G (rg_graph s)) (proc_id pid)
     (net_id (ipv4_be (ne_daddr ev)) (ne_dport ev))"

lemma not_linked_find:
  assumes "digraph_laws G" "graph_ok G s"
    "\<not> linked (node_list G (rg_graph s)) (edge_list G (rg_graph s)) x y"
    "rg_node_indices s x = Some a" "rg_node_indices s y = Some b"
  shows "find_edge G (rg_graph s) a b = None"
proof (rule ccontr)
  let ?es = "edge_list G (rg_graph s)"
  have ok: "indexed (node_list G (rg_graph s)) (rg_node_indices s)" "edges_fit (node_list G (rg_graph s)) ?es"
    using assms(2) by (auto simp: graph_ok_def)
  assume "find_edge G (rg_graph s) a b \<noteq> None"
  then obtain i where i: "find_edge G (rg_graph s) a b = Some i" by blast
  note f = digraph_find_edge(2-4)[OF assms(1) i]
  have "?es ! i = (a, b, snd (snd (?es ! i)))" using f(2,3) by (simp add: prod_eq_iff)
  then have "(a, b, snd (snd (?es ! i))) \<in> set ?es" using nth_mem[OF f(1)] by simp
  then show False using assms(3-5) linked_iff[OF ok] by blast
qed

lemma aggregate_unlinked:
  "digraph_laws G \<Longrightarrow> graph_ok G s \<Longrightarrow> \<not> event_link pid ev G s \<Longrightarrow> aggregate_network_event G pid ev s = s"
  using not_linked_find[of G s]
  by (auto simp: aggregate_network_event_def Let_def split: option.splits)

lemma aggregate_spec:
  assumes "digraph_laws G" "graph_ok G s"
  shows "graph_ok G (aggregate_network_event G pid ev s)
    \<and> nodes_of G (aggregate_network_event G pid ev s) = nodes_of G s
    \<and> length (edges_of G (aggregate_network_event G pid ev s)) = length (edges_of G s)
    \<and> rg_process_libraries (aggregate_network_event G pid ev s) = rg_process_libraries s
    \<and> edge_bytes (edge_list G (rg_graph (aggregate_network_event G pid ev s)))
        = edge_bytes (edge_list G (rg_graph s)) + (if event_link pid ev G s then ucast (ne_data_size ev) else 0)"
proof -
  note laws = digraph_simps[OF assms(1)]
  let ?ns = "node_list G (rg_graph s)" and ?es = "edge_list G (rg_graph s)"
  let ?x = "proc_id pid" and ?y = "net_id (ipv4_be (ne_daddr ev)) (ne_dport ev)"
  have ok: "indexed ?ns (rg_node_indices s)" "edges_fit ?ns ?es" using assms(2) by (auto simp: graph_ok_def)
  show ?thesis
  proof (cases "event_link pid ev G s")
    case True
    then obtain a b e where ab: "rg_node_indices s ?x = Some a" "rg_node_indices s ?y = Some b"
      "(a, b, e) \<in> set ?es" using linked_iff[OF ok] by blast
    then obtain i where i: "find_edge G (rg_graph s) a b = Some i"
      using digraph_find_edge(1)[OF assms(1)] by (metis not_None_eq)
    note f = digraph_find_edge(2-4)[OF assms(1) i]
    obtain e' where e': "?es ! i = (a, b, e')" using f by (metis prod.collapse)
    have "node_id (?ns ! a) = ?x" "node_id (?ns ! b) = ?y"
      using ab ok(1) by (auto simp: indexed_def)
    then have "node_type (?ns ! a) = ''process''" "node_type (?ns ! b) = ''network''"
      using node_id_type[of _ "NProcess pid [] 0"]
        node_id_type[of _ "NNetwork (ipv4_be (ne_daddr ev)) (ne_dport ev) []"] by auto
    moreover have "edge_fits (node_type (?ns ! a)) e' (node_type (?ns ! b))"
      using ok(2) e' f(1) unfolding edges_fit_def by (metis (mono_tags, lifting) nth_mem case_prodD)
    ultimately obtain t y n c where n: "e' = ENetworkConnection t y n c"
      using network_edge_kind by metis
    show ?thesis
      using True assms(2) f(1) i ab e' n
      by (simp add: aggregate_network_event_def Let_def laws graph_ok_def edge_bytes_reweigh edges_fit_reweigh
          push_update_def)
  next
    case False
    then show ?thesis using assms by (simp add: aggregate_unlinked)
  qed
qed

text \<open>An event inside the window whose address has no edge yet: it is counted and forgotten.\<close>

definition is_lost :: "'g path_ops \<Rightarrow> u32 \<Rightarrow> NetEvent \<Rightarrow> 'g RuntimeAttackGraph \<Rightarrow> bool" where
  "is_lost G pid ev s \<longleftrightarrow> is_collapsed pid ev s \<and> \<not> event_link pid ev G s"

definition libs_of :: "'g RuntimeAttackGraph \<Rightarrow> u32 \<Rightarrow> (string \<times> u64) list" where
  "libs_of s pid = (case rg_process_libraries s pid of None \<Rightarrow> [] | Some libs \<Rightarrow> libs)"

lemma correlate_with_all: "correlate_with_libraries G pid j ev c s = correlate_all G j (ne_timestamp_ns ev) c (libs_of s pid) s"
  by (simp add: correlate_with_libraries_def libs_of_def split: option.split)

lemma network_event_link:
  "\<not> is_collapsed pid ev s \<Longrightarrow>
   process_network_event G pid name cg ev s =
     do {
       (j, t) \<leftarrow> add_link G (NProcess pid name cg) (NNetwork (ipv4_be (ne_daddr ev)) (ne_dport ev) (net_protocol (ne_kind ev)))
         (\<lambda>cfg. ENetworkConnection (ne_timestamp_ns ev) (ucast (ne_data_size ev)) 1 (event_confidence ev cfg))
         (s\<lparr>rg_last_network_update := (rg_last_network_update s)((pid, ne_dport ev) \<mapsto> ne_timestamp_ns ev)\<rparr>);
       t \<leftarrow> correlate_with_libraries G pid j ev (event_confidence ev (rg_config s)) t;
       Some (push_update (EdgeAdded (proc_id pid) (net_id (ipv4_be (ne_daddr ev)) (ne_dport ev))
           (ENetworkConnection (ne_timestamp_ns ev) (ucast (ne_data_size ev)) 1 (event_confidence ev (rg_config s))))
         (t\<lparr>rg_process_connections := push_entry pid (ev, ne_timestamp_ns ev) (rg_process_connections t)\<rparr>)) }"
  by (auto simp: process_network_event_def add_link_def Let_def rg_add_node_def
      split: Option.bind_split prod.splits option.splits)

lemma network_event_spec:
  assumes "digraph_laws G" "graph_ok G s"
  shows "case process_network_event G pid name cg ev s of
      None \<Rightarrow> full_for G 2 (Suc (length (libs_of s pid))) s
    | Some s' \<Rightarrow> graph_ok G s' \<and> grown G 2 (Suc (length (libs_of s pid))) s s'
        \<and> rg_process_libraries s' = rg_process_libraries s
        \<and> edge_bytes (edges_of G s') =
            edge_bytes (edges_of G s) + (if is_lost G pid ev s then 0 else ucast (ne_data_size ev))"
proof (cases "is_collapsed pid ev s")
  case True
  then show ?thesis using aggregate_spec[OF assms, of pid ev]
    by (simp add: process_network_event_def is_lost_def grown_def)
next
  case False
  let ?s = "s\<lparr>rg_last_network_update := (rg_last_network_update s)((pid, ne_dport ev) \<mapsto> ne_timestamp_ns ev)\<rparr>"
  let ?net = "NNetwork (ipv4_be (ne_daddr ev)) (ne_dport ev) (net_protocol (ne_kind ev))"
  let ?c = "event_confidence ev (rg_config s)"
  let ?f = "\<lambda>cfg. ENetworkConnection (ne_timestamp_ns ev) (ucast (ne_data_size ev)) 1 (event_confidence ev cfg)"
  have ok: "graph_ok G ?s" using assms(2) by (simp add: graph_ok_def)
  have lost: "\<not> is_lost G pid ev s" using False by (simp add: is_lost_def)
  show ?thesis
  proof (rule link_cases[OF assms(1) ok, of "NProcess pid name cg" ?f ?net])
    show "edge_fits (node_type (NProcess pid name cg)) (?f (rg_config ?s)) (node_type ?net)" by simp
  next
    assume "add_link G (NProcess pid name cg) ?net ?f ?s = None" "full_for G 2 1 ?s"
    then show ?thesis by (auto simp: network_event_link[OF False] full_for_def)
  next
    fix i j g x
    let ?t = "?s\<lparr>rg_graph := g, rg_node_indices := x\<rparr>"
    assume l: "add_link G (NProcess pid name cg) ?net ?f ?s = Some (j, ?t)" "graph_ok G ?t"
      "edge_list G g = edges_of G ?s @ [(i, j, ?f (rg_config ?s))]" "j < length (node_list G g)"
      "node_type (node_list G g ! j) = node_type ?net" "length (node_list G g) \<le> length (nodes_of G ?s) + 2"
    have "libs_of ?t pid = libs_of s pid" by (simp add: libs_of_def)
    then have "case correlate_with_libraries G pid j ev ?c ?t of
        None \<Rightarrow> full_for G 0 (length (libs_of s pid)) ?t
      | Some s' \<Rightarrow> \<exists>h. s' = ?t\<lparr>rg_graph := h\<rparr> \<and> graph_ok G (?t\<lparr>rg_graph := h\<rparr>) \<and> node_list G h = node_list G g
          \<and> edge_bytes (edge_list G h) = edge_bytes (edge_list G g)
          \<and> length (edge_list G h) \<le> length (edge_list G g) + length (libs_of s pid)"
      using correlate_all_cases[OF assms(1) l(2), where j = j and t = "ne_timestamp_ns ev" and c = ?c and libs = "libs_of s pid"] l(4,5)
      unfolding correlate_with_all by (simp split: option.splits)
    then show ?thesis using l(1,3,6) lost
      by (auto simp: network_event_link[OF False] full_for_def grown_def graph_ok_def edge_bytes_def
          split: option.splits)
  qed
qed

section \<open>Vulnerabilities\<close>

lemma associate_all_cases:
  assumes "digraph_laws G"
  shows "graph_ok G s \<Longrightarrow> v < length (nodes_of G s) \<Longrightarrow> node_type (nodes_of G s ! v) = ''vulnerability'' \<Longrightarrow>
    case associate_all G v package js s of
      None \<Rightarrow> full_for G 0 (length js) s
    | Some s' \<Rightarrow> \<exists>g. s' = s\<lparr>rg_graph := g\<rparr> \<and> graph_ok G (s\<lparr>rg_graph := g\<rparr>) \<and> node_list G g = nodes_of G s
        \<and> length (edge_list G g) \<le> length (edges_of G s) + length js"
proof (induction js arbitrary: s)
  case Nil
  then show ?case by (auto intro: exI[of _ "rg_graph s"])
next
  case (Cons i js)
  note laws = digraph_simps[OF assms]
  let ?step = "case node_weight G (rg_graph s) i of
          Some (NLibrary path cves) \<Rightarrow>
            if ag_library_matches_package path package
            then rg_add_edge G v i (EVulnerable (lit32 (95/100))) s else Some s
        | _ \<Rightarrow> Some s"
  have one: "case ?step of
      None \<Rightarrow> full_for G 0 1 s
    | Some s' \<Rightarrow> \<exists>g. s' = s\<lparr>rg_graph := g\<rparr> \<and> graph_ok G (s\<lparr>rg_graph := g\<rparr>) \<and> node_list G g = nodes_of G s
        \<and> length (edge_list G g) \<le> Suc (length (edges_of G s))"
  proof (cases "\<exists>path cves. node_weight G (rg_graph s) i = Some (NLibrary path cves)
      \<and> ag_library_matches_package path package")
    case True
    then obtain path cves where n: "node_weight G (rg_graph s) i = Some (NLibrary path cves)"
      "ag_library_matches_package path package" by blast
    then have i: "i < length (nodes_of G s)" "nodes_of G s ! i = NLibrary path cves"
      by (auto simp: laws split: if_splits)
    then have fits: "edge_fits (node_type (nodes_of G s ! v)) (EVulnerable (lit32 (95/100))) (node_type (nodes_of G s ! i))"
      using Cons.prems(3) by simp
    have "?step = rg_add_edge G v i (EVulnerable (lit32 (95/100))) s" using n by simp
    show ?thesis unfolding \<open>?step = _\<close>
      by (rule add_edge_cases[OF assms Cons.prems(1,2) i(1) fits]) auto
  next
    case False
    then have "?step = Some s" by (auto split: option.splits RuntimeNode.splits)
    then show ?thesis using Cons.prems(1) by (auto intro: exI[of _ "rg_graph s"])
  qed
  show ?case
  proof (cases ?step)
    case None
    then have "associate_all G v package (i # js) s = None" unfolding associate_all.simps by (simp only: Option.bind.simps)
    then show ?thesis using one unfolding None by (auto simp: full_for_def)
  next
    case (Some s1)
    then have step: "associate_all G v package (i # js) s = associate_all G v package js s1"
      unfolding associate_all.simps by (simp only: Option.bind.simps)
    obtain g where g: "s1 = s\<lparr>rg_graph := g\<rparr>" "graph_ok G (s\<lparr>rg_graph := g\<rparr>)" "node_list G g = nodes_of G s"
      "length (edge_list G g) \<le> Suc (length (edges_of G s))"
      using one unfolding Some by auto
    have "case associate_all G v package js (s\<lparr>rg_graph := g\<rparr>) of
        None \<Rightarrow> full_for G 0 (length js) (s\<lparr>rg_graph := g\<rparr>)
      | Some s' \<Rightarrow> \<exists>h. s' = s\<lparr>rg_graph := h\<rparr> \<and> graph_ok G (s\<lparr>rg_graph := h\<rparr>) \<and> node_list G h = node_list G g
          \<and> length (edge_list G h) \<le> length (edge_list G g) + length js"
      using Cons.IH[OF g(2)] g(3) Cons.prems(2,3) by (simp split: option.splits)
    then show ?thesis using g(1,3,4) unfolding step
      by (fastforce simp: full_for_def split: option.splits)
  qed
qed

lemma associate_cases:
  assumes "digraph_laws G" "graph_ok G s"
  shows "case associate_cve_with_library G cve package cvss epss kev s of
      None \<Rightarrow> full_for G 1 (Suc (length (nodes_of G s))) s
    | Some t \<Rightarrow> graph_ok G t \<and> grown G 1 (Suc (length (nodes_of G s))) s t
        \<and> rg_process_libraries t = rg_process_libraries s"
proof (rule add_node_cases[OF assms,
    of "NVulnerability \<lparr>vn_cve_id = cve, vn_package = package, vn_cvss = cvss, vn_epss = epss, vn_kev = kev\<rparr>"])
  let ?v = "NVulnerability \<lparr>vn_cve_id = cve, vn_package = package, vn_cvss = cvss, vn_epss = epss, vn_kev = kev\<rparr>"
  show ?thesis if "rg_add_node G ?v s = None" "full_for G 1 0 s"
    using that by (auto simp: associate_cve_with_library_def full_for_def)
  show ?thesis if n: "rg_add_node G ?v s = Some (i, s\<lparr>rg_graph := g, rg_node_indices := m\<rparr>)"
    "graph_ok G (s\<lparr>rg_graph := g, rg_node_indices := m\<rparr>)" "i < length (node_list G g)"
    "node_id (node_list G g ! i) = node_id ?v" "length (node_list G g) \<le> Suc (length (nodes_of G s))"
    "edge_list G g = edges_of G s" for i g m
  proof -
    have "node_type (node_list G g ! i) = ''vulnerability''" using node_id_type[OF n(4)] by simp
    then show ?thesis
      using associate_all_cases[OF assms(1) n(2), where v = i and package = package and js = "[0..<length (node_list G g)]"] n(1,3,5,6)
      by (auto simp: associate_cve_with_library_def full_for_def grown_def graph_ok_def split: option.splits)
  qed
qed

section \<open>Runs\<close>

datatype graph_event =
  GLibrary u32 string u64 string u64
| GNetwork u32 string u64 NetEvent
| GCve string string f32 f32 bool

fun graph_step :: "'g path_ops \<Rightarrow> graph_event \<Rightarrow> 'g RuntimeAttackGraph \<Rightarrow> 'g RuntimeAttackGraph option" where
  "graph_step G (GLibrary pid name cg path ts) s = process_library_load G pid name cg path ts s"
| "graph_step G (GNetwork pid name cg ev) s = process_network_event G pid name cg ev s"
| "graph_step G (GCve cve package cvss epss kev) s = associate_cve_with_library G cve package cvss epss kev s"

primrec graph_run :: "'g path_ops \<Rightarrow> graph_event list \<Rightarrow> 'g RuntimeAttackGraph \<Rightarrow> 'g RuntimeAttackGraph option" where
  "graph_run G [] s = Some s"
| "graph_run G (e # es) s = Option.bind (graph_step G e s) (graph_run G es)"

text \<open>
  After \<open>n\<close> events there are at most \<open>2 * n\<close> nodes and \<open>n\<^sup>2\<close> edges: an event adds at most two
  nodes, and an edge for each library known so far and one more. So there is an index left
  for each of the first 65535 events.
\<close>

definition graph_sized :: "'g path_ops \<Rightarrow> nat \<Rightarrow> 'g RuntimeAttackGraph \<Rightarrow> bool" where
  "graph_sized G n s \<longleftrightarrow>
     length (nodes_of G s) \<le> 2 * n \<and> length (edges_of G s) \<le> n\<^sup>2 \<and> (\<forall>pid. length (libs_of s pid) \<le> n)"

lemma sized_full:
  assumes "graph_sized G n s" "full_for G 2 (2 * n + 1) s"
  shows "2 ^ 16 \<le> Suc n"
proof (rule ccontr)
  assume "\<not> 2 ^ 16 \<le> Suc n"
  then have n: "Suc n \<le> 65535" by simp
  then have "(Suc n)\<^sup>2 \<le> 65535\<^sup>2" by (rule power_mono) simp
  then have "n\<^sup>2 + (2 * n + 1) \<le> index_limit" by (simp add: index_limit_def power2_eq_square)
  with n assms show False by (auto simp: graph_sized_def full_for_def index_limit_def)
qed

lemma full_mono: "full_for G n k s \<Longrightarrow> n \<le> n' \<Longrightarrow> k \<le> k' \<Longrightarrow> full_for G n' k' s"
  by (auto simp: full_for_def)

lemma sized_grown:
  assumes "graph_sized G n s" "grown G 2 (2 * n + 1) s t" "\<And>pid. length (libs_of t pid) \<le> Suc (length (libs_of s pid))"
  shows "graph_sized G (Suc n) t"
proof -
  have "length (libs_of t pid) \<le> Suc n" for pid using assms(1,3) by (meson graph_sized_def Suc_le_mono le_trans)
  with assms(1,2) show ?thesis by (auto simp: graph_sized_def grown_def power2_eq_square)
qed

lemma grown_mono: "grown G n k s t \<Longrightarrow> n \<le> n' \<Longrightarrow> k \<le> k' \<Longrightarrow> grown G n' k' s t"
  by (auto simp: grown_def)

lemma sized_bounds:
  "graph_sized G n s \<Longrightarrow> Suc (length (libs_of s pid)) \<le> 2 * n + 1" "graph_sized G n s \<Longrightarrow> Suc (length (nodes_of G s)) \<le> 2 * n + 1"
  unfolding graph_sized_def by (metis (no_types) Suc_eq_plus1 add_le_mono1 le_add1 le_trans mult_2) simp

lemma graph_step_cases:
  assumes "digraph_laws G" "graph_ok G s" "graph_sized G n s"
  shows "case graph_step G e s of None \<Rightarrow> 2 ^ 16 \<le> Suc n | Some t \<Rightarrow> graph_ok G t \<and> graph_sized G (Suc n) t"
proof -
  have step: "case graph_step G e s of None \<Rightarrow> 2 ^ 16 \<le> Suc n | Some t \<Rightarrow> graph_ok G t \<and> graph_sized G (Suc n) t"
    if "case graph_step G e s of None \<Rightarrow> full_for G a b s | Some t \<Rightarrow> graph_ok G t \<and> grown G a b s t
          \<and> (\<forall>pid. length (libs_of t pid) \<le> Suc (length (libs_of s pid)))" "a \<le> 2" "b \<le> 2 * n + 1" for a b
    using that sized_full[OF assms(3) full_mono] sized_grown[OF assms(3) grown_mono]
    by (auto split: option.splits)
  show ?thesis
  proof (cases e)
    case (GLibrary pid name cg path ts)
    show ?thesis
      using library_load_cases[OF assms(1,2), where pid = pid and name = name and cg = cg and path = path and ts = ts] GLibrary
      by (intro step[of 2 1]) (auto simp: libs_of_def push_entry_def split: option.splits)
  next
    case (GNetwork pid name cg ev)
    show ?thesis
      using network_event_spec[OF assms(1,2), where pid = pid and name = name and cg = cg and ev = ev] GNetwork sized_bounds(1)[OF assms(3), of pid]
      by (intro step[of 2 "Suc (length (libs_of s pid))"]) (auto simp: libs_of_def split: option.splits)
  next
    case (GCve cve package cvss epss kev)
    show ?thesis
      using associate_cases[OF assms(1,2), where cve = cve and package = package and cvss = cvss and epss = epss and kev = kev] GCve sized_bounds(2)[OF assms(3)]
      by (intro step[of 1 "Suc (length (nodes_of G s))"]) (auto simp: libs_of_def split: option.splits)
  qed
qed

lemma graph_run_ok:
  "digraph_laws G \<Longrightarrow> graph_ok G s \<Longrightarrow> graph_sized G n s \<Longrightarrow>
   case graph_run G es s of None \<Rightarrow> 2 ^ 16 \<le> n + length es | Some t \<Rightarrow> graph_ok G t \<and> graph_sized G (n + length es) t"
proof (induction es arbitrary: s n)
  case (Cons e es)
  show ?case
  proof (cases "graph_step G e s")
    case None
    then show ?thesis using graph_step_cases[OF Cons.prems, of e] by simp
  next
    case (Some t)
    then have "graph_ok G t" "graph_sized G (Suc n) t" using graph_step_cases[OF Cons.prems, of e] by simp_all
    from Cons.IH[OF Cons.prems(1) this] show ?thesis using Some by (simp split: option.splits)
  qed
qed simp

lemma graph_ok_new: "digraph_laws G \<Longrightarrow> graph_ok G (RuntimeAttackGraph_new G cfg)"
  by (simp add: graph_ok_def RuntimeAttackGraph_new_def digraph_simps indexed_def edges_fit_def)

lemma sized_new: "digraph_laws G \<Longrightarrow> graph_sized G 0 (RuntimeAttackGraph_new G cfg)"
  by (simp add: graph_sized_def libs_of_def RuntimeAttackGraph_new_def digraph_simps)

lemma new_run:
  "digraph_laws G \<Longrightarrow>
   case graph_run G es (RuntimeAttackGraph_new G cfg) of None \<Rightarrow> 2 ^ 16 \<le> length es
   | Some s \<Rightarrow> graph_ok G s \<and> graph_sized G (length es) s"
  using graph_run_ok[OF _ graph_ok_new sized_new, of G es cfg] by (simp split: option.splits)

section \<open>Confidence is a number\<close>

lemma fadd_lit:
  assumes "x \<noteq> NaN" "0 \<le> q" "q \<le> 1"
  shows "fadd F32 x (lit32 q) \<noteq> NaN" "fsub F32 x (lit32 q) \<noteq> NaN"
proof -
  have "fl_in 0 1 (lit32 q)" using assms by (intro fl_of_in) simp_all
  then obtain r where "lit32 q = Fin r" by (cases "lit32 q") auto
  with assms(1) show "fadd F32 x (lit32 q) \<noteq> NaN" "fsub F32 x (lit32 q) \<noteq> NaN"
    by (cases x; simp add: fsub_def fl_of_def Let_def)+
qed

lemma if_fadd_lit:
  "x \<noteq> NaN \<Longrightarrow> 0 \<le> q \<Longrightarrow> q \<le> 1 \<Longrightarrow> (if b then fadd F32 x (lit32 q) else x) \<noteq> NaN"
  "x \<noteq> NaN \<Longrightarrow> 0 \<le> q \<Longrightarrow> q \<le> 1 \<Longrightarrow> (if b then fsub F32 x (lit32 q) else x) \<noteq> NaN"
  by (simp_all add: fadd_lit)

lemma raw_confidence_number: "raw_path_confidence ns es f \<noteq> NaN"
proof -
  have depth: "(if 4 \<le> length ns then fadd F32 c (lit32 (2/10))
               else if 3 \<le> length ns then fadd F32 c (lit32 (1/10)) else c) \<noteq> NaN" if "c \<noteq> NaN" for c
    using that by (simp add: fadd_lit)
  have start: "fadd F32 (Fin 0) (lit32 (3/10)) \<noteq> NaN" by (rule fadd_lit) simp_all
  show ?thesis unfolding raw_path_confidence_def Let_def
    by (intro if_fadd_lit depth start) simp_all
qed

lemma confidence_range: "fl_in 0 1 (calculate_path_confidence ns es f)"
  unfolding calculate_path_confidence_def by (rule fclamp_in) (simp_all add: raw_confidence_number)

section \<open>Paths are chains from the vulnerability\<close>

definition acc_ok :: "RuntimeNode \<Rightarrow> path_acc \<Rightarrow> bool" where
  "acc_ok v a \<longleftrightarrow> (\<exists>ns. pa_nodes a = v # ns)
     \<and> list_all (\<lambda>(i, j, e). i < j \<and> j < length (pa_nodes a)) (pa_edges a)"

lemma acc_ok_hop: "acc_ok v a \<Longrightarrow> i < length (pa_nodes a) \<Longrightarrow> acc_ok v (add_hop i n e a)"
  by (auto simp: acc_ok_def add_hop_def list_all_iff)

lemma acc_ok_last: "acc_ok v a \<Longrightarrow> acc_ok v (add_hop (length (pa_nodes a) - Suc 0) n e a)"
  by (rule acc_ok_hop) (auto simp: acc_ok_def)

lemma acc_ok_fields [simp]:
  "acc_ok v (a\<lparr>pa_indicators := x\<rparr>) = acc_ok v a"
  "acc_ok v (a\<lparr>pa_signal_types := y\<rparr>) = acc_ok v a"
  "acc_ok v (a\<lparr>pa_total_bytes := z\<rparr>) = acc_ok v a"
  by (simp_all add: acc_ok_def)

lemma acc_ok_fold: "(\<And>x a. acc_ok v a \<Longrightarrow> acc_ok v (f x a)) \<Longrightarrow> acc_ok v a \<Longrightarrow> acc_ok v (fold f xs a)"
  by (induction xs arbitrary: a) auto

lemma walk_network_ok: "acc_ok v a \<Longrightarrow> acc_ok v (walk_network G g x a)"
  by (auto simp: walk_network_def Let_def acc_ok_last split: prod.splits RuntimeEdge.splits option.splits)

lemma walk_process_ok: "acc_ok v a \<Longrightarrow> acc_ok v (walk_process G g x a)"
  by (auto simp: walk_process_def Let_def acc_ok_last walk_network_ok intro!: acc_ok_fold
      split: prod.splits RuntimeEdge.splits option.splits)

lemma walk_library_ok: "acc_ok v a \<Longrightarrow> acc_ok v (walk_library G g x a)"
proof -
  assume a: "acc_ok v a"
  have "acc_ok v (add_hop 0 n e a)" for n e
    by (rule acc_ok_hop[OF a]) (use a in \<open>auto simp: acc_ok_def\<close>)
  with a show ?thesis
    by (auto simp: walk_library_def Let_def walk_process_ok intro!: acc_ok_fold
        split: prod.splits RuntimeEdge.splits option.splits)
qed

lemma walk_finding_ok: "acc_ok (vuln_node_of f) (walk_finding G s f)"
proof -
  have "acc_ok (vuln_node_of f) \<lparr>pa_nodes = [vuln_node_of f], pa_edges = [], pa_indicators = [],
      pa_signal_types = [], pa_total_bytes = 0\<rparr>" by (simp add: acc_ok_def)
  then show ?thesis
    by (auto simp: walk_finding_def Let_def walk_library_ok intro!: acc_ok_fold split: option.splits)
qed

definition path_ok :: "Finding \<Rightarrow> AttackPath \<Rightarrow> bool" where
  "path_ok f p \<longleftrightarrow>
     (\<exists>ns. ap_nodes p = vuln_node_of f # ns) \<and> ap_depth p = length (ap_nodes p)
     \<and> list_all (\<lambda>(i, j, e). i < j \<and> j < ap_depth p) (ap_edges p)
     \<and> fl_in 0 1 (ap_confidence p)"

lemma build_path_ok: "path_ok f (build_path_for_finding G env s f)"
  using walk_finding_ok[of f G s]
  by (simp add: build_path_for_finding_def Let_def path_ok_def acc_ok_def confidence_range)

text \<open>
  The network edges of one process: the first starts at the last node of the path, every
  further one at the network node before it.
\<close>

lemma network_chain:
  assumes "list_all (\<lambda>(j, e). is_network_edge e \<and> node_weight G g j \<noteq> None) xs" "pa_nodes a \<noteq> []"
  shows "\<exists>ns. pa_nodes (fold (walk_network G g) xs a) = pa_nodes a @ ns \<and> length ns = length xs
    \<and> map (\<lambda>(i, j, e). (i, j)) (pa_edges (fold (walk_network G g) xs a))
      = map (\<lambda>(i, j, e). (i, j)) (pa_edges a)
        @ map (\<lambda>k. (length (pa_nodes a) + k - 1, length (pa_nodes a) + k)) [0..<length xs]"
  using assms
proof (induction xs arbitrary: a)
  case (Cons x xs)
  obtain j t y n c where x: "x = (j, ENetworkConnection t y n c)"
    using Cons.prems(1) by (cases x) (auto simp: is_network_edge_def split: RuntimeEdge.splits)
  obtain m where m: "node_weight G g j = Some m" using Cons.prems(1) x by auto
  let ?b = "walk_network G g x a"
  have b: "pa_nodes ?b = pa_nodes a @ [m]"
    "pa_edges ?b = pa_edges a @ [(length (pa_nodes a) - 1, length (pa_nodes a), ENetworkConnection t y n c)]"
    by (simp_all add: walk_network_def x m add_hop_def Let_def)
  have "map (\<lambda>k. (length (pa_nodes a) + k - 1, length (pa_nodes a) + k)) [0..<length (x # xs)]
    = (length (pa_nodes a) - 1, length (pa_nodes a))
      # map (\<lambda>k. (length (pa_nodes ?b) + k - 1, length (pa_nodes ?b) + k)) [0..<length xs]"
    by (simp add: b upt_conv_Cons map_Suc_upt[symmetric] del: upt_Suc)
  then show ?case using Cons.IH[of ?b] Cons.prems b by fastforce
qed simp

lemma lost_event:
  "digraph_laws G \<Longrightarrow> graph_ok G s \<Longrightarrow> is_lost G pid ev s \<Longrightarrow>
   process_network_event G pid name cg ev s = Some (count_collapsed s)"
  by (simp add: process_network_event_def is_lost_def aggregate_unlinked)

section \<open>The best paths\<close>

abbreviation unranked :: "AttackPath \<Rightarrow> AttackPath" where
  "unranked p \<equiv> p\<lparr>ap_rank := None\<rparr>"

lemma build_path_rank [simp]: "ap_rank (build_path_for_finding G env s f) = None"
  by (simp add: build_path_for_finding_def Let_def)

lemma candidates_ok:
  assumes "p \<in> set (candidate_paths G envs s fs)"
  shows "\<exists>f \<in> set fs. is_reachable f \<and> path_ok f p \<and> ap_rank p = None"
proof -
  obtain i where i: "i < length (filter is_reachable fs)"
    "p = build_path_for_finding G (envs i) s (filter is_reachable fs ! i)"
    using assms by (auto simp: candidate_paths_def in_set_enumerate_eq)
  then have "filter is_reachable fs ! i \<in> set fs \<and> is_reachable (filter is_reachable fs ! i)"
    using nth_mem[OF i(1)] by simp
  then show ?thesis using i(2) by (intro bexI[of _ "filter is_reachable fs ! i"]) (simp_all add: build_path_ok)
qed

lemma length_candidates [simp]:
  "length (candidate_paths G envs s fs) = length (filter is_reachable fs)"
  by (simp add: candidate_paths_def)

lemma candidates_nonempty:
  "filter (\<lambda>p. ap_nodes p \<noteq> []) (candidate_paths G envs s fs) = candidate_paths G envs s fs"
  by (rule filter_True) (use candidates_ok in \<open>force simp: path_ok_def\<close>)

lemma nth_rank_paths: "i < length ps \<Longrightarrow> rank_paths ps ! i = (ps ! i)\<lparr>ap_rank := Some (i + 1)\<rparr>"
  by (simp add: rank_paths_def nth_enumerate_eq)

lemma length_rank_paths [simp]: "length (rank_paths ps) = length ps"
  by (simp add: rank_paths_def)

lemma unranked_rank_paths: "map unranked (rank_paths ps) = map unranked ps"
  by (rule nth_equalityI) (simp_all add: nth_rank_paths)

lemma scores_rank_paths: "map path_score (rank_paths ps) = map path_score ps"
  by (rule nth_equalityI) (simp_all add: nth_rank_paths path_score_def)

lemma sorted_by_scores:
  "sorted_wrt (key_desc f) xs \<longleftrightarrow> sorted_wrt (\<lambda>a b. total_le b a) (map f xs)"
  by (simp add: sorted_wrt_map key_desc_def[abs_def])

lemma build_paths_eq:
  "fst (build_attack_paths G envs fs s) =
     take (ac_top_k (rg_config s)) (rank_paths (sort_by (key_desc path_score) (candidate_paths G envs s fs)))"
  by (simp add: build_attack_paths_def Let_def candidates_nonempty)

lemma best_paths:
  assumes C: "C = candidate_paths G envs s fs"
    and ps: "ps = fst (build_attack_paths G envs fs s)"
  shows "length ps = min (length C) (ac_top_k (rg_config s))"
    "\<forall>i < length ps. ap_rank (ps ! i) = Some (i + 1)"
    "sorted_wrt (key_desc path_score) ps"
    "\<exists>rest. mset C = mset (map unranked ps) + mset rest
      \<and> (\<forall>p \<in> set ps. \<forall>q \<in> set rest. total_le (path_score q) (path_score p))"
proof -
  let ?k = "ac_top_k (rg_config s)"
  let ?qs = "sort_by (key_desc path_score) C"
  have eq: "ps = take ?k (rank_paths ?qs)" using ps C by (simp add: build_paths_eq)
  then show "length ps = min (length C) ?k" by simp
  show "\<forall>i < length ps. ap_rank (ps ! i) = Some (i + 1)" by (simp add: eq nth_rank_paths)
  have scores: "map path_score ps = map path_score (take ?k ?qs)"
    unfolding eq by (simp add: take_map[symmetric] scores_rank_paths)
  have sorted: "sorted_wrt (key_desc path_score) (take ?k ?qs @ drop ?k ?qs)"
    by (simp add: sort_desc_sorted)
  then have "sorted_wrt (key_desc path_score) (take ?k ?qs)" by (simp only: sorted_wrt_append)
  then show "sorted_wrt (key_desc path_score) ps" unfolding sorted_by_scores scores .
  have "\<forall>p \<in> set C. unranked p = p" unfolding C using candidates_ok by fastforce
  then have "map unranked ?qs = ?qs" by (intro map_idI) auto
  then have "map unranked ps = take ?k ?qs"
    unfolding eq by (metis take_map unranked_rank_paths)
  then have m: "mset C = mset (map unranked ps) + mset (drop ?k ?qs)"
    by (metis append_take_drop_id mset_append mset_sort_by)
  have "total_le (path_score q) (path_score p)" if "p \<in> set ps" "q \<in> set (drop ?k ?qs)" for p q
  proof -
    have "path_score p \<in> set (map path_score (take ?k ?qs))" using that(1) scores[symmetric] by simp
    then obtain p' where "p' \<in> set (take ?k ?qs)" "path_score p' = path_score p" by auto
    moreover have "\<forall>x \<in> set (take ?k ?qs). \<forall>y \<in> set (drop ?k ?qs). key_desc path_score x y"
      using sorted unfolding sorted_wrt_append by blast
    ultimately show ?thesis using that(2) unfolding key_desc_def by metis
  qed
  with m show "\<exists>rest. mset C = mset (map unranked ps) + mset rest
      \<and> (\<forall>p \<in> set ps. \<forall>q \<in> set rest. total_le (path_score q) (path_score p))" by blast
qed

section \<open>Properties\<close>

text \<open>C5. After any sequence of library loads, network events and CVE associations the index maps
  every node id to its one node and every edge joins existing nodes of the kinds it is for;
  a sequence of fewer than 65536 of them never makes the graph panic, however many libraries
  each connection and each CVE is linked to.\<close>

theorem graph_runs_are_wellformed:
  assumes "digraph_laws G"
  shows "case graph_run G es (RuntimeAttackGraph_new G cfg) of None \<Rightarrow> 2 ^ 16 \<le> length es | Some s \<Rightarrow> graph_ok G s"
  using new_run[OF assms, of es cfg] by (auto split: option.splits)

theorem graph_runs_are_wellformed_witness:
  "\<exists>s. graph_run list_graph [GLibrary 7 ''nginx'' 1 ''/usr/lib/libssl.so'' 1000,
       GCve ''CVE-1'' ''openssl'' (Fin 9) (Fin 1) True]
     (RuntimeAttackGraph_new list_graph AttackGraphConfig_default) = Some s \<and> graph_ok list_graph s"
  using graph_runs_are_wellformed[OF list_graph_laws, of "[GLibrary 7 ''nginx'' 1 ''/usr/lib/libssl.so'' 1000,
       GCve ''CVE-1'' ''openssl'' (Fin 9) (Fin 1) True]" AttackGraphConfig_default]
  by (auto split: option.splits)

text \<open>A network event adds exactly its size to the bytes recorded on the edges, whether it makes
  an edge or is collapsed into one, unless it is lost: inside the window and without an edge to
  its address yet.\<close>

theorem network_bytes_are_counted:
  assumes "digraph_laws G" "graph_run G es (RuntimeAttackGraph_new G cfg) = Some s"
  shows "case process_network_event G pid name cg ev s of
      None \<Rightarrow> 2 ^ 16 \<le> Suc (length es)
    | Some s' \<Rightarrow> edge_bytes (edge_list G (rg_graph s')) =
        edge_bytes (edge_list G (rg_graph s)) + (if is_lost G pid ev s then 0 else ucast (ne_data_size ev))"
proof -
  have s: "graph_ok G s" "graph_sized G (length es) s" using new_run[OF assms(1), of es cfg] assms(2) by simp_all
  show ?thesis
    using network_event_spec[OF assms(1) s(1), where pid = pid and name = name and cg = cg and ev = ev]
      graph_step_cases[OF assms(1) s, of "GNetwork pid name cg ev"]
    by (auto split: option.splits)
qed

definition sample_event :: "u64 \<Rightarrow> u32 \<Rightarrow> NetEvent" where
  "sample_event ts daddr =
     \<lparr>ne_timestamp_ns = ts, ne_pid = 7, ne_tgid = 7, ne_cgroup_id = 1, ne_saddr = 0, ne_daddr = daddr,
      ne_sport = 5000, ne_dport = 443, ne_family = 2, ne_protocol = 6, ne_kind = KTcpSend,
      ne_data_size = 1024\<rparr>"

theorem network_bytes_are_counted_witness:
  "\<exists>s'. process_network_event list_graph 7 ''nginx'' 1 (sample_event 2000 1)
          (RuntimeAttackGraph_new list_graph AttackGraphConfig_default) = Some s'
    \<and> edge_bytes (edge_list list_graph (rg_graph s')) = 1024"
proof -
  let ?new = "RuntimeAttackGraph_new list_graph AttackGraphConfig_default"
  have "\<not> is_lost list_graph 7 (sample_event 2000 1) ?new"
    by (simp add: is_lost_def is_collapsed_def RuntimeAttackGraph_new_def)
  moreover have "edge_bytes (edge_list list_graph (rg_graph ?new)) = 0"
    by (simp add: RuntimeAttackGraph_new_def list_graph_def edge_bytes_def)
  moreover have "ucast (ne_data_size (sample_event 2000 1)) = (1024 :: u64)" by (simp add: sample_event_def)
  ultimately show ?thesis
    using network_bytes_are_counted[OF list_graph_laws, of "[]" AttackGraphConfig_default ?new,
        where pid = 7 and name = "''nginx''" and cg = 1 and ev = "sample_event 2000 1"]
    by (cases "process_network_event list_graph 7 ''nginx'' 1 (sample_event 2000 1) ?new") simp_all
qed

text \<open>The window is kept per process and port while edges are per address: inside the window an
  event to another address of the same port leaves no trace but the counter of collapsed events.\<close>

theorem events_to_other_addresses_are_lost:
  assumes "digraph_laws G" "graph_run G es (RuntimeAttackGraph_new G cfg) = Some s" "is_lost G pid ev s"
  shows "process_network_event G pid name cg ev s = Some (count_collapsed s)"
proof -
  have "graph_ok G s" using new_run[OF assms(1), of es cfg] assms(2) by simp
  then show ?thesis by (rule lost_event[OF assms(1) _ assms(3)])
qed

theorem events_to_other_addresses_are_lost_witness:
  "\<exists>s. graph_run list_graph [GNetwork 7 ''nginx'' 1 (sample_event 2000 1)]
      (RuntimeAttackGraph_new list_graph AttackGraphConfig_default) = Some s
    \<and> process_network_event list_graph 7 ''nginx'' 1 (sample_event 3000 2) s = Some (count_collapsed s)"
proof -
  let ?new = "RuntimeAttackGraph_new list_graph AttackGraphConfig_default"
  obtain s where s: "graph_run list_graph [GNetwork 7 ''nginx'' 1 (sample_event 2000 1)] ?new = Some s"
    using new_run[OF list_graph_laws, of "[GNetwork 7 ''nginx'' 1 (sample_event 2000 1)]" AttackGraphConfig_default]
    by (auto split: option.splits)
  have "is_lost list_graph 7 (sample_event 3000 2)
     (the (graph_run list_graph [GNetwork 7 ''nginx'' 1 (sample_event 2000 1)] ?new))"
    by code_simp
  then show ?thesis
    using events_to_other_addresses_are_lost[OF list_graph_laws s, of 7 "sample_event 3000 2" "''nginx''" 1] s
    by simp
qed

text \<open>C16. The returned paths are the best ones: as many as configured or as there are reachable
  findings, ranked from 1, in descending order of confidence times risk, and no path left out
  scores above a returned one.\<close>

theorem best_paths_are_returned:
  "let ps = fst (build_attack_paths G envs fs s)
   in length ps = min (length (filter is_reachable fs)) (ac_top_k (rg_config s))
    \<and> list_all (\<lambda>i. ap_rank (ps ! i) = Some (i + 1)) [0..<length ps]
    \<and> sorted_wrt (\<lambda>p q. total_le (path_score q) (path_score p)) ps
    \<and> (\<exists>rest. mset (candidate_paths G envs s fs) = mset (map unranked ps) + mset rest
        \<and> list_all (\<lambda>p. list_all (\<lambda>q. total_le (path_score q) (path_score p)) rest) ps)"
  using best_paths[OF refl refl, where G = G and envs = envs and s = s and fs = fs]
  by (simp add: Let_def list_all_iff key_desc_def[abs_def])

text \<open>C34. Every candidate path is the path of a reachable finding: it starts at the finding's
  vulnerability, its edges lead forward between its nodes, its depth is the number of nodes and
  its confidence a number between 0 and 1, whatever the graph holds.\<close>

theorem candidate_paths_are_wellformed:
  "list_all (\<lambda>p. list_ex (\<lambda>f. is_reachable f \<and> path_ok f p) fs) (candidate_paths G envs s fs)"
  using candidates_ok[of _ G envs s fs] by (auto simp: list_all_iff list_ex_iff)

text \<open>The connections of one process are chained: only the first hangs on the node before, each
  further one is an edge from the previous network node although the process made it.\<close>

theorem connections_are_chained:
  assumes "list_all (\<lambda>(j, e). is_network_edge e \<and> node_weight G g j \<noteq> None) xs" "pa_nodes a \<noteq> []"
  shows "map (\<lambda>(i, j, e). (i, j)) (pa_edges (fold (walk_network G g) xs a))
      = map (\<lambda>(i, j, e). (i, j)) (pa_edges a)
        @ map (\<lambda>k. (length (pa_nodes a) + k - 1, length (pa_nodes a) + k)) [0..<length xs]"
  using network_chain[OF assms] by blast

theorem connections_are_chained_witness:
  "map (\<lambda>(i, j, e). (i, j)) (pa_edges (fold (walk_network list_graph
       ([NProcess 7 [] 1, NNetwork ''a'' 80 [], NNetwork ''b'' 80 []], []))
       [(1, ENetworkConnection 0 0 1 (Fin 1)), (2, ENetworkConnection 0 0 1 (Fin 1))]
       \<lparr>pa_nodes = [NProcess 7 [] 1], pa_edges = [], pa_indicators = [], pa_signal_types = [],
        pa_total_bytes = 0\<rparr>)) = [(0, 1), (1, 2)]"
  by (subst connections_are_chained) (simp_all add: list_graph_def is_network_edge_def upt_rec)

end
