(* ===== verification/Json.thy ===== *)
theory Json
  imports Formatting
begin

text \<open>
  JSON values as serde_json builds them. An object lists its members in the order the code
  writes them. A float that is not finite becomes null; integers and floats stay apart.
\<close>

datatype json =
  JNull
| JBool bool
| JInt int
| JFloat rat
| JStr string
| JArr "json list"
| JObj "(string \<times> json) list"

definition json_float :: "fl \<Rightarrow> json" where
  "json_float x = (case x of Fin r \<Rightarrow> JFloat r | _ \<Rightarrow> JNull)"

definition json_opt :: "('a \<Rightarrow> json) \<Rightarrow> 'a option \<Rightarrow> json" where
  "json_opt f x = (case x of None \<Rightarrow> JNull | Some v \<Rightarrow> f v)"

definition json_strs :: "string list \<Rightarrow> json" where
  "json_strs xs = JArr (map JStr xs)"

fun json_member :: "string \<Rightarrow> json \<Rightarrow> json option" where
  "json_member k (JObj ms) = map_of ms k"
| "json_member k _ = None"

end
