(* ===== verification/Alert_Sender.thy ===== *)
theory Alert_Sender
  imports Json Graph_Types Interfaces
begin

text \<open>
  The alert webhooks of \<open>webhook_sender.rs\<close>: severity filter, per-webhook counter, payload
  formats, retries with back-off, and the manager that drops an alert for a path sent within
  the last minute. HTTP is outside: the outcome of every request is an argument. An
  \<open>Instant\<close> is a number of nanoseconds, and each reading of the clock is an argument.
\<close>

section \<open>Configuration and payloads\<close>

datatype WebhookType = WGeneric | WElastic | WSplunk | WSlack | WTeams | WDatadog | WCustom string

datatype SenderAuth = SaNone | SaBearer string | SaBasic string string | SaApiKey string string

datatype SeverityFilter = FCritical | FHigh | FMedium | FLow | FInfo

fun severity_rank :: "SeverityFilter \<Rightarrow> nat" where
  "severity_rank FInfo = 0"
| "severity_rank FLow = 1"
| "severity_rank FMedium = 2"
| "severity_rank FHigh = 3"
| "severity_rank FCritical = 4"

instantiation SeverityFilter :: linorder
begin

definition less_eq_SeverityFilter :: "SeverityFilter \<Rightarrow> SeverityFilter \<Rightarrow> bool" where
  "less_eq_SeverityFilter a b \<longleftrightarrow> severity_rank a \<le> severity_rank b"

definition less_SeverityFilter :: "SeverityFilter \<Rightarrow> SeverityFilter \<Rightarrow> bool" where
  "less_SeverityFilter a b \<longleftrightarrow> severity_rank a < severity_rank b"

instance
proof
  fix a b :: SeverityFilter
  show "a \<le> b \<Longrightarrow> b \<le> a \<Longrightarrow> a = b"
    by (cases a; cases b) (simp_all add: less_eq_SeverityFilter_def)
qed (auto simp: less_eq_SeverityFilter_def less_SeverityFilter_def)

end

fun SeverityFilter_from :: "Priority \<Rightarrow> SeverityFilter" where
  "SeverityFilter_from PCritical = FCritical"
| "SeverityFilter_from PHigh = FHigh"
| "SeverityFilter_from PMedium = FMedium"
| "SeverityFilter_from PLow = FLow"
| "SeverityFilter_from Informational = FLow"

datatype AlertMode = OnAlertOnly | OnUpdate | OnEveryEvent

record SenderConfig =
  wc_url :: string
  wc_webhook_type :: WebhookType
  wc_auth :: SenderAuth
  wc_rate_limit :: u32
  wc_min_severity :: SeverityFilter
  wc_alert_mode :: AlertMode
  wc_timeout_secs :: u64
  wc_retry_attempts :: u32

definition SenderConfig_default :: SenderConfig where
  "SenderConfig_default =
     \<lparr>wc_url = [], wc_webhook_type = WGeneric, wc_auth = SaNone, wc_rate_limit = 60,
      wc_min_severity = FHigh, wc_alert_mode = OnAlertOnly, wc_timeout_secs = 30,
      wc_retry_attempts = 3\<rparr>"

record AlertMetadata =
  md_scanner_version :: string
  md_scanner_id :: string
  md_node_name :: string
  md_namespace :: string
  md_pod_name :: string

record AlertPayload =
  al_event_type :: string
  al_severity :: string
  al_confidence :: f32
  al_risk_score :: f32
  al_cve :: "string option"
  al_process :: string
  al_attack_path :: "string list"
  al_signals :: "string list"
  al_timestamp :: int
  al_metadata :: AlertMetadata
  al_context :: "json option"

section \<open>Rate limiter\<close>

record RateLimiter =
  rl_last_sent :: "(string \<times> int) list"
  rl_cooldown :: int
  rl_event_count :: "(string \<times> u32) list"
  rl_rate_window :: int

definition RateLimiter_new :: "u64 \<Rightarrow> RateLimiter" where
  "RateLimiter_new cooldown_secs =
     \<lparr>rl_last_sent = [], rl_cooldown = uint cooldown_secs * 10 ^ 9, rl_event_count = [],
      rl_rate_window = 60 * 10 ^ 9\<rparr>"

text \<open>\<open>now.duration_since(t)\<close> saturates at zero.\<close>

definition since :: "int \<Rightarrow> int \<Rightarrow> int" where
  "since now t = max 0 (now - t)"

definition should_send :: "int \<Rightarrow> string \<Rightarrow> RateLimiter \<Rightarrow> bool \<times> RateLimiter" where
  "should_send now path_id r =
     (let sent = (True, r\<lparr>rl_last_sent := AList.update path_id now (rl_last_sent r)\<rparr>)
      in case map_of (rl_last_sent r) path_id of
           Some last_time \<Rightarrow> if since now last_time < rl_cooldown r then (False, r) else sent
         | None \<Rightarrow> sent)"

definition check_rate_limit :: "string \<Rightarrow> u32 \<Rightarrow> RateLimiter \<Rightarrow> bool \<times> RateLimiter" where
  "check_rate_limit webhook_id limit r =
     (let r = r\<lparr>rl_event_count := alist_modify webhook_id 0 (\<lambda>c. c + 1) (rl_event_count r)\<rparr>
      in (the (map_of (rl_event_count r) webhook_id) \<le> limit, r))"

definition reset_counters :: "RateLimiter \<Rightarrow> RateLimiter" where
  "reset_counters r = r\<lparr>rl_event_count := []\<rparr>"

section \<open>Formats\<close>

text \<open>Characters outside ASCII as their UTF-8 bytes.\<close>

definition arrow :: string where "arrow = [CHR 0x20, CHR 0xE2, CHR 0x86, CHR 0x92, CHR 0x20]"
definition siren :: string where "siren = [CHR 0xF0, CHR 0x9F, CHR 0x9A, CHR 0xA8]"
definition warning_sign :: string where
  "warning_sign = [CHR 0xE2, CHR 0x9A, CHR 0xA0, CHR 0xEF, CHR 0xB8, CHR 0x8F]"
definition bolt :: string where "bolt = [CHR 0xE2, CHR 0x9A, CHR 0xA1]"
definition info_sign :: string where
  "info_sign = [CHR 0xE2, CHR 0x84, CHR 0xB9, CHR 0xEF, CHR 0xB8, CHR 0x8F]"

definition or_text :: "string \<Rightarrow> string option \<Rightarrow> string" where
  "or_text d x = (case x of None \<Rightarrow> d | Some v \<Rightarrow> v)"

definition metadata_json :: "AlertMetadata \<Rightarrow> json" where
  "metadata_json m =
     JObj [(''scanner_version'', JStr (md_scanner_version m)), (''scanner_id'', JStr (md_scanner_id m)),
           (''node_name'', JStr (md_node_name m)), (''namespace'', JStr (md_namespace m)),
           (''pod_name'', JStr (md_pod_name m))]"

definition payload_json :: "AlertPayload \<Rightarrow> json" where
  "payload_json p =
     JObj ([(''event_type'', JStr (al_event_type p)), (''severity'', JStr (al_severity p)),
            (''confidence'', json_float (al_confidence p)), (''risk_score'', json_float (al_risk_score p))]
       @ (case al_cve p of None \<Rightarrow> [] | Some c \<Rightarrow> [(''cve'', JStr c)])
       @ [(''process'', JStr (al_process p)), (''attack_path'', json_strs (al_attack_path p)),
          (''signals'', json_strs (al_signals p)), (''timestamp'', JInt (al_timestamp p)),
          (''metadata'', metadata_json (al_metadata p))]
       @ (case al_context p of None \<Rightarrow> [] | Some c \<Rightarrow> [(''context'', c)]))"

definition format_elastic :: "string \<Rightarrow> AlertPayload \<Rightarrow> json" where
  "format_elastic now p =
     JObj [(''@timestamp'', JStr now),
       (''event'', JObj [(''category'', JStr ''threat''), (''type'', JStr ''attack_path''),
          (''severity'', JStr (to_ascii_lowercase (al_severity p))),
          (''confidence'', json_float (al_confidence p))]),
       (''threat'', JObj [(''cve'', json_opt JStr (al_cve p)), (''risk_score'', json_float (al_risk_score p)),
          (''attack_path'', json_strs (al_attack_path p)), (''signals'', json_strs (al_signals p))]),
       (''process'', JObj [(''name'', JStr (al_process p))]),
       (''scanner'', JObj [(''version'', JStr (md_scanner_version (al_metadata p))),
          (''id'', JStr (md_scanner_id (al_metadata p))), (''node'', JStr (md_node_name (al_metadata p)))])]"

definition format_splunk :: "int \<Rightarrow> AlertPayload \<Rightarrow> json" where
  "format_splunk now_secs p =
     JObj [(''time'', JInt now_secs), (''event'', payload_json p),
       (''sourcetype'', JStr ''vulnerability_scanner''), (''index'', JStr ''security'')]"

definition slack_emoji :: "string \<Rightarrow> string" where
  "slack_emoji s = (if s = ''CRITICAL'' then siren else if s = ''HIGH'' then warning_sign
     else if s = ''MEDIUM'' then bolt else info_sign)"

definition slack_color :: "string \<Rightarrow> string" where
  "slack_color s = (if s = ''CRITICAL'' then ''#FF0000'' else if s = ''HIGH'' then ''#FF8800''
     else if s = ''MEDIUM'' then ''#FFCC00'' else ''#00CC00'')"

definition slack_field :: "string \<Rightarrow> string \<Rightarrow> bool \<Rightarrow> json" where
  "slack_field title v short =
     JObj [(''title'', JStr title), (''value'', JStr v), (''short'', JBool short)]"

definition format_slack :: "AlertPayload \<Rightarrow> json" where
  "format_slack p =
     JObj [(''text'', JStr (slack_emoji (al_severity p) @ '' '' @ al_severity p @ '' CVE ACTIVE'')),
       (''attachments'', JArr [JObj [(''color'', JStr (slack_color (al_severity p))),
          (''fields'', JArr [
             slack_field ''CVE'' (or_text ''N/A'' (al_cve p)) True,
             slack_field ''Confidence'' (fmt_fixed 2 (al_confidence p)) True,
             slack_field ''Risk Score'' (fmt_fixed 1 (al_risk_score p)) True,
             slack_field ''Process'' (al_process p) True,
             slack_field ''Attack Path'' (join arrow (al_attack_path p)) False,
             slack_field ''Signals'' (join '' + '' (al_signals p)) False]),
          (''footer'', JStr (''Scanner '' @ md_scanner_id (al_metadata p) @ '' on ''
             @ md_node_name (al_metadata p))),
          (''ts'', JInt (al_timestamp p))]])]"

definition teams_fact :: "string \<Rightarrow> string \<Rightarrow> json" where
  "teams_fact name v = JObj [(''name'', JStr name), (''value'', JStr v)]"

definition format_teams :: "AlertPayload \<Rightarrow> json" where
  "format_teams p =
     JObj [(''@type'', JStr ''MessageCard''), (''@context'', JStr ''https://schema.org/extensions''),
       (''themeColor'', JStr (if al_severity p = ''CRITICAL'' then ''FF0000''
          else if al_severity p = ''HIGH'' then ''FF8800'' else ''00CC00'')),
       (''summary'', JStr (al_severity p @ '' CVE Alert'')),
       (''sections'', JArr [JObj [
          (''activityTitle'', JStr (siren @ '' '' @ al_severity p @ '' CVE Detected'')),
          (''facts'', JArr [
             teams_fact ''CVE:'' (or_text ''N/A'' (al_cve p)),
             teams_fact ''Confidence:'' (fmt_fixed 2 (al_confidence p)),
             teams_fact ''Risk Score:'' (fmt_fixed 1 (al_risk_score p)),
             teams_fact ''Process:'' (al_process p),
             teams_fact ''Path:'' (join arrow (al_attack_path p)),
             teams_fact ''Signals:'' (join '', '' (al_signals p))])]])]"

definition format_datadog :: "AlertPayload \<Rightarrow> json" where
  "format_datadog p =
     JObj [(''title'', JStr (al_severity p @ '' CVE Alert: '' @ or_text ''Unknown'' (al_cve p))),
       (''text'', JStr (''Attack path detected: '' @ join arrow (al_attack_path p))),
       (''alert_type'', JStr (if al_severity p = ''CRITICAL'' \<or> al_severity p = ''HIGH'' then ''error''
          else if al_severity p = ''MEDIUM'' then ''warning'' else ''info'')),
       (''tags'', json_strs [''cve:'' @ or_text ''unknown'' (al_cve p),
          ''severity:'' @ to_ascii_lowercase (al_severity p), ''process:'' @ al_process p,
          ''scanner:'' @ md_scanner_id (al_metadata p)]),
       (''timestamp'', JInt (al_timestamp p))]"

text \<open>The clock of a formatted payload: RFC 3339 text and seconds.\<close>

definition format_payload :: "string \<Rightarrow> int \<Rightarrow> SenderConfig \<Rightarrow> AlertPayload \<Rightarrow> json" where
  "format_payload now now_secs cfg p =
     (case wc_webhook_type cfg of
        WGeneric \<Rightarrow> payload_json p
      | WElastic \<Rightarrow> format_elastic now p
      | WSplunk \<Rightarrow> format_splunk now_secs p
      | WSlack \<Rightarrow> format_slack p
      | WTeams \<Rightarrow> format_teams p
      | WDatadog \<Rightarrow> format_datadog p
      | WCustom _ \<Rightarrow> payload_json p)"

section \<open>Sending\<close>

text \<open>
  The outcome of a request: it could not be sent, or a status came back with the text of the
  body (which can fail to arrive). \<open>status_text\<close> is how the HTTP library prints a status.
\<close>

datatype http_outcome = Unsent string | Answered nat "string + string"

definition is_success :: "nat \<Rightarrow> bool" where "is_success status \<longleftrightarrow> 200 \<le> status \<and> status < 300"

definition send_once :: "(nat \<Rightarrow> string) \<Rightarrow> http_outcome \<Rightarrow> string + unit" where
  "send_once status_text h =
     (case h of
        Unsent e \<Rightarrow> Inl e
      | Answered status body \<Rightarrow>
          if is_success status then Inr ()
          else (case body of
                  Inl e \<Rightarrow> Inl e
                | Inr text \<Rightarrow> Inl (''HTTP '' @ status_text status @ '': '' @ text)))"

text \<open>
  The retry loop: \<open>resp i\<close> is the outcome of request \<open>i\<close>, counted from 0. The result comes
  with the pauses (seconds) between the requests.
\<close>

function retry_loop :: "(nat \<Rightarrow> string + unit) \<Rightarrow> nat \<Rightarrow> nat \<Rightarrow> nat \<Rightarrow> (string + unit) \<times> nat list" where
  "retry_loop resp limit attempts delay =
     (case resp attempts of
        Inr u \<Rightarrow> (Inr u, [])
      | Inl e \<Rightarrow>
          if limit \<le> attempts + 1 then (Inl e, [])
          else (let (r, ds) = retry_loop resp limit (attempts + 1) (min (delay * 2) 30)
                in (r, delay # ds)))"
  by pat_completeness auto
termination
  by (relation "measure (\<lambda>(resp, limit, attempts, delay). limit - attempts)") auto

declare retry_loop.simps [simp del]

definition send_with_retry :: "(nat \<Rightarrow> string + unit) \<Rightarrow> SenderConfig \<Rightarrow> (string + unit) \<times> nat list" where
  "send_with_retry resp cfg = retry_loop resp (unat (wc_retry_attempts cfg)) 0 1"

record WebhookSender =
  sd_config :: SenderConfig
  sd_rate_limiter :: RateLimiter
  sd_webhook_id :: string

text \<open>\<open>dbg\<close> prints the type of a webhook with \<open>{:?}\<close>.\<close>

definition WebhookSender_new :: "(WebhookType \<Rightarrow> string) \<Rightarrow> SenderConfig \<Rightarrow> WebhookSender" where
  "WebhookSender_new dbg cfg =
     \<lparr>sd_config = cfg, sd_rate_limiter = RateLimiter_new 60,
      sd_webhook_id = dbg (wc_webhook_type cfg) @ ''_'' @ wc_url cfg\<rparr>"

definition parse_severity :: "string \<Rightarrow> SeverityFilter" where
  "parse_severity s =
     (if s = ''CRITICAL'' then FCritical else if s = ''HIGH'' then FHigh
      else if s = ''MEDIUM'' then FMedium else if s = ''LOW'' then FLow else FInfo)"

text \<open>
  What one call takes from outside: the time for the payload and the outcomes of its
  requests; and what it does: nothing, or posting a body with the result and the pauses.
\<close>

record send_env =
  en_rfc3339 :: string
  en_secs :: int
  en_resp :: "nat \<Rightarrow> string + unit"

datatype delivery = Skipped | Limited | Posted json "string + unit" "nat list"

definition sd_send_alert :: "send_env \<Rightarrow> AlertPayload \<Rightarrow> WebhookSender \<Rightarrow> delivery \<times> WebhookSender" where
  "sd_send_alert env p s =
     (if parse_severity (al_severity p) < wc_min_severity (sd_config s) then (Skipped, s)
      else
        (let (ok, r) = check_rate_limit (sd_webhook_id s) (wc_rate_limit (sd_config s)) (sd_rate_limiter s);
             s = s\<lparr>sd_rate_limiter := r\<rparr>
         in if \<not> ok then (Limited, s)
            else (let body = format_payload (en_rfc3339 env) (en_secs env) (sd_config s) p;
                      (result, delays) = send_with_retry (en_resp env) (sd_config s)
                  in (Posted body result delays, s))))"

section \<open>The manager\<close>

record WebhookManager =
  wm_senders :: "WebhookSender list"
  wm_dedup_cache :: "(string \<times> int) list"
  wm_dedup_ttl :: int

definition WebhookManager_new :: WebhookManager where
  "WebhookManager_new = \<lparr>wm_senders = [], wm_dedup_cache = [], wm_dedup_ttl = 60 * 10 ^ 9\<rparr>"

definition add_webhook :: "(WebhookType \<Rightarrow> string) \<Rightarrow> SenderConfig \<Rightarrow> WebhookManager \<Rightarrow> WebhookManager" where
  "add_webhook dbg cfg m = m\<lparr>wm_senders := wm_senders m @ [WebhookSender_new dbg cfg]\<rparr>"

definition is_duplicate :: "int \<Rightarrow> string \<Rightarrow> WebhookManager \<Rightarrow> bool" where
  "is_duplicate now path_id m =
     (case map_of (wm_dedup_cache m) path_id of
        Some last_time \<Rightarrow> since now last_time < wm_dedup_ttl m
      | None \<Rightarrow> False)"

definition MAX_DEDUP_ENTRIES :: nat where "MAX_DEDUP_ENTRIES = 10000"

text \<open>
  \<open>min_by_key\<close> over a hash map: the first minimum in the iteration order, which is the
  order of the list here.
\<close>

fun oldest_entry :: "(string \<times> int) list \<Rightarrow> (string \<times> int) option" where
  "oldest_entry [] = None"
| "oldest_entry ((k, v) # m) =
     (case oldest_entry m of None \<Rightarrow> Some (k, v)
      | Some (k', v') \<Rightarrow> if v' < v then Some (k', v') else Some (k, v))"

definition evict_oldest :: "string \<Rightarrow> (string \<times> int) list \<Rightarrow> (string \<times> int) list" where
  "evict_oldest path_id cache =
     (if MAX_DEDUP_ENTRIES \<le> length cache \<and> map_of cache path_id = None
      then (case oldest_entry cache of None \<Rightarrow> cache | Some (k, v) \<Rightarrow> AList.delete k cache)
      else cache)"

record mark_clock =
  tm_check :: int
  tm_insert :: int
  tm_cleanup :: int

definition mark_sent :: "mark_clock \<Rightarrow> string \<Rightarrow> WebhookManager \<Rightarrow> WebhookManager" where
  "mark_sent t path_id m =
     (let cache = AList.update path_id (tm_insert t) (evict_oldest path_id (wm_dedup_cache m))
      in m\<lparr>wm_dedup_cache := filter (\<lambda>(k, v). since (tm_cleanup t) v < wm_dedup_ttl m) cache\<rparr>)"

fun send_all :: "(nat \<Rightarrow> send_env) \<Rightarrow> nat \<Rightarrow> AlertPayload \<Rightarrow> WebhookSender list \<Rightarrow> delivery list \<times> WebhookSender list" where
  "send_all envs i p [] = ([], [])"
| "send_all envs i p (s # ss) =
     (let (d, s) = sd_send_alert (envs i) p s; (ds, ss) = send_all envs (Suc i) p ss in (d # ds, s # ss))"

definition broadcast :: "(nat \<Rightarrow> send_env) \<Rightarrow> AlertPayload \<Rightarrow> WebhookManager \<Rightarrow> delivery list \<times> WebhookManager" where
  "broadcast envs p m =
     (let (ds, ss) = send_all envs 0 p (wm_senders m) in (ds, m\<lparr>wm_senders := ss\<rparr>))"

definition wm_send_alert ::
  "mark_clock \<Rightarrow> (nat \<Rightarrow> send_env) \<Rightarrow> string \<Rightarrow> AlertPayload \<Rightarrow> WebhookManager \<Rightarrow> delivery list option \<times> WebhookManager" where
  "wm_send_alert t envs path_id p m =
     (if is_duplicate (tm_check t) path_id m then (None, m)
      else (let (ds, m) = broadcast envs p (mark_sent t path_id m) in (Some ds, m)))"

section \<open>Payloads from paths\<close>

definition payload_severity :: "f32 \<Rightarrow> string" where
  "payload_severity c =
     (if fl_ge c (lit32 (9/10)) then ''CRITICAL''
      else if fl_ge c (lit32 (8/10)) then ''HIGH''
      else if fl_ge c (lit32 (6/10)) then ''MEDIUM'' else ''LOW'')"

fun first_process :: "RuntimeNode list \<Rightarrow> string" where
  "first_process [] = ''unknown''"
| "first_process (n # ns) = (case n of NProcess pid name cg \<Rightarrow> name | _ \<Rightarrow> first_process ns)"

text \<open>\<open>version\<close> is the package version of the build.\<close>

definition create_alert_payload ::
  "string \<Rightarrow> int \<Rightarrow> AttackPath \<Rightarrow> Finding option \<Rightarrow> string \<Rightarrow> AlertPayload" where
  "create_alert_payload version now_secs path finding scanner_id =
     \<lparr>al_event_type = ''ATTACK_PATH_ALERT'', al_severity = payload_severity (ap_confidence path),
      al_confidence = ap_confidence path, al_risk_score = ap_risk_score path,
      al_cve = map_option (\<lambda>f. rs_cve (fd_signal f)) finding,
      al_process = first_process (ap_nodes path),
      al_attack_path = map node_id (ap_nodes path), al_signals = ap_signal_types path,
      al_timestamp = now_secs,
      al_metadata =
        \<lparr>md_scanner_version = version, md_scanner_id = scanner_id,
         md_node_name = (case finding of None \<Rightarrow> ''unknown'' | Some f \<Rightarrow> ri_node_name (fd_identity f)),
         md_namespace = (case finding of None \<Rightarrow> [] | Some f \<Rightarrow> ri_namespace (fd_identity f)),
         md_pod_name = (case finding of None \<Rightarrow> [] | Some f \<Rightarrow> ri_pod_name (fd_identity f))\<rparr>,
      al_context = None\<rparr>"

section \<open>Retries\<close>

lemma retry_result:
  "fst (retry_loop resp limit i d) =
     (case filter (\<lambda>j. \<exists>u. resp j = Inr u) [i..<max limit (Suc i)] of
        j # js \<Rightarrow> resp j
      | [] \<Rightarrow> resp (max limit (Suc i) - 1))"
proof (induction resp limit i d rule: retry_loop.induct)
  case (1 resp limit i d)
  show ?case
  proof (cases "resp i")
    case (Inl e)
    show ?thesis
    proof (cases "limit \<le> i + 1")
      case True
      then have "max limit (Suc i) = Suc i" by simp
      with Inl True show ?thesis by (subst retry_loop.simps) simp
    next
      case False
      then have m: "max limit (Suc (i + 1)) = limit" "max limit (Suc i) = limit" by auto
      have "[i..<limit] = i # [i + 1..<limit]" using False by (simp add: upt_conv_Cons)
      moreover have "fst (retry_loop resp limit i d) = fst (retry_loop resp limit (i + 1) (min (d * 2) 30))"
        using Inl False by (subst retry_loop.simps) (simp add: split_beta)
      ultimately show ?thesis using 1[OF Inl False] Inl unfolding m by simp
    qed
  next
    case (Inr u)
    then show ?thesis by (subst retry_loop.simps) (simp add: upt_conv_Cons)
  qed
qed

text \<open>The pauses: the doubled and capped delays, one before each request after the first.\<close>

fun backoff :: "nat \<Rightarrow> nat \<Rightarrow> nat list" where
  "backoff 0 d = []"
| "backoff (Suc n) d = d # backoff n (min (d * 2) 30)"

lemma retry_pauses:
  "\<exists>n < max limit (Suc i) - i. snd (retry_loop resp limit i d) = backoff n d
     \<and> (\<forall>j < n. \<exists>e. resp (i + j) = Inl e)
     \<and> (\<forall>e. fst (retry_loop resp limit i d) = Inl e \<longrightarrow> Suc n = max limit (Suc i) - i)"
proof (induction resp limit i d rule: retry_loop.induct)
  case (1 resp limit i d)
  show ?case
  proof (cases "\<exists>e. resp i = Inl e \<and> \<not> limit \<le> i + 1")
    case True
    then obtain e where e: "resp i = Inl e" "\<not> limit \<le> i + 1" by blast
    from 1[OF e] obtain n where n: "n < max limit (Suc (i + 1)) - (i + 1)"
      "snd (retry_loop resp limit (i + 1) (min (d * 2) 30)) = backoff n (min (d * 2) 30)"
      "\<forall>j < n. \<exists>e. resp (i + 1 + j) = Inl e"
      "\<forall>e. fst (retry_loop resp limit (i + 1) (min (d * 2) 30)) = Inl e \<longrightarrow> Suc n = max limit (Suc (i + 1)) - (i + 1)"
      by blast
    have r: "retry_loop resp limit i d =
      (fst (retry_loop resp limit (i + 1) (min (d * 2) 30)), d # snd (retry_loop resp limit (i + 1) (min (d * 2) 30)))"
      using e by (subst retry_loop.simps) (simp add: split_beta)
    have "\<forall>j < Suc n. \<exists>e. resp (i + j) = Inl e" using e n(3) by (auto simp: less_Suc_eq_0_disj)
    then show ?thesis using n e unfolding r by (intro exI[of _ "Suc n"]) (auto simp: max_def)
  next
    case False
    have "retry_loop resp limit i d = (resp i, [])"
      using False by (subst retry_loop.simps) (auto split: sum.splits)
    with False show ?thesis by (intro exI[of _ 0]) (auto simp: max_def)
  qed
qed

lemma length_backoff [simp]: "length (backoff n d) = n"
  by (induction n arbitrary: d) simp_all

lemma backoff_capped: "d \<le> 30 \<Longrightarrow> list_all (\<lambda>x. x \<le> 30) (backoff n d)"
  by (induction n arbitrary: d) simp_all

section \<open>The counter of a webhook\<close>

definition sent_count :: "WebhookSender \<Rightarrow> nat" where
  "sent_count s = (case map_of (rl_event_count (sd_rate_limiter s)) (sd_webhook_id s) of
     None \<Rightarrow> 0 | Some c \<Rightarrow> unat c)"

definition wanted :: "WebhookSender \<Rightarrow> AlertPayload \<Rightarrow> bool" where
  "wanted s p \<longleftrightarrow> wc_min_severity (sd_config s) \<le> parse_severity (al_severity p)"

definition is_posted :: "delivery \<Rightarrow> bool" where
  "is_posted d \<longleftrightarrow> (case d of Posted b r ds \<Rightarrow> True | _ \<Rightarrow> False)"

lemma send_alert_config [simp]:
  "sd_config (snd (sd_send_alert env p s)) = sd_config s"
  "sd_webhook_id (snd (sd_send_alert env p s)) = sd_webhook_id s"
  by (simp_all add: sd_send_alert_def split_beta Let_def)

lemma send_alert_count:
  assumes "Suc (sent_count s) < 2 ^ 32"
  shows "sent_count (snd (sd_send_alert env p s)) = (if wanted s p then Suc (sent_count s) else sent_count s)"
    "is_posted (fst (sd_send_alert env p s)) \<longleftrightarrow>
       wanted s p \<and> sent_count s < unat (wc_rate_limit (sd_config s))"
proof -
  let ?c = "case map_of (rl_event_count (sd_rate_limiter s)) (sd_webhook_id s) of None \<Rightarrow> 0 | Some c \<Rightarrow> c"
  have c: "sent_count s = unat ?c" by (simp add: sent_count_def split: option.splits)
  have n: "unat (?c + 1) = Suc (unat ?c)"
    using assms c by (simp add: unat_word_ariths(1) split: option.splits)
  have "wanted s p \<Longrightarrow> \<not> parse_severity (al_severity p) < wc_min_severity (sd_config s)"
    "\<not> wanted s p \<Longrightarrow> parse_severity (al_severity p) < wc_min_severity (sd_config s)"
    by (simp_all add: wanted_def)
  then show "sent_count (snd (sd_send_alert env p s)) = (if wanted s p then Suc (sent_count s) else sent_count s)"
    using n c by (simp add: sd_send_alert_def check_rate_limit_def sent_count_def split_beta Let_def)
  show "is_posted (fst (sd_send_alert env p s)) \<longleftrightarrow>
       wanted s p \<and> sent_count s < unat (wc_rate_limit (sd_config s))"
    using n c by (auto simp: sd_send_alert_def check_rate_limit_def is_posted_def wanted_def split_beta Let_def
        word_le_nat_alt not_less)
qed

fun sender_run :: "(send_env \<times> AlertPayload) list \<Rightarrow> WebhookSender \<Rightarrow> delivery list \<times> WebhookSender" where
  "sender_run [] s = ([], s)"
| "sender_run ((env, p) # es) s =
     (let (d, s) = sd_send_alert env p s; (ds, s) = sender_run es s in (d # ds, s))"

lemma wanted_config: "sd_config s' = sd_config s \<Longrightarrow> wanted s' = wanted s"
  by (simp add: wanted_def fun_eq_iff)

lemma posts_of_run:
  "sent_count s + length es < 2 ^ 32 \<Longrightarrow>
   length (filter is_posted (fst (sender_run es s))) =
     min (unat (wc_rate_limit (sd_config s)) - sent_count s) (length (filter (\<lambda>(env, p). wanted s p) es))"
proof (induction es arbitrary: s)
  case (Cons e es)
  obtain env p where e: "e = (env, p)" by (cases e)
  let ?s = "snd (sd_send_alert env p s)"
  have b: "Suc (sent_count s) < 2 ^ 32" using Cons.prems by simp
  note c = send_alert_count[OF b, of env p]
  have w: "wanted ?s = wanted s" by (rule wanted_config) simp
  have "sent_count ?s + length es < 2 ^ 32" using Cons.prems c by (simp split: if_splits)
  note ih = Cons.IH[OF this]
  let ?L = "unat (wc_rate_limit (sd_config s))"
  have "sent_count s < ?L \<Longrightarrow> ?L - sent_count s = Suc (?L - Suc (sent_count s))" by simp
  then show ?case using ih c
    by (cases "wanted s p"; cases "sent_count s < ?L") (simp_all add: e split_beta Let_def w)
qed simp

section \<open>Duplicates\<close>

lemma map_of_filter_values:
  "distinct (map fst m) \<Longrightarrow>
   map_of (filter (\<lambda>(k, v). P v) m) x = (case map_of m x of None \<Rightarrow> None | Some v \<Rightarrow> if P v then Some v else None)"
proof (induction m)
  case (Cons a m)
  obtain k v where a: "a = (k, v)" by (cases a)
  have "k \<notin> fst ` set m" using Cons.prems a by simp
  then have "map_of m k = None" by (simp add: map_of_eq_None_iff)
  with Cons show ?case by (auto simp: a)
qed simp

definition dedup_ok :: "string set \<Rightarrow> WebhookManager \<Rightarrow> bool" where
  "dedup_ok P m \<longleftrightarrow> distinct (map fst (wm_dedup_cache m)) \<and> fst ` set (wm_dedup_cache m) \<subseteq> P
     \<and> finite P \<and> card P \<le> MAX_DEDUP_ENTRIES \<and> 0 < wm_dedup_ttl m"

lemma no_eviction:
  assumes "dedup_ok P m" "path_id \<in> P"
  shows "evict_oldest path_id (wm_dedup_cache m) = wm_dedup_cache m"
proof (cases "map_of (wm_dedup_cache m) path_id = None")
  case True
  let ?K = "fst ` set (wm_dedup_cache m)"
  have "?K \<subset> P" using assms True unfolding dedup_ok_def map_of_eq_None_iff by auto
  then have "card ?K < card P" using assms(1) unfolding dedup_ok_def by (simp add: psubset_card_mono)
  moreover have "card ?K = length (wm_dedup_cache m)"
    using assms(1) distinct_card[of "map fst (wm_dedup_cache m)"] by (simp add: dedup_ok_def)
  ultimately show ?thesis using assms(1) by (simp add: evict_oldest_def dedup_ok_def)
qed (auto simp: evict_oldest_def)

lemma mark_sent_ok:
  assumes "dedup_ok P m" "path_id \<in> P"
  shows "dedup_ok P (mark_sent t path_id m)"
    "map_of (wm_dedup_cache (mark_sent t path_id m)) x =
       (case ((map_of (wm_dedup_cache m))(path_id \<mapsto> tm_insert t)) x of
          None \<Rightarrow> None | Some v \<Rightarrow> if since (tm_cleanup t) v < wm_dedup_ttl m then Some v else None)"
proof -
  have d: "distinct (map fst (AList.update path_id (tm_insert t) (wm_dedup_cache m)))"
    using assms(1) by (simp add: dedup_ok_def distinct_update)
  have "fst ` set (AList.update path_id (tm_insert t) (wm_dedup_cache m)) \<subseteq> P"
    using assms by (auto simp: dedup_ok_def dom_update[symmetric] simp flip: dom_map_of_conv_image_fst)
  then have k: "fst ` set (wm_dedup_cache (mark_sent t path_id m)) \<subseteq> P"
    by (auto simp: mark_sent_def no_eviction[OF assms])
  show "dedup_ok P (mark_sent t path_id m)"
    using assms(1) d k
    by (simp add: dedup_ok_def mark_sent_def no_eviction[OF assms] distinct_map_filter)
  show "map_of (wm_dedup_cache (mark_sent t path_id m)) x =
       (case ((map_of (wm_dedup_cache m))(path_id \<mapsto> tm_insert t)) x of
          None \<Rightarrow> None | Some v \<Rightarrow> if since (tm_cleanup t) v < wm_dedup_ttl m then Some v else None)"
    using d by (simp add: mark_sent_def no_eviction[OF assms] map_of_filter_values del: fun_upd_apply)
qed

lemma broadcast_keeps [simp]:
  "wm_dedup_cache (snd (broadcast envs p m)) = wm_dedup_cache m"
  "wm_dedup_ttl (snd (broadcast envs p m)) = wm_dedup_ttl m"
  "dedup_ok P (snd (broadcast envs p m)) = dedup_ok P m"
  by (simp_all add: broadcast_def split_beta dedup_ok_def)

lemma mark_sent_ttl [simp]: "wm_dedup_ttl (mark_sent t p m) = wm_dedup_ttl m"
  by (simp add: mark_sent_def)

record alert_call =
  ac_clock :: mark_clock
  ac_envs :: "nat \<Rightarrow> send_env"
  ac_path :: string
  ac_payload :: AlertPayload

definition manager_step :: "WebhookManager \<Rightarrow> alert_call \<Rightarrow> WebhookManager" where
  "manager_step m e = snd (wm_send_alert (ac_clock e) (ac_envs e) (ac_path e) (ac_payload e) m)"

lemma manager_step_keeps:
  "wm_dedup_ttl (manager_step m e) = wm_dedup_ttl m"
  "dedup_ok P m \<Longrightarrow> ac_path e \<in> P \<Longrightarrow> dedup_ok P (manager_step m e)"
  by (auto simp: manager_step_def wm_send_alert_def split_beta Let_def mark_sent_ok(1))

text \<open>The check and the insertion instants of the alerts that were broadcast for a path.\<close>

primrec broadcast_times :: "string \<Rightarrow> WebhookManager \<Rightarrow> alert_call list \<Rightarrow> (int \<times> int) list" where
  "broadcast_times p m [] = []"
| "broadcast_times p m (e # es) =
     (if ac_path e = p \<and> \<not> is_duplicate (tm_check (ac_clock e)) p m
      then [(tm_check (ac_clock e), tm_insert (ac_clock e))] else [])
     @ broadcast_times p (manager_step m e) es"

primrec clock_forward :: "int \<Rightarrow> alert_call list \<Rightarrow> bool" where
  "clock_forward c [] = True"
| "clock_forward c (e # es) =
     (c \<le> tm_check (ac_clock e) \<and> tm_check (ac_clock e) \<le> tm_insert (ac_clock e)
      \<and> tm_insert (ac_clock e) \<le> tm_cleanup (ac_clock e) \<and> clock_forward (tm_cleanup (ac_clock e)) es)"

text \<open>An alert sent at \<open>u\<close> blocks its path: it is still in the cache or a minute is over.\<close>

definition blocks :: "string \<Rightarrow> int \<Rightarrow> int \<Rightarrow> WebhookManager \<Rightarrow> bool" where
  "blocks p u c m \<longleftrightarrow> map_of (wm_dedup_cache m) p = Some u \<or> u + wm_dedup_ttl m \<le> c"

lemma dedup_ok_ttl: "dedup_ok P m \<Longrightarrow> 0 < wm_dedup_ttl m"
  by (simp add: dedup_ok_def)

lemma blocks_step:
  assumes "dedup_ok P m" "ac_path e \<in> P" "blocks p u c m" "clock_forward c (e # es)"
    "\<not> (ac_path e = p \<and> \<not> is_duplicate (tm_check (ac_clock e)) p m)"
  shows "blocks p u (tm_cleanup (ac_clock e)) (manager_step m e)"
proof (cases "is_duplicate (tm_check (ac_clock e)) (ac_path e) m")
  case True
  then have "manager_step m e = m" by (simp add: manager_step_def wm_send_alert_def)
  with assms(3,4) show ?thesis by (auto simp: blocks_def)
next
  case False
  with assms(5) have "ac_path e \<noteq> p" by auto
  moreover have "wm_dedup_cache (manager_step m e) = wm_dedup_cache (mark_sent (ac_clock e) (ac_path e) m)"
    using False by (simp add: manager_step_def wm_send_alert_def split_beta Let_def)
  ultimately show ?thesis
    using assms(3,4) mark_sent_ok(2)[OF assms(1,2), of "ac_clock e" p] dedup_ok_ttl[OF assms(1)]
    by (auto simp: blocks_def manager_step_keeps since_def split: if_splits)
qed

lemma blocks_after:
  assumes "dedup_ok P m" "ac_path e \<in> P" "clock_forward c (e # es)"
    "\<not> is_duplicate (tm_check (ac_clock e)) (ac_path e) m"
  shows "blocks (ac_path e) (tm_insert (ac_clock e)) (tm_cleanup (ac_clock e)) (manager_step m e)"
proof -
  have "wm_dedup_cache (manager_step m e) = wm_dedup_cache (mark_sent (ac_clock e) (ac_path e) m)"
    using assms(4) by (simp add: manager_step_def wm_send_alert_def split_beta Let_def)
  then show ?thesis
    using assms(3) mark_sent_ok(2)[OF assms(1,2), of "ac_clock e" "ac_path e"]
    by (auto simp: blocks_def manager_step_keeps since_def split: if_splits)
qed

lemma blocked_until:
  "dedup_ok P m \<Longrightarrow> \<forall>e \<in> set es. ac_path e \<in> P \<Longrightarrow> blocks p u c m \<Longrightarrow> clock_forward c es \<Longrightarrow>
   \<forall>(a, b) \<in> set (broadcast_times p m es). u + wm_dedup_ttl m \<le> a"
proof (induction es arbitrary: m c u)
  case (Cons e es)
  let ?t = "tm_check (ac_clock e)"
  have P: "ac_path e \<in> P" and ok: "dedup_ok P (manager_step m e)"
    using Cons.prems manager_step_keeps(2) by auto
  show ?case
  proof (cases "ac_path e = p \<and> \<not> is_duplicate ?t p m")
    case True
    then have u: "u + wm_dedup_ttl m \<le> ?t"
      using Cons.prems(3,4) dedup_ok_ttl[OF Cons.prems(1)]
      by (auto simp: blocks_def is_duplicate_def since_def split: option.splits)
    have "blocks p u (tm_cleanup (ac_clock e)) (manager_step m e)"
      using u Cons.prems(4) by (auto simp: blocks_def manager_step_keeps)
    from Cons.IH[OF ok _ this] Cons.prems True u show ?thesis by (auto simp: manager_step_keeps)
  next
    case False
    from Cons.IH[OF ok _ blocks_step[OF Cons.prems(1) P Cons.prems(3,4) False]] Cons.prems False
    show ?thesis by (auto simp: manager_step_keeps)
  qed
qed simp

lemma broadcasts_spaced:
  "dedup_ok P m \<Longrightarrow> \<forall>e \<in> set es. ac_path e \<in> P \<Longrightarrow> clock_forward c es \<Longrightarrow>
   sorted_wrt (\<lambda>(a, b) (a', b'). b + wm_dedup_ttl m \<le> a') (broadcast_times p m es)"
proof (induction es arbitrary: m c)
  case (Cons e es)
  have P: "ac_path e \<in> P" and ok: "dedup_ok P (manager_step m e)"
    using Cons.prems manager_step_keeps(2) by auto
  have rest: "sorted_wrt (\<lambda>(a, b) (a', b'). b + wm_dedup_ttl m \<le> a') (broadcast_times p (manager_step m e) es)"
    using Cons.IH[OF ok] Cons.prems by (auto simp: manager_step_keeps)
  show ?case
  proof (cases "ac_path e = p \<and> \<not> is_duplicate (tm_check (ac_clock e)) p m")
    case True
    then have "blocks p (tm_insert (ac_clock e)) (tm_cleanup (ac_clock e)) (manager_step m e)"
      using blocks_after[OF Cons.prems(1) P Cons.prems(3)] by auto
    from blocked_until[OF ok _ this, of es] Cons.prems True rest
    show ?thesis by (auto simp: manager_step_keeps)
  next
    case False
    then have "broadcast_times p m (e # es) = broadcast_times p (manager_step m e) es" by auto
    with rest show ?thesis by simp
  qed
qed simp

lemma dedup_ok_new: "finite P \<Longrightarrow> card P \<le> 10000 \<Longrightarrow> dedup_ok P (WebhookManager_new\<lparr>wm_senders := ss\<rparr>)"
  by (simp add: dedup_ok_def WebhookManager_new_def MAX_DEDUP_ENTRIES_def)

section \<open>Properties\<close>

text \<open>Inputs of the witnesses.\<close>

definition sample_payload :: AlertPayload where
  "sample_payload =
     \<lparr>al_event_type = [], al_severity = ''HIGH'', al_confidence = Fin 0, al_risk_score = Fin 0, al_cve = None,
      al_process = [], al_attack_path = [], al_signals = [], al_timestamp = 0,
      al_metadata = \<lparr>md_scanner_version = [], md_scanner_id = [], md_node_name = [], md_namespace = [],
        md_pod_name = []\<rparr>, al_context = None\<rparr>"

definition sample_env :: send_env where
  "sample_env = \<lparr>en_rfc3339 = [], en_secs = 0, en_resp = (\<lambda>_. Inr ())\<rparr>"

text \<open>C10. Sending with retries makes at most the configured number of requests and at least one: its
  result is the first success among them, or the last error, and it pauses 1, 2, 4, ... seconds,
  never more than 30, between them.\<close>

theorem retries_are_bounded:
  "let n = max 1 (unat (wc_retry_attempts cfg)); (r, pauses) = send_with_retry resp cfg
   in length pauses < n \<and> pauses = backoff (length pauses) 1 \<and> list_all (\<lambda>d. d \<le> 30) pauses
    \<and> r = (case filter (\<lambda>j. resp j = Inr ()) [0..<n] of j # js \<Rightarrow> resp j | [] \<Rightarrow> resp (n - 1))
    \<and> (isl r \<longrightarrow> Suc (length pauses) = n)"
proof -
  obtain n where n: "n = max 1 (unat (wc_retry_attempts cfg))" by blast
  then have m: "max (unat (wc_retry_attempts cfg)) (Suc 0) = n" by simp
  let ?r = "send_with_retry resp cfg"
  obtain k where k: "k < n" "snd ?r = backoff k 1" "\<forall>e. fst ?r = Inl e \<longrightarrow> Suc k = n"
    using retry_pauses[of "unat (wc_retry_attempts cfg)" 0 resp 1]
    unfolding send_with_retry_def m by auto
  have "fst ?r = (case filter (\<lambda>j. resp j = Inr ()) [0..<n] of j # js \<Rightarrow> resp j | [] \<Rightarrow> resp (n - 1))"
    using retry_result[of resp "unat (wc_retry_attempts cfg)" 0 1]
    unfolding send_with_retry_def m by simp
  moreover have "isl (fst ?r) \<longrightarrow> Suc k = n" using k(3) by (auto simp: isl_def)
  ultimately show ?thesis using k(1,2)
    unfolding n[symmetric] Let_def split_beta by (simp add: backoff_capped)
qed

theorem retries_are_bounded_witness:
  "length (snd (send_with_retry (\<lambda>_. Inl ''down'') SenderConfig_default)) = 2"
  using retries_are_bounded[of SenderConfig_default "\<lambda>_. Inl ''down''"]
  by (simp add: split_beta SenderConfig_default_def Let_def)

text \<open>The counter of a webhook is never reset: over any run of fewer than 2^32 alerts from a fresh
  sender exactly the first alerts that pass the severity filter are posted, up to the rate limit,
  and none after them, however much time passes.\<close>

theorem webhook_goes_silent:
  "length es < 2 ^ 32 \<Longrightarrow>
   length (filter is_posted (fst (sender_run es (WebhookSender_new dbg cfg)))) =
     min (unat (wc_rate_limit cfg))
       (length (filter (\<lambda>(env, p). wc_min_severity cfg \<le> parse_severity (al_severity p)) es))"
  using posts_of_run[of "WebhookSender_new dbg cfg" es]
  by (simp add: WebhookSender_new_def sent_count_def RateLimiter_new_def wanted_def)

theorem webhook_goes_silent_witness:
  "length (filter is_posted (fst (sender_run (replicate 3 (sample_env, sample_payload))
     (WebhookSender_new (\<lambda>_. []) (SenderConfig_default\<lparr>wc_rate_limit := 1, wc_min_severity := FInfo\<rparr>))))) \<le> 1"
  using webhook_goes_silent[of "replicate 3 (sample_env, sample_payload)" "\<lambda>_. []"
      "SenderConfig_default\<lparr>wc_rate_limit := 1, wc_min_severity := FInfo\<rparr>"]
  by simp



end
