(* ===== verification/Webhook_Export.thy ===== *)
theory Webhook_Export
  imports Alert_Sender
begin

text \<open>
  The finding exporter of \<open>webhook.rs\<close>: the priority filter, the retry loop with its
  millisecond back-off, batches and the manager of several endpoints. The outcome of every
  HTTP request is an argument; a call returns what it posted as a value.
\<close>

section \<open>Configuration\<close>

datatype ExportAuth = XaNone | XaBearer string | XaBasic string string

record ExportConfig =
  xc_url :: string
  xc_auth :: ExportAuth
  xc_timeout_secs :: u64
  xc_max_retries :: u32
  xc_batch_size :: nat
  xc_batch_timeout_secs :: u64
  xc_min_priority :: string
  xc_include_metadata :: bool

definition ExportAuth_default :: ExportAuth where "ExportAuth_default = XaNone"

definition ExportConfig_default :: ExportConfig where
  "ExportConfig_default =
     \<lparr>xc_url = [], xc_auth = XaNone, xc_timeout_secs = 10, xc_max_retries = 3, xc_batch_size = 10,
      xc_batch_timeout_secs = 5, xc_min_priority = ''Medium'', xc_include_metadata = True\<rparr>"

record ExportMetadata =
  xm_agent_version :: string
  xm_node_name :: string
  xm_scanner_id :: string
  xm_source_ip :: string

record ExportPayload =
  xp_version :: string
  xp_timestamp :: int
  xp_finding :: Finding
  xp_metadata :: "ExportMetadata option"

record WebhookExporter =
  xe_config :: ExportConfig
  xe_scanner_id :: string
  xe_node_name :: string

record ExportResult =
  xr_success :: bool
  xr_retry_count :: nat
  xr_error :: "string option"

definition get_source_ip :: string where "get_source_ip = ''127.0.0.1''"

text \<open>\<open>version\<close> is the package version of the build.\<close>

definition build_payload :: "string \<Rightarrow> int \<Rightarrow> WebhookExporter \<Rightarrow> Finding \<Rightarrow> ExportPayload" where
  "build_payload version now e f =
     \<lparr>xp_version = ''1.0'', xp_timestamp = now, xp_finding = f,
      xp_metadata =
        (if xc_include_metadata (xe_config e)
         then Some \<lparr>xm_agent_version = version, xm_node_name = xe_node_name e,
                    xm_scanner_id = xe_scanner_id e, xm_source_ip = get_source_ip\<rparr>
         else None)\<rparr>"

definition min_priority_rank :: "string \<Rightarrow> nat" where
  "min_priority_rank s =
     (if s = ''Critical'' then 4 else if s = ''High'' then 3 else if s = ''Medium'' then 2
      else if s = ''Low'' then 1 else 0)"

fun finding_priority_rank :: "Priority \<Rightarrow> nat" where
  "finding_priority_rank PCritical = 4"
| "finding_priority_rank PHigh = 3"
| "finding_priority_rank PMedium = 2"
| "finding_priority_rank PLow = 1"
| "finding_priority_rank Informational = 0"

definition should_export :: "WebhookExporter \<Rightarrow> Finding \<Rightarrow> bool" where
  "should_export e f \<longleftrightarrow>
     min_priority_rank (xc_min_priority (xe_config e)) \<le> finding_priority_rank (fd_priority f)"

section \<open>Requests\<close>

text \<open>\<open>(100 * 2_u64.pow(attempts - 1)).min(30_000)\<close> in 64 bits, which wrap in release builds.\<close>

definition backoff_ms :: "nat \<Rightarrow> u64" where
  "backoff_ms attempts = min (100 * 2 ^ (attempts - 1)) 30000"

definition is_client_error :: "nat \<Rightarrow> bool" where
  "is_client_error status \<longleftrightarrow> 400 \<le> status \<and> status < 500"

definition status_error :: "(nat \<Rightarrow> string) \<Rightarrow> nat \<Rightarrow> string + string \<Rightarrow> string" where
  "status_error status_text status body =
     ''HTTP '' @ status_text status @ '': '' @ (case body of Inl e \<Rightarrow> [] | Inr text \<Rightarrow> text)"

definition export_failed :: "nat \<Rightarrow> string option \<Rightarrow> ExportResult" where
  "export_failed attempts err = \<lparr>xr_success = False, xr_retry_count = attempts, xr_error = err\<rparr>"

text \<open>
  The loop of both exports: \<open>resp i\<close> is the outcome of request \<open>i\<close>, counted from 0; the
  result comes with the pauses. \<open>attempts\<close> requests have been made.
\<close>

function export_loop ::
  "(nat \<Rightarrow> string) \<Rightarrow> (nat \<Rightarrow> http_outcome) \<Rightarrow> nat \<Rightarrow> nat \<Rightarrow> string option \<Rightarrow> ExportResult \<times> u64 list" where
  "export_loop st resp limit attempts err =
     (if attempts < limit
      then
        (let n = attempts + 1;
             again = (\<lambda>err. if n < limit
                 then (let (r, ps) = export_loop st resp limit n err in (r, backoff_ms n # ps))
                 else (export_failed n err, []))
         in case resp attempts of
              Answered status body \<Rightarrow>
                if is_success status
                then (\<lparr>xr_success = True, xr_retry_count = n - 1, xr_error = None\<rparr>, [])
                else if is_client_error status
                then (export_failed n (Some (status_error st status body)), [])
                else again (Some (status_error st status body))
            | Unsent e \<Rightarrow> again (Some (''Request failed: '' @ e)))
      else (export_failed attempts err, []))"
  by pat_completeness auto
termination
  by (relation "measure (\<lambda>(st, resp, limit, attempts, err). limit - attempts)") auto

declare export_loop.simps [simp del]

definition export_finding ::
  "(nat \<Rightarrow> string) \<Rightarrow> (nat \<Rightarrow> http_outcome) \<Rightarrow> WebhookExporter \<Rightarrow> ExportResult \<times> u64 list" where
  "export_finding st resp e = export_loop st resp (unat (xc_max_retries (xe_config e))) 0 None"

definition export_batch ::
  "(nat \<Rightarrow> string) \<Rightarrow> (nat \<Rightarrow> http_outcome) \<Rightarrow> WebhookExporter \<Rightarrow> Finding list \<Rightarrow> ExportResult \<times> u64 list" where
  "export_batch st resp e fs =
     (if fs = [] then (\<lparr>xr_success = True, xr_retry_count = 0, xr_error = None\<rparr>, [])
      else export_loop st resp (unat (xc_max_retries (xe_config e))) 0 None)"

section \<open>Batches\<close>

record BatchExporter =
  bx_exporter :: WebhookExporter
  bx_batch :: "Finding list"
  bx_last_flush :: int

definition BatchExporter_new :: "int \<Rightarrow> WebhookExporter \<Rightarrow> BatchExporter" where
  "BatchExporter_new now e = \<lparr>bx_exporter = e, bx_batch = [], bx_last_flush = now\<rparr>"

definition bx_push :: "Finding \<Rightarrow> BatchExporter \<Rightarrow> BatchExporter" where
  "bx_push f b = (if should_export (bx_exporter b) f then b\<lparr>bx_batch := bx_batch b @ [f]\<rparr> else b)"

definition bx_should_flush :: "int \<Rightarrow> BatchExporter \<Rightarrow> bool" where
  "bx_should_flush now b \<longleftrightarrow>
     bx_batch b \<noteq> []
     \<and> (xc_batch_size (xe_config (bx_exporter b)) \<le> length (bx_batch b)
        \<or> uint (xc_batch_timeout_secs (xe_config (bx_exporter b)))
            \<le> since now (bx_last_flush b) div 10 ^ 9)"

text \<open>A flush empties the batch before it is exported, and returns what it tried to export.\<close>

definition bx_flush ::
  "(nat \<Rightarrow> string) \<Rightarrow> (nat \<Rightarrow> http_outcome) \<Rightarrow> int \<Rightarrow> BatchExporter
   \<Rightarrow> (Finding list \<times> ExportResult \<times> u64 list) \<times> BatchExporter" where
  "bx_flush st resp now b =
     (let fs = bx_batch b; b = b\<lparr>bx_batch := [], bx_last_flush := now\<rparr>
      in ((fs, export_batch st resp (bx_exporter b) fs), b))"

definition bx_len :: "BatchExporter \<Rightarrow> nat" where "bx_len b = length (bx_batch b)"
definition bx_is_empty :: "BatchExporter \<Rightarrow> bool" where "bx_is_empty b \<longleftrightarrow> bx_batch b = []"

section \<open>Several endpoints\<close>

record ExportManager =
  xg_exporters :: "(WebhookExporter \<times> ExportConfig) list"
  xg_scanner_id :: string
  xg_node_name :: string

definition ExportManager_new :: "string \<Rightarrow> string \<Rightarrow> ExportManager" where
  "ExportManager_new scanner_id node_name =
     \<lparr>xg_exporters = [], xg_scanner_id = scanner_id, xg_node_name = node_name\<rparr>"

definition add_endpoint :: "ExportConfig \<Rightarrow> ExportManager \<Rightarrow> ExportManager" where
  "add_endpoint cfg m =
     m\<lparr>xg_exporters := xg_exporters m
         @ [(\<lparr>xe_config = cfg, xe_scanner_id = xg_scanner_id m, xe_node_name = xg_node_name m\<rparr>, cfg)]\<rparr>"

text \<open>\<open>resps k\<close> are the outcomes of the requests of endpoint \<open>k\<close>.\<close>

definition export_to_all ::
  "(nat \<Rightarrow> string) \<Rightarrow> (nat \<Rightarrow> nat \<Rightarrow> http_outcome) \<Rightarrow> Finding \<Rightarrow> ExportManager \<Rightarrow> ExportResult list" where
  "export_to_all st resps f m =
     map (\<lambda>(k, e). fst (export_finding st (resps k) e))
       (filter (\<lambda>(k, e). should_export e f) (enumerate 0 (map fst (xg_exporters m))))"

definition endpoint_count :: "ExportManager \<Rightarrow> nat" where
  "endpoint_count m = length (xg_exporters m)"

section \<open>The retry loop\<close>

text \<open>A request after which the loop stops.\<close>

fun is_final :: "http_outcome \<Rightarrow> bool" where
  "is_final (Unsent e) = False"
| "is_final (Answered status body) \<longleftrightarrow> is_success status \<or> is_client_error status"

fun is_accepted :: "http_outcome \<Rightarrow> bool" where
  "is_accepted (Unsent e) = False"
| "is_accepted (Answered status body) \<longleftrightarrow> is_success status"

lemma accepted_final: "is_accepted h \<Longrightarrow> is_final h"
  by (cases h) auto

text \<open>
  The loop makes requests up to the first final one or the limit; it succeeds exactly when
  that one is accepted, and pauses before every request but the first.
\<close>

lemma export_loop_spec:
  "i < limit \<Longrightarrow>
   \<exists>k. i < k \<and> k \<le> limit \<and> (\<forall>j. i \<le> j \<and> j < k - 1 \<longrightarrow> \<not> is_final (resp j))
     \<and> (is_final (resp (k - 1)) \<or> k = limit)
     \<and> xr_success (fst (export_loop st resp limit i err)) = is_accepted (resp (k - 1))
     \<and> xr_retry_count (fst (export_loop st resp limit i err)) = (if is_accepted (resp (k - 1)) then k - 1 else k)
     \<and> snd (export_loop st resp limit i err) = map backoff_ms [i + 1..<k]"
proof (induction st resp limit i err rule: export_loop.induct)
  case (1 st resp limit i err)
  show ?case
  proof (cases "is_final (resp i)")
    case True
    then show ?thesis using 1(2)
      by (intro exI[of _ "Suc i"], subst (1 2 3) export_loop.simps)
        (auto simp: export_failed_def split: http_outcome.splits)
  next
    case False
    let ?err = "case resp i of Answered status body \<Rightarrow> Some (status_error st status body)
      | Unsent e \<Rightarrow> Some (''Request failed: '' @ e)"
    have na: "\<not> is_accepted (resp i)" using False accepted_final by blast
    show ?thesis
    proof (cases "i + 1 < limit")
      case True
      have eq: "export_loop st resp limit i err =
        (let (r, ps) = export_loop st resp limit (i + 1) ?err in (r, backoff_ms (i + 1) # ps))"
        using 1(2) False True by (subst export_loop.simps) (auto split: http_outcome.splits)
      have "\<exists>k. i + 1 < k \<and> k \<le> limit \<and> (\<forall>j. i + 1 \<le> j \<and> j < k - 1 \<longrightarrow> \<not> is_final (resp j))
         \<and> (is_final (resp (k - 1)) \<or> k = limit)
         \<and> xr_success (fst (export_loop st resp limit (i + 1) ?err)) = is_accepted (resp (k - 1))
         \<and> xr_retry_count (fst (export_loop st resp limit (i + 1) ?err)) = (if is_accepted (resp (k - 1)) then k - 1 else k)
         \<and> snd (export_loop st resp limit (i + 1) ?err) = map backoff_ms [i + 1 + 1..<k]"
        using 1 True False by (cases "resp i") auto
      then obtain k where k: "i + 1 < k" "k \<le> limit" "\<forall>j. i + 1 \<le> j \<and> j < k - 1 \<longrightarrow> \<not> is_final (resp j)"
        "is_final (resp (k - 1)) \<or> k = limit"
        "xr_success (fst (export_loop st resp limit (i + 1) ?err)) = is_accepted (resp (k - 1))"
        "xr_retry_count (fst (export_loop st resp limit (i + 1) ?err)) = (if is_accepted (resp (k - 1)) then k - 1 else k)"
        "snd (export_loop st resp limit (i + 1) ?err) = map backoff_ms [i + 1 + 1..<k]" by blast
      have "\<forall>j. i \<le> j \<and> j < k - 1 \<longrightarrow> \<not> is_final (resp j)"
        using k(3) False by (metis Suc_eq_plus1 Suc_leI le_neq_implies_less)
      moreover have "map backoff_ms [i + 1..<k] = backoff_ms (i + 1) # map backoff_ms [i + 1 + 1..<k]"
        using k(1) by (simp add: upt_conv_Cons)
      ultimately show ?thesis using k unfolding eq
        by (intro exI[of _ k]) (simp add: split_beta)
    next
      case limit: False
      then have "limit = Suc i" using 1(2) by simp
      then show ?thesis using False na
        by (intro exI[of _ "Suc i"], subst (1 2 3) export_loop.simps)
          (auto simp: export_failed_def split: http_outcome.splits)
    qed
  qed
qed

section \<open>The back-off in 64 bits\<close>

lemma backoff_ms_small:
  assumes "n \<le> 57"
  shows "unat (backoff_ms (Suc n)) = min (100 * 2 ^ n) 30000"
proof -
  have "(2::nat) ^ n \<le> 2 ^ 57" using assms by (intro power_increasing) auto
  then have "100 * (2::nat) ^ n < 2 ^ 64" by simp
  then have "unat (word_of_nat (100 * 2 ^ n) :: u64) = 100 * 2 ^ n"
    by (simp only: unat_of_nat) simp
  then have "unat (100 * 2 ^ n :: u64) = 100 * 2 ^ n" by simp
  then show ?thesis by (simp add: backoff_ms_def min_def word_le_nat_alt)
qed

lemma backoff_ms_large:
  assumes "62 \<le> n"
  shows "backoff_ms (Suc n) = 0"
proof -
  obtain k where k: "n = 62 + k" using assms by (metis le_Suc_ex)
  have "(100 * 2 ^ n :: u64) = (100 * 2 ^ 62) * 2 ^ k" by (simp only: k power_add mult.assoc)
  also have "(100 * 2 ^ 62 :: u64) = 0" by simp
  finally have "(100 * 2 ^ n :: u64) = 0" by simp
  then show ?thesis by (simp add: backoff_ms_def)
qed

section \<open>Batches keep their findings\<close>

datatype batch_event = BPush Finding | BFlush "nat \<Rightarrow> http_outcome" int

fun batch_run :: "(nat \<Rightarrow> string) \<Rightarrow> batch_event list \<Rightarrow> BatchExporter \<Rightarrow> Finding list list \<times> BatchExporter" where
  "batch_run st [] b = ([], b)"
| "batch_run st (BPush f # es) b = batch_run st es (bx_push f b)"
| "batch_run st (BFlush resp now # es) b =
     (let ((fs, r), b) = bx_flush st resp now b; (out, b) = batch_run st es b in (fs # out, b))"

definition pushed :: "batch_event list \<Rightarrow> Finding list" where
  "pushed es = List.map_filter (\<lambda>e. case e of BPush f \<Rightarrow> Some f | BFlush r t \<Rightarrow> None) es"

lemma pushed_simps [simp]:
  "pushed [] = []" "pushed (BPush f # es) = f # pushed es" "pushed (BFlush r t # es) = pushed es"
  by (simp_all add: pushed_def map_filter_simps)

lemma batch_run_conserves:
  "concat (fst (batch_run st es b)) @ bx_batch (snd (batch_run st es b)) =
     bx_batch b @ filter (should_export (bx_exporter b)) (pushed es)"
proof (induction st es b rule: batch_run.induct)
  case (2 st f es b)
  then show ?case by (simp add: bx_push_def)
qed (simp_all add: bx_flush_def Let_def split_beta)

section \<open>Properties\<close>

text \<open>C18. An export makes at most the configured number of requests: it stops at the first success or
  client error, retries everything else, reports success exactly when its last request was
  accepted, and pauses before every request but the first.\<close>

theorem export_stops_at_final_answer:
  "0 < xc_max_retries (xe_config e) \<Longrightarrow>
   \<exists>k. 0 < k \<and> k \<le> unat (xc_max_retries (xe_config e))
     \<and> list_all (\<lambda>j. \<not> is_final (resp j)) [0..<k - 1]
     \<and> (is_final (resp (k - 1)) \<or> k = unat (xc_max_retries (xe_config e)))
     \<and> xr_success (fst (export_finding st resp e)) = is_accepted (resp (k - 1))
     \<and> snd (export_finding st resp e) = map backoff_ms [1..<k]"
proof -
  let ?L = "unat (xc_max_retries (xe_config e))"
  assume "0 < xc_max_retries (xe_config e)"
  then have L: "0 < ?L" by (simp add: unat_gt_0 word_gt_0)
  obtain k where k: "0 < k" "k \<le> ?L" "\<forall>j. 0 \<le> j \<and> j < k - 1 \<longrightarrow> \<not> is_final (resp j)"
    "is_final (resp (k - 1)) \<or> k = ?L"
    "xr_success (fst (export_loop st resp ?L 0 None)) = is_accepted (resp (k - 1))"
    "snd (export_loop st resp ?L 0 None) = map backoff_ms [0 + 1..<k]"
    using export_loop_spec[OF L, of resp st None] by (elim exE conjE) (rule that; assumption)
  have f: "list_all (\<lambda>j. \<not> is_final (resp j)) [0..<k - 1]" using k(3) unfolding list_all_iff by auto
  have "[0 + 1..<k] = [1..<k]" by simp
  then have p: "snd (export_loop st resp ?L 0 None) = map backoff_ms [1..<k]" using k(6) by argo
  show ?thesis unfolding export_finding_def
    by (intro exI[of _ k] conjI k(1,2,4,5) f p)
qed

theorem export_stops_at_final_answer_witness:
  "let (r, pauses) = export_finding (\<lambda>_. []) (\<lambda>i. if i = 1 then Answered 200 (Inr []) else Unsent [])
         \<lparr>xe_config = ExportConfig_default, xe_scanner_id = [], xe_node_name = []\<rparr>
   in xr_success r \<and> pauses = [100]"
proof -
  let ?e = "\<lparr>xe_config = ExportConfig_default, xe_scanner_id = [], xe_node_name = []\<rparr>"
  let ?resp = "\<lambda>i::nat. if i = 1 then Answered 200 (Inr []) else Unsent []"
  have L: "unat (xc_max_retries (xe_config ?e)) = 3" "0 < xc_max_retries (xe_config ?e)"
    by (simp_all add: ExportConfig_default_def)
  have f: "\<not> is_final (?resp 0)" "is_final (?resp 1)" "is_accepted (?resp 1)" "backoff_ms 1 = 100"
    by code_simp+
  obtain k where k: "0 < k" "k \<le> 3" "list_all (\<lambda>j. \<not> is_final (?resp j)) [0..<k - 1]"
    "is_final (?resp (k - 1)) \<or> k = 3"
    "xr_success (fst (export_finding (\<lambda>_. []) ?resp ?e)) = is_accepted (?resp (k - 1))"
    "snd (export_finding (\<lambda>_. []) ?resp ?e) = map backoff_ms [1..<k]"
    using export_stops_at_final_answer[OF L(2), of ?resp "\<lambda>_. []"] unfolding L(1) by blast
  have "k \<noteq> 1" using k(4) f(1) by auto
  moreover have "k \<noteq> 3" using k(3) f(2) by (auto simp: upt_rec simp del: is_final.simps)
  ultimately have "k = 2" using k(1,2) by linarith
  with k(5,6) f(3,4) show ?thesis by (simp add: split_beta numeral_2_eq_2)
qed

text \<open>The back-off doubles from 100 ms up to 30 s while the power fits in 64 bits, and is gone
  after the 62nd retry, where the product wraps to zero.\<close>

theorem backoff_wraps:
  "(n \<le> 57 \<longrightarrow> unat (backoff_ms (Suc n)) = min (100 * 2 ^ n) 30000) \<and> (62 \<le> n \<longrightarrow> backoff_ms (Suc n) = 0)"
  using backoff_ms_small backoff_ms_large by blast

theorem backoff_wraps_witness:
  "unat (backoff_ms (Suc 3)) = 800 \<and> backoff_ms (Suc 62) = 0"
  using backoff_wraps[of 3] backoff_wraps[of 62] by simp

text \<open>Batching loses and repeats nothing: what the flushes took, in order, followed by what is
  still in the batch are exactly the exportable findings in the order they were pushed. (A
  flush takes its findings whether or not the export succeeds.)\<close>

theorem batches_conserve_findings:
  "concat (fst (batch_run st es (BatchExporter_new now e))) @ bx_batch (snd (batch_run st es (BatchExporter_new now e)))
     = filter (should_export e) (pushed es)"
  using batch_run_conserves[of st es "BatchExporter_new now e"] by (simp add: BatchExporter_new_def)

end
