(* ===== verification/Correlation.thy ===== *)
theory Correlation
  imports State_Store Safe_Enforcement
begin

text \<open>
  From scan results to runtime evidence: the vulnerabilities of \<open>vuln_detector.rs\<close> (Trivy
  is a subprocess, its outcome and the JSON reader are arguments) and the correlation of
  \<open>runtime_correlation.rs\<close>, which decides by library and package names whether a workload
  reaches a vulnerable package.
\<close>

section \<open>Vulnerabilities\<close>

datatype VSeverity = VCritical | VHigh | VMedium | VLow | VUnknown

fun VSeverity_display :: "VSeverity \<Rightarrow> string" where
  "VSeverity_display VCritical = ''CRITICAL''"
| "VSeverity_display VHigh = ''HIGH''"
| "VSeverity_display VMedium = ''MEDIUM''"
| "VSeverity_display VLow = ''LOW''"
| "VSeverity_display VUnknown = ''UNKNOWN''"

fun VSeverity_debug :: "VSeverity \<Rightarrow> string" where
  "VSeverity_debug VCritical = ''Critical''"
| "VSeverity_debug VHigh = ''High''"
| "VSeverity_debug VMedium = ''Medium''"
| "VSeverity_debug VLow = ''Low''"
| "VSeverity_debug VUnknown = ''Unknown''"

record Vulnerability =
  vl_package :: string
  vl_version :: string
  vl_cve :: string
  vl_severity :: VSeverity
  vl_cvss_score :: f32
  vl_description :: string
  vl_fixed_version :: "string option"

fun CSeverity_of :: "VSeverity \<Rightarrow> CSeverity" where
  "CSeverity_of VCritical = CSevCritical"
| "CSeverity_of VHigh = CSevHigh"
| "CSeverity_of VMedium = CSevMedium"
| "CSeverity_of VLow = CSevLow"
| "CSeverity_of VUnknown = CSevLow"

definition CveRecord_from :: "Vulnerability \<Rightarrow> CveRecord" where
  "CveRecord_from v =
     \<lparr>cr_id = vl_cve v, cr_cvss = vl_cvss_score v, cr_severity = CSeverity_of (vl_severity v),
      cr_description = Some (vl_description v), cr_cwe = None\<rparr>"

record TrivyVulnerability =
  tv_vulnerability_id :: string
  tv_pkg_name :: string
  tv_installed_version :: string
  tv_fixed_version :: "string option"
  tv_severity :: string
  tv_title :: "string option"
  tv_description :: "string option"
  tv_cvss :: "f64 option option"

text \<open>A report: the vulnerabilities of each result. \<open>tv_cvss\<close> is the CVSS block with its NVD score.\<close>

type_synonym TrivyReport = "TrivyVulnerability list list"

definition trivy_severity :: "string \<Rightarrow> VSeverity" where
  "trivy_severity s =
     (if s = ''CRITICAL'' then VCritical else if s = ''HIGH'' then VHigh
      else if s = ''MEDIUM'' then VMedium else if s = ''LOW'' then VLow else VUnknown)"

definition vulnerability_of :: "TrivyVulnerability \<Rightarrow> Vulnerability" where
  "vulnerability_of v =
     \<lparr>vl_package = tv_pkg_name v, vl_version = tv_installed_version v, vl_cve = tv_vulnerability_id v,
      vl_severity = trivy_severity (tv_severity v),
      vl_cvss_score = fcast F32 (case tv_cvss v of Some (Some s) \<Rightarrow> s | _ \<Rightarrow> Fin 0),
      vl_description =
        (case tv_title v of Some t \<Rightarrow> t
         | None \<Rightarrow> (case tv_description v of Some d \<Rightarrow> d | None \<Rightarrow> [])),
      vl_fixed_version = tv_fixed_version v\<rparr>"

text \<open>\<open>s.chars().take(n)\<close> on UTF-8 bytes.\<close>

fun take_chars :: "nat \<Rightarrow> string \<Rightarrow> string" where
  "take_chars n [] = []"
| "take_chars n (c # cs) =
     (if 128 \<le> (of_char c :: nat) \<and> (of_char c :: nat) < 192 then c # take_chars n cs
      else (case n of 0 \<Rightarrow> [] | Suc m \<Rightarrow> c # take_chars m cs))"

definition parse_trivy_output ::
  "(string \<Rightarrow> string + TrivyReport) \<Rightarrow> string \<Rightarrow> ScannerError + Vulnerability list" where
  "parse_trivy_output from_str out =
     (case from_str out of
        Inl e \<Rightarrow> Inl (ErrBpf (''Failed to parse trivy output: '' @ e @ '' - raw: '' @ take_chars 200 out))
      | Inr results \<Rightarrow> Inr (map vulnerability_of (concat results)))"

record VulnDetector =
  vd_timeout_secs :: u64

definition VulnDetector_new :: VulnDetector where "VulnDetector_new = \<lparr>vd_timeout_secs = 300\<rparr>"

definition with_timeout :: "u64 \<Rightarrow> VulnDetector \<Rightarrow> VulnDetector" where
  "with_timeout secs d = d\<lparr>vd_timeout_secs := secs\<rparr>"

text \<open>How a run of the subprocess ends: not started, timed out, or with the bytes of its output.\<close>

datatype trivy_run = NotStarted string | TimedOut | WaitFailed string | Finished "u8 list"

definition invalid_image :: "string \<Rightarrow> bool" where
  "invalid_image img \<longleftrightarrow>
     starts_with img ''-'' \<or> CHR 0x00 \<in> set img \<or> CHR 0x0A \<in> set img"

definition image_args :: "VulnDetector \<Rightarrow> string \<Rightarrow> string list" where
  "image_args d img =
     [''image'', ''--format'', ''json'', ''--severity'', ''CRITICAL,HIGH,MEDIUM'', ''--timeout'',
      dec_w (vd_timeout_secs d) @ ''s'', img]"

definition scan_image ::
  "(string \<Rightarrow> string + TrivyReport) \<Rightarrow> (string list \<Rightarrow> trivy_run) \<Rightarrow> VulnDetector \<Rightarrow> string
   \<Rightarrow> ScannerError + Vulnerability list" where
  "scan_image from_str run d img =
     (if invalid_image img then Inl (ErrBpf (''Invalid image name: '' @ img))
      else (case run (image_args d img) of
              NotStarted e \<Rightarrow> Inl (ErrBpf (''Failed to run trivy: '' @ e))
            | TimedOut \<Rightarrow> Inl (ErrBpf (''Trivy scan timed out for '' @ img))
            | WaitFailed e \<Rightarrow> Inl (ErrBpf (''Failed to run trivy: '' @ e))
            | Finished out \<Rightarrow> parse_trivy_output from_str (utf8_lossy out)))"

definition sbom_args :: "VulnDetector \<Rightarrow> string \<Rightarrow> string list" where
  "sbom_args d path =
     [''sbom'', ''--format'', ''json'', ''--severity'', ''CRITICAL,HIGH,MEDIUM'', ''--timeout'',
      dec_w (vd_timeout_secs d) @ ''s'', path]"

text \<open>The path is None when it is not valid UTF-8.\<close>

definition scan_sbom ::
  "(string \<Rightarrow> string + TrivyReport) \<Rightarrow> (string list \<Rightarrow> trivy_run) \<Rightarrow> VulnDetector \<Rightarrow> string option
   \<Rightarrow> ScannerError + Vulnerability list" where
  "scan_sbom from_str run d path =
     (case path of
        None \<Rightarrow> Inl (ErrBpf ''SBOM path is not valid UTF-8'')
      | Some path_str \<Rightarrow>
          (case run (sbom_args d path_str) of
             NotStarted e \<Rightarrow> Inl (ErrBpf (''Failed to run trivy sbom: '' @ e))
           | TimedOut \<Rightarrow> Inl (ErrBpf (''Trivy SBOM scan timed out for '' @ path_str))
           | WaitFailed e \<Rightarrow> Inl (ErrBpf (''Failed to run trivy sbom: '' @ e))
           | Finished out \<Rightarrow> parse_trivy_output from_str (utf8_lossy out)))"

section \<open>Names of packages and libraries\<close>

definition normalize_package_name :: "string \<Rightarrow> string" where
  "normalize_package_name p =
     trim_end_matches ''-libs'' (trim_end_matches ''-dev''
       (trim_start_matches ''lib'' (to_ascii_lowercase p)))"

definition package_aliases :: "string \<Rightarrow> string list" where
  "package_aliases p =
     (if p \<in> {''openssl'', ''ssl'', ''ssl1.1'', ''ssl3''} then [''ssl'', ''crypto'', ''openssl'']
      else if p \<in> {''glibc'', ''c6''} then [''c'', ''pthread'', ''dl'', ''m'']
      else if p \<in> {''zlib'', ''z1g''} then [''z'']
      else if p = ''curl'' then [''curl'']
      else if p = ''nginx'' then [''nginx'']
      else if p \<in> {''php'', ''php-fpm''} then [''php'', ''php-fpm'']
      else if p \<in> {''mysql'', ''mariadb''} then [''mysql'', ''mariadb'']
      else [])"

definition file_name_of :: "string \<Rightarrow> string" where
  "file_name_of path = last (split_on (CHR ''/'') path)"

definition lib_stem_of :: "string \<Rightarrow> string" where
  "lib_stem_of file_name = until ''.so'' (trim_start_matches ''lib'' file_name)"

definition library_matches_package :: "string \<Rightarrow> string \<Rightarrow> bool" where
  "library_matches_package path package =
     (let path_lc = to_ascii_lowercase path; package_lc = normalize_package_name package;
          file_name = file_name_of path_lc; lib_stem = lib_stem_of file_name
      in 3 \<le> length package_lc \<and> contains path_lc package_lc
         \<or> 3 \<le> length file_name \<and> contains package_lc file_name
         \<or> 3 \<le> length lib_stem \<and> contains package_lc lib_stem
         \<or> list_ex (\<lambda>alias. 3 \<le> length alias
              \<and> (contains path_lc alias \<or> contains file_name alias \<or> lib_stem = alias))
             (package_aliases package_lc))"

section \<open>Correlation\<close>

record RuntimeEvidence =
  rv_signal_type :: string
  rv_timestamp_ns :: u64
  rv_details :: string
  rv_confidence :: f32

record RuntimeMatch =
  rm_disposition :: RuntimeDisposition
  rm_observed_paths :: "string list"
  rm_signal_weight :: f32
  rm_evidence :: "RuntimeEvidence list"

fun SignalType_debug :: "SignalType \<Rightarrow> string" where
  "SignalType_debug LibraryLoaded = ''LibraryLoaded''"
| "SignalType_debug LargeDataTransfer = ''LargeDataTransfer''"
| "SignalType_debug MaliciousIP = ''MaliciousIP''"
| "SignalType_debug SensitiveFileAccess = ''SensitiveFileAccess''"
| "SignalType_debug MprotectExec = ''MprotectExec''"
| "SignalType_debug SuspiciousExec = ''SuspiciousExec''"

definition matching_paths :: "WorkloadState \<Rightarrow> string \<Rightarrow> string list" where
  "matching_paths w package =
     bset_extend [] (filter (\<lambda>p. library_matches_package p package)
       (ws_loaded_libraries w @ ws_observed_paths w))"

definition directly_related :: "WorkloadState \<Rightarrow> string list \<Rightarrow> RuntimeSignal \<Rightarrow> bool" where
  "directly_related w paths s =
     (case sg_signal_type s of
        LibraryLoaded \<Rightarrow> list_ex (\<lambda>p. contains (sg_details s) p) paths
      | LargeDataTransfer \<Rightarrow> ws_network_flows w \<noteq> []
      | _ \<Rightarrow> True)"

definition evidence_of :: "RuntimeSignal \<Rightarrow> RuntimeEvidence" where
  "evidence_of s =
     \<lparr>rv_signal_type = SignalType_debug (sg_signal_type s), rv_timestamp_ns = sg_timestamp_ns s,
      rv_details = sg_details s, rv_confidence = fmin (sg_weight s) (lit32 1)\<rparr>"

definition correlate_vulnerability :: "WorkloadState \<Rightarrow> Vulnerability \<Rightarrow> RuntimeMatch" where
  "correlate_vulnerability w v =
     (let paths = matching_paths w (vl_package v);
          related = (if paths = [] then [] else filter (directly_related w paths) (ws_signals w))
      in \<lparr>rm_disposition = (if paths = [] then Dormant else Reachable),
          rm_observed_paths = paths,
          rm_signal_weight = foldl (\<lambda>a s. fadd F32 a (sg_weight s)) (Fin 0) related,
          rm_evidence = map evidence_of related\<rparr>)"

section \<open>What the correlation says\<close>

lemma set_matching_paths:
  "set (matching_paths w p) =
     {x \<in> set (ws_loaded_libraries w) \<union> set (ws_observed_paths w). library_matches_package x p}"
  by (auto simp: matching_paths_def)

lemma matching_paths_ok: "bset_ok (matching_paths w p)"
  by (simp add: matching_paths_def)

lemma correlate_fields:
  "rm_disposition (correlate_vulnerability w v) = (if matching_paths w (vl_package v) = [] then Dormant else Reachable)"
  "rm_observed_paths (correlate_vulnerability w v) = matching_paths w (vl_package v)"
  "matching_paths w (vl_package v) = [] \<Longrightarrow> rm_evidence (correlate_vulnerability w v) = []
     \<and> rm_signal_weight (correlate_vulnerability w v) = Fin 0"
  by (simp_all add: correlate_vulnerability_def Let_def)

lemma reachable_iff:
  "rm_disposition (correlate_vulnerability w v) = Reachable \<longleftrightarrow>
     list_ex (\<lambda>x. library_matches_package x (vl_package v)) (ws_loaded_libraries w @ ws_observed_paths w)"
proof -
  have "matching_paths w (vl_package v) \<noteq> [] \<longleftrightarrow> set (matching_paths w (vl_package v)) \<noteq> {}" by simp
  also have "\<dots> \<longleftrightarrow> list_ex (\<lambda>x. library_matches_package x (vl_package v)) (ws_loaded_libraries w @ ws_observed_paths w)"
    unfolding set_matching_paths by (auto simp: list_ex_iff)
  finally show ?thesis by (auto simp: correlate_fields)
qed

lemma reachable_grows:
  "sets_grow w w' \<Longrightarrow> rm_disposition (correlate_vulnerability w v) = Reachable \<Longrightarrow>
   rm_disposition (correlate_vulnerability w' v) = Reachable"
  unfolding reachable_iff by (auto simp: sets_grow_def ws_sets_def list_ex_iff)

text \<open>A fully specified evaluation of the matcher needs no path in lower case.\<close>

lemma lower_idem [simp]: "lower_c (lower_c c) = lower_c c"
proof (cases "is_upper_c c")
  case True
  then have "(of_char c :: nat) + 32 < 256" by (simp add: is_upper_c_def)
  then have "(of_char (lower_c c) :: nat) = of_char c + 32" using True by (simp add: lower_c_def)
  then have "\<not> is_upper_c (lower_c c)" using True by (simp add: is_upper_c_def)
  then show ?thesis by (simp add: lower_c_def)
qed (simp add: lower_c_def)

lemma matches_ignore_case:
  "library_matches_package (to_ascii_lowercase x) (to_ascii_lowercase p) = library_matches_package x p"
proof -
  have "to_ascii_lowercase (to_ascii_lowercase y) = to_ascii_lowercase y" for y
    by (simp add: to_ascii_lowercase_def)
  then show ?thesis by (simp add: library_matches_package_def normalize_package_name_def)
qed

section \<open>Histories of the store\<close>

text \<open>The agent clears the store at the end of every cycle.\<close>

datatype store_op = Happened store_event | Cleared

fun store_op_step :: "StateStore \<Rightarrow> store_op \<Rightarrow> StateStore" where
  "store_op_step st (Happened e) = store_step st e"
| "store_op_step st Cleared = st_clear st"

fun push_op :: "store_event list \<Rightarrow> store_op \<Rightarrow> store_event list" where
  "push_op es (Happened e) = es @ [e]"
| "push_op es Cleared = []"

definition since_cleared :: "store_op list \<Rightarrow> store_event list" where
  "since_cleared ops = foldl push_op [] ops"

lemma run_since_cleared:
  "foldl store_op_step StateStore_default ops = foldl store_step StateStore_default (since_cleared ops)"
proof -
  have "foldl store_op_step (foldl store_step StateStore_default es) ops
      = foldl store_step StateStore_default (foldl push_op es ops)" for es
  proof (induction ops arbitrary: es)
    case (Cons op ops)
    show ?case
    proof (cases op)
      case (Happened e)
      then show ?thesis using Cons.IH[of "es @ [e]"] by simp
    next
      case Cleared
      have "st_clear x = StateStore_default" for x by (simp add: st_clear_def StateStore_default_def)
      then show ?thesis using Cleared Cons.IH[of "[]"] by simp
    qed
  qed simp
  from this[of "[]"] show ?thesis by (simp add: since_cleared_def)
qed

lemma reachable_prefix:
  "list_ex (\<lambda>fs. rm_disposition (correlate_vulnerability
       (entry_or_default (foldl store_step StateStore_default fs) c) v) = Reachable) (prefixes es)
   \<longleftrightarrow> rm_disposition (correlate_vulnerability
       (entry_or_default (foldl store_step StateStore_default es) c) v) = Reachable"
  using reachable_grows[OF sets_grow_run] by (auto simp: list_ex_iff in_set_prefixes prefix_def)

section \<open>Properties\<close>

text \<open>C33. A vulnerability is reachable for a workload exactly when a loaded library or an observed
  path matches its package; the reported paths are exactly those, and a dormant one has no
  evidence and no weight.\<close>

theorem correlation_decides_reachability:
  "(rm_disposition (correlate_vulnerability w v) = Reachable \<longleftrightarrow>
      list_ex (\<lambda>x. library_matches_package x (vl_package v)) (ws_loaded_libraries w @ ws_observed_paths w))
   \<and> set (rm_observed_paths (correlate_vulnerability w v)) =
      {x \<in> set (ws_loaded_libraries w @ ws_observed_paths w). library_matches_package x (vl_package v)}
   \<and> bset_ok (rm_observed_paths (correlate_vulnerability w v))
   \<and> (rm_observed_paths (correlate_vulnerability w v) = [] \<longleftrightarrow> rm_disposition (correlate_vulnerability w v) = Dormant)
   \<and> (rm_disposition (correlate_vulnerability w v) = Dormant \<longrightarrow>
        rm_evidence (correlate_vulnerability w v) = [] \<and> rm_signal_weight (correlate_vulnerability w v) = Fin 0)"
  using reachable_iff[of w v] correlate_fields(3)[of w v]
  by (simp add: correlate_fields(1,2) set_matching_paths matching_paths_ok)

theorem correlation_decides_reachability_witness:
  "let m = correlate_vulnerability (push_signal \<lparr>sg_signal_type = SuspiciousExec, sg_weight = Fin 1,
             sg_timestamp_ns = 1, sg_details = ''nc''\<rparr> WorkloadState_default)
           \<lparr>vl_package = ''openssl'', vl_version = [], vl_cve = [], vl_severity = VHigh, vl_cvss_score = Fin 8,
            vl_description = [], vl_fixed_version = None\<rparr>
   in rm_disposition m = Dormant \<and> rm_evidence m = [] \<and> rm_signal_weight m = Fin 0"
proof -
  let ?w = "push_signal \<lparr>sg_signal_type = SuspiciousExec, sg_weight = Fin 1,
      sg_timestamp_ns = 1, sg_details = ''nc''\<rparr> WorkloadState_default"
  let ?v = "\<lparr>vl_package = ''openssl'', vl_version = [], vl_cve = [], vl_severity = VHigh, vl_cvss_score = Fin 8,
      vl_description = [], vl_fixed_version = None\<rparr>"
  have "ws_loaded_libraries ?w @ ws_observed_paths ?w = []"
    by (simp add: push_signal_def WorkloadState_default_def)
  then have "set (rm_observed_paths (correlate_vulnerability ?w ?v)) = {}"
    using correlation_decides_reachability[of ?w ?v] by simp
  then have "rm_observed_paths (correlate_vulnerability ?w ?v) = []" by (rule set_empty[THEN iffD1])
  then have "rm_disposition (correlate_vulnerability ?w ?v) = Dormant"
    using correlation_decides_reachability[of ?w ?v] by blast
  then show ?thesis using correlation_decides_reachability[of ?w ?v] unfolding Let_def by blast
qed

text \<open>C9. A vulnerability is reachable for a cgroup exactly when it was so at some moment since the
  store was last cleared: neither later events nor the bounds of the evidence sets ever take
  reachability back, and a clear takes everything back.\<close>

theorem reachability_lasts_until_cleared:
  "rm_disposition (correlate_vulnerability (entry_or_default (foldl store_op_step StateStore_default ops) c) v) = Reachable
   \<longleftrightarrow> list_ex (\<lambda>es. rm_disposition (correlate_vulnerability
          (entry_or_default (foldl store_step StateStore_default es) c) v) = Reachable)
        (prefixes (since_cleared ops))"
  using run_since_cleared[of ops] reachable_prefix[of c v "since_cleared ops"] by simp

text \<open>The C library and zlib are never found: the aliases meant for them are shorter than the
  three characters a match needs, so their own files match none of their package names.\<close>

theorem standard_libraries_never_match:
  "list_all (\<lambda>p. \<not> library_matches_package ''/lib/x86_64-linux-gnu/libc.so.6'' p)
     [''glibc'', ''libc6'', ''libc6-dev'']
   \<and> list_all (\<lambda>p. \<not> library_matches_package ''/lib/x86_64-linux-gnu/libz.so.1'' p)
     [''zlib'', ''zlib1g'', ''libz'']"
  by code_simp

end
