(* ===== verification/Os_Path.thy ===== *)
theory Os_Path
  imports Prelude
begin

text \<open>
  \<open>std::path::Path\<close> on Unix, as far as the agent takes paths apart. Empty and \<open>.\<close>
  components do not count, except that a path of nothing else has no file name.
\<close>

definition path_parts :: "string \<Rightarrow> string list" where
  "path_parts p = filter (\<lambda>c. c \<noteq> [] \<and> c \<noteq> ''.'') (split_on (CHR ''/'') p)"

definition path_file_name :: "string \<Rightarrow> string option" where
  "path_file_name p =
     (case path_parts p of
        [] \<Rightarrow> None
      | cs \<Rightarrow> if last cs = ''..'' then None else Some (last cs))"

text \<open>The name without its extension: up to the last dot, unless that is the first character.\<close>

definition before_last_dot :: "string \<Rightarrow> string" where
  "before_last_dot n = rev (drop 1 (dropWhile (\<lambda>c. c \<noteq> CHR ''.'') (rev n)))"

definition name_stem :: "string \<Rightarrow> string" where
  "name_stem n = (if CHR ''.'' \<notin> set n \<or> before_last_dot n = [] then n else before_last_dot n)"

definition file_stem :: "string \<Rightarrow> string option" where
  "file_stem p = map_option name_stem (path_file_name p)"

definition path_extension :: "string \<Rightarrow> string option" where
  "path_extension p =
     (case path_file_name p of
        None \<Rightarrow> None
      | Some n \<Rightarrow>
          if CHR ''.'' \<notin> set n \<or> before_last_dot n = [] then None
          else Some (rev (takeWhile (\<lambda>c. c \<noteq> CHR ''.'') (rev n))))"

text \<open>\<open>s.split('.').next()\<close>\<close>

definition until_dot :: "string \<Rightarrow> string" where
  "until_dot s = takeWhile (\<lambda>c. c \<noteq> CHR ''.'') s"

text \<open>\<open>file_stem\<close>, then the text before its first dot; both have the default \<open>unknown\<close>.\<close>

definition library_name :: "string \<Rightarrow> string" where
  "library_name p = until_dot (case file_stem p of None \<Rightarrow> ''unknown'' | Some s \<Rightarrow> s)"

lemma library_name_examples:
  "library_name ''/usr/lib/libssl.so.1.1'' = ''libssl''" "library_name ''/usr/lib/libssl/'' = ''libssl''"
  "library_name ''/'' = ''unknown''" "library_name ''/root/.bashrc'' = []" "library_name ''a/..'' = ''unknown''"
  by code_simp+

end
