(* ===== verification/Runtime_Mapper.thy ===== *)
theory Runtime_Mapper
  imports Correlation Ordered_Map Os_Path Net_Addr
begin

text \<open>
  The mapper of \<open>runtime_mapper.rs\<close>: a table of processes with the libraries they loaded, their
  connections and the vulnerabilities found for the libraries, and the risks reported from it.
  The Trivy scanner it owns is never called by it.
\<close>

record NetworkConn =
  nc_dest_ip :: string
  nc_dest_port :: u16
  nc_protocol :: string

record ProcessState =
  ps_pid :: u32
  ps_command :: string
  ps_binary_path :: "string option"
  ps_loaded_libs :: "string list"
  ps_network_connections :: "NetworkConn list"
  ps_vulnerabilities :: "Vulnerability list"

record RuntimeMapper =
  mp_processes :: "(u32 \<times> ProcessState) list"
  mp_lib_vulns :: "string \<rightharpoonup> Vulnerability list"
  mp_package_vulns :: "(string \<times> Vulnerability list) list"

definition RuntimeMapper_new :: RuntimeMapper where
  "RuntimeMapper_new = \<lparr>mp_processes = [], mp_lib_vulns = Map.empty, mp_package_vulns = []\<rparr>"

definition add_package_vuln :: "Vulnerability \<Rightarrow> (string \<times> Vulnerability list) list \<Rightarrow> (string \<times> Vulnerability list) list" where
  "add_package_vuln v m = bmap_modify (to_ascii_lowercase (vl_package v)) [] (\<lambda>vs. vs @ [v]) m"

definition set_vulnerabilities :: "Vulnerability list \<Rightarrow> RuntimeMapper \<Rightarrow> RuntimeMapper" where
  "set_vulnerabilities vs m =
     m\<lparr>mp_package_vulns := fold add_package_vuln vs [], mp_lib_vulns := Map.empty\<rparr>"

text \<open>\<open>String::from_utf8_lossy(..).trim_end_matches('\\0')\<close>\<close>

definition lossy_trim_nul :: "u8 list \<Rightarrow> string" where
  "lossy_trim_nul bs = trim_end_matches [CHR 0x00] (utf8_lossy bs)"

definition handle_exec :: "ExecEvent \<Rightarrow> RuntimeMapper \<Rightarrow> RuntimeMapper" where
  "handle_exec ev m =
     m\<lparr>mp_processes := bmap_insert (ex_pid ev)
         \<lparr>ps_pid = ex_pid ev, ps_command = lossy_trim_nul (ex_command ev), ps_binary_path = None,
          ps_loaded_libs = [], ps_network_connections = [], ps_vulnerabilities = []\<rparr> (mp_processes m)\<rparr>"

definition mp_is_shared_library :: "string \<Rightarrow> bool" where
  "mp_is_shared_library path \<longleftrightarrow>
     ends_with path ''.so'' \<or> contains path ''.so.'' \<or> starts_with path ''/usr/lib''
     \<or> starts_with path ''/lib''"

definition scan_library :: "string \<Rightarrow> RuntimeMapper \<Rightarrow> Vulnerability list" where
  "scan_library path m =
     filter (\<lambda>v. library_matches_package path (vl_package v)) (concat (map snd (mp_package_vulns m)))"

definition library_vulns :: "string \<Rightarrow> RuntimeMapper \<Rightarrow> Vulnerability list \<times> RuntimeMapper" where
  "library_vulns path m =
     (case mp_lib_vulns m path of
        Some vs \<Rightarrow> (vs, m)
      | None \<Rightarrow>
          (let vs = scan_library path m in (vs, m\<lparr>mp_lib_vulns := (mp_lib_vulns m)(path \<mapsto> vs)\<rparr>)))"

definition handle_file :: "FileEvent \<Rightarrow> RuntimeMapper \<Rightarrow> RuntimeMapper" where
  "handle_file ev m =
     (let path = lossy_trim_nul (fe_path ev)
      in if fe_kind ev \<noteq> KMmap \<or> \<not> mp_is_shared_library path then m
         else (case map_of (mp_processes m) (fe_pid ev) of
                 None \<Rightarrow> m
               | Some p \<Rightarrow>
                   (let p = p\<lparr>ps_loaded_libs := bset_insert path (ps_loaded_libs p)\<rparr>;
                        (vs, m) = library_vulns path m;
                        p = p\<lparr>ps_vulnerabilities := ps_vulnerabilities p @ vs\<rparr>
                    in m\<lparr>mp_processes := bmap_insert (fe_pid ev) p (mp_processes m)\<rparr>)))"

definition handle_network :: "NetEvent \<Rightarrow> RuntimeMapper \<Rightarrow> RuntimeMapper" where
  "handle_network ev m =
     (if ne_dport ev = 443 \<or> ne_dport ev = 80
      then (case map_of (mp_processes m) (ne_pid ev) of
              None \<Rightarrow> m
            | Some p \<Rightarrow>
                (let conn = \<lparr>nc_dest_ip = ipv4_be (ne_daddr ev), nc_dest_port = ne_dport ev,
                             nc_protocol = (if ne_protocol ev = 6 then ''TCP'' else ''UDP'')\<rparr>
                 in m\<lparr>mp_processes := bmap_insert (ne_pid ev)
                        (p\<lparr>ps_network_connections := ps_network_connections p @ [conn]\<rparr>) (mp_processes m)\<rparr>))
      else m)"

definition get_vulnerable_processes :: "RuntimeMapper \<Rightarrow> ProcessState list" where
  "get_vulnerable_processes m =
     filter (\<lambda>p. ps_vulnerabilities p \<noteq> []) (map snd (mp_processes m))"

definition get_process :: "u32 \<Rightarrow> RuntimeMapper \<Rightarrow> ProcessState option" where
  "get_process pid m = map_of (mp_processes m) pid"

definition get_all_processes :: "RuntimeMapper \<Rightarrow> (u32 \<times> ProcessState) list" where
  "get_all_processes m = mp_processes m"

definition remove_process :: "u32 \<Rightarrow> RuntimeMapper \<Rightarrow> RuntimeMapper" where
  "remove_process pid m = m\<lparr>mp_processes := filter (\<lambda>(k, p). k \<noteq> pid) (mp_processes m)\<rparr>"

record ProcessRisk =
  pr_pid :: u32
  pr_command :: string
  pr_cve :: string
  pr_severity :: string
  pr_loaded_libs :: "string list"
  pr_network_exposed :: bool

definition risk_of :: "ProcessState \<Rightarrow> Vulnerability \<Rightarrow> ProcessRisk" where
  "risk_of p v =
     \<lparr>pr_pid = ps_pid p, pr_command = ps_command p, pr_cve = vl_cve v,
      pr_severity = VSeverity_debug (vl_severity v), pr_loaded_libs = ps_loaded_libs p,
      pr_network_exposed = (ps_network_connections p \<noteq> [])\<rparr>"

definition process_events ::
  "ExecEvent list \<Rightarrow> FileEvent list \<Rightarrow> NetEvent list \<Rightarrow> RuntimeMapper \<Rightarrow> ProcessRisk list \<times> RuntimeMapper" where
  "process_events es fs ns m =
     (let m = fold handle_network ns (fold handle_file fs (fold handle_exec es m))
      in (concat (map (\<lambda>p. map (risk_of p) (ps_vulnerabilities p)) (get_vulnerable_processes m)), m))"

section \<open>Invariant\<close>

text \<open>
  The table is ordered by pid, each entry is the process of its key, and its vulnerabilities
  belong to libraries it loaded; a cached answer is what a scan would find.
\<close>

definition process_ok :: "u32 \<Rightarrow> ProcessState \<Rightarrow> bool" where
  "process_ok pid p \<longleftrightarrow> ps_pid p = pid \<and> bset_ok (ps_loaded_libs p)
     \<and> list_all (\<lambda>v. list_ex (\<lambda>l. library_matches_package l (vl_package v)) (ps_loaded_libs p))
         (ps_vulnerabilities p)"

definition cache_scanned :: "RuntimeMapper \<Rightarrow> bool" where
  "cache_scanned m \<longleftrightarrow> (\<forall>path vs. mp_lib_vulns m path = Some vs \<longrightarrow> vs = scan_library path m)"

definition mapper_ok :: "RuntimeMapper \<Rightarrow> bool" where
  "mapper_ok m \<longleftrightarrow> bmap_ok (mp_processes m) \<and> cache_scanned m
     \<and> (\<forall>pid p. map_of (mp_processes m) pid = Some p \<longrightarrow> process_ok pid p)"

datatype mapper_event =
  MSetVulns "Vulnerability list"
| MExec ExecEvent
| MFile FileEvent
| MNet NetEvent
| MRemove u32

fun mapper_step :: "RuntimeMapper \<Rightarrow> mapper_event \<Rightarrow> RuntimeMapper" where
  "mapper_step m (MSetVulns vs) = set_vulnerabilities vs m"
| "mapper_step m (MExec e) = handle_exec e m"
| "mapper_step m (MFile e) = handle_file e m"
| "mapper_step m (MNet e) = handle_network e m"
| "mapper_step m (MRemove pid) = remove_process pid m"

lemma scan_library_cong:
  "mp_package_vulns m' = mp_package_vulns m \<Longrightarrow> scan_library path m' = scan_library path m"
  by (simp add: scan_library_def)

lemma cache_scanned_processes [simp]: "cache_scanned (m\<lparr>mp_processes := ps\<rparr>) = cache_scanned m"
  by (simp add: cache_scanned_def scan_library_def)

lemma library_vulns_spec:
  assumes "mapper_ok m"
  shows "fst (library_vulns path m) = scan_library path m"
    "mapper_ok (snd (library_vulns path m))"
    "mp_processes (snd (library_vulns path m)) = mp_processes m"
    "mp_package_vulns (snd (library_vulns path m)) = mp_package_vulns m"
proof -
  have c: "cache_scanned m" using assms by (simp add: mapper_ok_def)
  then have "cache_scanned (snd (library_vulns path m))"
    by (auto simp: library_vulns_def cache_scanned_def Let_def scan_library_def split: option.splits)
  moreover show p: "mp_processes (snd (library_vulns path m)) = mp_processes m"
    "mp_package_vulns (snd (library_vulns path m)) = mp_package_vulns m"
    by (simp_all add: library_vulns_def Let_def split: option.splits)
  ultimately show "mapper_ok (snd (library_vulns path m))"
    using assms by (simp add: mapper_ok_def)
  show "fst (library_vulns path m) = scan_library path m"
    using c by (auto simp: library_vulns_def cache_scanned_def Let_def split: option.splits)
qed

lemma mapper_ok_insert:
  assumes "mapper_ok m" "process_ok pid p"
  shows "mapper_ok (m\<lparr>mp_processes := bmap_insert pid p (mp_processes m)\<rparr>)"
  using assms by (simp add: mapper_ok_def)

lemma process_ok_load:
  assumes "process_ok pid p"
  shows "process_ok pid (p\<lparr>ps_loaded_libs := bset_insert path (ps_loaded_libs p),
    ps_vulnerabilities := ps_vulnerabilities p @ scan_library path m\<rparr>)"
  using assms by (auto simp: process_ok_def list_all_iff list_ex_iff set_insort_insert scan_library_def)

lemma handle_file_ok: "mapper_ok m \<Longrightarrow> mapper_ok (handle_file ev m)"
proof -
  assume ok: "mapper_ok m"
  let ?path = "lossy_trim_nul (fe_path ev)"
  have "mapper_ok (snd (library_vulns ?path m)\<lparr>mp_processes := bmap_insert (fe_pid ev)
      (p\<lparr>ps_loaded_libs := bset_insert ?path (ps_loaded_libs p),
         ps_vulnerabilities := ps_vulnerabilities p @ scan_library ?path m\<rparr>)
      (mp_processes (snd (library_vulns ?path m)))\<rparr>)"
    if "map_of (mp_processes m) (fe_pid ev) = Some p" for p
  proof (rule mapper_ok_insert[OF library_vulns_spec(2)[OF ok]])
    have "process_ok (fe_pid ev) p" using ok that by (simp add: mapper_ok_def)
    then show "process_ok (fe_pid ev) (p\<lparr>ps_loaded_libs := bset_insert ?path (ps_loaded_libs p),
         ps_vulnerabilities := ps_vulnerabilities p @ scan_library ?path m\<rparr>)"
      by (rule process_ok_load)
  qed
  then show ?thesis using ok
    by (auto simp: handle_file_def Let_def split_beta library_vulns_spec(1) split: option.splits)
qed

lemma mapper_step_ok: "mapper_ok m \<Longrightarrow> mapper_ok (mapper_step m e)"
proof (cases e)
  case (MSetVulns vs)
  assume "mapper_ok m"
  then show ?thesis by (simp add: MSetVulns set_vulnerabilities_def mapper_ok_def cache_scanned_def)
next
  case (MExec ev)
  assume "mapper_ok m"
  then show ?thesis by (simp add: MExec handle_exec_def mapper_ok_insert process_ok_def)
next
  case (MFile ev)
  assume "mapper_ok m"
  then show ?thesis by (simp add: MFile handle_file_ok)
next
  case (MNet ev)
  assume ok: "mapper_ok m"
  have "process_ok pid (p\<lparr>ps_network_connections := cs\<rparr>) = process_ok pid p" for pid p cs
    by (simp add: process_ok_def)
  moreover have "map_of (mp_processes m) pid = Some p \<Longrightarrow> process_ok pid p" for pid p
    using ok by (simp add: mapper_ok_def)
  ultimately show ?thesis using ok
    by (simp add: MNet handle_network_def Let_def mapper_ok_insert split: option.splits)
next
  case (MRemove pid)
  assume ok: "mapper_ok m"
  then show ?thesis
    by (auto simp: MRemove remove_process_def mapper_ok_def map_of_bmap_delete split: if_splits)
qed

interpretation mapper: event_machine mapper_step mapper_ok
  by unfold_locales (rule mapper_step_ok)

lemma mapper_ok_new [simp]: "mapper_ok RuntimeMapper_new"
  by (simp add: mapper_ok_def RuntimeMapper_new_def cache_scanned_def)

section \<open>Repeated loads\<close>

lemma lookup_after_load:
  assumes "mapper_ok m" "fe_kind ev = KMmap" "mp_is_shared_library (lossy_trim_nul (fe_path ev))"
    "get_process (fe_pid ev) m = Some p"
  shows "map_option ps_vulnerabilities (get_process (fe_pid ev) (handle_file ev m))
    = Some (ps_vulnerabilities p @ scan_library (lossy_trim_nul (fe_path ev)) m)"
    "scan_library path (handle_file ev m) = scan_library path m"
  using assms library_vulns_spec[OF assms(1), of "lossy_trim_nul (fe_path ev)"]
  by (auto simp: handle_file_def get_process_def Let_def split_beta scan_library_def)

section \<open>Properties\<close>

text \<open>After any sequence of scans, events and exits: the process table is ordered and filed by
  pid, each vulnerability of a process matches a library it loaded, and every cached answer is
  what scanning the library again would find.\<close>

theorem mapper_run_wellformed: "mapper_ok (foldl mapper_step RuntimeMapper_new es)"
  by (rule mapper.run_inv) simp

text \<open>Loading a library twice reports its vulnerabilities twice: every mapping of it appends the
  same list to the process again.\<close>

theorem loads_are_repeated:
  assumes "fe_kind ev = KMmap" "mp_is_shared_library (lossy_trim_nul (fe_path ev))"
    "get_process (fe_pid ev) (foldl mapper_step RuntimeMapper_new es) = Some p"
  shows "map_option ps_vulnerabilities
      (get_process (fe_pid ev) (handle_file ev (handle_file ev (foldl mapper_step RuntimeMapper_new es))))
    = (let vs = scan_library (lossy_trim_nul (fe_path ev)) (foldl mapper_step RuntimeMapper_new es)
       in Some (ps_vulnerabilities p @ vs @ vs))"
proof -
  let ?m = "foldl mapper_step RuntimeMapper_new es"
  have ok: "mapper_ok ?m" by (rule mapper.run_inv) simp
  note first = lookup_after_load[OF ok assms]
  obtain q where q: "get_process (fe_pid ev) (handle_file ev ?m) = Some q"
    "ps_vulnerabilities q = ps_vulnerabilities p @ scan_library (lossy_trim_nul (fe_path ev)) ?m"
    using first(1) by auto
  from lookup_after_load[OF handle_file_ok[OF ok] assms(1,2) q(1)] q(2) first(2)
  show ?thesis by (simp add: Let_def)
qed

theorem loads_are_repeated_witness:
  "map_option (\<lambda>p. length (ps_vulnerabilities p)) (get_process 7
     (let ev = \<lparr>fe_timestamp_ns = 1, fe_pid = 7, fe_tgid = 7, fe_cgroup_id = 1, fe_command = [],
         fe_path = [47, 108, 105, 98, 47, 97, 46, 115, 111], fe_kind = KMmap\<rparr>
      in handle_file ev (handle_file ev (foldl mapper_step RuntimeMapper_new
           [MExec \<lparr>ex_timestamp_ns = 1, ex_pid = 7, ex_tgid = 7, ex_uid = 0, ex_gid = 0, ex_cgroup_id = 1,
              ex_ppid = 1, ex_command = [115, 104], ex_argv = []\<rparr>])))) = Some 0"
proof -
  let ?ev = "\<lparr>fe_timestamp_ns = 1, fe_pid = 7, fe_tgid = 7, fe_cgroup_id = 1, fe_command = [],
         fe_path = [47, 108, 105, 98, 47, 97, 46, 115, 111], fe_kind = KMmap\<rparr> :: FileEvent"
  let ?es = "[MExec \<lparr>ex_timestamp_ns = 1, ex_pid = 7, ex_tgid = 7, ex_uid = 0, ex_gid = 0, ex_cgroup_id = 1,
              ex_ppid = 1, ex_command = [115, 104], ex_argv = []\<rparr>]"
  obtain p where p: "get_process (fe_pid ?ev) (foldl mapper_step RuntimeMapper_new ?es) = Some p"
    "ps_vulnerabilities p = []"
    by (simp add: handle_exec_def RuntimeMapper_new_def get_process_def)
  have "mp_is_shared_library (lossy_trim_nul (fe_path ?ev))" by code_simp
  from loads_are_repeated[OF _ this p(1)] p(2)
  show ?thesis
    by (auto simp: Let_def scan_library_def handle_exec_def RuntimeMapper_new_def)
qed

end
