(* ===== verification/Execution_Proof.thy ===== *)
theory Execution_Proof
  imports Runtime_Mapper
begin

text \<open>
  The evidence collector of \<open>execution_proof.rs\<close>: events that point to the exploitation of a
  CVE, kept per CVE with a confidence, and their summary. The readings of
  \<open>SystemTime::now\<close> are arguments.
\<close>

section \<open>Evidence\<close>

datatype EvidenceType =
  EtNetworkConnection string u16
| EtFileAccess string string
| EtSyscallPattern string
| EtFunctionCall string

text \<open>The derived order is the order of the declaration.\<close>

datatype ConfidenceLevel = CfHigh | CfMedium | CfLow

fun confidence_index :: "ConfidenceLevel \<Rightarrow> nat" where
  "confidence_index CfHigh = 0"
| "confidence_index CfMedium = 1"
| "confidence_index CfLow = 2"

instantiation ConfidenceLevel :: linorder
begin

definition less_eq_ConfidenceLevel :: "ConfidenceLevel \<Rightarrow> ConfidenceLevel \<Rightarrow> bool" where
  "less_eq_ConfidenceLevel a b \<longleftrightarrow> confidence_index a \<le> confidence_index b"

definition less_ConfidenceLevel :: "ConfidenceLevel \<Rightarrow> ConfidenceLevel \<Rightarrow> bool" where
  "less_ConfidenceLevel a b \<longleftrightarrow> confidence_index a < confidence_index b"

instance
proof
  fix a b :: ConfidenceLevel
  show "a \<le> b \<Longrightarrow> b \<le> a \<Longrightarrow> a = b"
    by (cases a; cases b) (simp_all add: less_eq_ConfidenceLevel_def)
qed (auto simp: less_eq_ConfidenceLevel_def less_ConfidenceLevel_def)

end

record ExecutionEvidence =
  xv_cve_id :: string
  xv_package :: string
  xv_evidence_type :: EvidenceType
  xv_timestamp :: int
  xv_process_id :: u32
  xv_process_name :: string
  xv_details :: string
  xv_confidence :: ConfidenceLevel

record SyscallSignature =
  sy_cve_id :: string
  sy_pattern :: "string list"
  sy_description :: string

definition known_signatures :: "SyscallSignature list" where
  "known_signatures =
     [\<lparr>sy_cve_id = ''CVE-2021-44228'', sy_pattern = [''socket'', ''connect'', ''sendto''],
       sy_description = ''Log4Shell JNDI exploit pattern''\<rparr>,
      \<lparr>sy_cve_id = ''CVE-2023-38408'', sy_pattern = [''openat'', ''read'', ''write''],
       sy_description = ''OpenSSH PKCS11 exploit''\<rparr>]"

record ExecutionProofCollector =
  xq_evidence :: "string \<rightharpoonup> ExecutionEvidence list"
  xq_package_cves :: "string \<rightharpoonup> string list"
  xq_signatures :: "SyscallSignature list"

definition ExecutionProofCollector_new :: ExecutionProofCollector where
  "ExecutionProofCollector_new =
     \<lparr>xq_evidence = Map.empty, xq_package_cves = Map.empty, xq_signatures = known_signatures\<rparr>"

definition register_cve :: "string \<Rightarrow> string \<Rightarrow> ExecutionProofCollector \<Rightarrow> ExecutionProofCollector" where
  "register_cve package cve c =
     c\<lparr>xq_package_cves := (xq_package_cves c)(package \<mapsto>
         bset_insert cve (case xq_package_cves c package of None \<Rightarrow> [] | Some s \<Rightarrow> s))\<rparr>"

definition get_evidence :: "string \<Rightarrow> ExecutionProofCollector \<Rightarrow> ExecutionEvidence list" where
  "get_evidence cve c = (case xq_evidence c cve of None \<Rightarrow> [] | Some es \<Rightarrow> es)"

definition add_evidence :: "ExecutionEvidence \<Rightarrow> ExecutionProofCollector \<Rightarrow> ExecutionProofCollector" where
  "add_evidence e c =
     c\<lparr>xq_evidence := (xq_evidence c)(xv_cve_id e \<mapsto> get_evidence (xv_cve_id e) c @ [e])\<rparr>"

section \<open>Events\<close>

definition is_external_ip :: "u32 \<Rightarrow> bool" where
  "is_external_ip ip =
     (let h = from_be32 ip; a = octet 24 h; b = octet 16 h
      in \<not> (a = 10 \<or> a = 172 \<and> 16 \<le> b \<and> b \<le> 31 \<or> a = 192 \<and> b = 168 \<or> a = 127))"

definition xq_process_network_event ::
  "int \<Rightarrow> NetEvent \<Rightarrow> string \<Rightarrow> ExecutionProofCollector \<Rightarrow> ExecutionProofCollector" where
  "xq_process_network_event now ev name c =
     (let dest = ipv4_be (ne_daddr ev)
      in if (ne_dport ev = 389 \<or> ne_dport ev = 636 \<or> ne_dport ev = 1099)
            \<and> is_external_ip (ne_daddr ev) \<and> (contains name ''java'' \<or> contains name ''log4j'')
         then add_evidence
           \<lparr>xv_cve_id = ''CVE-2021-44228'', xv_package = ''log4j-core'',
            xv_evidence_type = EtNetworkConnection dest (ne_dport ev), xv_timestamp = now,
            xv_process_id = ne_pid ev, xv_process_name = name,
            xv_details = ''Suspicious JNDI/LDAP connection to '' @ dest @ '':'' @ dec_w (ne_dport ev),
            xv_confidence = CfHigh\<rparr> c
         else c)"

fun operation_name :: "EventKind \<Rightarrow> string" where
  "operation_name KOpen = ''open''"
| "operation_name KMmap = ''mmap''"
| "operation_name KMmapAnon = ''mmap_anon''"
| "operation_name KExec = ''exec''"
| "operation_name KConnect = ''connect''"
| "operation_name KBind = ''bind''"
| "operation_name KClose = ''close''"
| "operation_name KMprotect = ''mprotect''"
| "operation_name KSecurityDeny = ''security_deny''"
| "operation_name KTcpSend = ''tcp_send''"
| "operation_name KTcpRecv = ''tcp_recv''"
| "operation_name KUdpSend = ''udp_send''"
| "operation_name KUdpRecv = ''udp_recv''"
| "operation_name KDnsQuery = ''dns_query''"
| "operation_name KSslWrite = ''ssl_write''"
| "operation_name KSslRead = ''ssl_read''"
| "operation_name KSecurityAllow = ''security_allow''"
| "operation_name KFunctionTrace = ''function_trace''"

definition get_cves_for_path :: "string \<Rightarrow> ExecutionProofCollector \<Rightarrow> string list option" where
  "get_cves_for_path path c = xq_package_cves c (library_name path)"

definition file_evidence :: "int \<Rightarrow> FileEvent \<Rightarrow> string \<Rightarrow> string \<Rightarrow> string \<Rightarrow> ExecutionEvidence" where
  "file_evidence now ev path name cve =
     \<lparr>xv_cve_id = cve, xv_package = library_name path,
      xv_evidence_type = EtFileAccess path (operation_name (fe_kind ev)), xv_timestamp = now,
      xv_process_id = fe_pid ev, xv_process_name = name,
      xv_details = ''Vulnerable library '' @ path @ '' accessed via '' @ operation_name (fe_kind ev),
      xv_confidence = (if fe_kind ev = KMmap \<or> fe_kind ev = KExec then CfMedium else CfLow)\<rparr>"

text \<open>\<open>now i\<close> is the time of the \<open>i\<close>-th evidence of the event.\<close>

definition xq_process_file_event ::
  "(nat \<Rightarrow> int) \<Rightarrow> FileEvent \<Rightarrow> string \<Rightarrow> ExecutionProofCollector \<Rightarrow> ExecutionProofCollector" where
  "xq_process_file_event now ev name c =
     (let path = lossy_trim_nul (fe_path ev)
      in case get_cves_for_path path c of
           None \<Rightarrow> c
         | Some cves \<Rightarrow>
             fold (\<lambda>(i, cve). add_evidence (file_evidence (now i) ev path name cve)) (enumerate 0 cves) c)"

definition xq_process_exec_event :: "int \<Rightarrow> ExecEvent \<Rightarrow> ExecutionProofCollector \<Rightarrow> ExecutionProofCollector" where
  "xq_process_exec_event now ev c =
     (let command = lossy_trim_nul (ex_command ev)
      in if contains command ''log4j'' \<or> contains command ''log4shell''
         then add_evidence
           \<lparr>xv_cve_id = ''CVE-2021-44228'', xv_package = ''log4j-core'',
            xv_evidence_type = EtSyscallPattern ''log4j_execution'', xv_timestamp = now,
            xv_process_id = ex_pid ev, xv_process_name = command,
            xv_details = ''Log4j-related process executed'', xv_confidence = CfMedium\<rparr> c
         else c)"

section \<open>Queries\<close>

record ExecutionSummary =
  xs_cve_id :: string
  xs_total_evidence :: nat
  xs_high_confidence :: nat
  xs_medium_confidence :: nat
  xs_low_confidence :: nat
  xs_affected_processes :: "string list"
  xs_last_seen :: "int option"
  xs_is_actively_exploited :: bool

definition count_confidence :: "ConfidenceLevel \<Rightarrow> ExecutionEvidence list \<Rightarrow> nat" where
  "count_confidence l es = length (filter (\<lambda>e. xv_confidence e = l) es)"

definition later :: "ExecutionEvidence \<Rightarrow> int option \<Rightarrow> int option" where
  "later e seen =
     (case seen of None \<Rightarrow> Some (xv_timestamp e)
      | Some t \<Rightarrow> if t < xv_timestamp e then Some (xv_timestamp e) else Some t)"

definition get_execution_summary :: "string \<Rightarrow> ExecutionProofCollector \<Rightarrow> ExecutionSummary" where
  "get_execution_summary cve c =
     (let es = get_evidence cve c; high = count_confidence CfHigh es
      in \<lparr>xs_cve_id = cve, xs_total_evidence = length es, xs_high_confidence = high,
          xs_medium_confidence = count_confidence CfMedium es,
          xs_low_confidence = count_confidence CfLow es,
          xs_affected_processes = bset_extend [] (map xv_process_name es),
          xs_last_seen = fold later es None, xs_is_actively_exploited = (0 < high)\<rparr>)"

definition has_execution_proof :: "string \<Rightarrow> ConfidenceLevel \<Rightarrow> ExecutionProofCollector \<Rightarrow> bool" where
  "has_execution_proof cve min_confidence c \<longleftrightarrow>
     list_ex (\<lambda>e. min_confidence \<le> xv_confidence e) (get_evidence cve c)"

text \<open>\<open>haystack.windows(needle.len()).any(|w| w == needle)\<close>, for a needle that is not empty.\<close>

definition contains_pattern :: "string list \<Rightarrow> string list \<Rightarrow> bool" where
  "contains_pattern haystack needle \<longleftrightarrow>
     length needle \<le> length haystack
     \<and> list_ex (\<lambda>i. take (length needle) (drop i haystack) = needle)
         [0..<Suc (length haystack - length needle)]"

definition match_pattern :: "string list \<Rightarrow> ExecutionProofCollector \<Rightarrow> string list" where
  "match_pattern syscalls c =
     map sy_cve_id (filter (\<lambda>s. contains_pattern syscalls (sy_pattern s)) (xq_signatures c))"

section \<open>What the queries answer\<close>

lemma counts_add_up:
  "count_confidence CfHigh es + count_confidence CfMedium es + count_confidence CfLow es = length es"
proof (induction es)
  case (Cons e es)
  then show ?case by (cases "xv_confidence e") (simp_all add: count_confidence_def)
qed (simp add: count_confidence_def)

lemma fold_later:
  "fold later es (Some t) = Some (Max (insert t (xv_timestamp ` set es)))"
proof (induction es arbitrary: t)
  case (Cons e es)
  have "later e (Some t) = Some (max t (xv_timestamp e))" by (simp add: later_def max_def)
  moreover have "Max (insert (max t x) (xv_timestamp ` set es)) = Max (insert t (insert x (xv_timestamp ` set es)))" for x
    by (cases "es = []") (simp_all add: max.assoc)
  ultimately show ?case using Cons by simp
qed simp

lemma last_seen_max:
  "es \<noteq> [] \<Longrightarrow> fold later es None = Some (Max (xv_timestamp ` set es))"
  by (cases es) (simp_all add: later_def fold_later)

lemma contains_pattern_sublist: "contains_pattern h n \<longleftrightarrow> sublist n h"
proof
  assume "contains_pattern h n"
  then obtain i where "take (length n) (drop i h) = n"
    unfolding contains_pattern_def list_ex_iff by blast
  then have "h = take i h @ n @ drop (length n) (drop i h)"
    by (metis append_take_drop_id)
  then show "sublist n h" by (metis sublist_appendI)
next
  assume "sublist n h"
  then obtain ps ss where h: "h = ps @ n @ ss" by (auto simp: sublist_def)
  then have "take (length n) (drop (length ps) h) = n" by simp
  moreover have "length ps \<in> set [0..<Suc (length h - length n)]" "length n \<le> length h"
    using h by (simp_all del: upt_Suc)
  ultimately show "contains_pattern h n" unfolding contains_pattern_def list_ex_iff by blast
qed

lemma threshold_cases:
  "has_execution_proof cve CfHigh c \<longleftrightarrow> get_evidence cve c \<noteq> []"
  "has_execution_proof cve CfLow c \<longleftrightarrow> list_ex (\<lambda>e. xv_confidence e = CfLow) (get_evidence cve c)"
proof -
  have 1: "CfHigh \<le> l" and 2: "(CfLow \<le> l) = (l = CfLow)" for l
    by (cases l; simp add: less_eq_ConfidenceLevel_def)+
  show "has_execution_proof cve CfHigh c \<longleftrightarrow> get_evidence cve c \<noteq> []"
    by (cases "get_evidence cve c") (simp_all add: has_execution_proof_def 1)
  show "has_execution_proof cve CfLow c \<longleftrightarrow> list_ex (\<lambda>e. xv_confidence e = CfLow) (get_evidence cve c)"
    by (simp add: has_execution_proof_def 2)
qed

section \<open>Properties\<close>

text \<open>The minimum confidence works backwards: asking for High accepts any evidence at all, and
  asking for Low accepts a CVE only if some of its evidence is Low, so confirmed exploitation
  alone is no proof at that level.\<close>

theorem proof_threshold_is_inverted:
  "(has_execution_proof cve CfHigh c \<longleftrightarrow> get_evidence cve c \<noteq> [])
   \<and> (has_execution_proof cve CfLow c \<longleftrightarrow> list_ex (\<lambda>e. xv_confidence e = CfLow) (get_evidence cve c))"
  by (simp add: threshold_cases)

text \<open>A summary accounts for every piece of evidence: the counts by confidence add up to the
  total, the processes are those of the evidence, the time is the latest one, and the CVE counts
  as exploited exactly when some evidence is High.\<close>

theorem summary_accounts_for_evidence:
  "let s = get_execution_summary cve c; es = get_evidence cve c
   in xs_total_evidence s = length es
    \<and> xs_high_confidence s + xs_medium_confidence s + xs_low_confidence s = xs_total_evidence s
    \<and> set (xs_affected_processes s) = set (map xv_process_name es) \<and> bset_ok (xs_affected_processes s)
    \<and> xs_last_seen s = (if es = [] then None else Some (Max (set (map xv_timestamp es))))
    \<and> (xs_is_actively_exploited s \<longleftrightarrow> list_ex (\<lambda>e. xv_confidence e = CfHigh) es)"
proof -
  have "0 < count_confidence CfHigh es \<longleftrightarrow> list_ex (\<lambda>e. xv_confidence e = CfHigh) es" for es
    by (simp add: count_confidence_def list_ex_iff filter_empty_conv)
  then show ?thesis
    by (simp add: get_execution_summary_def Let_def counts_add_up last_seen_max)
qed

end
