(* ===== verification/Predictive_Risk.thy ===== *)
theory Predictive_Risk
  imports Float_Sums Interfaces
begin

text \<open>
  \<open>predictive_risk.rs\<close>: the score history of each CVE, its exponentially weighted average,
  the extrapolation to 1, 4 and 24 hours, the trend and the confidence. Scores are binary32,
  the statistics binary64.
\<close>

record RiskSnapshot =
  sn_timestamp :: int
  sn_score :: f32
  sn_cvss :: f32
  sn_epss :: f32
  sn_kev :: bool
  sn_runtime_signal :: f32
  sn_event_rate :: f64
  sn_network_activity :: f64

datatype TrendDirection = Rising | Falling | Stable

record PredictedRisk =
  pr_cve_id :: string
  pr_current_score :: f32
  pr_predicted_1h :: f32
  pr_predicted_4h :: f32
  pr_predicted_24h :: f32
  pr_trend :: TrendDirection
  pr_confidence :: f32
  pr_data_points :: nat
  pr_last_updated :: int

record EwmaConfig =
  ew_alpha :: f64
  ew_min_data_points :: nat
  ew_max_history :: nat

definition EwmaConfig_default :: EwmaConfig where
  "EwmaConfig_default = \<lparr>ew_alpha = lit64 (3/10), ew_min_data_points = 5, ew_max_history = 1000\<rparr>"

record PredictiveRiskEngine =
  pe_history :: "(string \<times> RiskSnapshot list) list"
  pe_config :: EwmaConfig

definition PredictiveRiskEngine_new :: "EwmaConfig \<Rightarrow> PredictiveRiskEngine" where
  "PredictiveRiskEngine_new cfg = \<lparr>pe_history = [], pe_config = cfg\<rparr>"

section \<open>History\<close>

definition push_trimmed :: "nat \<Rightarrow> 'a \<Rightarrow> 'a list \<Rightarrow> 'a list" where
  "push_trimmed cap x xs =
     (let xs = xs @ [x] in if cap < length xs then drop (length xs - cap) xs else xs)"

definition pe_record :: "string \<Rightarrow> RiskSnapshot \<Rightarrow> PredictiveRiskEngine \<Rightarrow> PredictiveRiskEngine" where
  "pe_record cve s e =
     e\<lparr>pe_history := alist_modify cve [] (push_trimmed (ew_max_history (pe_config e)) s) (pe_history e)\<rparr>"

definition pe_clear :: "string \<Rightarrow> PredictiveRiskEngine \<Rightarrow> PredictiveRiskEngine" where
  "pe_clear cve e = e\<lparr>pe_history := AList.delete cve (pe_history e)\<rparr>"

definition pe_clear_all :: "PredictiveRiskEngine \<Rightarrow> PredictiveRiskEngine" where
  "pe_clear_all e = e\<lparr>pe_history := []\<rparr>"

section \<open>Statistics\<close>

fun ewma_after :: "f64 \<Rightarrow> f64 \<Rightarrow> f64 list \<Rightarrow> f64 list" where
  "ewma_after a p [] = []"
| "ewma_after a p (v # vs) =
     (let x = fadd F64 (fmul F64 a v) (fmul F64 (fsub F64 (lit64 1) a) p) in x # ewma_after a x vs)"

fun calculate_ewma :: "f64 list \<Rightarrow> f64 \<Rightarrow> f64 list" where
  "calculate_ewma [] a = []"
| "calculate_ewma (v # vs) a = v # ewma_after a v vs"

text \<open>The averages of the last five values and of the five before them; both divide by five.\<close>

definition recent_avg :: "f64 list \<Rightarrow> f64" where
  "recent_avg vs = fdiv F64 (fsum F64 (take 5 (rev vs))) (lit64 5)"

definition older_avg :: "f64 list \<Rightarrow> f64" where
  "older_avg vs = fdiv F64 (fsum F64 (take 5 (drop 5 (rev vs)))) (lit64 5)"

definition calculate_trend :: "f64 list \<Rightarrow> TrendDirection" where
  "calculate_trend vs =
     (if length vs < 2 then Stable
      else (let diff = fsub F64 (recent_avg vs) (older_avg vs); threshold = lit64 (1/2)
            in if fl_gt diff threshold then Rising
               else if fl_lt diff (fneg threshold) then Falling else Stable))"

definition calculate_variance :: "f64 list \<Rightarrow> f64" where
  "calculate_variance vs =
     (if length vs < 2 then lit64 0
      else (let mean = fdiv F64 (fsum F64 vs) (fl_nat F64 (length vs))
            in fdiv F64
                 (fsum F64 (map (\<lambda>v. let d = fsub F64 v mean in fmul F64 d d) vs))
                 (fl_nat F64 (length vs - 1))))"

section \<open>Prediction\<close>

definition score_slope :: "f64 list \<Rightarrow> f64" where
  "score_slope vs =
     (if 2 \<le> length vs then fdiv F64 (fsub F64 (recent_avg vs) (older_avg vs)) (lit64 5)
      else lit64 0)"

definition extrapolate :: "f64 \<Rightarrow> f64 \<Rightarrow> f64 \<Rightarrow> f32" where
  "extrapolate current slope steps =
     fcast F32 (fclamp (fadd F64 current (fmul F64 slope steps)) (lit64 0) (lit64 10))"

definition prediction_confidence :: "f64 list \<Rightarrow> f32" where
  "prediction_confidence vs =
     fcast F32 (fmul F64 (fdiv F64 (lit64 1) (fadd F64 (lit64 1) (calculate_variance vs)))
                 (fmin (fdiv F64 (fl_nat F64 (length vs)) (lit64 100)) (lit64 1)))"

definition predict_history :: "EwmaConfig \<Rightarrow> string \<Rightarrow> RiskSnapshot list \<Rightarrow> PredictedRisk option" where
  "predict_history cfg cve h =
     (if length h < ew_min_data_points cfg then None
      else
        (let vs = map (\<lambda>s. fcast F64 (sn_score s)) h; ewma = calculate_ewma vs (ew_alpha cfg)
         in if ewma = [] then None
            else
              (let current = last ewma; slope = score_slope vs
               in Some \<lparr>pr_cve_id = cve, pr_current_score = fcast F32 current,
                    pr_predicted_1h = extrapolate current slope (lit64 4),
                    pr_predicted_4h = extrapolate current slope (lit64 16),
                    pr_predicted_24h = extrapolate current slope (lit64 96),
                    pr_trend = calculate_trend vs, pr_confidence = prediction_confidence vs,
                    pr_data_points = length h, pr_last_updated = sn_timestamp (last h)\<rparr>)))"

definition pe_predict :: "string \<Rightarrow> PredictiveRiskEngine \<Rightarrow> PredictedRisk option" where
  "pe_predict cve e =
     (case map_of (pe_history e) cve of None \<Rightarrow> None | Some h \<Rightarrow> predict_history (pe_config e) cve h)"

definition predict_all :: "PredictiveRiskEngine \<Rightarrow> PredictedRisk list" where
  "predict_all e = List.map_filter (\<lambda>(cve, h). pe_predict cve e) (pe_history e)"

definition get_early_warnings :: "f32 \<Rightarrow> PredictiveRiskEngine \<Rightarrow> PredictedRisk list" where
  "get_early_warnings threshold e =
     filter (\<lambda>p. pr_trend p = Rising \<and> fl_gt (pr_predicted_4h p) threshold) (predict_all e)"

section \<open>The history of a CVE\<close>

lemma push_trimmed_lastn: "push_trimmed cap x xs = lastn cap (xs @ [x])"
  by (auto simp: push_trimmed_def lastn_def Let_def)

interpretation score_history: bounded_history cap "push_trimmed cap" for cap
  by unfold_locales (rule push_trimmed_lastn)

definition history_of :: "string \<Rightarrow> PredictiveRiskEngine \<Rightarrow> RiskSnapshot list" where
  "history_of cve e = (case map_of (pe_history e) cve of None \<Rightarrow> [] | Some h \<Rightarrow> h)"

lemma pe_record_config [simp]: "pe_config (pe_record cve s e) = pe_config e"
  by (simp add: pe_record_def)

lemma history_of_record:
  "history_of cve (pe_record c s e) =
     (if c = cve then push_trimmed (ew_max_history (pe_config e)) s (history_of cve e)
      else history_of cve e)"
  by (auto simp: history_of_def pe_record_def split: option.splits)

definition record_all :: "PredictiveRiskEngine \<Rightarrow> (string \<times> RiskSnapshot) list \<Rightarrow> PredictiveRiskEngine" where
  "record_all e xs = foldl (\<lambda>e (c, s). pe_record c s e) e xs"

definition snapshots_of :: "string \<Rightarrow> (string \<times> RiskSnapshot) list \<Rightarrow> RiskSnapshot list" where
  "snapshots_of cve xs = map snd (filter (\<lambda>(c, s). c = cve) xs)"

lemma record_all_history:
  "length (history_of cve e) \<le> ew_max_history (pe_config e) \<Longrightarrow>
   history_of cve (record_all e xs) =
     fold (push_trimmed (ew_max_history (pe_config e))) (snapshots_of cve xs) (history_of cve e)"
proof (induction xs arbitrary: e)
  case (Cons x xs)
  obtain c s where x: "x = (c, s)" by (cases x)
  let ?cap = "ew_max_history (pe_config e)"
  have "length (history_of cve (pe_record c s e)) \<le> ?cap"
    using Cons.prems score_history.length_push_le[of "history_of cve e" ?cap s]
    by (simp add: history_of_record)
  then show ?case
    using Cons.IH[of "pe_record c s e"] x
    by (simp add: record_all_def snapshots_of_def history_of_record)
qed (simp add: record_all_def snapshots_of_def)

section \<open>Ranges\<close>

lemma weight_03: "lit64 (3/10) = Fin (5404319552844595 / 2 ^ 54)"
  by (rule fl_of_eval) code_simp+

lemma weight_07: "fsub F64 (lit64 1) (lit64 (3/10)) = Fin (12610078956637388 / 2 ^ 54)"
proof -
  have "fl_of F64 (1 + - (5404319552844595 / 2 ^ 54)) = Fin (12610078956637388 / 2 ^ 54)"
    by (rule fl_of_eval) code_simp+
  then show ?thesis by (simp add: fsub_def weight_03 fl_of_1 del: add_uminus_conv_diff)
qed

lemma default_weights:
  "fadd F64 (fmul F64 (lit64 (3/10)) (Fin 10)) (fmul F64 (fsub F64 (lit64 1) (lit64 (3/10))) (Fin 10)) = Fin 10"
  "fl_in 0 1 (lit64 (3/10))" "fl_in 0 1 (fsub F64 (lit64 1) (lit64 (3/10)))"
proof -
  have "fl_of F64 (5404319552844595 / 2 ^ 54 * 10) = Fin 3" "fl_of F64 (12610078956637388 / 2 ^ 54 * 10) = Fin 7"
    by (rule fl_of_eval; code_simp)+
  then show "fadd F64 (fmul F64 (lit64 (3/10)) (Fin 10)) (fmul F64 (fsub F64 (lit64 1) (lit64 (3/10))) (Fin 10)) = Fin 10"
    unfolding weight_07 by (simp add: weight_03 fl_of_id)
qed (simp add: weight_03, simp add: weight_07)

text \<open>One step of the average stays inside the range of scores.\<close>

lemma fmul_score_mono:
  assumes "fl_in 0 1 a" "fl_in 0 10 v"
  shows "fl_in 0 10 (fmul F64 a v)" "fl_le (fmul F64 a v) (fmul F64 a (Fin 10))"
    "fl_in 0 10 (fmul F64 a (Fin 10))"
proof -
  show "fl_in 0 10 (fmul F64 a v)" using assms by (intro fmul_in[of 1 a 10 v]) auto
  show "fl_in 0 10 (fmul F64 a (Fin 10))" using assms by (intro fmul_in[of 1 a 10 "Fin 10"]) auto
  show "fl_le (fmul F64 a v) (fmul F64 a (Fin 10))"
    using assms by (cases a; cases v) (auto intro!: fl_of_mono mult_left_mono)
qed

lemma ewma_step_in:
  assumes v: "fl_in 0 10 v" and p: "fl_in 0 10 p" and a: "a = lit64 (3/10)"
  shows "fl_in 0 10 (fadd F64 (fmul F64 a v) (fmul F64 (fsub F64 (lit64 1) a) p))"
proof -
  let ?b = "fsub F64 (lit64 1) a"
  have w: "fl_in 0 1 a" "fl_in 0 1 ?b" using default_weights a by simp_all
  note x = fmul_score_mono[OF w(1) v] and y = fmul_score_mono[OF w(2) p]
  have "fl_le (fadd F64 (fmul F64 a v) (fmul F64 ?b p))
      (fadd F64 (fmul F64 a (Fin 10)) (fmul F64 ?b (Fin 10)))"
    using x y by (intro fadd_mono[of _ _ _ _ 0 10 0 10]) auto
  then have "fl_le (fadd F64 (fmul F64 a v) (fmul F64 ?b p)) (Fin 10)"
    using default_weights(1) a by simp
  moreover have "fl_nonneg (fadd F64 (fmul F64 a v) (fmul F64 ?b p))"
    using x(1) y(1) by (intro fadd_nonneg) (auto simp: fl_in_iff)
  ultimately show ?thesis by (simp add: fl_in_iff)
qed

lemma ewma_in:
  "\<forall>v \<in> set vs. fl_in 0 10 v \<Longrightarrow> a = lit64 (3/10) \<Longrightarrow>
   \<forall>x \<in> set (calculate_ewma vs a). fl_in 0 10 x"
proof -
  assume "\<forall>v \<in> set vs. fl_in 0 10 v" and a: "a = lit64 (3/10)"
  moreover have "\<forall>x \<in> set (ewma_after a p us). fl_in 0 10 x"
    if "fl_in 0 10 p" "\<forall>v \<in> set us. fl_in 0 10 v" for p us
    using that
  proof (induction us arbitrary: p)
    case (Cons u us)
    then show ?case using ewma_step_in[of u p a] a by (simp add: Let_def)
  qed simp
  ultimately show ?thesis by (cases vs) auto
qed

lemma avg_in:
  assumes "\<forall>v \<in> set vs. fl_in 0 10 v"
  shows "fl_in 0 10 (recent_avg vs)" "fl_in 0 10 (older_avg vs)"
proof -
  have d: "fl_in 0 10 (fdiv F64 s (lit64 5))" if "fl_in 0 50 s" for s
    using that by (cases s) (auto simp: fl_of_id intro!: fl_of_in)
  have "set (take 5 (rev vs)) \<subseteq> set vs" "set (take 5 (drop 5 (rev vs))) \<subseteq> set vs"
    by (auto dest!: in_set_takeD in_set_dropD)
  then show "fl_in 0 10 (recent_avg vs)" "fl_in 0 10 (older_avg vs)"
    unfolding recent_avg_def older_avg_def using assms by (auto intro!: d fsum_scores)
qed

lemma slope_in:
  assumes "\<forall>v \<in> set vs. fl_in 0 10 v"
  shows "fl_in (-2) 2 (score_slope vs)"
proof -
  have "fl_in (-10) 10 (fsub F64 (recent_avg vs) (older_avg vs))"
    unfolding fsub_def using avg_in[OF assms]
    by (intro fadd_in[of 0 10 _ "-10" 0]) (cases "older_avg vs"; simp)+
  then show ?thesis
    by (cases "fsub F64 (recent_avg vs) (older_avg vs)")
       (auto simp: score_slope_def fl_of_id intro!: fl_of_in)
qed

lemma fcast_score: "fl_in 0 10 x \<Longrightarrow> fl_in 0 10 (fcast F32 x)" "fl_in 0 10 x \<Longrightarrow> fl_in 0 10 (fcast F64 x)"
  by (cases x; auto simp: fcast_def intro!: fl_of_in)+

lemma extrapolate_in:
  assumes "fl_in 0 10 c" "fl_in (-2) 2 s" "t \<in> {4, 16, 96}"
  shows "fl_in 0 10 (extrapolate c s (lit64 t))"
proof -
  have t: "lit64 t = Fin t" using assms(3) by (auto intro!: fl_of_id)
  have "fl_in (-200) 200 (fmul F64 s (lit64 t))"
    using assms(2,3) unfolding t by (cases s) (auto intro!: fl_of_in)
  then have "fadd F64 c (fmul F64 s (lit64 t)) \<noteq> NaN"
    using fadd_in[of 0 10 c "-200" 200 "fmul F64 s (lit64 t)" "-210" 210 F64] assms(1) by auto
  then show ?thesis
    unfolding extrapolate_def using fclamp_in[of 0 10] by (auto simp: fl_of_id intro!: fcast_score)
qed

lemma variance_nonneg:
  assumes "\<forall>v \<in> set vs. fl_in 0 10 v" "length vs < 2 ^ 24"
  shows "fl_nonneg (calculate_variance vs)"
proof (cases "length vs < 2")
  case False
  let ?m = "fdiv F64 (fsum F64 vs) (fl_nat F64 (length vs))"
  have m: "fl_nonneg ?m"
    using assms False by (intro div_count_nonneg fsum_nonneg) (auto simp: fl_in_iff)
  have "fsub F64 v ?m \<noteq> NaN" if "v \<in> set vs" for v
  proof -
    have "fl_in 0 10 v" using assms(1) that by blast
    then obtain x where "v = Fin x" by (cases v) auto
    with m show ?thesis by (cases ?m) (auto simp: fsub_def fl_of_def Let_def)
  qed
  then have "fl_nonneg (fsum F64 (map (\<lambda>v. let d = fsub F64 v ?m in fmul F64 d d) vs))"
    by (intro fsum_nonneg) (auto simp: Let_def intro!: fmul_square_nonneg)
  then show ?thesis
    unfolding calculate_variance_def Let_def using False assms(2) by (auto intro!: div_count_nonneg)
qed (simp add: calculate_variance_def fl_of_nonneg)

lemma confidence_in:
  assumes "\<forall>v \<in> set vs. fl_in 0 10 v" "length vs < 2 ^ 24"
  shows "fl_in 0 1 (prediction_confidence vs)"
proof -
  have r: "fl_in 0 1 (fdiv F64 (Fin 1) (fadd F64 (Fin 1) (calculate_variance vs)))"
    by (rule reciprocal_in[OF variance_nonneg[OF assms]])
  have "fl_nonneg (fdiv F64 (fl_nat F64 (length vs)) (Fin 100))"
    using assms(2) by (intro fdiv_nonneg) (auto simp: fl_nat_small)
  then have q: "fl_in 0 1 (fmin (fdiv F64 (fl_nat F64 (length vs)) (Fin 100)) (Fin 1))"
    by (cases "fdiv F64 (fl_nat F64 (length vs)) (Fin 100)") (auto simp: fmin_def)
  have "fl_in 0 1 (fmul F64 (fdiv F64 (Fin 1) (fadd F64 (Fin 1) (calculate_variance vs)))
      (fmin (fdiv F64 (fl_nat F64 (length vs)) (Fin 100)) (Fin 1)))"
    using r q by (intro fmul_in[of 1 _ 1]) auto
  then show ?thesis
    unfolding prediction_confidence_def
    by (simp add: fl_of_id) (cases "fmul F64 (fdiv F64 (Fin 1) (fadd F64 (Fin 1) (calculate_variance vs)))
      (fmin (fdiv F64 (fl_nat F64 (length vs)) (Fin 100)) (Fin 1))"; auto simp: fcast_def intro!: fl_of_in)
qed

text \<open>Five values of at least 1 and no older ones: the average before them is zero.\<close>

lemma five_values_rise:
  assumes "length vs = 5" "\<forall>v \<in> set vs. fl_in 1 10 v"
  shows "calculate_trend vs = Rising"
proof -
  have b: "fl_bound F64 (of_int j * 10) \<and> fl_bound F64 (of_int j * 1)" if "0 \<le> j" "j \<le> 5" for j :: int
    using fl_bound_int(2)[of "j * 10"] fl_bound_int(2)[of j] that by simp
  have "fl_in (of_int (0 + int (length (rev vs))) * 1) (of_int (0 + int (length (rev vs))) * 10)
      (foldl (fadd F64) (Fin 0) (rev vs))"
    using assms b by (intro foldl_fadd_in) auto
  then have s: "fl_in 5 50 (fsum F64 (rev vs))" using assms(1) by (simp add: fsum_def)
  have "fl_in 1 10 (recent_avg vs)"
    using s assms(1) by (cases "fsum F64 (rev vs)") (auto simp: recent_avg_def fl_of_id intro!: fl_of_in)
  moreover have "older_avg vs = Fin 0"
    using assms(1) by (simp add: older_avg_def fsum_def fl_of_id)
  ultimately have "fl_in 1 10 (fsub F64 (recent_avg vs) (older_avg vs))"
    unfolding fsub_def by (intro fadd_in[of 1 10 _ 0 0]) auto
  moreover have "lit64 (1/2) = Fin (1/2)" by (rule fl_of_eval) code_simp+
  ultimately show ?thesis
    using assms(1) by (cases "fsub F64 (recent_avg vs) (older_avg vs)") (auto simp: calculate_trend_def Let_def)
qed

section \<open>Properties\<close>

text \<open>Whatever is recorded in whatever order, the history of a CVE is exactly the last
  snapshots recorded for it, as many as the configured maximum.\<close>

theorem history_keeps_latest:
  "history_of cve (record_all (PredictiveRiskEngine_new cfg) xs) =
     lastn (ew_max_history cfg) (snapshots_of cve xs)"
proof -
  have "history_of cve (PredictiveRiskEngine_new cfg) = []"
    by (simp add: history_of_def PredictiveRiskEngine_new_def)
  then show ?thesis
    using record_all_history[of cve "PredictiveRiskEngine_new cfg" xs]
      score_history.fold_push[of "[]" "ew_max_history cfg" "snapshots_of cve xs"]
    by (simp add: PredictiveRiskEngine_new_def)
qed

text \<open>With the default smoothing and scores between 0 and 10 every prediction is a number between 0
  and 10 and the confidence lies between 0 and 1; no NaN arises.\<close>

theorem predictions_in_range:
  assumes "\<forall>s \<in> set h. fl_in 0 10 (sn_score s)" "ew_alpha cfg = lit64 (3/10)" "length h < 2 ^ 24"
    and "predict_history cfg cve h = Some p"
  shows "list_all (fl_in 0 10) [pr_current_score p, pr_predicted_1h p, pr_predicted_4h p, pr_predicted_24h p]
    \<and> fl_in 0 1 (pr_confidence p)"
proof -
  let ?vs = "map (\<lambda>s. fcast F64 (sn_score s)) h"
  let ?e = "calculate_ewma ?vs (ew_alpha cfg)"
  have v: "\<forall>v \<in> set ?vs. fl_in 0 10 v" using assms(1) by (auto intro: fcast_score)
  have n: "?e \<noteq> []" and p: "p = \<lparr>pr_cve_id = cve, pr_current_score = fcast F32 (last ?e),
      pr_predicted_1h = extrapolate (last ?e) (score_slope ?vs) (lit64 4),
      pr_predicted_4h = extrapolate (last ?e) (score_slope ?vs) (lit64 16),
      pr_predicted_24h = extrapolate (last ?e) (score_slope ?vs) (lit64 96),
      pr_trend = calculate_trend ?vs, pr_confidence = prediction_confidence ?vs,
      pr_data_points = length h, pr_last_updated = sn_timestamp (last h)\<rparr>"
    using assms(4) unfolding predict_history_def Let_def by (auto split: if_splits)
  have l: "fl_in 0 10 (last ?e)" using ewma_in[OF v assms(2)] n by simp
  have x: "fl_in 0 10 (extrapolate (last ?e) (score_slope ?vs) (lit64 t))" if "t \<in> {4, 16, 96}" for t
    by (rule extrapolate_in[OF l slope_in[OF v] that])
  have c: "fl_in 0 1 (prediction_confidence ?vs)" using v assms(3) by (intro confidence_in) simp_all
  show ?thesis
    unfolding p list.pred_inject PredictedRisk.simps
    by (intro conjI TrueI x c fcast_score(1)[OF l]) simp_all
qed

theorem predictions_in_range_witness:
  "\<exists>p. predict_history (EwmaConfig_default\<lparr>ew_min_data_points := 1\<rparr>) ''CVE-1''
      [\<lparr>sn_timestamp = 7, sn_score = Fin 8, sn_cvss = Fin 9, sn_epss = Fin 0, sn_kev = False,
        sn_runtime_signal = Fin 0, sn_event_rate = Fin 0, sn_network_activity = Fin 0\<rparr>] = Some p
     \<and> fl_in 0 1 (pr_confidence p)"
proof -
  let ?h = "[\<lparr>sn_timestamp = 7, sn_score = Fin 8, sn_cvss = Fin 9, sn_epss = Fin 0, sn_kev = False,
        sn_runtime_signal = Fin 0, sn_event_rate = Fin 0, sn_network_activity = Fin 0\<rparr>]"
  let ?c = "EwmaConfig_default\<lparr>ew_min_data_points := 1\<rparr>"
  obtain p where p: "predict_history ?c ''CVE-1'' ?h = Some p"
    by (simp add: predict_history_def EwmaConfig_default_def Let_def)
  have "fl_in 0 1 (pr_confidence p)"
    using predictions_in_range[OF _ _ _ p] by (simp add: EwmaConfig_default_def)
  with p show ?thesis by blast
qed

text \<open>With five data points, the least the default configuration asks for, the average of the older
  points is taken over none and still divided by five: scores of at least 1 are reported as
  rising even when they are constant or fall.\<close>

theorem first_prediction_rises:
  assumes "length h = 5" "\<forall>s \<in> set h. fl_in 1 10 (sn_score s)"
  shows "\<exists>p. predict_history EwmaConfig_default cve h = Some p \<and> pr_trend p = Rising"
proof -
  let ?vs = "map (\<lambda>s. fcast F64 (sn_score s)) h"
  have "fl_in 1 10 (fcast F64 x)" if "fl_in 1 10 x" for x
    using that by (cases x) (auto simp: fcast_def intro!: fl_of_in)
  then have "calculate_trend ?vs = Rising" using assms by (intro five_values_rise) auto
  moreover have "calculate_ewma ?vs a \<noteq> []" for a using assms(1) by (cases h) auto
  ultimately show ?thesis using assms(1)
    by (simp add: predict_history_def EwmaConfig_default_def Let_def)
qed

theorem first_prediction_rises_witness:
  "\<exists>p. predict_history EwmaConfig_default ''CVE-1'' (map (\<lambda>x.
      \<lparr>sn_timestamp = 7, sn_score = Fin x, sn_cvss = Fin 9, sn_epss = Fin 0, sn_kev = False,
        sn_runtime_signal = Fin 0, sn_event_rate = Fin 0, sn_network_activity = Fin 0\<rparr>)
      [9, 8, 7, 6, 5]) = Some p \<and> pr_trend p = Rising"
  by (rule first_prediction_rises) simp_all

end
