(* ===== verification/Experiment.thy ===== *)
theory Experiment
  imports Common Float_Sums
begin

text \<open>
  \<open>experiment.rs\<close>: the configuration of A/B runs, the ablation of signal kinds, the gate on
  enforcement and the comparison of two results. Durations are nanoseconds; counts are
  \<open>usize\<close>, and their difference wraps as it does in a release build.
\<close>

datatype ExperimentMode = StaticOnly | RuntimeNoSignals | FullRuntimeWithSignals

fun ExperimentMode_display :: "ExperimentMode \<Rightarrow> string" where
  "ExperimentMode_display StaticOnly = ''static''"
| "ExperimentMode_display RuntimeNoSignals = ''runtime-no-signals''"
| "ExperimentMode_display FullRuntimeWithSignals = ''full-runtime''"

record AblationConfig =
  disable_mmap :: bool
  disable_tcp :: bool
  disable_udp :: bool
  disable_ssl :: bool
  disable_dns :: bool
  disable_mprotect :: bool
  disable_suspicious_exec :: bool

definition AblationConfig_default :: AblationConfig where
  "AblationConfig_default =
     \<lparr>disable_mmap = False, disable_tcp = False, disable_udp = False, disable_ssl = False,
      disable_dns = False, disable_mprotect = False, disable_suspicious_exec = False\<rparr>"

fun is_disabled :: "EventKind \<Rightarrow> AblationConfig \<Rightarrow> bool" where
  "is_disabled KMmap a = disable_mmap a"
| "is_disabled KMmapAnon a = disable_mmap a"
| "is_disabled KTcpSend a = disable_tcp a"
| "is_disabled KTcpRecv a = disable_tcp a"
| "is_disabled KUdpSend a = disable_udp a"
| "is_disabled KUdpRecv a = disable_udp a"
| "is_disabled KSslWrite a = disable_ssl a"
| "is_disabled KSslRead a = disable_ssl a"
| "is_disabled KDnsQuery a = disable_dns a"
| "is_disabled KMprotect a = disable_mprotect a"
| "is_disabled KExec a = disable_suspicious_exec a"
| "is_disabled _ a = False"

definition disabled_signals :: "AblationConfig \<Rightarrow> string list" where
  "disabled_signals a =
     (if disable_mmap a then [''mmap''] else []) @ (if disable_tcp a then [''tcp''] else [])
     @ (if disable_udp a then [''udp''] else []) @ (if disable_ssl a then [''ssl''] else [])
     @ (if disable_dns a then [''dns''] else []) @ (if disable_mprotect a then [''mprotect''] else [])
     @ (if disable_suspicious_exec a then [''suspicious_exec''] else [])"

record SignalThresholds =
  large_transfer_threshold :: nat
  min_ssl_calls :: u32
  min_dns_queries :: u32
  suspicious_threshold :: f32
  dedup_window_secs :: u64

definition SignalThresholds_default :: SignalThresholds where
  "SignalThresholds_default =
     \<lparr>large_transfer_threshold = 64 * 1024, min_ssl_calls = 3, min_dns_queries = 2,
      suspicious_threshold = lit32 (7/10), dedup_window_secs = 5\<rparr>"

record TimeWindows =
  pid_correlation_window :: int
  burst_window :: int
  attack_path_window :: int

definition TimeWindows_default :: TimeWindows where
  "TimeWindows_default =
     \<lparr>pid_correlation_window = 60 * 10 ^ 9, burst_window = 5 * 10 ^ 9,
      attack_path_window = 300 * 10 ^ 9\<rparr>"

record ConfidenceGating =
  cg_min_epss :: f32
  cg_min_kev_confidence :: f32
  cg_min_signal_boost :: f32
  cg_required_signals :: "string list"

definition ConfidenceGating_default :: ConfidenceGating where
  "ConfidenceGating_default =
     \<lparr>cg_min_epss = lit32 (7/10), cg_min_kev_confidence = lit32 (9/10),
      cg_min_signal_boost = lit32 2, cg_required_signals = [''mmap'']\<rparr>"

definition should_gate :: "f32 \<Rightarrow> bool \<Rightarrow> f32 \<Rightarrow> string list \<Rightarrow> ConfidenceGating \<Rightarrow> bool" where
  "should_gate epss kev boost signals g =
     (if fl_lt epss (cg_min_epss g) then False
      else if \<not> kev then False
      else if fl_lt boost (cg_min_signal_boost g) then False
      else list_all (\<lambda>r. list_ex (\<lambda>s. contains s r) signals) (cg_required_signals g))"

record ExperimentConfig =
  xp_mode :: ExperimentMode
  xp_ablation :: AblationConfig
  xp_thresholds :: SignalThresholds
  xp_time_windows :: TimeWindows
  xp_confidence_gating :: ConfidenceGating

definition ExperimentConfig_default :: ExperimentConfig where
  "ExperimentConfig_default =
     \<lparr>xp_mode = FullRuntimeWithSignals, xp_ablation = AblationConfig_default,
      xp_thresholds = SignalThresholds_default, xp_time_windows = TimeWindows_default,
      xp_confidence_gating = ConfidenceGating_default\<rparr>"

section \<open>Comparison\<close>

record ExperimentResult =
  xr_mode :: ExperimentMode
  xr_total_findings :: u64
  xr_critical_count :: u64
  xr_high_count :: u64
  xr_signal_boost_avg :: f32
  xr_false_positive_estimate :: f32
  xr_ablation_disabled :: "string list"

record Comparison =
  cmp_reduction_percent :: f32
  cmp_critical_change :: u32
  cmp_signal_boost_delta :: f32

definition reduction_percent :: "u64 \<Rightarrow> u64 \<Rightarrow> f32" where
  "reduction_percent found baseline =
     (if 0 < baseline
      then fmul F32 (fdiv F32 (fl_nat F32 (unat (baseline - found))) (fl_nat F32 (unat baseline)))
             (lit32 100)
      else lit32 0)"

text \<open>The change of the critical count is an \<open>i32\<close>, read by \<open>sint\<close>.\<close>

definition xr_compare :: "ExperimentResult \<Rightarrow> ExperimentResult \<Rightarrow> Comparison" where
  "xr_compare r baseline =
     \<lparr>cmp_reduction_percent = reduction_percent (xr_total_findings r) (xr_total_findings baseline),
      cmp_critical_change = ucast (xr_critical_count r) - ucast (xr_critical_count baseline),
      cmp_signal_boost_delta = fsub F32 (xr_signal_boost_avg r) (xr_signal_boost_avg baseline)\<rparr>"

section \<open>The gate\<close>

interpretation enforcement_gate: gate
  "\<lambda>(epss, kev, boost, signals, g).
     [\<not> fl_lt epss (cg_min_epss g), kev, \<not> fl_lt boost (cg_min_signal_boost g),
      list_all (\<lambda>r. list_ex (\<lambda>s. contains s r) signals) (cg_required_signals g)]"
  "\<lambda>(epss, kev, boost, signals, g). should_gate epss kev boost signals g"
  by unfold_locales (auto simp: should_gate_def)

text \<open>The name the report uses for the signals an event kind belongs to.\<close>

fun signal_name :: "EventKind \<Rightarrow> string option" where
  "signal_name KMmap = Some ''mmap''"
| "signal_name KMmapAnon = Some ''mmap''"
| "signal_name KTcpSend = Some ''tcp''"
| "signal_name KTcpRecv = Some ''tcp''"
| "signal_name KUdpSend = Some ''udp''"
| "signal_name KUdpRecv = Some ''udp''"
| "signal_name KSslWrite = Some ''ssl''"
| "signal_name KSslRead = Some ''ssl''"
| "signal_name KDnsQuery = Some ''dns''"
| "signal_name KMprotect = Some ''mprotect''"
| "signal_name KExec = Some ''suspicious_exec''"
| "signal_name _ = None"

lemma in_flagged: "x \<in> set (if b then [y] else []) \<longleftrightarrow> b \<and> x = y"
  by auto

lemma reported:
  "n \<in> set (disabled_signals a) \<longleftrightarrow>
     disable_mmap a \<and> n = ''mmap'' \<or> disable_tcp a \<and> n = ''tcp'' \<or> disable_udp a \<and> n = ''udp''
     \<or> disable_ssl a \<and> n = ''ssl'' \<or> disable_dns a \<and> n = ''dns''
     \<or> disable_mprotect a \<and> n = ''mprotect'' \<or> disable_suspicious_exec a \<and> n = ''suspicious_exec''"
  unfolding disabled_signals_def set_append Un_iff in_flagged by (simp only: disj_assoc)

lemma some_reported: "s \<in> Some ` set xs \<longleftrightarrow> (case s of None \<Rightarrow> False | Some n \<Rightarrow> n \<in> set xs)"
  by (auto split: option.splits)

lemma quotient_le_1: "0 < y \<Longrightarrow> 0 \<le> x \<Longrightarrow> x \<le> y \<Longrightarrow> fl_in 0 1 (fl_of F32 (x / y))"
  by (intro fl_of_in) (auto simp: divide_le_eq)

lemma fl32_1: "fl_of F32 1 = Fin 1"
  by (rule fl_of_id) simp

text \<open>A difference that is not negative gives a percentage.\<close>

lemma quotient_of_counts:
  assumes "m \<le> n" "0 < n"
  shows "fl_in 0 1 (fdiv F32 (fl_nat F32 m) (fl_nat F32 n)) \<or> fdiv F32 (fl_nat F32 m) (fl_nat F32 n) = NaN"
proof -
  have le: "fl_le (fl_nat F32 m) (fl_nat F32 n)" "fl_le (Fin 1) (fl_nat F32 n)" "fl_nonneg (fl_nat F32 m)"
    using fl_of_mono[of "of_nat m" "of_nat n" F32] fl_of_mono[of 1 "of_nat n" F32] assms
      fl_of_nonneg[of "of_nat m" F32]
    by (auto simp: fl_nat_def fl32_1)
  then show ?thesis
    by (cases "fl_nat F32 m"; cases "fl_nat F32 n") (auto intro!: quotient_le_1)
qed

text \<open>A count below \<open>2^64\<close> is far below the range of binary32.\<close>

lemma count_finite: "n < 2 ^ 64 \<Longrightarrow> \<exists>x. fl_nat F32 n = Fin x \<and> (0 < n \<longrightarrow> 1 \<le> x)"
proof -
  assume n: "n < 2 ^ 64"
  have "fl_bound F32 (2 ^ 64)"
    using powi2_representable[of F32 64] by (simp add: fl_bound_def F32_def power_int_def)
  moreover have "of_nat n \<le> (2::rat) ^ 64"
    using n by (metis less_imp_le of_nat_le_iff of_nat_numeral of_nat_power)
  ultimately have "fl_in 0 (2 ^ 64) (fl_nat F32 n)"
    unfolding fl_nat_def by (intro fl_of_in) auto
  moreover have "0 < n \<Longrightarrow> fl_le (Fin 1) (fl_nat F32 n)"
    using fl_of_mono[of 1 "of_nat n" F32] by (simp add: fl_nat_def fl32_1)
  ultimately show ?thesis by (cases "fl_nat F32 n") auto
qed

text \<open>Rounding does not lower a value below a power of two it reaches.\<close>

lemma big_value:
  assumes "k \<le> 63" "2 ^ k \<le> q"
  shows "fl_le (Fin (2 ^ k)) (fl_of F32 q)"
proof -
  have "fl_bound F32 (2 ^ k)"
    using assms(1) powi2_representable[of F32 "int k"] power_strict_increasing[of k 128 "2 :: rat"]
    by (simp add: fl_bound_def F32_def power_int_def)
  then show ?thesis using fl_of_mono[OF assms(2), of F32] by (simp add: fl_of_id)
qed

lemma big_count: "2 ^ k \<le> n \<Longrightarrow> k \<le> 63 \<Longrightarrow> fl_le (Fin (2 ^ k)) (fl_nat F32 n)"
  unfolding fl_nat_def by (rule big_value) (auto simp: numeral_power_le_of_nat_cancel_iff)

lemma fl_nat_small32: "n < 2 ^ 24 \<Longrightarrow> fl_nat F32 n = Fin (of_nat n)"
  using fl_bound_int(1)[of "int n"] by (auto simp: fl_nat_def intro: fl_of_id)

lemma big_ratio:
  assumes "0 < n" "n < 2 ^ 24" "2 ^ 63 \<le> (q :: rat)"
  shows "2 ^ 39 \<le> q / of_nat n"
proof -
  have "of_nat n \<le> (2::rat) ^ 24"
    using assms(2) by (metis less_imp_le of_nat_le_iff of_nat_numeral of_nat_power)
  then have "(2::rat) ^ 39 * of_nat n \<le> 2 ^ 39 * 2 ^ 24" by (intro mult_left_mono) auto
  also have "\<dots> \<le> q" using assms(3) by simp
  finally show ?thesis using assms(1) by (simp add: le_divide_eq)
qed

lemma big_quotient:
  assumes "0 < n" "n < 2 ^ 24" "fl_le (Fin (2 ^ 63)) a"
  shows "fl_le (Fin (2 ^ 39)) (fdiv F32 a (fl_nat F32 n))"
  using assms big_ratio[OF assms(1,2)] big_value[of 39]
  by (cases a) (auto simp: inf_of_sgn_def fl_nat_small32)

lemma times_100: "fl_le (Fin (2 ^ 39)) r \<Longrightarrow> fl_le (Fin (2 ^ 39)) (fmul F32 r (Fin 100))"
  using big_value[of 39] by (cases r) (auto simp: inf_of_sgn_def)

lemma reduction_in_range:
  assumes "found \<le> baseline"
  shows "fl_in 0 100 (reduction_percent found baseline)"
proof (cases "0 < baseline")
  case True
  have d: "unat (baseline - found) \<le> unat baseline"
    using assms by (simp add: unat_sub)
  have b: "0 < unat baseline" using True by (simp add: word_less_nat_alt)
  obtain x y where "fl_nat F32 (unat (baseline - found)) = Fin x" "fl_nat F32 (unat baseline) = Fin y" "1 \<le> y"
    using count_finite[of "unat (baseline - found)"] count_finite[of "unat baseline"]
      unsigned_less[of "baseline - found"] unsigned_less[of baseline] b by auto
  then have "fl_in 0 1 (fdiv F32 (fl_nat F32 (unat (baseline - found))) (fl_nat F32 (unat baseline)))"
    using quotient_of_counts[OF d b] by (auto simp: fl_of_def Let_def split: if_splits)
  moreover have "lit32 100 = Fin 100" by (rule fl_of_id) simp
  ultimately show ?thesis
    using True unfolding reduction_percent_def by (auto intro!: fmul_in[of 1 _ 100])
qed (simp add: reduction_percent_def fl_of_id)

lemma reduction_wraps:
  assumes "baseline < found" "found < 2 ^ 63" "0 < baseline" "baseline < 2 ^ 24"
  shows "fl_le (Fin (2 ^ 39)) (reduction_percent found baseline)"
proof -
  have le: "unat baseline < unat found" "unat found < 2 ^ 63" "unat baseline < 2 ^ 24" "0 < unat baseline"
    using assms by (simp_all add: word_less_nat_alt)
  then have m: "2 ^ 63 \<le> unat (baseline - found)"
    by (simp add: unat_sub_if' not_le)
  have x: "fl_le (Fin (2 ^ 63)) (fl_nat F32 (unat (baseline - found)))"
    by (rule big_count[OF m]) simp
  have "fl_le (Fin (2 ^ 39)) (fdiv F32 (fl_nat F32 (unat (baseline - found))) (fl_nat F32 (unat baseline)))"
    by (rule big_quotient[OF le(4,3) x])
  moreover have "lit32 100 = Fin 100" by (rule fl_of_id) simp
  ultimately show ?thesis
    unfolding reduction_percent_def using assms(3) times_100 by auto
qed

section \<open>Properties\<close>

text \<open>The report of an ablation names exactly the signals it switches off: an event kind is disabled
  if and only if it has a signal name and that name is in the report.\<close>

theorem ablation_report_is_exact:
  "is_disabled k a \<longleftrightarrow> signal_name k \<in> Some ` set (disabled_signals a)"
  by (cases k) (simp_all add: some_reported reported)

text \<open>Enforcement passes the gate exactly when EPSS and boost are not below their minimum, the CVE is
  in the KEV catalogue and every required signal occurs in some observed one; a NaN is not
  below anything and passes.\<close>

theorem gate_passes_iff:
  "(should_gate epss kev boost signals g \<longleftrightarrow>
     \<not> fl_lt epss (cg_min_epss g) \<and> kev \<and> \<not> fl_lt boost (cg_min_signal_boost g)
     \<and> list_all (\<lambda>r. list_ex (\<lambda>s. contains s r) signals) (cg_required_signals g))
   \<and> should_gate NaN True NaN (cg_required_signals g) g"
  using enforcement_gate.allows_iff[of "(epss, kev, boost, signals, g)"]
  by (auto simp: should_gate_def list_all_iff list_ex_iff)

text \<open>A run with fewer findings than the baseline shows a reduction between 0 and 100 percent.\<close>

theorem reduction_is_a_percentage:
  assumes "found \<le> baseline"
  shows "fl_in 0 100 (reduction_percent found baseline)"
  using assms by (rule reduction_in_range)

theorem reduction_is_a_percentage_witness: "fl_in 0 100 (reduction_percent 3 4)"
  by (rule reduction_is_a_percentage) simp

text \<open>A run with more findings than the baseline is not shown as a negative reduction: the difference of
  the unsigned counts wraps, and the report claims a reduction of more than a billion percent.\<close>

theorem growth_reads_as_reduction:
  assumes "baseline < found" "found < 2 ^ 63" "0 < baseline" "baseline < 2 ^ 24"
  shows "fl_le (Fin (2 ^ 39)) (reduction_percent found baseline)"
  using assms by (rule reduction_wraps)

theorem growth_reads_as_reduction_witness: "fl_le (Fin (2 ^ 39)) (reduction_percent 5 4)"
  by (rule growth_reads_as_reduction) simp_all

end
