(* ===== verification/Anomaly_Detector.thy ===== *)
theory Anomaly_Detector
  imports Float_Sums Interfaces
begin

text \<open>
  \<open>anomaly_detector.rs\<close>: the running mean and variance of eight workload features (Welford's
  update), the z-score of a new observation, and the verdict. The clock is an argument.
\<close>

section \<open>Features and running statistics\<close>

record WorkloadFeatures =
  wf_signal_count :: f64
  wf_library_load_rate :: f64
  wf_network_connection_count :: f64
  wf_data_transfer_volume :: f64
  wf_unique_syscall_count :: f64
  wf_unique_file_path_count :: f64
  wf_event_rate :: f64
  wf_error_rate :: f64

definition wf_to_vec :: "WorkloadFeatures \<Rightarrow> f64 list" where
  "wf_to_vec f =
     [wf_signal_count f, wf_library_load_rate f, wf_network_connection_count f,
      wf_data_transfer_volume f, wf_unique_syscall_count f, wf_unique_file_path_count f,
      wf_event_rate f, wf_error_rate f]"

definition wf_len :: "WorkloadFeatures \<Rightarrow> nat" where "wf_len f = 8"

definition wf_is_empty :: "WorkloadFeatures \<Rightarrow> bool" where "wf_is_empty f = False"

record RunningStats =
  rs_count :: u64
  rs_mean :: f64
  rs_m2 :: f64

definition RunningStats_new :: RunningStats where
  "RunningStats_new = \<lparr>rs_count = 0, rs_mean = lit64 0, rs_m2 = lit64 0\<rparr>"

definition rs_update :: "f64 \<Rightarrow> RunningStats \<Rightarrow> RunningStats" where
  "rs_update v s =
     (let n = rs_count s + 1;
          delta = fsub F64 v (rs_mean s);
          mean = fadd F64 (rs_mean s) (fdiv F64 delta (fl_nat F64 (unat n)));
          delta2 = fsub F64 v mean
      in \<lparr>rs_count = n, rs_mean = mean, rs_m2 = fadd F64 (rs_m2 s) (fmul F64 delta delta2)\<rparr>)"

definition rs_variance :: "RunningStats \<Rightarrow> f64" where
  "rs_variance s =
     (if rs_count s < 2 then lit64 1
      else fdiv F64 (rs_m2 s) (fl_nat F64 (unat (rs_count s - 1))))"

definition std_dev :: "RunningStats \<Rightarrow> f64" where
  "std_dev s = fsqrt F64 (rs_variance s)"

definition z_score :: "f64 \<Rightarrow> RunningStats \<Rightarrow> f64" where
  "z_score v s =
     (let std = std_dev s
      in if fl_lt std (lit64 (1 / 10 ^ 10)) then lit64 0
         else fdiv F64 (fsub F64 v (rs_mean s)) std)"

section \<open>The detector\<close>

record AnomalousFeature =
  af_feature_name :: string
  af_value :: f64
  af_z_score :: f64
  af_mean :: f64
  af_std_dev :: f64

record AnomalyResult =
  ar_workload_id :: string
  ar_is_anomalous :: bool
  ar_anomaly_score :: f64
  ar_anomalous_features :: "AnomalousFeature list"
  ar_timestamp :: int

record BaselineStat =
  bl_feature_name :: string
  bl_mean :: f64
  bl_std_dev :: f64
  bl_count :: u64

record AnomalyDetector =
  ad_feature_stats :: "RunningStats list"
  ad_threshold :: f64
  ad_min_samples :: u64
  ad_feature_count :: nat

definition AnomalyDetector_new :: "f64 \<Rightarrow> u64 \<Rightarrow> AnomalyDetector" where
  "AnomalyDetector_new threshold min_samples =
     \<lparr>ad_feature_stats = replicate 8 RunningStats_new, ad_threshold = threshold,
      ad_min_samples = min_samples, ad_feature_count = 8\<rparr>"

definition feature_names :: "string list" where
  "feature_names =
     [''signal_count'', ''library_load_rate'', ''network_connection_count'',
      ''data_transfer_volume'', ''unique_syscall_count'', ''unique_file_path_count'',
      ''event_rate'', ''error_rate'']"

text \<open>The guard \<open>i < feature_count\<close> always holds: both are eight.\<close>

definition update_baseline :: "WorkloadFeatures \<Rightarrow> AnomalyDetector \<Rightarrow> AnomalyDetector" where
  "update_baseline f d =
     d\<lparr>ad_feature_stats := map2 rs_update (wf_to_vec f) (ad_feature_stats d)\<rparr>"

text \<open>The absolute z-scores, and the features beyond the threshold.\<close>

definition abs_scores :: "AnomalyDetector \<Rightarrow> WorkloadFeatures \<Rightarrow> f64 list" where
  "abs_scores d f = map2 (\<lambda>v s. fabs (z_score v s)) (wf_to_vec f) (ad_feature_stats d)"

definition anomalous_feature :: "string \<Rightarrow> f64 \<Rightarrow> RunningStats \<Rightarrow> AnomalousFeature" where
  "anomalous_feature name v s =
     \<lparr>af_feature_name = name, af_value = v, af_z_score = fabs (z_score v s), af_mean = rs_mean s,
      af_std_dev = std_dev s\<rparr>"

definition ad_detect :: "string \<Rightarrow> int \<Rightarrow> WorkloadFeatures \<Rightarrow> AnomalyDetector \<Rightarrow> AnomalyResult" where
  "ad_detect wid now f d =
     (if rs_count (hd (ad_feature_stats d)) < ad_min_samples d
      then \<lparr>ar_workload_id = wid, ar_is_anomalous = False, ar_anomaly_score = lit64 0,
            ar_anomalous_features = [], ar_timestamp = now\<rparr>
      else
        (let max_z = foldl fmax (lit64 0) (abs_scores d f);
             found = map (\<lambda>(name, v, s). anomalous_feature name v s)
                       (filter (\<lambda>(name, v, s). fl_gt (fabs (z_score v s)) (ad_threshold d))
                          (zip feature_names (zip (wf_to_vec f) (ad_feature_stats d))));
             score = fmin (fdiv F64 max_z (fmul F64 (ad_threshold d) (lit64 2))) (lit64 1)
         in \<lparr>ar_workload_id = wid, ar_is_anomalous = (found \<noteq> []), ar_anomaly_score = score,
             ar_anomalous_features = found, ar_timestamp = now\<rparr>))"

definition baseline_stats :: "AnomalyDetector \<Rightarrow> BaselineStat list" where
  "baseline_stats d =
     map2 (\<lambda>name s. \<lparr>bl_feature_name = name, bl_mean = rs_mean s, bl_std_dev = std_dev s,
                      bl_count = rs_count s\<rparr>)
       feature_names (ad_feature_stats d)"

definition ad_reset :: "AnomalyDetector \<Rightarrow> AnomalyDetector" where
  "ad_reset d = d\<lparr>ad_feature_stats := replicate (ad_feature_count d) RunningStats_new\<rparr>"

section \<open>Rounding facts\<close>

text \<open>Rounding yields a representable value, and is odd.\<close>

lemma representable_neg: "representable F x \<Longrightarrow> representable F (- x)"
  unfolding representable_def by (metis abs_minus_cancel minus_mult_left of_int_minus)

lemma round_at_ulp_representable:
  assumes "0 < x" "0 < prec F"
  shows "representable F (round_at (ulp_exp F x) x)"
proof -
  let ?e = "ulp_exp F x"
  let ?r = "rne (x / 2 powi ?e)"
  have e: "emin F \<le> ?e" "ilog2 x + 1 \<le> prec F + ?e" by (auto simp: ulp_exp_def)
  have "x \<le> 2 powi (prec F + ?e)"
    using ilog2_spec(2)[OF assms(1)] powi2_mono[OF e(2)] by simp
  then have "x / 2 powi ?e \<le> 2 powi prec F" by (simp add: power_int_add divide_le_eq)
  also have p: "(2::rat) powi prec F = of_int (2 ^ nat (prec F))" using assms(2) by (simp add: powi2_nat)
  finally have "?r \<le> 2 ^ nat (prec F)" using rne_mono rne_of_int by metis
  moreover have "0 \<le> ?r" using rne_mono[of 0 "x / 2 powi ?e"] rne_of_int[of 0] assms(1) by simp
  ultimately consider "?r = 2 ^ nat (prec F)" | "\<bar>of_int ?r\<bar> < (2::rat) powi prec F"
    unfolding p by (metis abs_of_nonneg of_int_abs of_int_less_iff order_le_less)
  then show ?thesis
  proof cases
    case 1
    then have "round_at ?e x = 2 powi (prec F + ?e)" by (simp add: round_at_def power_int_add p)
    then show ?thesis using powi2_representable[of F "prec F + ?e"] e(1) assms(2) by simp
  next
    case 2
    then show ?thesis unfolding representable_def round_at_def using e(1) by blast
  qed
qed

lemma round_rat_representable: "0 < prec F \<Longrightarrow> representable F (round_rat F x)"
proof -
  assume p: "0 < prec F"
  have "representable F 0" unfolding representable_def by (intro exI[of _ 0] exI[of _ "emin F"]) simp
  then show ?thesis
    using round_at_ulp_representable[of x F] representable_neg[OF round_at_ulp_representable[of "- x" F]] p
    by (auto simp: round_rat_def)
qed

lemma round_rat_neg: "round_rat F (- x) = - round_rat F x"
  by (simp add: round_rat_def)

text \<open>Representable values lie on the grid of the smallest one.\<close>

definition on_grid :: "float_format \<Rightarrow> rat \<Rightarrow> bool" where
  "on_grid F x \<longleftrightarrow> (\<exists>m. x = of_int m * 2 powi emin F)"

lemma representable_on_grid: "representable F x \<Longrightarrow> on_grid F x"
proof -
  assume "representable F x"
  then obtain m k where x: "x = of_int m * 2 powi k" and k: "emin F \<le> k" unfolding representable_def by blast
  then have "x = of_int (m * 2 ^ nat (k - emin F)) * 2 powi emin F"
    using powi2_diff_int[OF k] powi2_pos[of "emin F"] by (simp add: field_simps)
  then show ?thesis unfolding on_grid_def by blast
qed

lemma on_grid_diff: "on_grid F x \<Longrightarrow> on_grid F y \<Longrightarrow> on_grid F (x - y)"
  unfolding on_grid_def by (metis left_diff_distrib of_int_diff)

lemma on_grid_neg: "on_grid F x \<Longrightarrow> on_grid F (- x)"
  unfolding on_grid_def by (metis minus_mult_left of_int_minus)

text \<open>A quotient of a rounded difference by at least two does not pass the exact difference.\<close>

lemma half_representable:
  assumes "representable F d" "2 powi (emin F + prec F) \<le> d"
  shows "representable F (d / 2)"
proof -
  obtain m k where d: "d = of_int m * 2 powi k" "\<bar>of_int m\<bar> < (2::rat) powi prec F" "emin F \<le> k"
    using assms(1) unfolding representable_def by blast
  have "emin F < k"
  proof (rule ccontr)
    assume "\<not> emin F < k"
    with d(3) have k: "k = emin F" by simp
    have "d < 2 powi prec F * 2 powi k" using d(1,2) powi2_pos[of k] by (auto simp: abs_less_iff)
    with assms(2) show False by (simp add: k power_int_add mult.commute)
  qed
  moreover have "d / 2 = of_int m * 2 powi (k - 1)" using d(1) by (simp add: power_int_diff)
  ultimately show ?thesis using d(2) unfolding representable_def by (intro exI[of _ m] exI[of _ "k - 1"]) simp
qed

lemma round_exact_small:
  assumes "on_grid F x" "0 \<le> x" "x < 2 powi (emin F + prec F)"
  shows "round_rat F x = x"
proof -
  obtain m where m: "x = of_int m * 2 powi emin F" using assms(1) unfolding on_grid_def by blast
  have "of_int m * (2::rat) powi emin F < 2 powi prec F * 2 powi emin F"
    using assms(3) m by (simp add: power_int_add mult.commute)
  then have "of_int m < (2::rat) powi prec F" by simp
  moreover have "0 \<le> (of_int m :: rat)" using assms(2) m by (metis mult_neg_pos not_le powi2_pos)
  ultimately have "representable F x"
    unfolding representable_def using m by (intro exI[of _ m] exI[of _ "emin F"]) auto
  then show ?thesis by (rule round_rat_id)
qed

lemma round_quotient_le:
  assumes "on_grid F x" "0 \<le> x" "2 \<le> c" "0 < prec F"
  shows "0 \<le> round_rat F (round_rat F x / c)" "round_rat F (round_rat F x / c) \<le> x"
proof -
  let ?d = "round_rat F x"
  have d0: "0 \<le> ?d" using round_rat_mono[OF assms(2,4)] by (simp add: round_rat_def)
  have d: "representable F ?d" using assms(4) by (rule round_rat_representable)
  show "0 \<le> round_rat F (?d / c)" using round_rat_mono[of 0 "?d / c" F] d0 assms(3,4) by (simp add: round_rat_def)
  show "round_rat F (?d / c) \<le> x"
  proof (cases "x < 2 powi (emin F + prec F)")
    case True
    have "round_rat F (?d / c) \<le> round_rat F ?d"
      using d0 assms(3,4) by (intro round_rat_mono) (auto simp: divide_le_eq mult_le_cancel_left1)
    then show ?thesis using round_exact_small[OF assms(1,2) True] by simp
  next
    case False
    have "2 powi (emin F + prec F) \<le> ?d"
      using round_rat_mono[of "2 powi (emin F + prec F)" x F] False assms(4)
        round_rat_id[OF powi2_representable[of F "emin F + prec F"]] by simp
    then have "round_rat F (?d / 2) = ?d / 2" by (intro round_rat_id half_representable d)
    moreover have "round_rat F (?d / c) \<le> round_rat F (?d / 2)"
      using d0 assms(3,4) by (intro round_rat_mono divide_left_mono) auto
    moreover have "?d \<le> 2 * x"
      using assms unfolding on_grid_def by (auto intro: round_rat_le_double)
    ultimately show ?thesis by simp
  qed
qed

section \<open>The running statistics\<close>

lemma round_quotient_bounds:
  assumes "representable F64 m" "representable F64 x" "2 \<le> c"
  shows "min 0 (x - m) \<le> round_rat F64 (round_rat F64 (x - m) / c)"
    "round_rat F64 (round_rat F64 (x - m) / c) \<le> max 0 (x - m)" "\<bar>round_rat F64 (x - m) / c\<bar> \<le> \<bar>x - m\<bar>"
proof -
  let ?q = "\<lambda>d. round_rat F64 (round_rat F64 d / c)"
  have pos: "0 \<le> ?q d \<and> ?q d \<le> d \<and> \<bar>round_rat F64 d / c\<bar> \<le> \<bar>d\<bar>" if d: "0 \<le> d" "on_grid F64 d" for d
  proof -
    have "0 \<le> round_rat F64 d" using round_rat_mono[of 0 d F64] d by (simp add: round_rat_def)
    moreover have "round_rat F64 d \<le> 2 * d" using d unfolding on_grid_def by (auto intro: round_rat_le_double)
    moreover have "d * 2 \<le> d * c" using d assms(3) by (intro mult_left_mono)
    ultimately have "\<bar>round_rat F64 d / c\<bar> \<le> \<bar>d\<bar>" using d assms(3) by (simp add: divide_le_eq)
    then show ?thesis using round_quotient_le[OF d(2,1) assms(3)] by simp
  qed
  have neg: "?q (- d) = - ?q d" for d
    unfolding round_rat_neg minus_divide_left[symmetric] round_rat_neg ..
  have g: "on_grid F64 (x - m)" "on_grid F64 (- (x - m))"
    using assms by (auto intro: on_grid_diff representable_on_grid simp: minus_diff_eq)
  have "min 0 (x - m) \<le> ?q (x - m) \<and> ?q (x - m) \<le> max 0 (x - m) \<and> \<bar>round_rat F64 (x - m) / c\<bar> \<le> \<bar>x - m\<bar>"
  proof (cases "0 \<le> x - m")
    case True
    then show ?thesis using pos[OF True g(1)] by auto
  next
    case False
    then show ?thesis
      using pos[of "- (x - m)"] g(2) neg[of "x - m"] round_rat_neg[of F64 "x - m"] by auto
  qed
  then show "min 0 (x - m) \<le> ?q (x - m)" "?q (x - m) \<le> max 0 (x - m)"
    "\<bar>round_rat F64 (x - m) / c\<bar> \<le> \<bar>x - m\<bar>" by auto
qed

text \<open>A step of the mean moves towards the new value and not past it.\<close>

definition mean_step :: "rat \<Rightarrow> rat \<Rightarrow> rat \<Rightarrow> rat" where
  "mean_step m x c = round_rat F64 (m + round_rat F64 (round_rat F64 (x - m) / c))"

lemma mean_step_between:
  assumes "representable F64 m" "representable F64 x" "2 \<le> c"
  shows "min m x \<le> mean_step m x c" "mean_step m x c \<le> max m x"
proof -
  have "min m x \<le> m + round_rat F64 (round_rat F64 (x - m) / c)"
    "m + round_rat F64 (round_rat F64 (x - m) / c) \<le> max m x"
    using round_quotient_bounds[OF assms] by auto
  moreover have "round_rat F64 (min m x) = min m x" "round_rat F64 (max m x) = max m x"
    using assms by (auto simp: min_def max_def intro: round_rat_id)
  ultimately show "min m x \<le> mean_step m x c" "mean_step m x c \<le> max m x"
    unfolding mean_step_def by (metis prec_pos(2) round_rat_mono)+
qed

text \<open>The invariant: the mean is a number in the range of the data, the sum of squares is not negative.\<close>

definition stats_ok :: "rat \<Rightarrow> RunningStats \<Rightarrow> bool" where
  "stats_ok b s \<longleftrightarrow>
     (\<exists>m. rs_mean s = Fin m \<and> representable F64 m \<and> 0 \<le> m \<and> m \<le> b \<and> (rs_count s = 0 \<longrightarrow> m = 0))
     \<and> fl_nonneg (rs_m2 s)"

definition data_ok :: "rat \<Rightarrow> f64 \<Rightarrow> bool" where
  "data_ok b v \<longleftrightarrow> (\<exists>x. v = Fin x \<and> representable F64 x \<and> 0 \<le> x \<and> x \<le> b)"

lemma fl_of_round: "fl_bound F b \<Longrightarrow> \<bar>x\<bar> \<le> b \<Longrightarrow> fl_of F x = Fin (round_rat F x)"
proof -
  assume b: "fl_bound F b" "\<bar>x\<bar> \<le> b"
  then have "representable F b" "representable F (- b)" "0 < prec F" by (auto simp: fl_bound_def intro: representable_neg)
  then have "- b \<le> round_rat F x" "round_rat F x \<le> b"
    using round_rat_between[of "- b" x b F] b(2) by (auto simp: abs_le_iff)
  with b show ?thesis by (auto simp: fl_bound_def fl_of_def Let_def abs_less_iff)
qed

lemma product_same_sign:
  "0 \<le> x * y \<Longrightarrow> fl_nonneg (fl_of F64 (x * y))"
  by (rule fl_of_nonneg) simp_all

lemma round_same_sign: "0 \<le> x * y \<Longrightarrow> 0 \<le> round_rat F64 x * round_rat F64 y"
proof -
  have pos: "0 \<le> round_rat F64 z" if "0 \<le> z" for z
    using round_rat_mono[of 0 z F64] that by (simp add: round_rat_def)
  have neg: "round_rat F64 z \<le> 0" if "z \<le> 0" for z
    using round_rat_mono[of z 0 F64] that by (simp add: round_rat_def)
  assume "0 \<le> x * y"
  then consider "0 \<le> x" "0 \<le> y" | "x \<le> 0" "y \<le> 0" by (auto simp: zero_le_mult_iff)
  then show ?thesis by cases (simp_all add: pos neg mult_nonpos_nonpos)
qed

lemma stats_ok_new: "0 \<le> b \<Longrightarrow> stats_ok b RunningStats_new"
  unfolding stats_ok_def RunningStats_new_def
  by (auto simp: fl_of_id representable_def intro!: exI[of _ 0] exI[of _ "emin F64"])

lemma count_in_range: "n < 2 ^ 64 \<Longrightarrow> fl_in 0 (2 ^ 64) (fl_nat F64 n)"
proof -
  assume n: "n < 2 ^ 64"
  have "fl_bound F64 (2 ^ 64)"
    using powi2_representable[of F64 64] power_strict_increasing[of 64 1024 "2 :: rat"]
    by (simp add: fl_bound_def F64_def power_int_def)
  moreover have "of_nat n \<le> (2::rat) ^ 64"
    using n by (metis less_imp_le of_nat_le_iff of_nat_numeral of_nat_power)
  ultimately show ?thesis unfolding fl_nat_def by (intro fl_of_in) auto
qed

lemma count_at_least:
  assumes "n < 2 ^ 64" "k \<le> n" "k < 2 ^ 24"
  obtains c where "fl_nat F64 n = Fin c" "of_nat k \<le> c"
proof -
  have "fl_le (fl_nat F64 k) (fl_nat F64 n)"
    using fl_of_mono[of "of_nat k" "of_nat n" F64] assms(2) by (simp add: fl_nat_def)
  then show ?thesis using that count_in_range[OF assms(1)] assms(3) by (cases "fl_nat F64 n") (auto simp: fl_nat_small)
qed

lemma stats_ok_update:
  assumes s: "stats_ok b s" and v: "data_ok b v" and b: "fl_bound F64 b" and n: "rs_count s + 1 \<noteq> 0"
  shows "stats_ok b (rs_update v s)"
proof -
  obtain m where m: "rs_mean s = Fin m" "representable F64 m" "0 \<le> m" "m \<le> b" "rs_count s = 0 \<longrightarrow> m = 0"
    and m2: "fl_nonneg (rs_m2 s)"
    using s unfolding stats_ok_def by blast
  obtain x where x: "v = Fin x" "representable F64 x" "0 \<le> x" "x \<le> b" using v unfolding data_ok_def by blast
  have d: "fsub F64 v (Fin y) = Fin (round_rat F64 (x - y))" if "0 \<le> y" "y \<le> b" for y
    using that x b by (simp add: fsub_def fl_of_round[of F64 b])
  obtain m' where m': "fadd F64 (Fin m) (fdiv F64 (Fin (round_rat F64 (x - m))) (fl_nat F64 (unat (rs_count s + 1)))) = Fin m'"
    "representable F64 m'" "min m x \<le> m'" "m' \<le> max m x" "0 \<le> (x - m) * (x - m')"
  proof (cases "rs_count s = 0")
    case True
    then have "fl_nat F64 (unat (rs_count s + 1)) = Fin 1" by (simp add: fl_nat_def fl_of_1)
    then show ?thesis
      using that[of x] m x True b by (simp add: round_rat_id fl_of_round[of F64 b])
  next
    case False
    have "2 \<le> unat (rs_count s + 1)"
    proof -
      have "unat (rs_count s + 1) = unat (rs_count s) + 1" using n by (simp add: unatSuc add.commute)
      moreover have "0 < unat (rs_count s)" using False by (simp add: unat_gt_0)
      ultimately show ?thesis by simp
    qed
    moreover have "unat (rs_count s + 1) < 2 ^ 64" using unsigned_less[of "rs_count s + 1"] by simp
    ultimately obtain c where c: "fl_nat F64 (unat (rs_count s + 1)) = Fin c" "2 \<le> c"
      using count_at_least[of "unat (rs_count s + 1)" 2] by auto
    note q = round_quotient_bounds[OF m(2) x(2) c(2)]
    have "\<bar>round_rat F64 (x - m) / c\<bar> \<le> b" "\<bar>m + round_rat F64 (round_rat F64 (x - m) / c)\<bar> \<le> b"
      using q m x b c by auto
    then show ?thesis
      using that[of "mean_step m x c"] mean_step_between[OF m(2) x(2) c(2)] c b
      by (auto simp: fl_of_round[of F64 b] mean_step_def round_rat_representable zero_le_mult_iff min_def max_def
          split: if_splits)
  qed
  have r: "0 \<le> m'" "m' \<le> b" using m' m x by (auto simp: min_def max_def split: if_splits)
  have "fl_nonneg (fmul F64 (Fin (round_rat F64 (x - m))) (Fin (round_rat F64 (x - m'))))"
    using m'(5) by (auto intro: product_same_sign round_same_sign)
  then have "fl_nonneg (fadd F64 (rs_m2 s) (fmul F64 (Fin (round_rat F64 (x - m))) (Fin (round_rat F64 (x - m')))))"
    using m2 by (intro fadd_nonneg) auto
  then show ?thesis
    using m' r n unfolding stats_ok_def rs_update_def Let_def m(1) d[OF m(3,4)] m'(1) d[OF r] by auto
qed

text \<open>What the invariant says of the numbers a caller sees.\<close>

lemma stats_ok_summary:
  assumes "stats_ok b s"
  shows "fl_in 0 b (rs_mean s)" "fl_nonneg (rs_variance s)" "fl_nonneg (std_dev s)"
proof -
  show "fl_in 0 b (rs_mean s)" using assms by (auto simp: stats_ok_def)
  show v: "fl_nonneg (rs_variance s)"
  proof (cases "rs_count s < 2")
    case False
    have n: "0 < unat (rs_count s - 1)"
    proof -
      have "rs_count s \<noteq> 1" using False by auto
      then show ?thesis by (simp add: unat_gt_0)
    qed
    have "unat (rs_count s - 1) < 2 ^ 64" using unsigned_less[of "rs_count s - 1"] by simp
    then obtain c where "fl_nat F64 (unat (rs_count s - 1)) = Fin c" "1 \<le> c"
      using count_at_least[of "unat (rs_count s - 1)" 1] n by auto
    then show ?thesis
      using assms False unfolding stats_ok_def rs_variance_def by (auto intro!: fdiv_nonneg)
  qed (simp add: rs_variance_def fl_of_nonneg)
  show "fl_nonneg (std_dev s)" unfolding std_dev_def by (rule fsqrt_nonneg[OF v])
qed

definition detector_ok :: "rat \<Rightarrow> nat \<Rightarrow> AnomalyDetector \<Rightarrow> bool" where
  "detector_ok b n d \<longleftrightarrow>
     length (ad_feature_stats d) = 8 \<and>
     (\<forall>s \<in> set (ad_feature_stats d). stats_ok b s \<and> unat (rs_count s) \<le> n)"

lemma detector_ok_new: "0 \<le> b \<Longrightarrow> detector_ok b 0 (AnomalyDetector_new t n)"
  by (simp add: detector_ok_def AnomalyDetector_new_def stats_ok_new) (simp add: RunningStats_new_def)

lemma detector_ok_update:
  assumes "detector_ok b n d" "list_all (data_ok b) (wf_to_vec f)" "fl_bound F64 b" "n < 2 ^ 63"
  shows "detector_ok b (Suc n) (update_baseline f d)"
proof -
  have len: "length (ad_feature_stats (update_baseline f d)) = 8"
    using assms(1) by (simp add: detector_ok_def update_baseline_def wf_to_vec_def)
  moreover have "stats_ok b t \<and> unat (rs_count t) \<le> Suc n"
    if t: "t \<in> set (ad_feature_stats (update_baseline f d))" for t
  proof -
    obtain v s where vs: "(v, s) \<in> set (zip (wf_to_vec f) (ad_feature_stats d))" "t = rs_update v s"
      using t by (auto simp: update_baseline_def)
    then have s: "stats_ok b s" "unat (rs_count s) \<le> n" and v: "data_ok b v"
      using assms(1,2) by (auto simp: detector_ok_def list_all_iff dest: set_zip_rightD set_zip_leftD)
    have nz: "rs_count s + 1 \<noteq> 0"
    proof
      assume "rs_count s + 1 = 0"
      then have "rs_count s = - 1" by (simp add: eq_neg_iff_add_eq_0)
      then have "unat (rs_count s) = unat (- 1 :: u64)" by (rule arg_cong)
      also have "\<dots> = 2 ^ 64 - 1" by (simp add: unsigned_minus_1_eq_mask mask_eq_exp_minus_1)
      finally show False using s(2) assms(4) by simp
    qed
    then have "unat (rs_count s + 1) = Suc (unat (rs_count s))" by (simp add: unatSuc add.commute)
    then show ?thesis
      using stats_ok_update[OF s(1) v assms(3) nz] s(2) by (simp add: vs(2) rs_update_def Let_def)
  qed
  ultimately show ?thesis unfolding detector_ok_def by blast
qed

lemma detector_ok_run:
  "fl_bound F64 b \<Longrightarrow> \<forall>f \<in> set fs. list_all (data_ok b) (wf_to_vec f) \<Longrightarrow> detector_ok b n d \<Longrightarrow>
   n + length fs < 2 ^ 63 \<Longrightarrow> detector_ok b (n + length fs) (foldl (\<lambda>d f. update_baseline f d) d fs)"
proof (induction fs arbitrary: n d)
  case (Cons f fs)
  then have "detector_ok b (Suc n) (update_baseline f d)" by (intro detector_ok_update) auto
  then show ?case using Cons.IH[of "Suc n" "update_baseline f d"] Cons.prems by simp
qed simp

section \<open>The verdict\<close>

lemma fabs_nonneg: "fl_nonneg (fabs a) \<or> fabs a = NaN"
  by (cases a) (auto simp: fabs_def)

lemma foldl_fmax_nonneg:
  "fl_nonneg a \<Longrightarrow> \<forall>x \<in> set xs. fl_nonneg x \<or> x = NaN \<Longrightarrow> fl_nonneg (foldl fmax a xs)"
proof (induction xs arbitrary: a)
  case (Cons x xs)
  then have "fl_nonneg (fmax a x)" by (auto simp: fmax_def intro: fl_le_trans)
  then show ?case using Cons by simp
qed simp

lemma normalised_in:
  assumes "fl_nonneg m" "fl_gt t (Fin 0)"
  shows "fl_in 0 1 (fmin (fdiv F64 m (fmul F64 t (lit64 2))) (lit64 1))"
proof -
  have c: "fl_in 0 1 (fmin q (Fin 1))" if "fl_nonneg q \<or> q = NaN" for q
    using that by (cases q) (auto simp: fmin_def)
  have "fl_nonneg (fmul F64 t (Fin 2))"
    using assms(2) by (cases t) (auto intro!: fl_of_nonneg simp: inf_of_sgn_def)
  then have "fl_nonneg (fdiv F64 m (fmul F64 t (Fin 2))) \<or> fdiv F64 m (fmul F64 t (Fin 2)) = NaN"
    using assms(1) by (cases m; cases "fmul F64 t (Fin 2)") (auto intro!: fl_of_nonneg simp: inf_of_sgn_def)
  from c[OF this] show ?thesis by (simp add: fl_of_id)
qed

lemma scores_of_found:
  "length ns = length xs \<Longrightarrow> length xs = length ys \<Longrightarrow>
   map (\<lambda>(n, v, s). g v s) (filter (\<lambda>(n, v, s). P (g v s)) (zip ns (zip xs ys))) = filter P (map2 g xs ys)"
proof (induction ns arbitrary: xs ys)
  case (Cons n ns)
  then show ?case by (cases xs; cases ys) auto
qed simp

definition flat_features :: "f64 \<Rightarrow> WorkloadFeatures" where
  "flat_features v =
     \<lparr>wf_signal_count = v, wf_library_load_rate = v, wf_network_connection_count = v,
      wf_data_transfer_volume = v, wf_unique_syscall_count = v, wf_unique_file_path_count = v,
      wf_event_rate = v, wf_error_rate = v\<rparr>"

section \<open>Properties\<close>

text \<open>C32. Whatever observations between 0 and a bound a detector is trained on, every feature's mean stays
  between 0 and that bound and its variance never becomes negative or NaN, so the standard
  deviation is always a number.\<close>

theorem baseline_stays_in_range:
  assumes "fl_bound F64 b" "0 \<le> b" "length fs < 2 ^ 63" "\<forall>f \<in> set fs. list_all (data_ok b) (wf_to_vec f)"
  shows "list_all (\<lambda>s. fl_in 0 b (rs_mean s) \<and> fl_nonneg (rs_variance s) \<and> fl_nonneg (std_dev s))
    (ad_feature_stats (foldl (\<lambda>d f. update_baseline f d) (AnomalyDetector_new threshold n) fs))"
proof -
  have "detector_ok b (length fs) (foldl (\<lambda>d f. update_baseline f d) (AnomalyDetector_new threshold n) fs)"
    using detector_ok_run[OF assms(1,4), of 0] detector_ok_new[OF assms(2)] assms(3) by simp
  then show ?thesis
    unfolding detector_ok_def list_all_iff using stats_ok_summary by blast
qed

theorem baseline_stays_in_range_witness:
  "list_all (\<lambda>s. fl_in 0 7 (rs_mean s) \<and> fl_nonneg (rs_variance s) \<and> fl_nonneg (std_dev s))
    (ad_feature_stats (foldl (\<lambda>d f. update_baseline f d) (AnomalyDetector_new (Fin 2) 1)
      [flat_features (Fin 7), flat_features (Fin 0)]))"
proof (rule baseline_stays_in_range)
  have "representable F64 7" "representable F64 0"
    using fl_bound_numeral(6)[of "num.Bit1 (num.Bit1 num.One)"] fl_bound_numeral(3) by (simp_all add: fl_bound_def)
  then show "\<forall>f \<in> set [flat_features (Fin 7), flat_features (Fin 0)]. list_all (data_ok 7) (wf_to_vec f)"
    by (simp add: flat_features_def wf_to_vec_def data_ok_def)
qed simp_all

text \<open>Once a detector has its samples, an observation is anomalous exactly when some feature's absolute
  z-score exceeds the threshold, the features listed are exactly those, in order, and with a
  positive threshold the score lies between 0 and 1.\<close>

theorem anomaly_verdict:
  assumes "length (ad_feature_stats d) = 8" "ad_min_samples d \<le> rs_count (hd (ad_feature_stats d))"
    "fl_gt (ad_threshold d) (Fin 0)"
  shows "(ar_is_anomalous (ad_detect wid now f d) \<longleftrightarrow> list_ex (\<lambda>z. fl_gt z (ad_threshold d)) (abs_scores d f))
      \<and> map af_z_score (ar_anomalous_features (ad_detect wid now f d)) =
          filter (\<lambda>z. fl_gt z (ad_threshold d)) (abs_scores d f)
      \<and> fl_in 0 1 (ar_anomaly_score (ad_detect wid now f d))"
proof -
  let ?r = "ad_detect wid now f d"
  let ?z = "zip feature_names (zip (wf_to_vec f) (ad_feature_stats d))"
  have l: "length feature_names = length (wf_to_vec f)" "length (wf_to_vec f) = length (ad_feature_stats d)"
    using assms(1) by (simp_all add: feature_names_def wf_to_vec_def)
  have n: "\<not> rs_count (hd (ad_feature_stats d)) < ad_min_samples d" using assms(2) by simp
  have found: "ar_anomalous_features ?r = map (\<lambda>(name, v, s). anomalous_feature name v s)
      (filter (\<lambda>(name, v, s). fl_gt (fabs (z_score v s)) (ad_threshold d)) ?z)"
    using n by (simp add: ad_detect_def Let_def)
  have z: "map af_z_score (ar_anomalous_features ?r) = filter (\<lambda>z. fl_gt z (ad_threshold d)) (abs_scores d f)"
    unfolding found abs_scores_def scores_of_found[OF l, symmetric]
    by (auto simp: anomalous_feature_def)
  have "ar_is_anomalous ?r \<longleftrightarrow> map af_z_score (ar_anomalous_features ?r) \<noteq> []"
    using n by (simp add: ad_detect_def Let_def)
  moreover have "fl_nonneg (foldl fmax (lit64 0) (abs_scores d f))"
    by (intro foldl_fmax_nonneg) (auto simp: fl_of_id abs_scores_def intro: fabs_nonneg[THEN disjE])
  then have "fl_in 0 1 (ar_anomaly_score ?r)"
    using normalised_in[OF _ assms(3)] n by (simp add: ad_detect_def Let_def)
  ultimately show ?thesis using z by (auto simp: filter_empty_conv list_ex_iff)
qed

theorem anomaly_verdict_witness:
  "fl_in 0 1 (ar_anomaly_score (ad_detect ''w'' 0 (flat_features (Fin 7)) (AnomalyDetector_new (Fin 2) 0)))"
  using anomaly_verdict[of "AnomalyDetector_new (Fin 2) 0" "''w''" 0 "flat_features (Fin 7)"]
  by (simp add: AnomalyDetector_new_def)

end
