(* ===== verification/Sla_Tracker.thy ===== *)
theory Sla_Tracker
  imports Float_Sums Interfaces
begin

text \<open>
  \<open>sla_tracker.rs\<close>: operations in flight, their response times and the compliance with the
  targets. An instant is a number of nanoseconds; the calls of the metrics registry are part of
  the result, in their order.
\<close>

record SlaTarget =
  st_operation :: string
  st_max_duration_secs :: f64
  st_description :: string

definition default_sla_targets :: "SlaTarget list" where
  "default_sla_targets =
     [\<lparr>st_operation = ''finding_notification'', st_max_duration_secs = lit64 30,
       st_description = ''Critical finding notification within 30 seconds''\<rparr>,
      \<lparr>st_operation = ''enforcement_action'', st_max_duration_secs = lit64 60,
       st_description = ''Enforcement action within 60 seconds''\<rparr>,
      \<lparr>st_operation = ''intel_refresh'', st_max_duration_secs = lit64 300,
       st_description = ''Intel refresh propagation within 5 minutes''\<rparr>,
      \<lparr>st_operation = ''event_processing'', st_max_duration_secs = lit64 (1/10),
       st_description = ''Event processing latency under 100ms''\<rparr>]"

record TrackedOperation =
  to_operation :: string
  to_started_at :: int
  to_metadata :: "string \<rightharpoonup> string"

datatype metric_call =
  RecordResponseTime string f64 | IncSlaViolation string | SetSlaCompliance string f64

record SlaTracker =
  sl_targets :: "string \<rightharpoonup> SlaTarget"
  sl_in_flight :: "(string \<times> TrackedOperation) list"

datatype SlaResult =
  Compliant string f64 | Violation string f64 f64 "string \<rightharpoonup> string" | NotFound

record SlaStatus =
  ss_in_flight_count :: nat
  ss_operations_by_type :: "(string \<times> nat) list"
  ss_timestamp :: int

definition SlaTracker_new :: SlaTracker where
  "SlaTracker_new =
     \<lparr>sl_targets = map_of (map (\<lambda>t. (st_operation t, t)) default_sla_targets), sl_in_flight = []\<rparr>"

definition start_operation ::
  "string \<Rightarrow> string \<Rightarrow> (string \<rightharpoonup> string) \<Rightarrow> int \<Rightarrow> SlaTracker \<Rightarrow> SlaTracker" where
  "start_operation oid op md now t =
     t\<lparr>sl_in_flight := AList.update oid
         \<lparr>to_operation = op, to_started_at = now, to_metadata = md\<rparr> (sl_in_flight t)\<rparr>"

text \<open>\<open>Instant::elapsed\<close> does not go below zero; \<open>as_secs_f64\<close> adds the seconds and the fraction.\<close>

definition as_secs_f64 :: "nat \<Rightarrow> f64" where
  "as_secs_f64 ns =
     fadd F64 (fl_nat F64 (ns div 10 ^ 9)) (fdiv F64 (fl_nat F64 (ns mod 10 ^ 9)) (lit64 (10 ^ 9)))"

definition complete_operation ::
  "string \<Rightarrow> int \<Rightarrow> SlaTracker \<Rightarrow> SlaResult \<times> metric_call list \<times> SlaTracker" where
  "complete_operation oid now t =
     (case map_of (sl_in_flight t) oid of
        None \<Rightarrow> (NotFound, [], t)
      | Some p \<Rightarrow>
          (let t = t\<lparr>sl_in_flight := AList.delete oid (sl_in_flight t)\<rparr>;
               secs = as_secs_f64 (nat (now - to_started_at p));
               op = to_operation p;
               calls = [RecordResponseTime op secs]
           in case sl_targets t op of
                None \<Rightarrow> (Compliant op secs, calls, t)
              | Some g \<Rightarrow>
                  if fl_gt secs (st_max_duration_secs g)
                  then (Violation op secs (st_max_duration_secs g) (to_metadata p),
                        calls @ [IncSlaViolation op,
                                 SetSlaCompliance op (fdiv F64 (st_max_duration_secs g) secs)], t)
                  else (Compliant op secs, calls, t)))"

definition sl_status :: "int \<Rightarrow> SlaTracker \<Rightarrow> SlaStatus" where
  "sl_status now t =
     \<lparr>ss_in_flight_count = length (sl_in_flight t),
      ss_operations_by_type =
        fold (\<lambda>(oid, p). alist_modify (to_operation p) 0 Suc) (sl_in_flight t) [],
      ss_timestamp = now\<rparr>"

section \<open>Runs\<close>

datatype sla_event = Start string string "string \<rightharpoonup> string" int | Finish string int

fun sla_step :: "SlaTracker \<Rightarrow> sla_event \<Rightarrow> SlaTracker" where
  "sla_step t (Start oid op md now) = start_operation oid op md now t"
| "sla_step t (Finish oid now) = snd (snd (complete_operation oid now t))"

text \<open>The operation an id stands for: the latest start that no completion followed.\<close>

fun open_after :: "string \<Rightarrow> TrackedOperation option \<Rightarrow> sla_event list \<Rightarrow> TrackedOperation option" where
  "open_after oid w [] = w"
| "open_after oid w (Start i op md now # es) =
     open_after oid (if i = oid then Some \<lparr>to_operation = op, to_started_at = now, to_metadata = md\<rparr> else w) es"
| "open_after oid w (Finish i now # es) = open_after oid (if i = oid then None else w) es"

definition tracker_ok :: "SlaTracker \<Rightarrow> bool" where
  "tracker_ok t \<longleftrightarrow> distinct (map fst (sl_in_flight t)) \<and> sl_targets t = sl_targets SlaTracker_new"

lemma complete_state:
  "snd (snd (complete_operation oid now t)) =
     (if map_of (sl_in_flight t) oid = None then t
      else t\<lparr>sl_in_flight := AList.delete oid (sl_in_flight t)\<rparr>)"
  by (auto simp: complete_operation_def Let_def split: option.splits)

interpretation sla: event_machine sla_step tracker_ok
proof
  fix t e
  assume "tracker_ok t"
  then show "tracker_ok (sla_step t e)"
    by (cases e) (auto simp: tracker_ok_def start_operation_def complete_state distinct_update distinct_delete)
qed

lemma tracker_ok_new [simp]: "tracker_ok SlaTracker_new"
  by (simp add: tracker_ok_def SlaTracker_new_def)

lemma in_flight_step:
  "map_of (sl_in_flight (sla_step t e)) oid = open_after oid (map_of (sl_in_flight t) oid) [e]"
  by (cases e) (auto simp: start_operation_def complete_state delete_conv')

lemma in_flight_run:
  "map_of (sl_in_flight (foldl sla_step t es)) oid = open_after oid (map_of (sl_in_flight t) oid) es"
proof (induction es arbitrary: t)
  case (Cons e es)
  have "open_after oid w (e # es) = open_after oid (open_after oid w [e]) es" for w by (cases e) simp_all
  with Cons in_flight_step[of t e oid] show ?case by simp
qed simp

lemma targets_find: "map_of (map (\<lambda>t. (f t, t)) ts) k = find (\<lambda>t. f t = k) ts"
  by (induction ts) auto

text \<open>The count of a type is the number of operations of that type in flight.\<close>

definition count_of :: "string \<Rightarrow> (string \<times> nat) list \<Rightarrow> nat" where
  "count_of k m = (case map_of m k of None \<Rightarrow> 0 | Some n \<Rightarrow> n)"

lemma fold_count:
  "count_of k (fold (\<lambda>(oid, p). alist_modify (f p) 0 Suc) xs m) =
     count_of k m + length (filter (\<lambda>(oid, p). f p = k) xs)"
proof (induction xs arbitrary: m)
  case (Cons x xs)
  obtain oid p where x: "x = (oid, p)" by (cases x)
  have "count_of k (alist_modify (f p) 0 Suc m) = count_of k m + (if f p = k then 1 else 0)"
    by (auto simp: count_of_def split: option.splits)
  then show ?case using Cons.IH[of "alist_modify (f p) 0 Suc m"] x by simp
qed simp

section \<open>Properties\<close>

text \<open>After any sequence of starts and completions an id is in flight exactly when its latest start has not
  been completed, with the operation, metadata and instant of that start; completing it
  reports its response time once and a second completion finds nothing.\<close>

theorem completion_follows_latest_start:
  "let t = foldl sla_step SlaTracker_new es; (r, calls, t') = complete_operation oid now t
   in (case open_after oid None es of
         None \<Rightarrow> r = NotFound \<and> calls = [] \<and> t' = t
       | Some p \<Rightarrow> hd calls = RecordResponseTime (to_operation p) (as_secs_f64 (nat (now - to_started_at p)))
                 \<and> fst (complete_operation oid later t') = NotFound)"
proof -
  let ?t = "foldl sla_step SlaTracker_new es"
  have m: "map_of (sl_in_flight ?t) oid = open_after oid None es"
    using in_flight_run[of SlaTracker_new es oid] by (simp add: SlaTracker_new_def)
  have "fst (complete_operation oid later (snd (snd (complete_operation oid now ?t)))) = NotFound"
    if "open_after oid None es \<noteq> None"
    using that m by (simp add: complete_state) (simp add: complete_operation_def delete_conv')
  with m show ?thesis
    by (auto simp: complete_operation_def Let_def split: option.splits if_splits prod.splits)
qed

text \<open>A completion of an operation with a target is a violation exactly when it took longer than the
  target, and then the violation is counted and the compliance ratio set; an operation without
  a target is always compliant.\<close>

theorem violation_iff_late:
  assumes "open_after oid None es = Some p"
  shows "let secs = as_secs_f64 (nat (now - to_started_at p)); op = to_operation p;
             (r, calls, t') = complete_operation oid now (foldl sla_step SlaTracker_new es)
         in (case find (\<lambda>g. st_operation g = op) default_sla_targets of
               None \<Rightarrow> r = Compliant op secs \<and> calls = [RecordResponseTime op secs]
             | Some g \<Rightarrow>
                 if fl_gt secs (st_max_duration_secs g)
                 then r = Violation op secs (st_max_duration_secs g) (to_metadata p)
                    \<and> calls = [RecordResponseTime op secs, IncSlaViolation op,
                               SetSlaCompliance op (fdiv F64 (st_max_duration_secs g) secs)]
                 else r = Compliant op secs \<and> calls = [RecordResponseTime op secs])"
proof -
  let ?t = "foldl sla_step SlaTracker_new es"
  have m: "map_of (sl_in_flight ?t) oid = Some p"
    using in_flight_run[of SlaTracker_new es oid] assms by (simp add: SlaTracker_new_def)
  have "tracker_ok ?t" by (rule sla.run_inv) simp
  then have g: "sl_targets ?t op = find (\<lambda>g. st_operation g = op) default_sla_targets" for op
    by (simp add: tracker_ok_def SlaTracker_new_def targets_find)
  show ?thesis
    unfolding complete_operation_def m g[symmetric] by (auto simp: Let_def split: option.splits)
qed

theorem violation_iff_late_witness:
  "fst (complete_operation ''a'' 3 (foldl sla_step SlaTracker_new [Start ''a'' ''other'' Map.empty 1]))
     = Compliant ''other'' (as_secs_f64 2)"
  using violation_iff_late[of "''a''" "[Start ''a'' ''other'' Map.empty 1]" _ 3]
  by (simp add: default_sla_targets_def split_beta Let_def)

text \<open>The status reports for each operation type the number of operations of that type in flight.\<close>

theorem status_counts_in_flight:
  "count_of op (ss_operations_by_type (sl_status now t)) =
     length (filter (\<lambda>(oid, p). to_operation p = op) (sl_in_flight t))
   \<and> ss_in_flight_count (sl_status now t) = length (sl_in_flight t)"
  using fold_count[of op to_operation "sl_in_flight t" "[]"] by (simp add: sl_status_def count_of_def)

end
