(* ===== verification/Float_Parse.thy ===== *)
theory Float_Parse
  imports Formatting
begin

text \<open>
  \<open>str::parse::<f32>()\<close> and \<open>f64\<close>: an optional sign, then \<open>inf\<close>, \<open>infinity\<close> or \<open>nan\<close> in any case,
  or decimal digits with an optional point and exponent; the value is rounded once.
\<close>

definition is_point :: "char \<Rightarrow> bool" where "is_point c \<longleftrightarrow> c = CHR ''.''"

definition split_sign :: "string \<Rightarrow> bool \<times> string" where
  "split_sign s =
     (case s of
        [] \<Rightarrow> (False, [])
      | c # t \<Rightarrow> if c = CHR ''-'' then (True, t) else if c = CHR ''+'' then (False, t) else (False, s))"

text \<open>The exponent: nothing, or \<open>e\<close> with a sign and at least one digit up to the end.\<close>

definition parse_exponent :: "string \<Rightarrow> int option" where
  "parse_exponent s =
     (case s of
        [] \<Rightarrow> Some 0
      | c # t \<Rightarrow>
          if c = CHR ''e'' \<or> c = CHR ''E''
          then (let (neg, ds) = split_sign t
                in if ds \<noteq> [] \<and> list_all is_digit_c ds
                   then Some (if neg then - read_dec ds else read_dec ds) else None)
          else None)"

text \<open>Digits, an optional point with digits, and an exponent: the mantissa and the power of ten.\<close>

definition parse_number :: "string \<Rightarrow> (int \<times> int) option" where
  "parse_number s =
     (let d1 = takeWhile is_digit_c s; r = dropWhile is_digit_c s;
          has_point = (r \<noteq> [] \<and> is_point (hd r));
          d2 = (if has_point then takeWhile is_digit_c (tl r) else []);
          r = (if has_point then dropWhile is_digit_c (tl r) else r)
      in if d1 @ d2 = [] then None
         else (case parse_exponent r of
                 None \<Rightarrow> None
               | Some e \<Rightarrow> Some (read_dec (d1 @ d2), e - int (length d2))))"

definition parse_float :: "float_format \<Rightarrow> string \<Rightarrow> fl option" where
  "parse_float F s =
     (let (neg, t) = split_sign s; low = to_ascii_lowercase t
      in if low = ''nan'' then Some NaN
         else if low = ''inf'' \<or> low = ''infinity'' then Some (if neg then NInf else PInf)
         else (case parse_number t of
                 None \<Rightarrow> None
               | Some (m, e) \<Rightarrow>
                   Some (fl_of F ((if neg then - of_int m else of_int m) * 10 powi e))))"

lemma parse_float_examples:
  "parse_float F32 ''0.5'' = Some (Fin (1/2))" "parse_float F32 ''-12.5e-1'' = Some (Fin (-5/4))"
  "parse_float F32 ''nan'' = Some NaN" "parse_float F32 ''-Infinity'' = Some NInf"
  "parse_float F32 ''.5'' = Some (Fin (1/2))" "parse_float F32 ''3.'' = Some (Fin 3)"
  "parse_float F32 ''.'' = None" "parse_float F32 ''1e'' = None" "parse_float F32 '' 1'' = None"
  "parse_float F32 [] = None" "parse_float F32 ''+'' = None"
  by code_simp+

text \<open>Only NaN reads as NaN, whatever its sign and case.\<close>

lemma parse_float_NaN: "parse_float F s = Some NaN \<longleftrightarrow> to_ascii_lowercase (snd (split_sign s)) = ''nan''"
  by (auto simp: parse_float_def split_beta Let_def fl_of_def split: option.splits)

end
