(* ===== verification/Intel.thy ===== *)
theory Intel
  imports Float_Parse Safe_Enforcement Ordered_Map Float_Sums
begin

text \<open>
  \<open>intel.rs\<close>: the threat intelligence state, its refresh from the KEV and EPSS feeds, the
  assessment of a CVE with its score and its age. The outcome of an HTTP request and of reading
  its body is an argument; times are nanoseconds.
\<close>

record CveMetadata =
  cm_id :: string
  cm_description :: "string option"
  cm_cvss_v2_score :: "f32 option"
  cm_cvss_v3_score :: "f32 option"
  cm_published_date :: "string option"
  cm_last_modified :: "string option"
  cm_vendor_advisories :: "string list"
  cm_exploit_pocs :: "string list"
  cm_threat_actors :: "string list"
  cm_malware_families :: "string list"

record IntelState =
  in_kev :: "string list"
  in_epss :: "(string \<times> f32) list"
  in_epss_percentiles :: "(string \<times> f32) list"
  in_cve_metadata :: "(string \<times> CveMetadata) list"
  in_last_refresh :: "int option"
  in_first_seen :: "(string \<times> int) list"

definition IntelState_default :: IntelState where
  "IntelState_default =
     \<lparr>in_kev = [], in_epss = [], in_epss_percentiles = [], in_cve_metadata = [],
      in_last_refresh = None, in_first_seen = []\<rparr>"

record KevEntry =
  ke_cve_id :: string
  ke_vendor_project :: string
  ke_product :: string
  ke_vulnerability_name :: string
  ke_date_added :: string
  ke_due_date :: string
  ke_required_action :: string
  ke_notes :: "string option"

record KevCatalog =
  kc_version :: string
  kc_date_released :: string
  kc_count :: int
  kc_vulnerabilities :: "KevEntry list"

record EpssEntry =
  ee_cve :: string
  ee_epss :: string
  ee_percentile :: string
  ee_date :: string

record EpssResponse =
  es_status :: string
  es_status_code :: int
  es_version :: string
  es_total :: int
  es_offset :: int
  es_limit :: int
  es_data :: "EpssEntry list"

text \<open>A request fails, or has a status and a body that reads as a value or not.\<close>

datatype 'a feed_answer = Unreachable string | Answered nat "string + 'a"

section \<open>Fetching\<close>

text \<open>\<open>error_for_status\<close> gives an error for 4xx and 5xx only; \<open>unwrap_err\<close> on the others panics.\<close>

datatype 'a fetched = Fetched 'a | FetchError ScannerError | FetchPanic

definition fetch_checked :: "'a feed_answer \<Rightarrow> 'a fetched" where
  "fetch_checked r =
     (case r of
        Unreachable e \<Rightarrow> FetchError (ErrHttp e)
      | Answered status body \<Rightarrow>
          if \<not> (200 \<le> status \<and> status < 300)
          then (if 400 \<le> status \<and> status < 600 then FetchError (ErrHttp (dec_nat status)) else FetchPanic)
          else (case body of Inl e \<Rightarrow> FetchError (ErrHttp e) | Inr x \<Rightarrow> Fetched x))"

definition fetch_kev :: "KevCatalog feed_answer \<Rightarrow> KevCatalog fetched" where
  "fetch_kev r = fetch_checked r"

definition fetch_epss :: "EpssResponse feed_answer \<Rightarrow> EpssResponse fetched" where
  "fetch_epss r = fetch_checked r"

text \<open>The batch query looks at no status; entries whose score does not read are skipped.\<close>

definition insert_score :: "(EpssEntry \<Rightarrow> string) \<Rightarrow> EpssEntry \<Rightarrow> (string \<times> f32) list \<Rightarrow> (string \<times> f32) list" where
  "insert_score field e m =
     (case parse_float F32 (field e) of None \<Rightarrow> m | Some x \<Rightarrow> bmap_insert (ee_cve e) x m)"

definition fetch_epss_for_cves ::
  "(string \<Rightarrow> EpssResponse feed_answer) \<Rightarrow> string list \<Rightarrow> ScannerError + (string \<times> f32) list" where
  "fetch_epss_for_cves ask cves =
     (if cves = [] then Inr []
      else (case ask (join '','' cves) of
              Unreachable e \<Rightarrow> Inl (ErrHttp e)
            | Answered status (Inl e) \<Rightarrow> Inl (ErrHttp e)
            | Answered status (Inr d) \<Rightarrow> Inr (fold (insert_score ee_epss) (es_data d) [])))"

section \<open>Refresh\<close>

definition apply_kev :: "int \<Rightarrow> KevCatalog \<Rightarrow> IntelState \<Rightarrow> IntelState" where
  "apply_kev now k s =
     s\<lparr>in_kev := bset_extend [] (map ke_cve_id (kc_vulnerabilities k)), in_last_refresh := Some now\<rparr>"

definition apply_epss :: "EpssResponse \<Rightarrow> IntelState \<Rightarrow> IntelState" where
  "apply_epss d s =
     s\<lparr>in_epss := fold (insert_score ee_epss) (es_data d) (in_epss s),
       in_epss_percentiles := fold (insert_score ee_percentile) (es_data d) (in_epss_percentiles s)\<rparr>"

text \<open>\<open>None\<close> is the panic of a fetch; a failed fetch is only logged.\<close>

definition refresh ::
  "int \<Rightarrow> KevCatalog feed_answer \<Rightarrow> EpssResponse feed_answer \<Rightarrow> IntelState \<Rightarrow> IntelState option" where
  "refresh now kev epss s =
     (case fetch_kev kev of
        FetchPanic \<Rightarrow> None
      | k \<Rightarrow>
          (let s = (case k of Fetched c \<Rightarrow> apply_kev now c s | _ \<Rightarrow> s)
           in case fetch_epss epss of
                FetchPanic \<Rightarrow> None
              | Fetched d \<Rightarrow> Some (apply_epss d s)
              | FetchError _ \<Rightarrow> Some s))"

definition import_state :: "string + IntelState \<Rightarrow> IntelState \<Rightarrow> ScannerError option \<times> IntelState" where
  "import_state parsed s = (case parsed of Inl e \<Rightarrow> (Some (ErrJson e), s) | Inr s' \<Rightarrow> (None, s'))"

section \<open>Assessment\<close>

definition in_is_kev :: "string \<Rightarrow> IntelState \<Rightarrow> bool" where
  "in_is_kev cve s \<longleftrightarrow> cve \<in> set (in_kev s)"

definition get_epss :: "string \<Rightarrow> IntelState \<Rightarrow> f32 option" where
  "get_epss cve s = map_of (in_epss s) cve"

definition get_epss_percentile :: "string \<Rightarrow> IntelState \<Rightarrow> f32 option" where
  "get_epss_percentile cve s = map_of (in_epss_percentiles s) cve"

record CveRiskAssessment =
  ca_cve_id :: string
  ca_is_kev :: bool
  ca_epss_score :: f32
  ca_epss_percentile :: f32
  ca_intel_age :: "int option"

definition assess_cve :: "string \<Rightarrow> int \<Rightarrow> IntelState \<Rightarrow> CveRiskAssessment" where
  "assess_cve cve now s =
     \<lparr>ca_cve_id = cve, ca_is_kev = in_is_kev cve s,
      ca_epss_score = (case get_epss cve s of None \<Rightarrow> lit32 0 | Some x \<Rightarrow> x),
      ca_epss_percentile = (case get_epss_percentile cve s of None \<Rightarrow> lit32 0 | Some x \<Rightarrow> x),
      ca_intel_age = map_option (\<lambda>t. now - t) (in_last_refresh s)\<rparr>"

definition threat_score :: "CveRiskAssessment \<Rightarrow> f32" where
  "threat_score a =
     (let score = fadd F32 (lit32 0) (fmul F32 (ca_epss_score a) (lit32 40));
          score = fadd F32 score (fmul F32 (ca_epss_percentile a) (lit32 30));
          score = (if ca_is_kev a then fadd F32 score (lit32 30) else score)
      in fmin score (lit32 100))"

text \<open>\<open>num_hours\<close> truncates towards zero.\<close>

definition num_hours :: "int \<Rightarrow> int" where
  "num_hours d = (let h = 3600 * 10 ^ 9 in if 0 \<le> d then d div h else - (- d div h))"

definition is_stale :: "CveRiskAssessment \<Rightarrow> bool" where
  "is_stale a = (case ca_intel_age a of Some d \<Rightarrow> num_hours d > 24 | None \<Rightarrow> True)"

section \<open>Lemmas\<close>

definition intel_ok :: "IntelState \<Rightarrow> bool" where
  "intel_ok s \<longleftrightarrow> bset_ok (in_kev s) \<and> bmap_ok (in_epss s) \<and> bmap_ok (in_epss_percentiles s)"

lemma fold_scores:
  "bmap_ok m \<Longrightarrow> bmap_ok (fold (insert_score f) es m)"
  "map_of (fold (insert_score f) es m) c =
     (case filter (\<lambda>e. ee_cve e = c \<and> parse_float F32 (f e) \<noteq> None) es of
        [] \<Rightarrow> map_of m c
      | xs \<Rightarrow> parse_float F32 (f (last xs)))"
proof -
  show "bmap_ok m \<Longrightarrow> bmap_ok (fold (insert_score f) es m)"
    by (induction es arbitrary: m) (auto simp: insert_score_def split: option.splits)
  show "map_of (fold (insert_score f) es m) c =
     (case filter (\<lambda>e. ee_cve e = c \<and> parse_float F32 (f e) \<noteq> None) es of
        [] \<Rightarrow> map_of m c | xs \<Rightarrow> parse_float F32 (f (last xs)))"
  proof (induction es arbitrary: m)
    case (Cons e es)
    show ?case
      using Cons[of "insert_score f e m"]
      by (cases "filter (\<lambda>e. ee_cve e = c \<and> parse_float F32 (f e) \<noteq> None) es")
         (auto simp: insert_score_def split: option.splits)
  qed simp
qed

lemma refresh_cases:
  "refresh now kev epss s = Some s' \<Longrightarrow>
   s' = (case fetch_epss epss of Fetched d \<Rightarrow> apply_epss d | _ \<Rightarrow> id)
          ((case fetch_kev kev of Fetched c \<Rightarrow> apply_kev now c | _ \<Rightarrow> id) s)"
  by (auto simp: refresh_def Let_def split: fetched.splits)

lemma hours_gt: "num_hours d > 24 \<longleftrightarrow> 25 * (3600 * 10 ^ 9) \<le> d"
  unfolding num_hours_def Let_def by (auto simp: zdiv_mono1 div_less_iff_less_mult not_le)

lemma points_in:
  "fl_in 0 1 x \<Longrightarrow> fl_in 0 40 (fmul F32 x (lit32 40))" "fl_in 0 1 x \<Longrightarrow> fl_in 0 30 (fmul F32 x (lit32 30))"
  using fmul_in[of 1 x 40 "Fin 40" 40 F32] fmul_in[of 1 x 30 "Fin 30" 30 F32] by (auto simp: fl_of_id)

text \<open>A status that is neither a success nor an error.\<close>

fun odd_status :: "'a feed_answer \<Rightarrow> bool" where
  "odd_status (Answered n b) \<longleftrightarrow> \<not> (200 \<le> n \<and> n < 300) \<and> \<not> (400 \<le> n \<and> n < 600)"
| "odd_status (Unreachable e) \<longleftrightarrow> False"

definition sample_answer :: EpssResponse where
  "sample_answer =
     \<lparr>es_status = ''OK'', es_status_code = 200, es_version = ''1.0'', es_total = 1, es_offset = 0, es_limit = 100,
      es_data = [\<lparr>ee_cve = ''CVE-1'', ee_epss = ''0.5'', ee_percentile = ''x'', ee_date = []\<rparr>]\<rparr>"

section \<open>Properties\<close>

text \<open>A refresh replaces the KEV set by exactly the ids of a fetched catalogue and only then moves the time
  of the last refresh; a fetched EPSS answer sets each CVE it scores to the last score that
  reads as a number and leaves every other CVE alone. A feed that fails changes nothing.\<close>

theorem refresh_effect:
  assumes "refresh now kev epss s = Some s'"
  shows "set (in_kev s') = (case fetch_kev kev of Fetched c \<Rightarrow> ke_cve_id ` set (kc_vulnerabilities c)
             | _ \<Rightarrow> set (in_kev s))
    \<and> in_last_refresh s' = (case fetch_kev kev of Fetched c \<Rightarrow> Some now | _ \<Rightarrow> in_last_refresh s)
    \<and> get_epss cve s' = (case fetch_epss epss of
           Fetched d \<Rightarrow> (case filter (\<lambda>e. ee_cve e = cve \<and> parse_float F32 (ee_epss e) \<noteq> None) (es_data d) of
                          [] \<Rightarrow> get_epss cve s | es \<Rightarrow> parse_float F32 (ee_epss (last es)))
         | _ \<Rightarrow> get_epss cve s)
    \<and> (intel_ok s \<longrightarrow> intel_ok s')"
  unfolding refresh_cases[OF assms] get_epss_def
  by (auto simp: apply_kev_def apply_epss_def fold_scores intel_ok_def split: fetched.splits)

theorem refresh_effect_witness:
  "\<exists>s. refresh 7 (Answered 503 (Inl [])) (Answered 200 (Inr sample_answer)) IntelState_default = Some s
     \<and> get_epss ''CVE-1'' s = Some (Fin (1/2)) \<and> in_last_refresh s = None"
proof -
  obtain s where s: "refresh 7 (Answered 503 (Inl [])) (Answered 200 (Inr sample_answer)) IntelState_default = Some s"
    by (simp add: refresh_def fetch_kev_def fetch_epss_def fetch_checked_def)
  then show ?thesis
    using refresh_effect[OF s, of "''CVE-1''"] parse_float_examples(1)
    by (simp add: fetch_kev_def fetch_epss_def fetch_checked_def sample_answer_def IntelState_default_def)
qed

text \<open>A refresh never fails with an error value, but it panics exactly when a feed answers with a status
  that is neither a success nor an error, a redirect for example: the code takes the error out
  of an answer that has none.\<close>

theorem refresh_panics_iff:
  "refresh now kev epss s = None \<longleftrightarrow>
     odd_status kev \<or> (\<not> odd_status kev \<and> odd_status epss)"
  by (cases kev; cases epss)
     (auto simp: refresh_def fetch_kev_def fetch_epss_def fetch_checked_def Let_def split: sum.splits if_splits)

theorem refresh_panics_iff_witness:
  "refresh 7 (Answered 304 (Inl [])) (Unreachable []) IntelState_default = None"
  using refresh_panics_iff[of 7 "Answered 304 (Inl [])" "Unreachable []" IntelState_default] by simp

text \<open>The threat score of an assessment with probabilities between 0 and 1 lies between 0 and 100; an EPSS
  score that is not a number gives the highest score.\<close>

theorem threat_score_range:
  assumes "fl_in 0 1 (ca_epss_score a)" "fl_in 0 1 (ca_epss_percentile a)"
  shows "fl_in 0 100 (threat_score a) \<and> threat_score (a\<lparr>ca_epss_score := NaN\<rparr>) = Fin 100"
proof -
  have z: "lit32 0 = Fin 0" "lit32 30 = Fin 30" "lit32 40 = Fin 40" "lit32 100 = Fin 100" by (auto intro: fl_of_id)
  have "fl_in 0 40 (fadd F32 (Fin 0) (fmul F32 (ca_epss_score a) (lit32 40)))"
    by (rule fadd_in[of 0 0 _ 0 40]) (use points_in[OF assms(1)] in simp_all)
  then have b: "fl_in 0 70 (fadd F32 (fadd F32 (Fin 0) (fmul F32 (ca_epss_score a) (lit32 40)))
      (fmul F32 (ca_epss_percentile a) (lit32 30)))"
    by (rule fadd_in[of 0 40 _ 0 30]) (use points_in(2)[OF assms(2)] in simp_all)
  have "fl_in 0 100 (fadd F32 (fadd F32 (fadd F32 (Fin 0) (fmul F32 (ca_epss_score a) (lit32 40)))
      (fmul F32 (ca_epss_percentile a) (lit32 30))) (Fin 30))"
    by (rule fadd_in[OF b, of 30 30]) simp_all
  moreover have "fl_in 0 100 (fadd F32 (fadd F32 (Fin 0)
      (fmul F32 (ca_epss_score a) (lit32 40))) (fmul F32 (ca_epss_percentile a) (lit32 30)))"
    by (rule fl_in_mono[OF b]) simp_all
  moreover have "fl_in 0 100 (fmin x (Fin 100))" if "fl_in 0 100 x" for x
    using that by (cases x) (auto simp: fmin_def)
  moreover have "fmul F32 NaN y = NaN" for y by (cases y) (simp_all add: inf_of_sgn_def)
  ultimately show ?thesis by (auto simp: threat_score_def Let_def z fmin_def)
qed

theorem threat_score_range_witness:
  "threat_score (assess_cve ''CVE-1'' 0 IntelState_default\<lparr>ca_epss_score := NaN\<rparr>) = Fin 100"
  by (rule threat_score_range[THEN conjunct2])
     (simp_all add: assess_cve_def IntelState_default_def get_epss_def get_epss_percentile_def fl_of_id)

text \<open>Intelligence counts as stale from 25 hours on, not from 24: the hours are truncated before they are
  compared. Without a refresh it is always stale.\<close>

theorem stale_after_25_hours:
  "is_stale (assess_cve cve now s) \<longleftrightarrow>
     (case in_last_refresh s of None \<Rightarrow> True | Some t \<Rightarrow> 25 * (3600 * 10 ^ 9) \<le> now - t)"
  by (simp add: is_stale_def assess_cve_def hours_gt split: option.splits)

end
