(* ===== verification/Inventory.thy ===== *)
theory Inventory
  imports Common Os_Path Ordered_Map Safe_Enforcement
begin

text \<open>
  \<open>sbom.rs\<close> and \<open>k8s.rs\<close>: the component lists of images read from a directory, their
  classification by observed paths, and the index of the node's containers. The directory, the
  files, the JSON reader and the pods of the cluster are arguments; file names are UTF-8.
\<close>

section \<open>Component lists\<close>

datatype dir_entry = EntryError string | EntryFile string "string + string"

type_synonym SbomStore = "(string \<times> SbomComponent list) list"

definition replace_c :: "char \<Rightarrow> char \<Rightarrow> string \<Rightarrow> string" where
  "replace_c a b s = map (\<lambda>c. if c = a then b else c) s"

definition image_of_file :: "string \<Rightarrow> string" where
  "image_of_file path =
     replace_c (CHR ''_'') (CHR '':'')
       (case file_stem path of None \<Rightarrow> ''unknown'' | Some n \<Rightarrow> n)"

fun load_entries ::
  "(string \<Rightarrow> string + SbomComponent list) \<Rightarrow> dir_entry list \<Rightarrow> SbomStore \<Rightarrow> ScannerError + SbomStore" where
  "load_entries parse [] m = Inr m"
| "load_entries parse (EntryError e # es) m = Inl (ErrIo e)"
| "load_entries parse (EntryFile path content # es) m =
     (if path_extension path \<noteq> Some ''json'' then load_entries parse es m
      else (case content of
              Inl e \<Rightarrow> Inl (ErrIo e)
            | Inr body \<Rightarrow>
                (case parse body of
                   Inl e \<Rightarrow> Inl (ErrJson e)
                 | Inr cs \<Rightarrow> load_entries parse es (bmap_insert (image_of_file path) cs m))))"

definition load_from_dir ::
  "(string \<Rightarrow> string + SbomComponent list) \<Rightarrow> string + dir_entry list \<Rightarrow> ScannerError + SbomStore" where
  "load_from_dir parse dir =
     (case dir of Inl e \<Rightarrow> Inl (ErrIo e) | Inr es \<Rightarrow> load_entries parse es [])"

definition components_for_image :: "string \<Rightarrow> SbomStore \<Rightarrow> SbomComponent list" where
  "components_for_image img s = (case map_of s img of None \<Rightarrow> [] | Some cs \<Rightarrow> cs)"

definition classify_runtime_paths ::
  "string \<Rightarrow> string list \<Rightarrow> SbomStore \<Rightarrow> (SbomComponent \<times> RuntimeDisposition) list" where
  "classify_runtime_paths img observed s =
     map (\<lambda>c. (c, if list_ex (\<lambda>p. p \<in> set observed) (sc_paths c) then Reachable else Dormant))
       (components_for_image img s)"

section \<open>Containers of the node\<close>

record ContainerStatus =
  cs_container_id :: "string option"
  cs_name :: string
  cs_image :: string

record Pod =
  pd_node_name :: "string option"
  pd_statuses :: "ContainerStatus list option"
  pd_namespace :: "string option"
  pd_name_any :: string
  pd_owners :: "string list option"
  pd_labels :: "(string \<times> string) list"

type_synonym PodCache = "(string \<times> RuntimeIdentity) list"

definition normalize_container_id :: "string \<Rightarrow> string" where
  "normalize_container_id raw = last (split_on (CHR ''/'') raw)"

definition owner_name :: "Pod \<Rightarrow> string" where
  "owner_name p = (case pd_owners p of Some (w # ws) \<Rightarrow> w | _ \<Rightarrow> pd_name_any p)"

definition identity_of :: "string \<Rightarrow> Pod \<Rightarrow> ContainerStatus \<Rightarrow> RuntimeIdentity" where
  "identity_of node p c =
     \<lparr>ri_node_name = node,
      ri_namespace = (case pd_namespace p of None \<Rightarrow> [] | Some n \<Rightarrow> n),
      ri_pod_name = pd_name_any p, ri_container_name = cs_name c, ri_image = cs_image c,
      ri_workload = owner_name p, ri_labels = pd_labels p\<rparr>"

definition index_container :: "string \<Rightarrow> Pod \<Rightarrow> ContainerStatus \<Rightarrow> PodCache \<Rightarrow> PodCache" where
  "index_container node p c m =
     (case cs_container_id c of
        None \<Rightarrow> m
      | Some cid \<Rightarrow> bmap_insert (normalize_container_id cid) (identity_of node p c) m)"

definition index_pod :: "string \<Rightarrow> Pod \<Rightarrow> PodCache \<Rightarrow> PodCache" where
  "index_pod node p m =
     (case pd_statuses p of None \<Rightarrow> m | Some cs \<Rightarrow> fold (index_container node p) cs m)"

text \<open>A refresh replaces the index, or keeps it when the cluster does not answer.\<close>

definition pc_refresh :: "string + Pod list \<Rightarrow> string \<Rightarrow> PodCache \<Rightarrow> ScannerError option \<times> PodCache" where
  "pc_refresh pods node cache =
     (case pods of
        Inl e \<Rightarrow> (Some (ErrKube e), cache)
      | Inr ps \<Rightarrow> (None, fold (index_pod node) (filter (\<lambda>p. pd_node_name p = Some node) ps) []))"

definition pc_lookup :: "string \<Rightarrow> PodCache \<Rightarrow> RuntimeIdentity option" where
  "pc_lookup cid cache = map_of cache cid"

section \<open>Lemmas\<close>

text \<open>The image of a file never holds an underscore.\<close>

lemma no_underscore: "CHR ''_'' \<notin> set (image_of_file path)"
  by (auto simp: image_of_file_def replace_c_def)

text \<open>The files that count, in the order of the directory, with what they hold.\<close>

fun json_files :: "(string \<Rightarrow> string + SbomComponent list) \<Rightarrow> dir_entry list \<Rightarrow> (string \<times> SbomComponent list) list" where
  "json_files parse [] = []"
| "json_files parse (EntryFile path (Inr body) # es) =
     (if path_extension path = Some ''json''
      then (image_of_file path, projr (parse body)) # json_files parse es else json_files parse es)"
| "json_files parse (_ # es) = json_files parse es"

lemma load_entries_map:
  "load_entries parse es m = Inr s \<Longrightarrow>
   map_of s img = (case map_of (rev (json_files parse es)) img of None \<Rightarrow> map_of m img | Some c \<Rightarrow> Some c)"
proof (induction parse es m rule: load_entries.induct)
  case (3 parse path content es m)
  show ?case
  proof (cases content)
    case (Inl e)
    with 3 show ?thesis by (auto split: if_splits)
  next
    case (Inr body)
    with 3 show ?thesis
      by (cases "parse body")
         (auto split: if_splits option.splits simp: map_add_def fun_upd_def)
  qed
qed auto

lemma image_files_no_underscore: "(img, c) \<in> set (json_files parse es) \<Longrightarrow> CHR ''_'' \<notin> set img"
  by (induction parse es rule: json_files.induct) (auto simp: no_underscore split: if_splits)

text \<open>All containers of the node with an id, in the order they are indexed.\<close>

definition node_containers :: "string \<Rightarrow> Pod list \<Rightarrow> (string \<times> RuntimeIdentity) list" where
  "node_containers node ps =
     concat (map (\<lambda>p. case pd_statuses p of None \<Rightarrow> [] | Some cs \<Rightarrow>
         List.map_filter (\<lambda>c. map_option (\<lambda>i. (normalize_container_id i, identity_of node p c)) (cs_container_id c)) cs)
       (filter (\<lambda>p. pd_node_name p = Some node) ps))"

lemma map_of_index_containers:
  "map_of (fold (index_container node p) cs m) =
     map_of m ++ map_of (rev (List.map_filter (\<lambda>c. map_option (\<lambda>i. (normalize_container_id i, identity_of node p c)) (cs_container_id c)) cs))"
  by (induction cs arbitrary: m) (auto simp: index_container_def map_filter_simps split: option.splits)

lemma map_of_index_pods:
  "map_of (fold (index_pod node) (filter (\<lambda>p. pd_node_name p = Some node) ps) m) =
     map_of m ++ map_of (rev (node_containers node ps))"
proof (induction ps arbitrary: m)
  case (Cons p ps)
  then show ?case
    by (auto simp: node_containers_def index_pod_def map_of_index_containers split: option.splits)
qed (simp add: node_containers_def)

lemma bmap_insert_all:
  "list_all P m \<Longrightarrow> P (k, v) \<Longrightarrow> list_all P (bmap_insert k v m)"
  by (induction k v m rule: bmap_insert.induct) auto

lemma indexed_container:
  "list_all (\<lambda>(i, r). ri_node_name r = node) m \<Longrightarrow>
   list_all (\<lambda>(i, r). ri_node_name r = node) (index_container node p c m)"
  by (auto simp: index_container_def identity_of_def intro!: bmap_insert_all split: option.split)

lemma indexed_node:
  "list_all (\<lambda>(i, r). ri_node_name r = node) m \<Longrightarrow> list_all (\<lambda>(i, r). ri_node_name r = node) (fold (index_pod node) qs m)"
proof (induction qs arbitrary: m)
  case (Cons q qs)
  have "list_all (\<lambda>(i, r). ri_node_name r = node) (fold (index_container node q) cs m)" for cs
    using Cons.prems by (induction cs arbitrary: m) (auto intro: indexed_container)
  then show ?case using Cons by (auto simp: index_pod_def split: option.splits)
qed simp

section \<open>Properties\<close>

text \<open>A directory that loads gives each image the components of the last JSON file named after it, and
  nothing to any other image.\<close>

theorem sbom_of_last_file:
  assumes "load_from_dir parse (Inr es) = Inr s"
  shows "components_for_image img s =
    (case map_of (rev (json_files parse es)) img of None \<Rightarrow> [] | Some cs \<Rightarrow> cs)"
  using load_entries_map[of parse es "[]" s img] assms
  by (simp add: load_from_dir_def components_for_image_def split: option.splits)

theorem sbom_of_last_file_witness:
  "\<exists>s. load_from_dir (\<lambda>_. Inr []) (Inr [EntryFile ''/d/nginx_1.json'' (Inr [])]) = Inr s
     \<and> components_for_image ''nginx:1'' s = []"
proof -
  let ?es = "[EntryFile ''/d/nginx_1.json'' (Inr [])]"
  obtain s where s: "load_from_dir (\<lambda>_. Inr []) (Inr ?es) = Inr s"
    by (cases "path_extension ''/d/nginx_1.json'' = Some ''json''") (auto simp: load_from_dir_def)
  have "components_for_image ''nginx:1'' s =
      (case map_of (rev (json_files (\<lambda>_. Inr []) ?es)) ''nginx:1'' of None \<Rightarrow> [] | Some cs \<Rightarrow> cs)"
    by (rule sbom_of_last_file[OF s])
  also have "\<dots> = []" by (auto split: option.splits if_splits)
  finally show ?thesis using s by blast
qed

text \<open>An image whose name holds an underscore never has components: every underscore of a file name is
  read as a colon.\<close>

theorem underscored_images_have_no_sbom:
  assumes "load_from_dir parse (Inr es) = Inr s" "CHR ''_'' \<in> set img"
  shows "classify_runtime_paths img observed s = []"
proof -
  have "map_of (rev (json_files parse es)) img = None"
  proof (cases "map_of (rev (json_files parse es)) img")
    case (Some c)
    then show ?thesis using map_of_SomeD[OF Some] image_files_no_underscore[of img c parse es] assms(2) by simp
  qed simp
  then show ?thesis
    using load_entries_map[of parse es "[]" s img] assms(1)
    by (simp add: load_from_dir_def classify_runtime_paths_def components_for_image_def)
qed

theorem underscored_images_have_no_sbom_witness:
  "\<exists>s. load_from_dir (\<lambda>_. Inr []) (Inr [EntryFile ''/d/my_app.json'' (Inr [])]) = Inr s
     \<and> classify_runtime_paths ''my_app'' [''/lib/x''] s = []"
proof -
  obtain s where s: "load_from_dir (\<lambda>_. Inr []) (Inr [EntryFile ''/d/my_app.json'' (Inr [])]) = Inr s"
    by (cases "path_extension ''/d/my_app.json'' = Some ''json''") (auto simp: load_from_dir_def)
  then show ?thesis using underscored_images_have_no_sbom[OF s] by auto
qed

text \<open>After a refresh a container id resolves to the last status with that id among the pods of this node,
  and to nothing else; pods of other nodes are never seen.\<close>

theorem lookup_after_refresh:
  "pc_lookup cid (snd (pc_refresh (Inr ps) node cache)) = map_of (rev (node_containers node ps)) cid
   \<and> list_all (\<lambda>(i, r). ri_node_name r = node) (snd (pc_refresh (Inr ps) node []))"
proof -
  have "list_all (\<lambda>(i, r). ri_node_name r = node) (fold (index_pod node) qs m)"
    if "list_all (\<lambda>(i, r). ri_node_name r = node) m" for qs m
    using that by (rule indexed_node)
  then show ?thesis
    using map_of_index_pods[of node ps "[]"] by (simp add: pc_lookup_def pc_refresh_def)
qed

end
