(* ===== verification/Graph_Search.thy ===== *)
theory Graph_Search
  imports Petgraph Floats
begin

text \<open>
  The searches of petgraph's \<open>algo\<close> module as the attack graphs use them: \<open>astar\<close>,
  \<open>has_path_connecting\<close> and \<open>kosaraju_scc\<close>. They extend the record of graph operations;
  \<open>search_laws\<close> states what the crate documents and the program relies on. \<open>astar\<close> is documented
  for costs that are not negative only. Which of several paths it returns depends on the
  costs; only that it is a path is used.
\<close>

record ('g, 'n, 'e) search_ops = "('g, 'n, 'e) graph_ops" +
  astar :: "'g \<Rightarrow> nat \<Rightarrow> nat \<Rightarrow> ('e \<Rightarrow> fl) \<Rightarrow> nat list option"
  has_path :: "'g \<Rightarrow> nat \<Rightarrow> nat \<Rightarrow> bool"
  scc :: "'g \<Rightarrow> nat list list"

definition arcs :: "(nat \<times> nat \<times> 'e) list \<Rightarrow> (nat \<times> nat) set" where
  "arcs es = set (map (\<lambda>(x, y, e). (x, y)) es)"

fun is_walk :: "(nat \<times> nat) set \<Rightarrow> nat list \<Rightarrow> bool" where
  "is_walk r (x # y # p) \<longleftrightarrow> (x, y) \<in> r \<and> is_walk r (y # p)"
| "is_walk r _ \<longleftrightarrow> True"

definition walk_between :: "(nat \<times> nat) set \<Rightarrow> nat \<Rightarrow> nat \<Rightarrow> nat list \<Rightarrow> bool" where
  "walk_between r a b p \<longleftrightarrow> p \<noteq> [] \<and> hd p = a \<and> last p = b \<and> is_walk r p"

definition mutual :: "(nat \<times> nat) set \<Rightarrow> nat \<Rightarrow> nat \<Rightarrow> bool" where
  "mutual r a b \<longleftrightarrow> (a, b) \<in> r\<^sup>* \<and> (b, a) \<in> r\<^sup>*"

definition costs_ok :: "('e \<Rightarrow> fl) \<Rightarrow> (nat \<times> nat \<times> 'e) list \<Rightarrow> bool" where
  "costs_ok c es \<longleftrightarrow> list_all (\<lambda>(x, y, e). fl_le (Fin 0) (c e)) es"

definition search_laws :: "('g, 'n, 'e, 'x) search_ops_scheme \<Rightarrow> bool" where
  "search_laws G \<longleftrightarrow>
     digraph_laws (graph_ops.truncate G)
     \<and> (\<forall>g a b c. costs_ok c (edge_list G g) \<and> a < length (node_list G g) \<and> b < length (node_list G g) \<longrightarrow>
          (case astar G g a b c of
            None \<Rightarrow> (a, b) \<notin> (arcs (edge_list G g))\<^sup>*
          | Some p \<Rightarrow> walk_between (arcs (edge_list G g)) a b p))
     \<and> (\<forall>g a b. a < length (node_list G g) \<and> b < length (node_list G g) \<longrightarrow>
          has_path G g a b \<longleftrightarrow> (a, b) \<in> (arcs (edge_list G g))\<^sup>*)
     \<and> (\<forall>g. (\<forall>c \<in> set (scc G g). c \<noteq> [] \<and> distinct c
              \<and> (\<forall>i \<in> set c. set c = {j. j < length (node_list G g) \<and> mutual (arcs (edge_list G g)) i j}))
          \<and> (\<forall>i < length (node_list G g). \<exists>c \<in> set (scc G g). i \<in> set c)
          \<and> sorted_wrt (\<lambda>c d. set c \<inter> set d = {}) (scc G g))"

lemma is_walk_append: "is_walk r (p @ [x]) \<longleftrightarrow> is_walk r p \<and> (p = [] \<or> (last p, x) \<in> r)"
  by (induction r p rule: is_walk.induct) auto

lemma walk_rtrancl: "walk_between r a b p \<Longrightarrow> (a, b) \<in> r\<^sup>*"
proof -
  have "is_walk r p \<Longrightarrow> p \<noteq> [] \<Longrightarrow> (hd p, last p) \<in> r\<^sup>*"
    by (induction r p rule: is_walk.induct) (auto intro: converse_rtrancl_into_rtrancl)
  then show "walk_between r a b p \<Longrightarrow> (a, b) \<in> r\<^sup>*" by (auto simp: walk_between_def)
qed

lemma walk_nth: "is_walk r p \<Longrightarrow> Suc i < length p \<Longrightarrow> (p ! i, p ! Suc i) \<in> r"
proof (induction r p arbitrary: i rule: is_walk.induct)
  case (1 r x y p)
  then show ?case by (cases i) auto
qed auto

section \<open>An instance\<close>

text \<open>Searches on the list graph that try the walks up to a length: the laws can hold together.\<close>

fun walks :: "(nat \<times> nat) list \<Rightarrow> nat \<Rightarrow> nat \<Rightarrow> nat \<Rightarrow> nat list list" where
  "walks r 0 a b = (if a = b then [[a]] else [])"
| "walks r (Suc n) a b =
     (if a = b then [[a]]
      else concat (map (\<lambda>(x, y). if x = a then map ((#) a) (walks r n y b) else []) r))"

lemma walks_sound: "p \<in> set (walks r n a b) \<Longrightarrow> walk_between (set r) a b p"
proof (induction n arbitrary: a p)
  case (Suc n)
  show ?case
  proof (cases "a = b")
    case False
    then obtain y q where q: "(a, y) \<in> set r" "p = a # q" "q \<in> set (walks r n y b)"
      using Suc.prems by (auto split: if_splits)
    then have "walk_between (set r) y b q" by (intro Suc.IH)
    with q show ?thesis by (cases q) (auto simp: walk_between_def)
  qed (use Suc.prems in \<open>auto simp: walk_between_def\<close>)
qed (auto simp: walk_between_def split: if_splits)

lemma walks_complete: "(a, b) \<in> set r ^^ k \<Longrightarrow> k \<le> n \<Longrightarrow> walks r n a b \<noteq> []"
proof (induction n arbitrary: a k)
  case (Suc n)
  show ?case
  proof (cases "a = b")
    case False
    with Suc.prems obtain m where m: "k = Suc m" by (cases k) auto
    with Suc.prems obtain y where y: "(a, y) \<in> set r" "(y, b) \<in> set r ^^ m" by (metis relpow_Suc_D2)
    with m Suc.prems(2) have "walks r n y b \<noteq> []" by (intro Suc.IH) auto
    with y False show ?thesis by (auto simp: Bex_def)
  qed simp
qed auto

definition reaches :: "(nat \<times> nat) list \<Rightarrow> nat \<Rightarrow> nat \<Rightarrow> bool" where
  "reaches r a b \<longleftrightarrow> walks r (length r) a b \<noteq> []"

lemma reaches_iff: "reaches r a b \<longleftrightarrow> (a, b) \<in> (set r)\<^sup>*"
proof
  assume "reaches r a b"
  then have "hd (walks r (length r) a b) \<in> set (walks r (length r) a b)" by (simp add: reaches_def)
  then show "(a, b) \<in> (set r)\<^sup>*" by (blast intro: walk_rtrancl walks_sound)
next
  assume "(a, b) \<in> (set r)\<^sup>*"
  then obtain k where "k \<le> card (set r)" "(a, b) \<in> set r ^^ k"
    using rtrancl_finite_eq_relpow[of "set r"] by auto
  then show "reaches r a b"
    using walks_complete[where a = a and b = b and r = r and k = k and n = "length r"] card_length[of r] by (simp add: reaches_def)
qed

definition list_scc :: "nat \<Rightarrow> (nat \<times> nat) list \<Rightarrow> nat list list" where
  "list_scc n r =
     remdups (map (\<lambda>i. filter (\<lambda>j. reaches r i j \<and> reaches r j i) [0..<n]) [0..<n])"

definition arc_list :: "(nat \<times> nat \<times> 'e) list \<Rightarrow> (nat \<times> nat) list" where
  "arc_list es = map (\<lambda>(x, y, e). (x, y)) es"

definition list_search :: "('n list \<times> (nat \<times> nat \<times> 'e) list, 'n, 'e) search_ops" where
  "list_search = graph_ops.extend list_graph
     \<lparr>astar = (\<lambda>(ns, es) a b c. case walks (arc_list es) (length es) a b of [] \<Rightarrow> None | p # ps \<Rightarrow> Some p),
      has_path = (\<lambda>(ns, es) a b. reaches (arc_list es) a b),
      scc = (\<lambda>(ns, es). list_scc (length ns) (arc_list es))\<rparr>"

lemma arcs_arc_list: "arcs es = set (arc_list es)" "length (arc_list es) = length es"
  by (simp_all add: arcs_def arc_list_def)

lemma mutual_equiv: "mutual r a a" "mutual r a b \<Longrightarrow> mutual r b a" "mutual r a b \<Longrightarrow> mutual r b c \<Longrightarrow> mutual r a c"
  by (auto simp: mutual_def)

definition class_of :: "(nat \<times> nat) set \<Rightarrow> nat \<Rightarrow> nat \<Rightarrow> nat list" where
  "class_of r n i = filter (mutual r i) [0..<n]"

lemma set_class_of: "set (class_of r n i) = {j. j < n \<and> mutual r i j}"
  by (auto simp: class_of_def)

lemma class_of_eq: "k \<in> set (class_of r n i) \<Longrightarrow> class_of r n i = class_of r n k"
proof -
  assume "k \<in> set (class_of r n i)"
  then have "mutual r i k" by (simp add: set_class_of)
  then have "mutual r i j = mutual r k j" for j using mutual_equiv(2,3) by metis
  then have "mutual r i = mutual r k" by blast
  then show ?thesis by (simp add: class_of_def)
qed

lemma list_scc_classes: "list_scc n r = remdups (map (class_of (set r) n) [0..<n])"
proof -
  have "filter (\<lambda>j. reaches r i j \<and> reaches r j i) [0..<n] = class_of (set r) n i" for i
    unfolding class_of_def by (rule filter_cong) (simp_all add: reaches_iff mutual_def)
  then show ?thesis by (simp add: list_scc_def)
qed

lemma classes_disjoint:
  "distinct cs \<Longrightarrow> set cs \<subseteq> range (class_of r n) \<Longrightarrow> sorted_wrt (\<lambda>c d. set c \<inter> set d = {}) cs"
proof (induction cs)
  case (Cons c cs)
  have "set c \<inter> set d = {}" if d: "d \<in> set cs" for d
  proof (rule ccontr)
    assume "set c \<inter> set d \<noteq> {}"
    then obtain k where k: "k \<in> set c" "k \<in> set d" by blast
    have "c \<in> range (class_of r n)" "d \<in> range (class_of r n)" using Cons.prems d by auto
    then have "c = class_of r n k" "d = class_of r n k" using k class_of_eq by (metis imageE)+
    with d Cons.prems show False by simp
  qed
  with Cons show ?case by simp
qed simp

lemma list_scc_laws:
  "\<forall>c \<in> set (list_scc n r). c \<noteq> [] \<and> distinct c \<and> (\<forall>i \<in> set c. set c = {j. j < n \<and> mutual (set r) i j})"
  "\<forall>i < n. \<exists>c \<in> set (list_scc n r). i \<in> set c"
  "sorted_wrt (\<lambda>c d. set c \<inter> set d = {}) (list_scc n r)"
proof -
  have own: "i \<in> set (class_of (set r) n i)" if "i < n" for i
    using that mutual_equiv(1) by (simp add: set_class_of)
  show "\<forall>c \<in> set (list_scc n r). c \<noteq> [] \<and> distinct c \<and> (\<forall>i \<in> set c. set c = {j. j < n \<and> mutual (set r) i j})"
  proof
    fix c
    assume "c \<in> set (list_scc n r)"
    then obtain i where i: "i < n" "c = class_of (set r) n i" by (auto simp: list_scc_classes)
    have "set c = {j. j < n \<and> mutual (set r) k j}" if "k \<in> set c" for k
      using class_of_eq[of k "set r" n i] that i(2) set_class_of by metis
    moreover have "c \<noteq> []" using own[OF i(1)] i(2) by auto
    moreover have "distinct c" using i(2) by (simp add: class_of_def)
    ultimately show "c \<noteq> [] \<and> distinct c \<and> (\<forall>i \<in> set c. set c = {j. j < n \<and> mutual (set r) i j})" by blast
  qed
  show "\<forall>i < n. \<exists>c \<in> set (list_scc n r). i \<in> set c"
    using own by (fastforce simp: list_scc_classes)
  show "sorted_wrt (\<lambda>c d. set c \<inter> set d = {}) (list_scc n r)"
    unfolding list_scc_classes by (rule classes_disjoint) auto
qed

lemma list_search_simps:
  "graph_ops.truncate list_search = list_graph" "node_list list_search g = fst g" "edge_list list_search g = snd g"
  "astar list_search g a b c =
     (case walks (arc_list (snd g)) (length (snd g)) a b of [] \<Rightarrow> None | p # ps \<Rightarrow> Some p)"
  "has_path list_search g a b = reaches (arc_list (snd g)) a b"
  "scc list_search g = list_scc (length (fst g)) (arc_list (snd g))"
  by (simp_all add: list_search_def list_graph_def graph_ops.defs split_beta)

lemma list_search_laws: "search_laws list_search"
proof -
  have "case (case walks r (length r) a b of [] \<Rightarrow> None | p # ps \<Rightarrow> Some p) of
            None \<Rightarrow> (a, b) \<notin> (set r)\<^sup>* | Some p \<Rightarrow> walk_between (set r) a b p" for r a b
  proof (cases "walks r (length r) a b")
    case Nil
    then have "\<not> reaches r a b" by (simp add: reaches_def)
    then show ?thesis using Nil by (simp add: reaches_iff)
  next
    case (Cons p ps)
    then show ?thesis using walks_sound[of p r "length r" a b] by simp
  qed
  then have "case (case walks (arc_list (snd g)) (length (snd g)) a b of [] \<Rightarrow> None | p # ps \<Rightarrow> Some p) of
            None \<Rightarrow> (a, b) \<notin> (set (arc_list (snd g)))\<^sup>*
          | Some p \<Rightarrow> walk_between (set (arc_list (snd g))) a b p" for g :: "'n list \<times> (nat \<times> nat \<times> 'e) list" and a b
    by (metis arcs_arc_list(2))
  then show ?thesis
    unfolding search_laws_def list_search_simps arcs_arc_list(1)
    by (intro conjI allI impI list_graph_laws reaches_iff list_scc_laws(1,3) list_scc_laws(2)[rule_format])
qed

section \<open>Folds that may panic\<close>

fun fold_some :: "('a \<Rightarrow> 's \<Rightarrow> 's option) \<Rightarrow> 'a list \<Rightarrow> 's \<Rightarrow> 's option" where
  "fold_some f [] s = Some s"
| "fold_some f (x # xs) s = (case f x s of None \<Rightarrow> None | Some s \<Rightarrow> fold_some f xs s)"

lemma fold_some_inv:
  "(\<And>x s. I s \<Longrightarrow> \<exists>s'. f x s = Some s' \<and> I s') \<Longrightarrow> I s \<Longrightarrow> \<exists>s'. fold_some f xs s = Some s' \<and> I s'"
proof (induction xs arbitrary: s)
  case (Cons x xs)
  obtain t where "f x s = Some t" "I t" using Cons.prems by blast
  then show ?case using Cons.IH[of t] Cons.prems(1) by simp
qed simp

text \<open>The operations of a graph with searches obey the laws of its graph part.\<close>

lemma search_digraph: "search_laws G \<Longrightarrow> digraph_laws (graph_ops.truncate G)"
  by (simp add: search_laws_def)

lemmas search_graph_simps = digraph_simps[OF search_digraph, unfolded graph_ops.truncate_def, simplified]
lemmas search_add_node = digraph_add_node[OF search_digraph, unfolded graph_ops.truncate_def, simplified]
lemmas search_add_edge = digraph_add_edge[OF search_digraph, unfolded graph_ops.truncate_def, simplified]
lemmas search_find_edge = digraph_find_edge[OF search_digraph, unfolded graph_ops.truncate_def, simplified]

end
