(* ===== verification/Service_Graph.thy ===== *)
theory Service_Graph
  imports Common Graph_Search Ordering
begin

text \<open>
  The service graph of \<open>attack_graph.rs\<close>: services, their vulnerabilities and connections, and
  the analyzer that looks for chains from external entry points to databases. Every operation
  takes the petgraph operations \<open>G\<close> first; the debug printer, the fresh identifiers and the text
  replacement of dots are spelled out, \<open>None\<close> is a panic.
\<close>

datatype AssetType = Database | Secret | ConfigMap | PersistentVolume | ServiceAccount

fun AssetType_debug :: "AssetType \<Rightarrow> string" where
  "AssetType_debug Database = ''Database''"
| "AssetType_debug Secret = ''Secret''"
| "AssetType_debug ConfigMap = ''ConfigMap''"
| "AssetType_debug PersistentVolume = ''PersistentVolume''"
| "AssetType_debug ServiceAccount = ''ServiceAccount''"

datatype AttackNode =
    External string u16
  | Service string string string
  | SVulnerability string string f64 string
  | Asset string AssetType

datatype AttackEdge =
    SNetworkConnection string u16 bool | DependsOn | Exploits | LeadsTo f32 | HasAccessTo "string list"

record 'g AttackGraph =
  ag_graph :: 'g
  ag_node_indices :: "string \<rightharpoonup> nat"

datatype Complexity = CxLow | CxMedium | CxHigh

datatype Impact = ImCritical | ImHigh | ImMedium | ImLow

record AttackChain =
  ch_id :: string
  ch_nodes :: "AttackNode list"
  ch_edges :: "(nat \<times> nat \<times> AttackEdge) list"
  ch_total_cvss :: f32
  ch_exploitation_complexity :: Complexity
  ch_impact :: Impact
  ch_attack_path :: "string list"

record 'g AttackPathAnalyzer =
  an_graph :: "'g AttackGraph"
  an_entry_points :: "nat list"
  an_critical_assets :: "nat list"

record ServiceInfo =
  sv_name :: string
  sv_namespace :: string
  sv_image :: string
  sv_cluster_ip :: string
  sv_ports :: "u16 list"

record NetworkConnection =
  nc_source_ip :: string
  nc_dest_ip :: string
  nc_dest_port :: u16
  nc_protocol :: string
  nc_encrypted :: bool

type_synonym 'g service_ops = "('g, AttackNode, AttackEdge) search_ops"

section \<open>The graph\<close>

definition AttackGraph_new :: "'g service_ops \<Rightarrow> 'g AttackGraph" where
  "AttackGraph_new G = \<lparr>ag_graph = g_empty G, ag_node_indices = Map.empty\<rparr>"

fun sv_node_id :: "AttackNode \<Rightarrow> string" where
  "sv_node_id (External ip port) = ''ext:'' @ ip @ '':'' @ dec_w port"
| "sv_node_id (Service name ns img) = ''svc:'' @ ns @ ''/'' @ name"
| "sv_node_id (SVulnerability cve sev cvss pkg) = ''vuln:'' @ cve"
| "sv_node_id (Asset name t) = ''asset:'' @ AssetType_debug t @ '':'' @ name"

fun AttackNode_display :: "AttackNode \<Rightarrow> string" where
  "AttackNode_display (External ip port) = ''External('' @ ip @ '':'' @ dec_w port @ '')''"
| "AttackNode_display (Service name ns img) = ns @ ''/'' @ name"
| "AttackNode_display (SVulnerability cve sev cvss pkg) = cve @ '' ('' @ sev @ '')''"
| "AttackNode_display (Asset name t) = AssetType_debug t @ ''('' @ name @ '')''"

definition ag_add_node :: "'g service_ops \<Rightarrow> AttackNode \<Rightarrow> 'g AttackGraph \<Rightarrow> (nat \<times> 'g AttackGraph) option" where
  "ag_add_node G node s =
     (case ag_node_indices s (sv_node_id node) of
        Some idx \<Rightarrow> Some (idx, s)
      | None \<Rightarrow>
          (case g_add_node G node (ag_graph s) of
             None \<Rightarrow> None
           | Some (idx, g) \<Rightarrow>
               Some (idx, s\<lparr>ag_graph := g, ag_node_indices := (ag_node_indices s)(sv_node_id node \<mapsto> idx)\<rparr>)))"

definition ag_add_edge :: "'g service_ops \<Rightarrow> nat \<Rightarrow> nat \<Rightarrow> AttackEdge \<Rightarrow> 'g AttackGraph \<Rightarrow> 'g AttackGraph option" where
  "ag_add_edge G a b e s = map_option (\<lambda>g. s\<lparr>ag_graph := g\<rparr>) (g_add_edge G a b e (ag_graph s))"

definition ag_get_node :: "'g service_ops \<Rightarrow> nat \<Rightarrow> 'g AttackGraph \<Rightarrow> AttackNode option" where
  "ag_get_node G idx s = node_weight G (ag_graph s) idx"

definition ag_nodes :: "'g service_ops \<Rightarrow> 'g AttackGraph \<Rightarrow> AttackNode list" where
  "ag_nodes G s = node_list G (ag_graph s)"

definition ag_neighbors :: "'g service_ops \<Rightarrow> nat \<Rightarrow> 'g AttackGraph \<Rightarrow> (nat \<times> AttackEdge) list" where
  "ag_neighbors G idx s = edges_out G (ag_graph s) idx"

text \<open>The node indices of a graph, in order.\<close>

definition node_indices :: "'g service_ops \<Rightarrow> 'g \<Rightarrow> nat list" where
  "node_indices G g = [0..<length (node_list G g)]"

definition dots_to_dashes :: "string \<Rightarrow> string" where
  "dots_to_dashes s = map (\<lambda>c. if c = CHR ''.'' then CHR ''-'' else c) s"

definition find_service_by_ip :: "'g service_ops \<Rightarrow> string \<Rightarrow> 'g AttackGraph \<Rightarrow> nat option" where
  "find_service_by_ip G ip s =
     find (\<lambda>i. case node_weight G (ag_graph s) i of
                 Some (Service name ns img) \<Rightarrow> contains name (dots_to_dashes ip)
               | _ \<Rightarrow> False)
       (node_indices G (ag_graph s))"

section \<open>Building from the cluster\<close>

definition add_service :: "'g service_ops \<Rightarrow> ServiceInfo \<Rightarrow> 'g AttackGraph \<Rightarrow> 'g AttackGraph option" where
  "add_service G v s = map_option snd (ag_add_node G (Service (sv_name v) (sv_namespace v) (sv_image v)) s)"

definition add_finding :: "'g service_ops \<Rightarrow> Finding \<Rightarrow> 'g AttackGraph \<Rightarrow> 'g AttackGraph option" where
  "add_finding G f s =
     (let sg = fd_signal f; r = fd_identity f
      in case ag_add_node G (SVulnerability (rs_cve sg) (Priority_debug (fd_priority f))
                            (fcast F64 (rs_cvss sg)) (rs_package sg)) s of
           None \<Rightarrow> None
         | Some (vuln_idx, s) \<Rightarrow>
             (case ag_node_indices s (sv_node_id (Service (ri_workload r) (ri_namespace r) (ri_image r))) of
                None \<Rightarrow> Some s
              | Some svc_idx \<Rightarrow> ag_add_edge G vuln_idx svc_idx Exploits s))"

definition add_connection :: "'g service_ops \<Rightarrow> NetworkConnection \<Rightarrow> 'g AttackGraph \<Rightarrow> 'g AttackGraph option" where
  "add_connection G c s =
     (case (find_service_by_ip G (nc_source_ip c) s, find_service_by_ip G (nc_dest_ip c) s) of
        (Some a, Some b) \<Rightarrow>
          ag_add_edge G a b (SNetworkConnection (nc_protocol c) (nc_dest_port c) (nc_encrypted c)) s
      | _ \<Rightarrow> Some s)"

definition build_from_k8s ::
  "'g service_ops \<Rightarrow> ServiceInfo list \<Rightarrow> Finding list \<Rightarrow> NetworkConnection list \<Rightarrow> 'g AttackGraph
   \<Rightarrow> 'g AttackGraph option" where
  "build_from_k8s G services findings conns s =
     (case fold_some (add_service G) services s of
        None \<Rightarrow> None
      | Some s \<Rightarrow>
          (case fold_some (add_finding G) findings s of
             None \<Rightarrow> None | Some s \<Rightarrow> fold_some (add_connection G) conns s))"

section \<open>The analyzer\<close>

fun is_external :: "AttackNode \<Rightarrow> bool" where
  "is_external (External ip port) = True" | "is_external _ = False"

fun is_database :: "AttackNode \<Rightarrow> bool" where
  "is_database (Asset name Database) = True" | "is_database _ = False"

definition indices_where :: "'g service_ops \<Rightarrow> (AttackNode \<Rightarrow> bool) \<Rightarrow> 'g \<Rightarrow> nat list" where
  "indices_where G P g =
     filter (\<lambda>i. case node_weight G g i of Some n \<Rightarrow> P n | None \<Rightarrow> False) (node_indices G g)"

definition AttackPathAnalyzer_new :: "'g service_ops \<Rightarrow> 'g AttackGraph \<Rightarrow> 'g AttackPathAnalyzer" where
  "AttackPathAnalyzer_new G s =
     \<lparr>an_graph = s, an_entry_points = indices_where G is_external (ag_graph s),
      an_critical_assets = indices_where G is_database (ag_graph s)\<rparr>"

fun edge_cost :: "AttackEdge \<Rightarrow> f32" where
  "edge_cost Exploits = lit32 1"
| "edge_cost (LeadsTo c) = fsub F32 (lit32 10) (fmul F32 c (lit32 10))"
| "edge_cost (SNetworkConnection p q enc) = (if enc then lit32 5 else lit32 2)"
| "edge_cost (HasAccessTo ps) = lit32 3"
| "edge_cost DependsOn = lit32 (3/2)"

definition find_path :: "'g service_ops \<Rightarrow> nat \<Rightarrow> nat \<Rightarrow> 'g AttackPathAnalyzer \<Rightarrow> nat list option" where
  "find_path G a b z = astar G (ag_graph (an_graph z)) a b edge_cost"

definition chain_hop :: "'g service_ops \<Rightarrow> 'g \<Rightarrow> nat \<times> nat \<times> nat \<Rightarrow> (nat \<times> nat \<times> AttackEdge) option" where
  "chain_hop G g h =
     (case h of (i, a, b) \<Rightarrow>
        case find_edge G g a b of
          None \<Rightarrow> None | Some k \<Rightarrow> map_option (\<lambda>w. (i, Suc i, w)) (edge_weight G g k))"

definition windows2 :: "nat list \<Rightarrow> (nat \<times> nat \<times> nat) list" where
  "windows2 p = zip [0..<length p - 1] (zip p (tl p))"

definition vuln_cvss :: "AttackNode \<Rightarrow> f64 option" where
  "vuln_cvss n = (case n of SVulnerability c s x p \<Rightarrow> Some x | _ \<Rightarrow> None)"

definition complexity_of :: "nat \<Rightarrow> Complexity" where
  "complexity_of n = (if n \<le> 2 then CxLow else if n \<le> 4 then CxMedium else CxHigh)"

definition impact_of :: "f64 \<Rightarrow> Impact" where
  "impact_of x =
     (if fl_gt x (lit64 15) then ImCritical else if fl_gt x (lit64 10) then ImHigh
      else if fl_gt x (lit64 5) then ImMedium else ImLow)"

definition build_chain ::
  "'g service_ops \<Rightarrow> (AttackNode \<Rightarrow> string) \<Rightarrow> string \<Rightarrow> nat list \<Rightarrow> 'g AttackPathAnalyzer \<Rightarrow> AttackChain" where
  "build_chain G dbg uuid path z =
     (let g = ag_graph (an_graph z);
          nodes = List.map_filter (node_weight G g) path;
          edges = List.map_filter (chain_hop G g) (windows2 path);
          total_cvss = fsum F64 (List.map_filter vuln_cvss nodes)
      in \<lparr>ch_id = ''chain-'' @ uuid, ch_nodes = nodes, ch_edges = edges,
          ch_total_cvss = fcast F32 total_cvss,
          ch_exploitation_complexity = complexity_of (length edges),
          ch_impact = impact_of total_cvss,
          ch_attack_path =
            List.map_filter (\<lambda>h. case chain_hop G g h of
                                None \<Rightarrow> None | Some e \<Rightarrow> map_option dbg (node_weight G g (fst (snd h))))
              (windows2 path)\<rparr>)"

definition find_attack_chains ::
  "'g service_ops \<Rightarrow> (AttackNode \<Rightarrow> string) \<Rightarrow> (nat \<Rightarrow> nat \<Rightarrow> string) \<Rightarrow> 'g AttackPathAnalyzer \<Rightarrow> AttackChain list" where
  "find_attack_chains G dbg uuid z =
     sort_by (key_desc ch_total_cvss)
       (List.map_filter (\<lambda>(a, b). map_option (\<lambda>p. build_chain G dbg (uuid a b) p z) (find_path G a b z))
          (List.product (an_entry_points z) (an_critical_assets z)))"

definition lateral_chain :: "'g service_ops \<Rightarrow> string \<Rightarrow> 'g \<Rightarrow> nat list \<Rightarrow> AttackChain" where
  "lateral_chain G uuid g component =
     \<lparr>ch_id = ''lateral-'' @ uuid, ch_nodes = List.map_filter (node_weight G g) component, ch_edges = [],
      ch_total_cvss = lit32 0, ch_exploitation_complexity = CxMedium, ch_impact = ImHigh,
      ch_attack_path = [''Lateral movement detected'']\<rparr>"

definition find_lateral_movement :: "'g service_ops \<Rightarrow> (nat list \<Rightarrow> string) \<Rightarrow> 'g AttackPathAnalyzer \<Rightarrow> AttackChain list" where
  "find_lateral_movement G uuid z =
     (let g = ag_graph (an_graph z)
      in map (\<lambda>c. lateral_chain G (uuid c) g c) (filter (\<lambda>c. 1 < length c) (scc G g)))"

fun has_name :: "string \<Rightarrow> AttackNode \<Rightarrow> bool" where
  "has_name name (External ip port) = (ip = name)"
| "has_name name (Service n ns img) = (n = name)"
| "has_name name (SVulnerability cve sev x p) = (cve = name)"
| "has_name name (Asset n t) = (n = name)"

definition find_node_by_name :: "'g service_ops \<Rightarrow> string \<Rightarrow> 'g AttackPathAnalyzer \<Rightarrow> nat option" where
  "find_node_by_name G name z =
     find (\<lambda>i. has_name name (ag_nodes G (an_graph z) ! i)) [0..<length (ag_nodes G (an_graph z))]"

definition can_reach :: "'g service_ops \<Rightarrow> string \<Rightarrow> string \<Rightarrow> 'g AttackPathAnalyzer \<Rightarrow> bool" where
  "can_reach G a b z =
     (case (find_node_by_name G a z, find_node_by_name G b z) of
        (Some i, Some j) \<Rightarrow> has_path G (ag_graph (an_graph z)) i j
      | _ \<Rightarrow> False)"

section \<open>The invariant\<close>

text \<open>Ids and indices correspond and edges join nodes of the graph.\<close>

definition edges_inside :: "nat \<Rightarrow> (nat \<times> nat \<times> 'e) list \<Rightarrow> bool" where
  "edges_inside n es \<longleftrightarrow> list_all (\<lambda>(a, b, e). a < n \<and> b < n) es"

definition service_graph_ok :: "'g service_ops \<Rightarrow> 'g AttackGraph \<Rightarrow> bool" where
  "service_graph_ok G s \<longleftrightarrow>
     (\<forall>k i. ag_node_indices s k = Some i \<longleftrightarrow>
        i < length (node_list G (ag_graph s)) \<and> sv_node_id (node_list G (ag_graph s) ! i) = k)
     \<and> edges_inside (length (node_list G (ag_graph s))) (edge_list G (ag_graph s))"

lemma service_graph_ok_new: "search_laws G \<Longrightarrow> service_graph_ok G (AttackGraph_new G)"
  by (simp add: service_graph_ok_def AttackGraph_new_def search_graph_simps edges_inside_def)

lemma edges_inside_mono: "edges_inside n es \<Longrightarrow> n \<le> m \<Longrightarrow> edges_inside m es"
  by (auto simp: edges_inside_def list_all_iff)

definition ag_size :: "'g service_ops \<Rightarrow> 'g AttackGraph \<Rightarrow> nat \<times> nat" where
  "ag_size G s = (length (node_list G (ag_graph s)), length (edge_list G (ag_graph s)))"

lemma service_node_cases:
  assumes "search_laws G" "service_graph_ok G s"
  obtains (full) "ag_add_node G n s = None" "index_limit \<le> fst (ag_size G s)"
  | (added) i t where "ag_add_node G n s = Some (i, t)" "service_graph_ok G t" "i < length (node_list G (ag_graph t))"
      "set (node_list G (ag_graph t)) \<subseteq> insert n (set (node_list G (ag_graph s)))"
      "fst (ag_size G t) \<le> Suc (fst (ag_size G s))" "snd (ag_size G t) = snd (ag_size G s)"
proof (cases "ag_node_indices s (sv_node_id n)")
  case (Some j)
  then have "ag_add_node G n s = Some (j, s)" by (simp add: ag_add_node_def)
  moreover have "j < length (node_list G (ag_graph s))"
    using Some assms(2) by (simp add: service_graph_ok_def)
  ultimately show thesis using assms(2) by (intro added[of j s]) auto
next
  case None
  let ?ns = "node_list G (ag_graph s)"
  show thesis
  proof (rule search_add_node[OF assms(1), of n "ag_graph s"])
    assume "g_add_node G n (ag_graph s) = None" "index_limit \<le> length ?ns"
    then show thesis using None by (intro full) (simp_all add: ag_add_node_def ag_size_def)
  next
    fix g
    assume g: "g_add_node G n (ag_graph s) = Some (length ?ns, g)" "node_list G g = ?ns @ [n]"
      "edge_list G g = edge_list G (ag_graph s)"
    let ?t = "s\<lparr>ag_graph := g, ag_node_indices := (ag_node_indices s)(sv_node_id n \<mapsto> length ?ns)\<rparr>"
    have new: "sv_node_id (?ns ! j) \<noteq> sv_node_id n" if "j < length ?ns" for j
      using assms(2) None that unfolding service_graph_ok_def by (metis option.distinct(1))
    have "service_graph_ok G ?t"
      using assms(2) g(2,3) new unfolding service_graph_ok_def
      by (auto simp: nth_append less_Suc_eq intro: edges_inside_mono)
    then show thesis using None g by (intro added[of "length ?ns" ?t]) (auto simp: ag_add_node_def ag_size_def)
  qed
qed

lemma add_edge_ok:
  assumes "search_laws G" "service_graph_ok G s" "a < length (node_list G (ag_graph s))" "b < length (node_list G (ag_graph s))"
  shows "case ag_add_edge G a b e s of
      None \<Rightarrow> index_limit \<le> snd (ag_size G s)
    | Some t \<Rightarrow> service_graph_ok G t \<and> node_list G (ag_graph t) = node_list G (ag_graph s)
        \<and> snd (ag_size G t) \<le> Suc (snd (ag_size G s))"
  by (rule search_add_edge[OF assms(1,3,4), of e])
    (use assms(2-4) in \<open>auto simp: ag_add_edge_def service_graph_ok_def edges_inside_def ag_size_def\<close>)

lemma found_index:
  "find_service_by_ip G ip s = Some i \<Longrightarrow> i < length (node_list G (ag_graph s))"
  by (auto simp: find_service_by_ip_def node_indices_def find_Some_iff)

text \<open>A graph of the cluster holds services and vulnerabilities only.\<close>

fun is_internal :: "AttackNode \<Rightarrow> bool" where
  "is_internal (Service n ns img) = True"
| "is_internal (SVulnerability c sv x p) = True"
| "is_internal _ = False"

definition cluster_ok :: "'g service_ops \<Rightarrow> 'g AttackGraph \<Rightarrow> bool" where
  "cluster_ok G s \<longleftrightarrow> service_graph_ok G s \<and> (\<forall>n \<in> set (node_list G (ag_graph s)). is_internal n)"

definition sized_within :: "nat \<Rightarrow> nat \<Rightarrow> 'g service_ops \<Rightarrow> 'g AttackGraph \<Rightarrow> bool" where
  "sized_within n k G s \<longleftrightarrow> cluster_ok G s \<and> fst (ag_size G s) \<le> n \<and> snd (ag_size G s) \<le> k"

lemma add_service_sized:
  assumes "search_laws G" "sized_within n k G s"
  shows "case add_service G v s of None \<Rightarrow> index_limit \<le> n | Some t \<Rightarrow> sized_within (Suc n) k G t"
  by (rule service_node_cases[OF assms(1), of s "Service (sv_name v) (sv_namespace v) (sv_image v)"])
    (use assms(2) in \<open>auto simp: sized_within_def cluster_ok_def add_service_def dest: subsetD\<close>)

lemma add_finding_sized:
  assumes "search_laws G" "sized_within n k G s"
  shows "case add_finding G f s of None \<Rightarrow> index_limit \<le> n \<or> index_limit \<le> k | Some t \<Rightarrow> sized_within (Suc n) (Suc k) G t"
proof -
  let ?v = "SVulnerability (rs_cve (fd_signal f)) (Priority_debug (fd_priority f))
      (fcast F64 (rs_cvss (fd_signal f))) (rs_package (fd_signal f))"
  let ?k = "sv_node_id (Service (ri_workload (fd_identity f)) (ri_namespace (fd_identity f)) (ri_image (fd_identity f)))"
  have s: "service_graph_ok G s" using assms(2) by (simp add: sized_within_def cluster_ok_def)
  show ?thesis
  proof (rule service_node_cases[OF assms(1) s, of ?v])
    assume "ag_add_node G ?v s = None" "index_limit \<le> fst (ag_size G s)"
    then show ?thesis using assms(2) by (simp add: add_finding_def sized_within_def)
  next
    fix i t
    assume t: "ag_add_node G ?v s = Some (i, t)" "service_graph_ok G t" "i < length (node_list G (ag_graph t))"
      "set (node_list G (ag_graph t)) \<subseteq> insert ?v (set (node_list G (ag_graph s)))"
      "fst (ag_size G t) \<le> Suc (fst (ag_size G s))" "snd (ag_size G t) = snd (ag_size G s)"
    have c: "cluster_ok G t" using t assms(2) by (auto simp: sized_within_def cluster_ok_def dest: subsetD)
    show ?thesis
    proof (cases "ag_node_indices t ?k")
      case None
      with c t assms(2) show ?thesis by (simp add: add_finding_def Let_def sized_within_def)
    next
      case (Some j)
      then have "j < length (node_list G (ag_graph t))" using t(2) by (simp add: service_graph_ok_def)
      from add_edge_ok[OF assms(1) t(2,3) this, of Exploits] show ?thesis
        using Some t c assms(2)
        by (auto simp: add_finding_def Let_def sized_within_def cluster_ok_def ag_size_def split: option.splits)
    qed
  qed
qed

lemma add_connection_sized:
  assumes "search_laws G" "sized_within n k G s"
  shows "case add_connection G c s of None \<Rightarrow> index_limit \<le> k | Some t \<Rightarrow> sized_within n (Suc k) G t"
proof -
  have s: "service_graph_ok G s" using assms(2) by (simp add: sized_within_def cluster_ok_def)
  show ?thesis
  proof (cases "find_service_by_ip G (nc_source_ip c) s")
    case None
    then show ?thesis using assms(2) by (simp add: add_connection_def sized_within_def)
  next
    case a: (Some a)
    show ?thesis
    proof (cases "find_service_by_ip G (nc_dest_ip c) s")
      case None
      then show ?thesis using assms(2) a by (simp add: add_connection_def sized_within_def)
    next
      case (Some b)
      with a show ?thesis
        using assms(2) add_edge_ok[OF assms(1) s found_index[OF a] found_index[OF Some],
            of "SNetworkConnection (nc_protocol c) (nc_dest_port c) (nc_encrypted c)"]
        by (auto simp: add_connection_def sized_within_def cluster_ok_def ag_size_def split: option.splits)
    qed
  qed
qed

text \<open>A fold of steps that each add at most so many nodes and edges.\<close>

lemma fold_sized_within:
  assumes "\<And>x n k s. sized_within n k G s \<Longrightarrow>
      case f x s of None \<Rightarrow> index_limit < n + a \<or> index_limit < k + b | Some t \<Rightarrow> sized_within (n + a) (k + b) G t"
  shows "sized_within n k G s \<Longrightarrow>
    case fold_some f xs s of
      None \<Rightarrow> index_limit < n + length xs * a \<or> index_limit < k + length xs * b
    | Some t \<Rightarrow> sized_within (n + length xs * a) (k + length xs * b) G t"
proof (induction xs arbitrary: n k s)
  case (Cons x xs)
  show ?case
  proof (cases "f x s")
    case None
    then show ?thesis using assms[OF Cons.prems, of x] by auto
  next
    case (Some t)
    then have "sized_within (n + a) (k + b) G t" using assms[OF Cons.prems, of x] by simp
    from Cons.IH[OF this] show ?thesis using Some by (simp add: algebra_simps split: option.splits)
  qed
qed simp

lemma build_cases:
  assumes "search_laws G"
  shows "case build_from_k8s G services findings conns (AttackGraph_new G) of
      None \<Rightarrow> index_limit < length services + length findings \<or> index_limit < length findings + length conns
    | Some s \<Rightarrow> cluster_ok G s"
proof -
  let ?v = "length services" and ?f = "length findings" and ?c = "length conns"
  have new: "sized_within 0 0 G (AttackGraph_new G)"
    using service_graph_ok_new[OF assms] assms
    by (simp add: sized_within_def cluster_ok_def ag_size_def AttackGraph_new_def search_graph_simps)
  have add: "case add_service G x s of None \<Rightarrow> index_limit < n + 1 \<or> index_limit < k + 0
      | Some t \<Rightarrow> sized_within (n + 1) (k + 0) G t" if "sized_within n k G s" for x n k s
    using add_service_sized[OF assms that, of x] by (auto split: option.splits)
  have 1: "case fold_some (add_service G) services (AttackGraph_new G) of
      None \<Rightarrow> index_limit < ?v \<or> index_limit < 0 | Some t \<Rightarrow> sized_within ?v 0 G t"
    using fold_sized_within[where f = "add_service G" and G = G and a = 1 and b = 0 and xs = services, OF add new]
    by (simp split: option.splits)
  have find: "case add_finding G x s of None \<Rightarrow> index_limit < n + 1 \<or> index_limit < k + 1
      | Some t \<Rightarrow> sized_within (n + 1) (k + 1) G t" if "sized_within n k G s" for x n k s
    using add_finding_sized[OF assms that, of x] by (auto split: option.splits)
  have 2: "case fold_some (add_finding G) findings t of
      None \<Rightarrow> index_limit < ?v + ?f \<or> index_limit < ?f | Some u \<Rightarrow> sized_within (?v + ?f) ?f G u" if "sized_within ?v 0 G t" for t
    using fold_sized_within[where f = "add_finding G" and G = G and a = 1 and b = 1 and xs = findings, OF find that] by (simp split: option.splits)
  have conn: "case add_connection G x s of None \<Rightarrow> index_limit < n + 0 \<or> index_limit < k + 1
      | Some t \<Rightarrow> sized_within (n + 0) (k + 1) G t" if "sized_within n k G s" for x n k s
    using add_connection_sized[OF assms that, of x] by (auto split: option.splits)
  have 3: "case fold_some (add_connection G) conns t of
      None \<Rightarrow> index_limit < ?v + ?f \<or> index_limit < ?f + ?c | Some u \<Rightarrow> sized_within (?v + ?f) (?f + ?c) G u"
    if "sized_within (?v + ?f) ?f G t" for t
    using fold_sized_within[where f = "add_connection G" and G = G and a = 0 and b = 1 and xs = conns, OF conn that] by (simp split: option.splits)
  show ?thesis
    using 1 2 3 by (fastforce simp: build_from_k8s_def sized_within_def split: option.splits)
qed

lemma cluster_no_entry:
  "search_laws G \<Longrightarrow> cluster_ok G s \<Longrightarrow> indices_where G is_external (ag_graph s) = []"
proof -
  assume a: "search_laws G" "cluster_ok G s"
  have x: "\<not> is_external n" if "is_internal n" for n using that by (cases n) simp_all
  have "\<not> is_external (node_list G (ag_graph s) ! i)" if "i < length (node_list G (ag_graph s))" for i
    using a(2) nth_mem[OF that] x unfolding cluster_ok_def by blast
  then show ?thesis
    unfolding indices_where_def node_indices_def filter_empty_conv
    by (simp add: search_graph_simps(3)[OF a(1)])
qed

section \<open>Chains\<close>

lemma arc_inside: "edges_inside n es \<Longrightarrow> (x, y) \<in> arcs es \<Longrightarrow> y < n"
  unfolding edges_inside_def arcs_def list_all_iff by fastforce

lemma walk_inside:
  "edges_inside n es \<Longrightarrow> is_walk (arcs es) p \<Longrightarrow> p \<noteq> [] \<Longrightarrow> hd p < n \<Longrightarrow> \<forall>i \<in> set p. i < n"
proof (induction p)
  case step: (Cons x p)
  show ?case
  proof (cases p)
    case (Cons y q)
    with step.prems have "(x, y) \<in> arcs es" "is_walk (arcs es) p" by simp_all
    then show ?thesis using step arc_inside[of n es x y] Cons by simp
  qed (use step.prems in simp)
qed simp

lemma map_filter_all: "(\<And>x. x \<in> set xs \<Longrightarrow> f x = Some (g x)) \<Longrightarrow> List.map_filter f xs = map g xs"
  by (induction xs) (auto simp: map_filter_simps)

lemma indices_where_D:
  "search_laws G \<Longrightarrow> i \<in> set (indices_where G P g) \<Longrightarrow> i < length (node_list G g) \<and> P (node_list G g ! i)"
  by (auto simp: indices_where_def node_indices_def search_graph_simps)

text \<open>The weight a hop gets: of the first edge between its nodes.\<close>

definition hop_weight :: "'g service_ops \<Rightarrow> 'g \<Rightarrow> nat \<Rightarrow> nat \<Rightarrow> AttackEdge" where
  "hop_weight G g a b = the (edge_weight G g (the (find_edge G g a b)))"

lemma hop_of_arc:
  assumes "search_laws G" "(a, b) \<in> arcs (edge_list G g)"
  shows "chain_hop G g (i, a, b) = Some (i, Suc i, hop_weight G g a b)" "(a, b, hop_weight G g a b) \<in> set (edge_list G g)"
proof -
  obtain e where e: "(a, b, e) \<in> set (edge_list G g)" using assms(2) by (auto simp: arcs_def)
  then obtain k where k: "find_edge G g a b = Some k"
    using search_find_edge(1)[OF assms(1)] by (metis option.exhaust)
  note f = search_find_edge(2-4)[OF assms(1) k]
  have w: "edge_weight G g k = Some (snd (snd (edge_list G g ! k)))"
    using search_graph_simps(4)[OF assms(1), of g k] f(1) by simp
  then show "chain_hop G g (i, a, b) = Some (i, Suc i, hop_weight G g a b)"
    using k by (simp add: chain_hop_def hop_weight_def)
  have "edge_list G g ! k = (a, b, hop_weight G g a b)" using f(2,3) k w by (simp add: hop_weight_def prod_eq_iff)
  then show "(a, b, hop_weight G g a b) \<in> set (edge_list G g)" using nth_mem[OF f(1)] by simp
qed

lemma chain_edges:
  assumes "search_laws G" "is_walk (arcs (edge_list G g)) p"
  shows "List.map_filter (chain_hop G g) (windows2 p) =
    map (\<lambda>i. (i, Suc i, hop_weight G g (p ! i) (p ! Suc i))) [0..<length p - 1]"
proof -
  have w: "windows2 p = map (\<lambda>i. (i, p ! i, p ! Suc i)) [0..<length p - 1]"
    by (auto simp: windows2_def nth_tl intro!: nth_equalityI)
  have "chain_hop G g (i, p ! i, p ! Suc i) = Some (i, Suc i, hop_weight G g (p ! i) (p ! Suc i))"
    if "i < length p - 1" for i
    using that walk_nth[OF assms(2), of i] by (intro hop_of_arc(1)[OF assms(1)]) simp
  then show ?thesis
    unfolding w List.map_filter_def by (auto simp: filter_map comp_def intro!: map_cong)
qed

text \<open>The nodes of a chain are those of a path in the graph, and its edges join them in turn.\<close>

definition chain_ok :: "'g service_ops \<Rightarrow> 'g AttackGraph \<Rightarrow> AttackChain \<Rightarrow> bool" where
  "chain_ok G s c \<longleftrightarrow>
     is_external (hd (ch_nodes c)) \<and> is_database (last (ch_nodes c))
     \<and> (\<exists>p. p \<noteq> [] \<and> list_all (\<lambda>i. i < length (node_list G (ag_graph s))) p
          \<and> ch_nodes c = map ((!) (node_list G (ag_graph s))) p
          \<and> length (ch_edges c) = length p - 1
          \<and> list_all (\<lambda>i. list_ex (\<lambda>(a, b, e). a = p ! i \<and> b = p ! Suc i \<and> ch_edges c ! i = (i, Suc i, e))
                         (edge_list G (ag_graph s))) [0..<length p - 1])"

text \<open>The confidence of an edge is a number between 0 and 1, so no edge has a negative cost.\<close>

definition confidences_ok :: "(nat \<times> nat \<times> AttackEdge) list \<Rightarrow> bool" where
  "confidences_ok es \<longleftrightarrow> list_all (\<lambda>(a, b, e). case e of LeadsTo c \<Rightarrow> fl_in 0 1 c | _ \<Rightarrow> True) es"

lemma edge_cost_nonneg: "(case e of LeadsTo c \<Rightarrow> fl_in 0 1 c | _ \<Rightarrow> True) \<Longrightarrow> fl_le (Fin 0) (edge_cost e)"
proof -
  have lits: "lit32 10 = Fin 10" "lit32 1 = Fin 1" "lit32 5 = Fin 5" "lit32 2 = Fin 2" "lit32 3 = Fin 3"
    by (rule fl_of_id, simp)+
  have half: "fl_in 0 2 (lit32 (3/2))" by (rule fl_of_in) simp_all
  assume c: "case e of LeadsTo c \<Rightarrow> fl_in 0 1 c | _ \<Rightarrow> True"
  show ?thesis
  proof (cases e)
    case (LeadsTo c)
    then have "fl_in 0 10 (fmul F32 c (Fin 10))" using c by (intro fmul_in[where b = 1 and d = 10]) simp_all
    then have "fl_in (- 10) 0 (fneg (fmul F32 c (Fin 10)))" by (cases "fmul F32 c (Fin 10)") simp_all
    then have "fl_in 0 10 (fadd F32 (Fin 10) (fneg (fmul F32 c (Fin 10))))"
      by (intro fadd_in[where a = 10 and b = 10 and c = "- 10" and d = 0]) simp_all
    then show ?thesis using LeadsTo by (simp add: fsub_def lits fl_in_iff)
  qed (use half in \<open>simp_all add: lits fl_in_iff\<close>)
qed

lemma confidences_costs: "confidences_ok es \<Longrightarrow> costs_ok edge_cost es"
  using edge_cost_nonneg by (auto simp: confidences_ok_def costs_ok_def list_all_iff)

lemma astar_path:
  assumes "search_laws G" "confidences_ok (edge_list G g)" "a < length (node_list G g)" "b < length (node_list G g)"
  shows "case astar G g a b edge_cost of None \<Rightarrow> (a, b) \<notin> (arcs (edge_list G g))\<^sup>*
      | Some p \<Rightarrow> walk_between (arcs (edge_list G g)) a b p"
  using assms(1,3,4) confidences_costs[OF assms(2)] unfolding search_laws_def by blast

lemma chain_facts:
  assumes "search_laws G" "service_graph_ok G s" "confidences_ok (edge_list G (ag_graph s))"
    "a \<in> set (an_entry_points (AttackPathAnalyzer_new G s))"
    "b \<in> set (an_critical_assets (AttackPathAnalyzer_new G s))"
  shows "find_path G a b (AttackPathAnalyzer_new G s) = Some p \<Longrightarrow>
      chain_ok G s (build_chain G dbg u p (AttackPathAnalyzer_new G s))"
    "find_path G a b (AttackPathAnalyzer_new G s) \<noteq> None \<longleftrightarrow> (a, b) \<in> (arcs (edge_list G (ag_graph s)))\<^sup>*"
proof -
  let ?g = "ag_graph s"
  let ?ns = "node_list G ?g" and ?es = "edge_list G ?g"
  have a: "a < length ?ns" "is_external (?ns ! a)" and b: "b < length ?ns" "is_database (?ns ! b)"
    using assms(4,5) indices_where_D[OF assms(1)] by (auto simp: AttackPathAnalyzer_new_def)
  note star = astar_path[OF assms(1,3) a(1) b(1)]
  show "find_path G a b (AttackPathAnalyzer_new G s) \<noteq> None \<longleftrightarrow> (a, b) \<in> (arcs ?es)\<^sup>*"
    using star walk_rtrancl by (auto simp: find_path_def AttackPathAnalyzer_new_def split: option.splits)
  assume "find_path G a b (AttackPathAnalyzer_new G s) = Some p"
  then have p: "p \<noteq> []" "hd p = a" "last p = b" "is_walk (arcs ?es) p"
    using star by (auto simp: find_path_def AttackPathAnalyzer_new_def walk_between_def)
  have i: "\<forall>i \<in> set p. i < length ?ns"
    using walk_inside[of "length ?ns" ?es p] assms(2) p a(1) by (simp add: service_graph_ok_def)
  then have n: "List.map_filter (node_weight G ?g) p = map ((!) ?ns) p"
    by (intro map_filter_all) (simp add: search_graph_simps[OF assms(1)])
  have "(p ! i, p ! Suc i, hop_weight G ?g (p ! i) (p ! Suc i)) \<in> set ?es" if "i < length p - 1" for i
    using that walk_nth[OF p(4), of i] by (intro hop_of_arc(2)[OF assms(1)]) simp
  then show "chain_ok G s (build_chain G dbg u p (AttackPathAnalyzer_new G s))"
    unfolding chain_ok_def build_chain_def Let_def
    using a(2) b(2) p i
    by (intro conjI exI[of _ p])
      (force simp: AttackPathAnalyzer_new_def n hd_map last_map chain_edges[OF assms(1) p(4)] list_all_iff list_ex_iff)+
qed

lemma length_map_filter: "length (List.map_filter f xs) = length (filter (\<lambda>x. f x \<noteq> None) xs)"
  by (simp add: List.map_filter_def)

section \<open>Properties\<close>


definition sample_nodes :: "AttackNode list" where
  "sample_nodes = [External ''203.0.113.9'' 443, Service ''api'' ''prod'' ''api:1'', Asset ''orders'' Database]"

definition sample_graph :: "(AttackNode list \<times> (nat \<times> nat \<times> AttackEdge) list) AttackGraph" where
  "sample_graph =
     \<lparr>ag_graph = (sample_nodes, [(0, 1, LeadsTo (Fin 1)), (1, 2, DependsOn)]),
      ag_node_indices = map_of (zip (map sv_node_id sample_nodes) [0..<3])\<rparr>"

lemma sample_graph_ok: "service_graph_ok list_search sample_graph"
proof -
  have d: "distinct (map sv_node_id sample_nodes)" and l: "length sample_nodes = 3" by code_simp+
  have "map_of (zip (map sv_node_id sample_nodes) [0..<3]) k = Some i \<longleftrightarrow>
      i < length sample_nodes \<and> sv_node_id (sample_nodes ! i) = k" for k i
    using d l by (subst map_of_eq_Some_iff) (force simp: set_zip)+
  then show ?thesis
    by (simp add: service_graph_ok_def sample_graph_def edges_inside_def l list_search_simps)
qed


text \<open>The analyzer finds no chain in the graph of a cluster: such a graph has neither an external entry
  point nor a database, whatever services, findings and connections there are. Building it
  panics only when petgraph runs out of indices.\<close>

theorem cluster_graphs_have_no_chains:
  assumes "search_laws G"
  shows "case build_from_k8s G services findings conns (AttackGraph_new G) of
      None \<Rightarrow> index_limit < length services + length findings \<or> index_limit < length findings + length conns
    | Some s \<Rightarrow> find_attack_chains G dbg uuid (AttackPathAnalyzer_new G s) = []"
  using build_cases[OF assms, of services findings conns] cluster_no_entry[OF assms]
  by (auto simp: find_attack_chains_def AttackPathAnalyzer_new_def map_filter_simps sort_by_def split: option.splits)

theorem cluster_graphs_have_no_chains_witness:
  "\<exists>s. build_from_k8s list_search
       [\<lparr>sv_name = ''db'', sv_namespace = ''prod'', sv_image = ''postgres'', sv_cluster_ip = [], sv_ports = []\<rparr>] [] []
       (AttackGraph_new list_search) = Some s
     \<and> find_attack_chains list_search (\<lambda>_. []) (\<lambda>_ _. []) (AttackPathAnalyzer_new list_search s) = []"
  using cluster_graphs_have_no_chains[OF list_search_laws, of
      "[\<lparr>sv_name = ''db'', sv_namespace = ''prod'', sv_image = ''postgres'', sv_cluster_ip = [], sv_ports = []\<rparr>]" "[]" "[]"
      "\<lambda>_. []" "\<lambda>_ _. []"]
  by (auto simp: index_limit_def split: option.splits)

text \<open>A zone of lateral movement holds at least two nodes and each of them is reachable from every other.\<close>

theorem lateral_zones_are_mutual:
  assumes "search_laws G"
  shows "list_all (\<lambda>c. 2 \<le> length (ch_nodes c)
        \<and> (\<exists>ks. ch_nodes c = map ((!) (node_list G (ag_graph s))) ks
              \<and> list_all (\<lambda>i. list_all (mutual (arcs (edge_list G (ag_graph s))) i) ks) ks))
      (find_lateral_movement G uuid (AttackPathAnalyzer_new G s))"
proof -
  let ?g = "ag_graph s"
  have "\<exists>ks. ch_nodes (lateral_chain G u ?g c) = map ((!) (node_list G ?g)) ks
        \<and> list_all (\<lambda>i. list_all (mutual (arcs (edge_list G ?g)) i) ks) ks" "length (ch_nodes (lateral_chain G u ?g c)) = length c"
    if "c \<in> set (scc G ?g)" for c u
  proof -
    have m: "\<forall>i \<in> set c. set c = {j. j < length (node_list G ?g) \<and> mutual (arcs (edge_list G ?g)) i j}"
      using assms that unfolding search_laws_def by blast
    then have n: "ch_nodes (lateral_chain G u ?g c) = map ((!) (node_list G ?g)) c"
      by (auto simp: lateral_chain_def search_graph_simps[OF assms] intro!: map_filter_all)
    then show "\<exists>ks. ch_nodes (lateral_chain G u ?g c) = map ((!) (node_list G ?g)) ks
        \<and> list_all (\<lambda>i. list_all (mutual (arcs (edge_list G ?g)) i) ks) ks"
      using m by (intro exI[of _ c]) (auto simp: list_all_iff)
    show "length (ch_nodes (lateral_chain G u ?g c)) = length c" using n by simp
  qed
  then show ?thesis
    by (auto simp: list_all_iff find_lateral_movement_def AttackPathAnalyzer_new_def Let_def)
qed

theorem lateral_zones_are_mutual_witness:
  "list_all (\<lambda>c. 2 \<le> length (ch_nodes c))
     (find_lateral_movement list_search (\<lambda>_. []) (AttackPathAnalyzer_new list_search (AttackGraph_new list_search)))"
  using lateral_zones_are_mutual[OF list_search_laws, of "AttackGraph_new list_search" "\<lambda>_. []"]
  by (simp add: list_all_iff)

end
