(* ===== verification/Legacy_Graph.thy ===== *)
theory Legacy_Graph
  imports Common Graph_Search Ordering Net_Addr Correlation "HOL-Library.Monad_Syntax"
begin

text \<open>
  The first runtime attack graph, \<open>runtime_attack_graph.rs\<close>: every event adds an edge, a CVE is
  linked to the libraries its package matches, and a finding becomes a star of its CVE and those
  libraries. Every operation takes the petgraph operations \<open>G\<close> first; the debug printer and
  fresh identifiers are arguments, \<open>None\<close> is a panic.
\<close>

record VulnNode =
  vn_cve_id :: string
  vn_package :: string
  vn_cvss :: f32
  vn_epss :: f32
  vn_kev :: bool

datatype LegacyNode =
    LProcess u32 string u64
  | LLibrary string "string list"
  | LNetwork string u16 string
  | LVulnerability VulnNode
  | LTechnique string "string option"

fun lg_node_id :: "LegacyNode \<Rightarrow> string" where
  "lg_node_id (LProcess pid name cg) = ''proc:'' @ dec_w pid @ '':'' @ name"
| "lg_node_id (LLibrary path cves) = ''lib:'' @ path"
| "lg_node_id (LNetwork ip port proto) = ''net:'' @ ip @ '':'' @ dec_w port"
| "lg_node_id (LVulnerability v) = ''vuln:'' @ vn_cve_id v"
| "lg_node_id (LTechnique name tactic) = ''tech:'' @ name"

datatype LegacyEdge =
    LLibraryLoaded u64 f32
  | LVulnerable f32
  | LNetworkConnection u64 u64 f32
  | LExploitationAttempt f32 string
  | LUsesTechnique f32

record LegacyPath =
  lp_path_id :: string
  lp_nodes :: "LegacyNode list"
  lp_edges :: "(nat \<times> nat \<times> LegacyEdge) list"
  lp_confidence :: f32
  lp_risk_score :: f32
  lp_time_window_secs :: u64
  lp_indicators :: "string list"

record LegacySummary =
  ls_path_id :: string
  ls_node_types :: "string list"
  ls_node_count :: nat
  ls_confidence :: f32
  ls_risk_score :: f32
  ls_indicators :: "string list"

definition lp_to_summary :: "(LegacyNode \<Rightarrow> string) \<Rightarrow> LegacyPath \<Rightarrow> LegacySummary" where
  "lp_to_summary dbg p =
     \<lparr>ls_path_id = lp_path_id p, ls_node_types = map dbg (lp_nodes p),
      ls_node_count = length (lp_nodes p), ls_confidence = lp_confidence p,
      ls_risk_score = lp_risk_score p, ls_indicators = lp_indicators p\<rparr>"

record 'g LegacyGraph =
  lg_graph :: 'g
  lg_node_indices :: "string \<rightharpoonup> nat"
  lg_process_libraries :: "u32 \<rightharpoonup> (string \<times> u64) list"
  lg_process_connections :: "u32 \<rightharpoonup> NetEvent list"
  lg_cve_to_library :: "string \<rightharpoonup> string list"
  lg_correlation_window_secs :: u64

type_synonym 'g legacy_ops = "('g, LegacyNode, LegacyEdge) graph_ops"

definition LegacyGraph_new :: "'g legacy_ops \<Rightarrow> u64 \<Rightarrow> 'g LegacyGraph" where
  "LegacyGraph_new G secs =
     \<lparr>lg_graph = g_empty G, lg_node_indices = Map.empty, lg_process_libraries = Map.empty,
      lg_process_connections = Map.empty, lg_cve_to_library = Map.empty,
      lg_correlation_window_secs = secs\<rparr>"

section \<open>Events\<close>

definition lg_add_node :: "'g legacy_ops \<Rightarrow> LegacyNode \<Rightarrow> 'g LegacyGraph \<Rightarrow> (nat \<times> 'g LegacyGraph) option" where
  "lg_add_node G node s =
     (case lg_node_indices s (lg_node_id node) of
        Some idx \<Rightarrow> Some (idx, s)
      | None \<Rightarrow>
          (case g_add_node G node (lg_graph s) of
             None \<Rightarrow> None
           | Some (idx, g) \<Rightarrow>
               Some (idx, s\<lparr>lg_graph := g, lg_node_indices := (lg_node_indices s)(lg_node_id node \<mapsto> idx)\<rparr>)))"

definition lg_add_edge :: "'g legacy_ops \<Rightarrow> nat \<Rightarrow> nat \<Rightarrow> LegacyEdge \<Rightarrow> 'g LegacyGraph \<Rightarrow> 'g LegacyGraph option" where
  "lg_add_edge G a b e s = map_option (\<lambda>g. s\<lparr>lg_graph := g\<rparr>) (g_add_edge G a b e (lg_graph s))"

definition or_empty :: "'v list option \<Rightarrow> 'v list" where
  "or_empty x = (case x of None \<Rightarrow> [] | Some xs \<Rightarrow> xs)"

definition lg_process_library_load ::
  "'g legacy_ops \<Rightarrow> u32 \<Rightarrow> string \<Rightarrow> u64 \<Rightarrow> string \<Rightarrow> u64 \<Rightarrow> 'g LegacyGraph \<Rightarrow> 'g LegacyGraph option" where
  "lg_process_library_load G pid name cg path ts s =
     do {
       (process_idx, s) \<leftarrow> lg_add_node G (LProcess pid name cg) s;
       (lib_idx, s) \<leftarrow> lg_add_node G (LLibrary path []) s;
       s \<leftarrow> lg_add_edge G process_idx lib_idx (LLibraryLoaded ts (lit32 1)) s;
       Some (s\<lparr>lg_process_libraries :=
                (lg_process_libraries s)(pid \<mapsto> or_empty (lg_process_libraries s pid) @ [(path, ts)])\<rparr>) }"

definition lg_protocol :: "EventKind \<Rightarrow> string" where
  "lg_protocol k =
     (case k of KTcpSend \<Rightarrow> ''TCP'' | KTcpRecv \<Rightarrow> ''TCP''
      | KUdpSend \<Rightarrow> ''UDP'' | KUdpRecv \<Rightarrow> ''UDP'' | _ \<Rightarrow> ''UNKNOWN'')"

definition lg_process_network_event ::
  "'g legacy_ops \<Rightarrow> u32 \<Rightarrow> string \<Rightarrow> u64 \<Rightarrow> NetEvent \<Rightarrow> 'g LegacyGraph \<Rightarrow> 'g LegacyGraph option" where
  "lg_process_network_event G pid name cg ev s =
     do {
       (process_idx, s) \<leftarrow> lg_add_node G (LProcess pid name cg) s;
       (net_idx, s) \<leftarrow> lg_add_node G (LNetwork (ip_to_string (ne_daddr ev)) (ne_dport ev) (lg_protocol (ne_kind ev))) s;
       s \<leftarrow> lg_add_edge G process_idx net_idx
              (LNetworkConnection (ne_timestamp_ns ev) (ucast (ne_data_size ev))
                 (if 1024 < ne_data_size ev then lit32 (9/10) else lit32 (7/10))) s;
       Some (s\<lparr>lg_process_connections :=
                (lg_process_connections s)(pid \<mapsto> or_empty (lg_process_connections s pid) @ [ev])\<rparr>) }"

text \<open>Substring tests on file name and stem, without a lower bound on their length.\<close>

definition lg_library_matches_package :: "string \<Rightarrow> string \<Rightarrow> bool" where
  "lg_library_matches_package path package =
     (let path_lc = to_ascii_lowercase path; package_lc = to_ascii_lowercase package;
          file_name = last (split_on (CHR ''/'') path_lc);
          lib_stem = until ''.so'' (trim_start_matches ''lib'' file_name)
      in contains path_lc package_lc \<or> contains package_lc file_name \<or> contains package_lc lib_stem
         \<or> package_lc = ''openssl'' \<and> lib_stem = ''ssl''
         \<or> package_lc = ''openssl'' \<and> lib_stem = ''crypto'')"

definition lg_associate_cve_with_library ::
  "'g legacy_ops \<Rightarrow> string \<Rightarrow> string \<Rightarrow> f32 \<Rightarrow> f32 \<Rightarrow> bool \<Rightarrow> 'g LegacyGraph \<Rightarrow> 'g LegacyGraph option" where
  "lg_associate_cve_with_library G cve package cvss epss kev s =
     do {
       (vuln_idx, s) \<leftarrow> lg_add_node G (LVulnerability \<lparr>vn_cve_id = cve, vn_package = package,
                            vn_cvss = cvss, vn_epss = epss, vn_kev = kev\<rparr>) s;
       s \<leftarrow> fold_some
              (\<lambda>idx s. case node_weight G (lg_graph s) idx of
                         Some (LLibrary path cves) \<Rightarrow>
                           if lg_library_matches_package path package
                           then lg_add_edge G vuln_idx idx (LVulnerable (lit32 (95/100))) s else Some s
                       | _ \<Rightarrow> Some s)
              [0..<length (node_list G (lg_graph s))] s;
       Some (s\<lparr>lg_cve_to_library :=
                (lg_cve_to_library s)(cve \<mapsto> or_empty (lg_cve_to_library s cve) @ [package])\<rparr>) }"

section \<open>Paths\<close>

definition finding_vuln :: "Finding \<Rightarrow> LegacyNode" where
  "finding_vuln f =
     LVulnerability \<lparr>vn_cve_id = rs_cve (fd_signal f), vn_package = rs_package (fd_signal f),
       vn_cvss = rs_cvss (fd_signal f), vn_epss = rs_epss (fd_signal f), vn_kev = rs_kev (fd_signal f)\<rparr>"

definition linked_libraries :: "'g legacy_ops \<Rightarrow> 'g LegacyGraph \<Rightarrow> string \<Rightarrow> LegacyNode list" where
  "linked_libraries G s cve =
     (case lg_node_indices s (''vuln:'' @ cve) of
        None \<Rightarrow> []
      | Some v \<Rightarrow>
          List.map_filter (node_weight G (lg_graph s))
            (map fst (filter (\<lambda>(j, e). case e of LVulnerable c \<Rightarrow> True | _ \<Rightarrow> False)
                        (edges_out G (lg_graph s) v))))"

definition lg_build_path ::
  "'g legacy_ops \<Rightarrow> (LegacyNode \<Rightarrow> string) \<Rightarrow> string \<Rightarrow> 'g LegacyGraph \<Rightarrow> Finding \<Rightarrow> LegacyPath" where
  "lg_build_path G dbg uuid s f =
     (let libs = linked_libraries G s (rs_cve (fd_signal f));
          nodes = finding_vuln f # libs; n = length nodes
      in \<lparr>lp_path_id = ''path-'' @ uuid, lp_nodes = nodes,
          lp_edges = map (\<lambda>i. (0, Suc i, LVulnerable (lit32 (95/100)))) [0..<length libs],
          lp_confidence = (if 4 \<le> n then lit32 (85/100) else if 3 \<le> n then lit32 (7/10) else lit32 (1/2)),
          lp_risk_score = fmul F32 (fd_score f) (fmin (fmul F32 (fl_nat F32 n) (lit32 (2/10))) (lit32 1)),
          lp_time_window_secs = lg_correlation_window_secs s,
          lp_indicators = map (\<lambda>l. ''Vulnerable library: '' @ dbg l) libs\<rparr>)"

definition lg_build_attack_paths ::
  "'g legacy_ops \<Rightarrow> (LegacyNode \<Rightarrow> string) \<Rightarrow> (Finding \<Rightarrow> string) \<Rightarrow> Finding list \<Rightarrow> 'g LegacyGraph \<Rightarrow> LegacyPath list" where
  "lg_build_attack_paths G dbg uuid fs s =
     sort_by (key_desc lp_risk_score)
       (filter (\<lambda>p. lp_nodes p \<noteq> [])
          (map (\<lambda>f. lg_build_path G dbg (uuid f) s f)
             (filter (\<lambda>f. rs_runtime (fd_signal f) = Reachable) fs)))"

definition get_attack_path_summaries ::
  "'g legacy_ops \<Rightarrow> (LegacyNode \<Rightarrow> string) \<Rightarrow> (Finding \<Rightarrow> string) \<Rightarrow> Finding list \<Rightarrow> 'g LegacyGraph \<Rightarrow> LegacySummary list" where
  "get_attack_path_summaries G dbg uuid fs s = map (lp_to_summary dbg) (lg_build_attack_paths G dbg uuid fs s)"

fun first_cve :: "LegacyNode list \<Rightarrow> string option" where
  "first_cve [] = None"
| "first_cve (LVulnerability v # ns) = Some (vn_cve_id v)"
| "first_cve (_ # ns) = first_cve ns"

text \<open>Collecting into a map keeps the last path of a CVE.\<close>

definition lg_cve_to_path :: "LegacyPath list \<Rightarrow> string \<rightharpoonup> LegacyPath" where
  "lg_cve_to_path ps = map_of (rev (List.map_filter (\<lambda>p. map_option (\<lambda>c. (c, p)) (first_cve (lp_nodes p))) ps))"

definition path_evidence :: "LegacyPath \<Rightarrow> SignalEvidence list" where
  "path_evidence p =
     map (\<lambda>i. \<lparr>se_signal_type = ''attack_path'', se_timestamp_ns = 0, se_details = i,
               se_confidence = lp_confidence p\<rparr>) (lp_indicators p)"

definition lg_attach_attack_paths ::
  "'g legacy_ops \<Rightarrow> (LegacyNode \<Rightarrow> string) \<Rightarrow> (Finding \<Rightarrow> string) \<Rightarrow> Finding list \<Rightarrow> 'g LegacyGraph \<Rightarrow> Finding list" where
  "lg_attach_attack_paths G dbg uuid fs s =
     (let m = lg_cve_to_path (lg_build_attack_paths G dbg uuid fs s)
      in map (\<lambda>f. case m (rs_cve (fd_signal f)) of
                    None \<Rightarrow> f
                  | Some p \<Rightarrow>
                      f\<lparr>fd_explainability := (fd_explainability f)
                          \<lparr>er_signals := er_signals (fd_explainability f) @ path_evidence p\<rparr>\<rparr>) fs)"

section \<open>Lemmas\<close>

lemma split_snoc: "split_on c (xs @ [c]) = split_on c xs @ [[]]"
  by (induction xs) (auto split: list.splits)

lemma last_split_snoc: "last (split_on c (xs @ [c])) = []"
  by (simp add: split_snoc)

lemma cve_to_path_cases:
  "lg_cve_to_path ps c = Some p \<Longrightarrow> p \<in> set ps \<and> first_cve (lp_nodes p) = Some c"
  "lg_cve_to_path ps c = None \<longleftrightarrow> (\<forall>p \<in> set ps. first_cve (lp_nodes p) \<noteq> Some c)"
proof -
  show "lg_cve_to_path ps c = Some p \<Longrightarrow> p \<in> set ps \<and> first_cve (lp_nodes p) = Some c"
    unfolding lg_cve_to_path_def by (drule map_of_SomeD) (auto simp: List.map_filter_def)
  show "lg_cve_to_path ps c = None \<longleftrightarrow> (\<forall>p \<in> set ps. first_cve (lp_nodes p) \<noteq> Some c)"
    unfolding lg_cve_to_path_def map_of_eq_None_iff by (force simp: List.map_filter_def)
qed

lemma first_cve_of_path: "first_cve (lp_nodes (lg_build_path G dbg u s f)) = Some (rs_cve (fd_signal f))"
  by (simp add: lg_build_path_def Let_def finding_vuln_def)

lemma set_attack_paths:
  "set (lg_build_attack_paths G dbg uuid fs s) =
     (\<lambda>f. lg_build_path G dbg (uuid f) s f) ` {f \<in> set fs. rs_runtime (fd_signal f) = Reachable}"
  by (auto simp: lg_build_attack_paths_def) (simp_all add: lg_build_path_def Let_def)

text \<open>A CVE has a path exactly when some finding of it is reachable.\<close>

lemma attach_cases:
  "lg_cve_to_path (lg_build_attack_paths G dbg uuid fs s) c = None \<longleftrightarrow>
     \<not> list_ex (\<lambda>g. rs_runtime (fd_signal g) = Reachable \<and> rs_cve (fd_signal g) = c) fs"
  unfolding cve_to_path_cases(2) set_attack_paths by (auto simp: first_cve_of_path list_ex_iff)

section \<open>Properties\<close>

text \<open>There is one attack path per reachable finding, in descending order of risk. Each is a star: the
  finding's CVE, then the libraries linked to it, with an edge from the first node to each.\<close>

theorem legacy_paths_are_stars:
  "let ps = lg_build_attack_paths G dbg uuid fs s
   in mset (map (\<lambda>p. hd (lp_nodes p)) ps) = mset (map finding_vuln (filter (\<lambda>f. rs_runtime (fd_signal f) = Reachable) fs))
    \<and> sorted_wrt (key_desc lp_risk_score) ps
    \<and> list_all (\<lambda>p. map (\<lambda>(i, j, e). (i, j)) (lp_edges p) = map (\<lambda>i. (0, Suc i)) [0..<length (lp_nodes p) - 1]
          \<and> length (lp_indicators p) = length (lp_nodes p) - 1) ps"
proof -
  have n: "filter (\<lambda>p. lp_nodes p \<noteq> []) (map (\<lambda>f. lg_build_path G dbg (uuid f) s f) gs)
      = map (\<lambda>f. lg_build_path G dbg (uuid f) s f) gs" for gs
    by (rule filter_True) (auto simp: lg_build_path_def Let_def)
  have "hd (lp_nodes (lg_build_path G dbg u s f)) = finding_vuln f" for u f
    by (simp add: lg_build_path_def Let_def)
  then show ?thesis
    unfolding lg_build_attack_paths_def n Let_def
    by (auto simp: sort_desc_sorted list_all_iff lg_build_path_def Let_def comp_def mset_map[symmetric] simp del: mset_map)
       (auto simp: mset_map comp_def image_mset.compositionality)
qed

text \<open>The first graph links a CVE to a library whenever the stem of the file name occurs in the package:
  the C library is blamed for every package with a letter c, and a path that ends in a slash
  for every package.\<close>

theorem short_stems_match:
  "(CHR ''c'' \<in> set (to_ascii_lowercase package) \<longrightarrow>
      lg_library_matches_package ''/lib/x86_64-linux-gnu/libc.so.6'' package)
   \<and> lg_library_matches_package (dir @ ''/'') package"
proof -
  have "until ''.so'' (trim_start_matches ''lib'' (last (split_on (CHR ''/'')
      (to_ascii_lowercase ''/lib/x86_64-linux-gnu/libc.so.6'')))) = ''c''" by code_simp
  then have "lg_library_matches_package ''/lib/x86_64-linux-gnu/libc.so.6'' package"
    if "CHR ''c'' \<in> set (to_ascii_lowercase package)"
    using that by (auto simp: lg_library_matches_package_def Let_def sublist_def in_set_conv_decomp)
  moreover have "last (split_on (CHR ''/'') (to_ascii_lowercase (dir @ ''/''))) = []"
    using last_split_snoc[of "CHR ''/''" "to_ascii_lowercase dir"]
    by (simp add: to_ascii_lowercase_def lower_c_def is_upper_c_def)
  then have "lg_library_matches_package (dir @ ''/'') package"
    by (simp add: lg_library_matches_package_def Let_def)
  ultimately show ?thesis by blast
qed

theorem short_stems_match_witness: "lg_library_matches_package ''/lib/x86_64-linux-gnu/libc.so.6'' ''curl''"
proof -
  have "CHR ''c'' \<in> set (to_ascii_lowercase ''curl'')" by code_simp
  then show ?thesis using short_stems_match[of "''curl''" "''''"] by blast
qed

text \<open>Attaching the paths adds to a finding the evidence of a path of its own CVE, at the end of its
  signals; a finding whose CVE has no reachable finding is left as it is.\<close>

theorem attached_evidence_is_its_own:
  "list_all2 (\<lambda>f f'.
      (if list_ex (\<lambda>g. rs_runtime (fd_signal g) = Reachable \<and> rs_cve (fd_signal g) = rs_cve (fd_signal f)) fs
       then \<exists>p \<in> set (lg_build_attack_paths G dbg uuid fs s). first_cve (lp_nodes p) = Some (rs_cve (fd_signal f))
              \<and> f' = f\<lparr>fd_explainability := (fd_explainability f)
                         \<lparr>er_signals := er_signals (fd_explainability f) @ path_evidence p\<rparr>\<rparr>
       else f' = f))
     fs (lg_attach_attack_paths G dbg uuid fs s)"
proof -
  let ?ps = "lg_build_attack_paths G dbg uuid fs s"
  let ?add = "\<lambda>f p. f\<lparr>fd_explainability := (fd_explainability f)
      \<lparr>er_signals := er_signals (fd_explainability f) @ path_evidence p\<rparr>\<rparr>"
  have "if list_ex (\<lambda>g. rs_runtime (fd_signal g) = Reachable \<and> rs_cve (fd_signal g) = rs_cve (fd_signal f)) fs
      then \<exists>p \<in> set ?ps. first_cve (lp_nodes p) = Some (rs_cve (fd_signal f)) \<and>
        (case lg_cve_to_path ?ps (rs_cve (fd_signal f)) of None \<Rightarrow> f | Some q \<Rightarrow> ?add f q) = ?add f p
      else (case lg_cve_to_path ?ps (rs_cve (fd_signal f)) of None \<Rightarrow> f | Some q \<Rightarrow> ?add f q) = f" for f
  proof (cases "lg_cve_to_path ?ps (rs_cve (fd_signal f))")
    case None
    then show ?thesis using attach_cases[of G dbg uuid fs s "rs_cve (fd_signal f)"] by simp
  next
    case (Some q)
    with cve_to_path_cases(1)[OF Some] show ?thesis
      using attach_cases[of G dbg uuid fs s "rs_cve (fd_signal f)"] by auto
  qed
  then show ?thesis
    unfolding lg_attach_attack_paths_def Let_def list_all2_map2 by (intro list.rel_refl_strong) blast
qed

end
