(* ===== verification/Tc_Enforcer.thy ===== *)
theory Tc_Enforcer
  imports Safe_Enforcement Net_Addr
begin

text \<open>
  \<open>tc_enforcer.rs\<close>: traffic rules in the maps of a loaded eBPF object, the quarantine of
  workloads and the threat feed.

  The object belongs to the library aya. It is a parameter: a record of the operations the
  code calls, the observation of which keys a map holds, and laws that state the documented
  behaviour. A failed update leaves a map unchanged, a successful one changes the one key, and
  which maps exist does not change after loading. Keys of 32 bits are extended to 64. A hash
  set is the list of its elements in one fixed order.
\<close>

section \<open>eBPF maps\<close>

datatype map_access = MapMissing | MapBad string | MapOk

record 'b bpf_ops =
  bm_access :: "'b \<Rightarrow> string \<Rightarrow> map_access"
  bm_has :: "'b \<Rightarrow> string \<Rightarrow> u64 \<Rightarrow> bool"
  bm_insert :: "string \<Rightarrow> u64 \<Rightarrow> 'b \<Rightarrow> string option \<times> 'b"
  bm_remove :: "string \<Rightarrow> u64 \<Rightarrow> 'b \<Rightarrow> string option \<times> 'b"

definition bpf_laws :: "'b bpf_ops \<Rightarrow> bool" where
  "bpf_laws B \<longleftrightarrow>
     (\<forall>b n k. bm_access B (snd (bm_insert B n k b)) = bm_access B b
        \<and> (\<forall>m j. bm_has B (snd (bm_insert B n k b)) m j \<longleftrightarrow>
             bm_has B b m j \<or> fst (bm_insert B n k b) = None \<and> m = n \<and> j = k))
     \<and> (\<forall>b n k. bm_access B (snd (bm_remove B n k b)) = bm_access B b
        \<and> (\<forall>m j. bm_has B (snd (bm_remove B n k b)) m j \<longleftrightarrow>
             bm_has B b m j \<and> \<not> (fst (bm_remove B n k b) = None \<and> m = n \<and> j = k)))"

text \<open>\<open>map_mut(n)\<close> and the conversion to a typed map, both with their errors, then the update.\<close>

definition checked_update ::
  "'b bpf_ops \<Rightarrow> string \<Rightarrow> string \<Rightarrow> string \<Rightarrow> ('b \<Rightarrow> string option \<times> 'b) \<Rightarrow> 'b \<Rightarrow> ScannerError option \<times> 'b" where
  "checked_update B n access_msg update_msg f b =
     (case bm_access B b n of
        MapMissing \<Rightarrow> (Some (ErrBpf (n @ '' map not found'')), b)
      | MapBad e \<Rightarrow> (Some (ErrBpf (access_msg @ e)), b)
      | MapOk \<Rightarrow> map_prod (map_option (\<lambda>e. ErrBpf (update_msg @ e))) id (f b))"

text \<open>\<open>if let Ok(..) = try_from(map_mut(n).ok_or_else(..)?)\<close> around updates whose results are ignored.\<close>

definition lenient_update ::
  "'b bpf_ops \<Rightarrow> string \<Rightarrow> ('b \<Rightarrow> 'b) \<Rightarrow> 'b \<Rightarrow> ScannerError option \<times> 'b" where
  "lenient_update B n f b =
     (case bm_access B b n of
        MapMissing \<Rightarrow> (Some (ErrBpf (n @ '' map not found'')), b)
      | MapBad e \<Rightarrow> (None, b)
      | MapOk \<Rightarrow> (None, f b))"

section \<open>The enforcer\<close>

datatype TrafficRule =
    BlockIp u32 string
  | BlockPort u16 string
  | BlockDomain string string

datatype C2Indicator = CIp u32 | CDomain string | CPort u16

record EnforcementResult =
  rl_rule :: TrafficRule
  rl_applied :: bool
  rl_error :: "string option"

record 'b TcEnforcer =
  tc_bpf :: "'b option"
  tc_bpf_path :: "string option"
  tc_blocked_ips :: "u32 list"
  tc_blocked_ports :: "u16 list"
  tc_blocked_domains :: "string list"
  tc_quarantined_cgroups :: "u64 list"
  tc_last_update :: int

definition TcEnforcer_new :: "int \<Rightarrow> 'b TcEnforcer" where
  "TcEnforcer_new now =
     \<lparr>tc_bpf = None, tc_bpf_path = None, tc_blocked_ips = [], tc_blocked_ports = [],
      tc_blocked_domains = [], tc_quarantined_cgroups = [], tc_last_update = now\<rparr>"

definition TcEnforcer_with_bpf :: "'b \<Rightarrow> string \<Rightarrow> int \<Rightarrow> 'b TcEnforcer" where
  "TcEnforcer_with_bpf b path now = TcEnforcer_new now\<lparr>tc_bpf := Some b, tc_bpf_path := Some path\<rparr>"

definition tc_block_ip ::
  "'b bpf_ops \<Rightarrow> int \<Rightarrow> u32 \<Rightarrow> string \<Rightarrow> 'b TcEnforcer \<Rightarrow> (ScannerError + EnforcementResult) \<times> 'b TcEnforcer" where
  "tc_block_ip B now ip reason s =
     (case tc_bpf s of
        None \<Rightarrow> (Inl (ErrBpf ''BPF not available''), s)
      | Some b \<Rightarrow>
          (case checked_update B ''XDP_BLOCKED_IPS'' ''Failed to access XDP map: '' ''Failed to block IP: ''
                  (bm_insert B ''XDP_BLOCKED_IPS'' (ucast ip)) b of
             (Some e, b) \<Rightarrow> (Inl e, s\<lparr>tc_bpf := Some b\<rparr>)
           | (None, b) \<Rightarrow>
               (case checked_update B ''BLOCKED_IPS'' ''Failed to block IP in TC: '' ''Failed to block IP in TC: ''
                       (bm_insert B ''BLOCKED_IPS'' (ucast ip)) b of
                  (Some e, b) \<Rightarrow> (Inl e, s\<lparr>tc_bpf := Some b\<rparr>)
                | (None, b) \<Rightarrow>
                    (Inr \<lparr>rl_rule = BlockIp ip reason, rl_applied = True, rl_error = None\<rparr>,
                     s\<lparr>tc_bpf := Some b, tc_blocked_ips := List.insert ip (tc_blocked_ips s),
                       tc_last_update := now\<rparr>))))"

definition remove_all :: "'b bpf_ops \<Rightarrow> string \<Rightarrow> u32 list \<Rightarrow> 'b \<Rightarrow> 'b" where
  "remove_all B n ips b = foldl (\<lambda>b ip. snd (bm_remove B n (ucast ip) b)) b ips"

text \<open>The two removals of \<open>unblock_ip\<close> and \<open>flush_all\<close>: a missing map ends the operation early.\<close>

definition unblock_maps :: "'b bpf_ops \<Rightarrow> u32 list \<Rightarrow> 'b TcEnforcer \<Rightarrow> ScannerError option \<times> 'b TcEnforcer" where
  "unblock_maps B ips s =
     (case tc_bpf s of
        None \<Rightarrow> (None, s)
      | Some b \<Rightarrow>
          (case lenient_update B ''XDP_BLOCKED_IPS'' (remove_all B ''XDP_BLOCKED_IPS'' ips) b of
             (Some e, b) \<Rightarrow> (Some e, s\<lparr>tc_bpf := Some b\<rparr>)
           | (None, b) \<Rightarrow>
               (case lenient_update B ''BLOCKED_IPS'' (remove_all B ''BLOCKED_IPS'' ips) b of
                  (e, b) \<Rightarrow> (e, s\<lparr>tc_bpf := Some b\<rparr>))))"

definition tc_unblock_ip ::
  "'b bpf_ops \<Rightarrow> u32 \<Rightarrow> 'b TcEnforcer \<Rightarrow> ScannerError option \<times> 'b TcEnforcer" where
  "tc_unblock_ip B ip s =
     (case unblock_maps B [ip] s of
        (Some e, s) \<Rightarrow> (Some e, s)
      | (None, s) \<Rightarrow> (None, s\<lparr>tc_blocked_ips := removeAll ip (tc_blocked_ips s)\<rparr>))"

definition tc_flush_all :: "'b bpf_ops \<Rightarrow> 'b TcEnforcer \<Rightarrow> ScannerError option \<times> 'b TcEnforcer" where
  "tc_flush_all B s =
     (case unblock_maps B (tc_blocked_ips s) s of
        (Some e, s) \<Rightarrow> (Some e, s)
      | (None, s) \<Rightarrow>
          (None, s\<lparr>tc_blocked_ips := [], tc_blocked_ports := [], tc_blocked_domains := []\<rparr>))"

fun block_indicator ::
  "'b bpf_ops \<Rightarrow> int \<Rightarrow> C2Indicator \<Rightarrow> 'b TcEnforcer \<Rightarrow> EnforcementResult list \<times> 'b TcEnforcer" where
  "block_indicator B now (CIp ip) s =
     (case tc_block_ip B now ip ''C2 indicator'' s of
        (Inr r, s) \<Rightarrow> ([r], s)
      | (Inl e, s) \<Rightarrow>
          ([\<lparr>rl_rule = BlockIp ip ''C2 indicator'', rl_applied = False,
             rl_error = Some (ScannerError_display e)\<rparr>], s))"
| "block_indicator B now (CDomain d) s =
     ([], s\<lparr>tc_blocked_domains := List.insert d (tc_blocked_domains s)\<rparr>)"
| "block_indicator B now (CPort p) s =
     ([\<lparr>rl_rule = BlockPort p ''C2 indicator port'', rl_applied = True, rl_error = None\<rparr>],
      s\<lparr>tc_blocked_ports := List.insert p (tc_blocked_ports s)\<rparr>)"

fun block_c2_indicators ::
  "'b bpf_ops \<Rightarrow> int \<Rightarrow> C2Indicator list \<Rightarrow> 'b TcEnforcer \<Rightarrow> EnforcementResult list \<times> 'b TcEnforcer" where
  "block_c2_indicators B now [] s = ([], s)"
| "block_c2_indicators B now (i # is') s =
     (let (rs, s) = block_indicator B now i s;
          (rs', s) = block_c2_indicators B now is' s
      in (rs @ rs', s))"

definition tc_quarantine_workload ::
  "'b bpf_ops \<Rightarrow> u64 \<Rightarrow> 'b TcEnforcer \<Rightarrow> ScannerError option \<times> 'b TcEnforcer" where
  "tc_quarantine_workload B cg s =
     (let done = (\<lambda>s. (None, s\<lparr>tc_quarantined_cgroups := List.insert cg (tc_quarantined_cgroups s)\<rparr>))
      in case tc_bpf s of
           None \<Rightarrow> done s
         | Some b \<Rightarrow>
             (case checked_update B ''DENYLIST'' ''Failed to access denylist: '' ''Failed to quarantine: ''
                     (bm_insert B ''DENYLIST'' cg) b of
                (Some e, b) \<Rightarrow> (Some e, s\<lparr>tc_bpf := Some b\<rparr>)
              | (None, b) \<Rightarrow> done (s\<lparr>tc_bpf := Some b\<rparr>)))"

text \<open>
  The task a quarantine leaves behind. When its timer expires it loads the object file a second
  time; the loaded object, with maps of its own, is the only thing it changes and is dropped
  when the task ends.
\<close>

definition auto_unquarantine ::
  "'b bpf_ops \<Rightarrow> (string \<Rightarrow> string + 'b) \<Rightarrow> string option \<Rightarrow> u64 \<Rightarrow> 'b option" where
  "auto_unquarantine B load_file path cg =
     (case path of
        None \<Rightarrow> None
      | Some p \<Rightarrow>
          (case load_file p of
             Inl e \<Rightarrow> None
           | Inr b \<Rightarrow> Some (if bm_access B b ''DENYLIST'' = MapOk then snd (bm_remove B ''DENYLIST'' cg b) else b)))"

definition tc_unquarantine_workload ::
  "'b bpf_ops \<Rightarrow> u64 \<Rightarrow> 'b TcEnforcer \<Rightarrow> ScannerError option \<times> 'b TcEnforcer" where
  "tc_unquarantine_workload B cg s =
     (case tc_bpf s of
        None \<Rightarrow> (None, s)
      | Some b \<Rightarrow>
          (case checked_update B ''DENYLIST'' ''Failed to access denylist: '' ''Failed to unquarantine: ''
                  (bm_remove B ''DENYLIST'' cg) b of
             (e, b) \<Rightarrow> (e, s\<lparr>tc_bpf := Some b\<rparr>)))"

definition blocked_ip_count :: "'b TcEnforcer \<Rightarrow> nat" where
  "blocked_ip_count s = length (tc_blocked_ips s)"

definition blocked_port_count :: "'b TcEnforcer \<Rightarrow> nat" where
  "blocked_port_count s = length (tc_blocked_ports s)"

record TrafficRules =
  tr_blocked_ips :: "u32 list"
  tr_blocked_ports :: "u16 list"
  tr_blocked_domains :: "string list"
  tr_last_updated :: int

definition export_rules :: "'b TcEnforcer \<Rightarrow> TrafficRules" where
  "export_rules s =
     \<lparr>tr_blocked_ips = tc_blocked_ips s, tr_blocked_ports = tc_blocked_ports s,
      tr_blocked_domains = tc_blocked_domains s, tr_last_updated = tc_last_update s\<rparr>"

section \<open>The threat feed\<close>

record ThreatIntelFeed =
  tf_known_bad_ips :: "u32 list"
  tf_known_bad_domains :: "string list"
  tf_last_update :: "int option"

definition ThreatIntelFeed_new :: ThreatIntelFeed where
  "ThreatIntelFeed_new = \<lparr>tf_known_bad_ips = [], tf_known_bad_domains = [], tf_last_update = None\<rparr>"

text \<open>The address 192.168.100.1 as a number.\<close>

definition feed_indicators :: "C2Indicator list" where
  "feed_indicators = [CIp 3232261121, CDomain ''evil-c2.example.com'', CPort 4444]"

fun feed_add :: "C2Indicator \<Rightarrow> ThreatIntelFeed \<Rightarrow> ThreatIntelFeed" where
  "feed_add (CIp ip) f = f\<lparr>tf_known_bad_ips := List.insert ip (tf_known_bad_ips f)\<rparr>"
| "feed_add (CDomain d) f = f\<lparr>tf_known_bad_domains := List.insert d (tf_known_bad_domains f)\<rparr>"
| "feed_add (CPort p) f = f"

definition feed_update :: "int \<Rightarrow> ThreatIntelFeed \<Rightarrow> nat \<times> ThreatIntelFeed" where
  "feed_update now f =
     (length feed_indicators, (fold feed_add feed_indicators f)\<lparr>tf_last_update := Some now\<rparr>)"

definition is_known_bad :: "u32 \<Rightarrow> ThreatIntelFeed \<Rightarrow> bool" where
  "is_known_bad ip f \<longleftrightarrow> ip \<in> set (tf_known_bad_ips f)"

definition is_known_bad_domain :: "string \<Rightarrow> ThreatIntelFeed \<Rightarrow> bool" where
  "is_known_bad_domain dm f \<longleftrightarrow>
     list_ex (\<lambda>d. dm = d \<or> ends_with dm (''.'' @ d)) (tf_known_bad_domains f)"

definition get_indicators :: "ThreatIntelFeed \<Rightarrow> C2Indicator list" where
  "get_indicators f = map CIp (tf_known_bad_ips f) @ map CDomain (tf_known_bad_domains f)"

section \<open>The maps of the agent's own object\<close>

text \<open>The maps the crate \<open>scanner-ebpf\<close> declares, module by module.\<close>

definition events_maps :: "string list" where
  "events_maps = [''SECURITY_EVENTS'', ''EVENT_COUNT_BY_KIND'', ''DROPPED_BY_KIND'']"

definition libraries_maps :: "string list" where
  "libraries_maps = [''LOADED_LIBRARIES'', ''LIBRARY_SEEN'', ''LIBRARY_COUNT'']"

definition network_maps :: "string list" where
  "network_maps = [''PROCESS_NETWORK'', ''CONNECTIONS'', ''THREAT_IPS'', ''SUSPICIOUS_CONNS'']"

definition process_maps :: "string list" where
  "process_maps = [''PROCESS_CONTEXT'', ''PROCESS_PARENT'']"

definition tracepoints_maps :: "string list" where
  "tracepoints_maps = [''LAST_EVENT'']"

definition declared_maps :: "string list" where
  "declared_maps = events_maps @ libraries_maps @ network_maps @ process_maps @ tracepoints_maps"

definition agent_object :: "'b bpf_ops \<Rightarrow> 'b \<Rightarrow> bool" where
  "agent_object B b \<longleftrightarrow> (\<forall>n. n \<notin> set declared_maps \<longrightarrow> bm_access B b n = MapMissing)"

lemma undeclared: "''XDP_BLOCKED_IPS'' \<notin> set declared_maps" "''BLOCKED_IPS'' \<notin> set declared_maps"
  "''DENYLIST'' \<notin> set declared_maps"
  by (simp_all add: declared_maps_def events_maps_def libraries_maps_def network_maps_def
      process_maps_def tracepoints_maps_def)

section \<open>An object for the laws\<close>

text \<open>Maps as lists of keys with a capacity: an insert past it fails, as does removing an absent key.\<close>

type_synonym list_object = "(string \<times> u64 list) list"

definition list_bpf :: "nat \<Rightarrow> list_object bpf_ops" where
  "list_bpf cap =
     \<lparr>bm_access = (\<lambda>b n. if n \<in> fst ` set b then MapOk else MapMissing),
      bm_has = (\<lambda>b n k. case map_of b n of None \<Rightarrow> False | Some ks \<Rightarrow> k \<in> set ks),
      bm_insert = (\<lambda>n k b. case map_of b n of
         None \<Rightarrow> (Some ''no map'', b)
       | Some ks \<Rightarrow> if length ks < cap then (None, AList.update n (k # ks) b) else (Some ''full'', b)),
      bm_remove = (\<lambda>n k b. case map_of b n of
         None \<Rightarrow> (Some ''no map'', b)
       | Some ks \<Rightarrow> if k \<in> set ks then (None, AList.update n (removeAll k ks) b) else (Some ''absent'', b))\<rparr>"

lemma update_present: "map_of b n = Some ks \<Longrightarrow> fst ` set (AList.update n v b) = fst ` set b"
  by (auto simp: dom_update[symmetric] dom_map_of_conv_image_fst[symmetric] update_conv')

lemma list_bpf_laws: "bpf_laws (list_bpf cap)"
  by (auto simp: bpf_laws_def list_bpf_def update_present split: option.splits if_splits)

section \<open>Events\<close>

datatype 'b tc_event =
    TcBlock int u32 string
  | TcUnblock u32
  | TcC2 int "C2Indicator list"
  | TcQuarantine u64
  | TcUnquarantine u64
  | TcTimer "string \<Rightarrow> string + 'b" u64
  | TcFlush

text \<open>The state after an event. The timer of a quarantine has the object it loaded to itself.\<close>

fun tc_step :: "'b bpf_ops \<Rightarrow> 'b TcEnforcer \<Rightarrow> 'b tc_event \<Rightarrow> 'b TcEnforcer" where
  "tc_step B s (TcBlock now ip reason) = snd (tc_block_ip B now ip reason s)"
| "tc_step B s (TcUnblock ip) = snd (tc_unblock_ip B ip s)"
| "tc_step B s (TcC2 now is') = snd (block_c2_indicators B now is' s)"
| "tc_step B s (TcQuarantine cg) = snd (tc_quarantine_workload B cg s)"
| "tc_step B s (TcUnquarantine cg) = snd (tc_unquarantine_workload B cg s)"
| "tc_step B s (TcTimer load cg) = (case auto_unquarantine B load (tc_bpf_path s) cg of _ \<Rightarrow> s)"
| "tc_step B s TcFlush = snd (tc_flush_all B s)"

section \<open>What an update changes\<close>

lemma checked_outcome:
  "checked_update B n a u f b = (r, b') \<Longrightarrow>
   (r = None \<longrightarrow> bm_access B b n = MapOk) \<and>
   (b' = b \<and> r \<noteq> None \<or> (r = None \<longleftrightarrow> fst (f b) = None) \<and> b' = snd (f b))"
  by (cases "f b") (auto simp: checked_update_def split: map_access.splits)

lemma insert_effect:
  assumes "bpf_laws B"
  shows "bm_access B (snd (bm_insert B n k b)) = bm_access B b"
    "bm_has B (snd (bm_insert B n k b)) m j \<longleftrightarrow>
       bm_has B b m j \<or> fst (bm_insert B n k b) = None \<and> m = n \<and> j = k"
  using assms unfolding bpf_laws_def by blast+

lemma remove_effect:
  assumes "bpf_laws B"
  shows "bm_access B (snd (bm_remove B n k b)) = bm_access B b"
    "bm_has B (snd (bm_remove B n k b)) m j \<longleftrightarrow>
       bm_has B b m j \<and> \<not> (fst (bm_remove B n k b) = None \<and> m = n \<and> j = k)"
  using assms unfolding bpf_laws_def by blast+

lemma checked_insert:
  assumes "bpf_laws B" "checked_update B n a u (bm_insert B n k) b = (r, b')"
  shows "bm_access B b' = bm_access B b"
    "bm_has B b' m j \<longleftrightarrow> bm_has B b m j \<or> r = None \<and> m = n \<and> j = k"
    "r = None \<Longrightarrow> bm_access B b n = MapOk"
  using checked_outcome[OF assms(2)] insert_effect[OF assms(1)] by metis+

lemma checked_remove:
  assumes "bpf_laws B" "checked_update B n a u (bm_remove B n k) b = (r, b')"
  shows "bm_access B b' = bm_access B b"
    "bm_has B b' m j \<longleftrightarrow> bm_has B b m j \<and> \<not> (r = None \<and> m = n \<and> j = k)"
  using checked_outcome[OF assms(2)] remove_effect[OF assms(1)] by metis+

lemma remove_all_effect:
  assumes "bpf_laws B"
  shows "bm_access B (remove_all B n ips b) = bm_access B b"
    "m \<noteq> n \<or> j \<notin> ucast ` set ips \<Longrightarrow> bm_has B (remove_all B n ips b) m j \<longleftrightarrow> bm_has B b m j"
proof -
  have a: "bm_access B (snd (bm_remove B n k c)) = bm_access B c"
    and h: "bm_has B (snd (bm_remove B n k c)) m j \<longleftrightarrow> bm_has B c m j \<and> \<not> (fst (bm_remove B n k c) = None \<and> m = n \<and> j = k)"
    for c k using assms unfolding bpf_laws_def by blast+
  show "bm_access B (remove_all B n ips b) = bm_access B b"
    unfolding remove_all_def by (induction ips arbitrary: b) (simp_all add: a)
  show "m \<noteq> n \<or> j \<notin> ucast ` set ips \<Longrightarrow> bm_has B (remove_all B n ips b) m j \<longleftrightarrow> bm_has B b m j"
    unfolding remove_all_def by (induction ips arbitrary: b) (auto simp: h)
qed

lemma unat_ip: "unat (ucast (x :: u32) :: u64) = unat x"
  by (transfer) simp

lemma ucast_ip_inj: "(ucast (x :: u32) :: u64) = ucast y \<longleftrightarrow> x = y"
  by (metis unat_ip word_unat_eq_iff)

lemma ucast_ip_notin: "ip \<notin> set ips \<Longrightarrow> (ucast (ip :: u32) :: u64) \<notin> ucast ` set ips"
  by (auto simp: ucast_ip_inj)

section \<open>Listed addresses are in the kernel's maps\<close>

definition ip_enforced :: "'b bpf_ops \<Rightarrow> 'b \<Rightarrow> u32 \<Rightarrow> bool" where
  "ip_enforced B b ip \<longleftrightarrow>
     bm_has B b ''XDP_BLOCKED_IPS'' (ucast ip) \<and> bm_has B b ''BLOCKED_IPS'' (ucast ip)"

definition tc_ok :: "'b bpf_ops \<Rightarrow> 'b TcEnforcer \<Rightarrow> bool" where
  "tc_ok B s \<longleftrightarrow>
     distinct (tc_blocked_ips s) \<and> distinct (tc_blocked_ports s) \<and> distinct (tc_blocked_domains s)
     \<and> distinct (tc_quarantined_cgroups s)
     \<and> (case tc_bpf s of
          None \<Rightarrow> tc_blocked_ips s = []
        | Some b \<Rightarrow> list_all (ip_enforced B b) (tc_blocked_ips s)
            \<and> (tc_blocked_ips s \<noteq> [] \<longrightarrow> bm_access B b ''XDP_BLOCKED_IPS'' = MapOk
                 \<and> bm_access B b ''BLOCKED_IPS'' = MapOk))"

lemma block_ip_ok:
  assumes B: "bpf_laws B" and ok: "tc_ok B s"
  shows "tc_ok B (snd (tc_block_ip B now ip reason s))"
proof (cases "tc_bpf s")
  case None
  with ok show ?thesis by (simp add: tc_block_ip_def)
next
  case (Some b)
  let ?u = "\<lambda>n a u. checked_update B n a u (bm_insert B n (ucast ip))"
  obtain r1 b1 where u1: "?u ''XDP_BLOCKED_IPS'' ''Failed to access XDP map: '' ''Failed to block IP: '' b = (r1, b1)"
    by fastforce
  obtain r2 b2 where u2: "?u ''BLOCKED_IPS'' ''Failed to block IP in TC: '' ''Failed to block IP in TC: '' b1 = (r2, b2)"
    by fastforce
  note e1 = checked_insert[OF B u1] and e2 = checked_insert[OF B u2]
  have keep: "ip_enforced B b1 x" "ip_enforced B b2 x" if "ip_enforced B b x" for x
    using that by (auto simp: ip_enforced_def e1(2) e2(2))
  have new: "ip_enforced B b2 ip" if "r1 = None" "r2 = None"
    using that by (simp add: ip_enforced_def e1(2) e2(2))
  have acc: "bm_access B b ''XDP_BLOCKED_IPS'' = MapOk" "bm_access B b ''BLOCKED_IPS'' = MapOk"
    if "r1 = None" "r2 = None"
    using e1(3)[OF that(1)] e2(3)[OF that(2)] e1(1) by simp_all
  show ?thesis
    using ok Some u1 u2 keep new acc e1(1) e2(1)
    by (auto simp: tc_ok_def tc_block_ip_def list_all_iff split: option.splits)
qed

lemma unblock_maps_effect:
  assumes B: "bpf_laws B" and u: "unblock_maps B ips s = (r, t)"
  shows "\<exists>c. t = s\<lparr>tc_bpf := c\<rparr> \<and> (c = None \<longleftrightarrow> tc_bpf s = None)
    \<and> (\<forall>b d. tc_bpf s = Some b \<longrightarrow> c = Some d \<longrightarrow> bm_access B d = bm_access B b
         \<and> (\<forall>ip. ip \<notin> set ips \<longrightarrow> ip_enforced B d ip = ip_enforced B b ip)
         \<and> (\<forall>cg. bm_has B d ''DENYLIST'' cg = bm_has B b ''DENYLIST'' cg))"
    "r \<noteq> None \<Longrightarrow> \<exists>b. tc_bpf s = Some b \<and>
       (bm_access B b ''XDP_BLOCKED_IPS'' = MapMissing \<or> bm_access B b ''BLOCKED_IPS'' = MapMissing)"
  using u remove_all_effect(1)[OF B] ucast_ip_notin
  by (auto simp: unblock_maps_def lenient_update_def ip_enforced_def remove_all_effect(2)[OF B]
      split: option.splits map_access.splits prod.splits)

lemma unblock_ip_ok:
  assumes B: "bpf_laws B" and ok: "tc_ok B s"
  shows "tc_ok B (snd (tc_unblock_ip B ip s))"
proof -
  obtain r t where u: "unblock_maps B [ip] s = (r, t)" by fastforce
  from unblock_maps_effect[OF B u] show ?thesis
    using ok u by (auto simp: tc_ok_def tc_unblock_ip_def list_all_iff distinct_removeAll split: option.splits)
qed

lemma flush_all_ok:
  assumes B: "bpf_laws B" and ok: "tc_ok B s"
  shows "tc_ok B (snd (tc_flush_all B s))"
proof -
  obtain r t where u: "unblock_maps B (tc_blocked_ips s) s = (r, t)" by fastforce
  from unblock_maps_effect[OF B u] show ?thesis
    using ok u by (auto simp: tc_ok_def tc_flush_all_def list_all_iff split: option.splits)
qed

lemma block_indicator_ip: "snd (block_indicator B now (CIp ip) s) = snd (tc_block_ip B now ip ''C2 indicator'' s)"
  by (simp split: sum.splits prod.splits)

lemma c2_ok: "bpf_laws B \<Longrightarrow> tc_ok B s \<Longrightarrow> tc_ok B (snd (block_c2_indicators B now is' s))"
proof (induction is' arbitrary: s)
  case (Cons i is')
  have "tc_ok B (snd (block_indicator B now i s))"
    using block_ip_ok[OF Cons.prems, of now _ "''C2 indicator''"] Cons.prems(2)
    by (cases i) (auto simp: tc_ok_def block_indicator_ip simp del: block_indicator.simps(1) split: option.splits)
  with Cons show ?case by (simp add: Let_def case_prod_beta)
qed simp

lemma quarantine_ok:
  assumes B: "bpf_laws B" and ok: "tc_ok B s"
  shows "tc_ok B (snd (tc_quarantine_workload B cg s))"
proof (cases "tc_bpf s")
  case None
  with ok show ?thesis by (simp add: tc_quarantine_workload_def tc_ok_def)
next
  case (Some b)
  obtain r b' where u: "checked_update B ''DENYLIST'' ''Failed to access denylist: '' ''Failed to quarantine: ''
      (bm_insert B ''DENYLIST'' cg) b = (r, b')" by fastforce
  from checked_insert[OF B u] have "bm_access B b' = bm_access B b" "ip_enforced B b' = ip_enforced B b"
    by (auto simp: ip_enforced_def fun_eq_iff)
  then show ?thesis
    using ok Some u by (auto simp: tc_quarantine_workload_def tc_ok_def split: option.splits)
qed

lemma unquarantine_ok:
  assumes B: "bpf_laws B" and ok: "tc_ok B s"
  shows "tc_ok B (snd (tc_unquarantine_workload B cg s))"
proof (cases "tc_bpf s")
  case None
  with ok show ?thesis by (simp add: tc_unquarantine_workload_def)
next
  case (Some b)
  obtain r b' where u: "checked_update B ''DENYLIST'' ''Failed to access denylist: '' ''Failed to unquarantine: ''
      (bm_remove B ''DENYLIST'' cg) b = (r, b')" by fastforce
  from checked_remove[OF B u] have "bm_access B b' = bm_access B b" "ip_enforced B b' = ip_enforced B b"
    by (auto simp: ip_enforced_def fun_eq_iff)
  then show ?thesis
    using ok Some u by (auto simp: tc_unquarantine_workload_def tc_ok_def)
qed

lemma tc_step_ok: "bpf_laws B \<Longrightarrow> tc_ok B s \<Longrightarrow> tc_ok B (tc_step B s e)"
  by (cases e) (simp_all add: block_ip_ok unblock_ip_ok c2_ok quarantine_ok unquarantine_ok flush_all_ok
      split: option.splits)

interpretation tc: event_machine "tc_step B" "\<lambda>s. bpf_laws B \<and> tc_ok B s" for B
  by unfold_locales (simp add: tc_step_ok)

section \<open>The denylist\<close>

definition denied :: "'b bpf_ops \<Rightarrow> u64 \<Rightarrow> 'b TcEnforcer \<Rightarrow> bool" where
  "denied B cg s \<longleftrightarrow> (case tc_bpf s of None \<Rightarrow> False | Some b \<Rightarrow> bm_has B b ''DENYLIST'' cg)"

lemma denied_simps [simp]:
  "denied B cg (s\<lparr>tc_blocked_ips := x\<rparr>) = denied B cg s"
  "denied B cg (s\<lparr>tc_blocked_ports := y\<rparr>) = denied B cg s"
  "denied B cg (s\<lparr>tc_blocked_domains := z\<rparr>) = denied B cg s"
  "denied B cg (s\<lparr>tc_quarantined_cgroups := v\<rparr>) = denied B cg s"
  "denied B cg (s\<lparr>tc_last_update := w\<rparr>) = denied B cg s"
  by (simp_all add: denied_def)

lemma denied_block: "bpf_laws B \<Longrightarrow> denied B cg s \<Longrightarrow> denied B cg (snd (tc_block_ip B now ip reason s))"
  by (auto simp: denied_def tc_block_ip_def checked_insert split: option.splits prod.splits)

lemma denied_unblock:
  assumes "bpf_laws B" "denied B cg s"
  shows "denied B cg (snd (tc_unblock_ip B ip s))" "denied B cg (snd (tc_flush_all B s))"
proof -
  have "denied B cg t" if "unblock_maps B ips s = (r, t)" for ips r t
    using unblock_maps_effect(1)[OF assms(1) that] assms(2) by (auto simp: denied_def split: option.splits)
  then show "denied B cg (snd (tc_unblock_ip B ip s))" "denied B cg (snd (tc_flush_all B s))"
    by (auto simp: tc_unblock_ip_def tc_flush_all_def split: option.splits prod.splits)
qed

lemma denied_c2: "bpf_laws B \<Longrightarrow> denied B cg s \<Longrightarrow> denied B cg (snd (block_c2_indicators B now is' s))"
proof (induction is' arbitrary: s)
  case (Cons i is')
  have "denied B cg (snd (block_indicator B now i s))"
    using denied_block[OF Cons.prems, of now _ "''C2 indicator''"] Cons.prems(2)
    by (cases i) (auto simp: block_indicator_ip simp del: block_indicator.simps(1))
  with Cons show ?case by (simp add: Let_def case_prod_beta)
qed simp

lemma denied_quarantine:
  "bpf_laws B \<Longrightarrow> denied B cg s \<Longrightarrow> denied B cg (snd (tc_quarantine_workload B c s))"
  "bpf_laws B \<Longrightarrow> denied B cg s \<Longrightarrow> c \<noteq> cg \<Longrightarrow> denied B cg (snd (tc_unquarantine_workload B c s))"
  by (auto simp: denied_def tc_quarantine_workload_def tc_unquarantine_workload_def checked_insert checked_remove
      split: option.splits prod.splits)

lemma denied_step: "bpf_laws B \<Longrightarrow> denied B cg s \<Longrightarrow> e \<noteq> TcUnquarantine cg \<Longrightarrow> denied B cg (tc_step B s e)"
  by (cases e) (auto simp: denied_block denied_unblock denied_c2 denied_quarantine split: option.splits)

lemma denied_run: "bpf_laws B \<Longrightarrow> denied B cg s \<Longrightarrow> TcUnquarantine cg \<notin> set es \<Longrightarrow> denied B cg (foldl (tc_step B) s es)"
  by (induction es arbitrary: s) (auto simp: denied_step)

lemma denied_by_quarantine:
  "bpf_laws B \<Longrightarrow> tc_bpf s = Some b \<Longrightarrow> fst (tc_quarantine_workload B cg s) = None \<Longrightarrow>
   denied B cg (snd (tc_quarantine_workload B cg s))"
  by (auto simp: denied_def tc_quarantine_workload_def checked_insert(2) split: option.splits prod.splits)

fun reports :: "C2Indicator \<Rightarrow> EnforcementResult \<Rightarrow> bool" where
  "reports (CIp ip) r \<longleftrightarrow> rl_rule r = BlockIp ip ''C2 indicator'' \<and> (rl_applied r \<longleftrightarrow> rl_error r = None)"
| "reports (CPort p) r \<longleftrightarrow> rl_rule r = BlockPort p ''C2 indicator port'' \<and> rl_applied r"
| "reports (CDomain d) r \<longleftrightarrow> False"

fun silent :: "C2Indicator \<Rightarrow> bool" where
  "silent (CDomain d) = True"
| "silent _ = False"

lemma block_ip_result:
  "tc_block_ip B now ip reason s = (Inr r, t) \<Longrightarrow>
   r = \<lparr>rl_rule = BlockIp ip reason, rl_applied = True, rl_error = None\<rparr>"
  by (auto simp: tc_block_ip_def split: option.splits prod.splits)

lemma indicator_result:
  "(silent i \<longrightarrow> fst (block_indicator B now i s) = [])
   \<and> (\<not> silent i \<longrightarrow> (\<exists>r. fst (block_indicator B now i s) = [r] \<and> reports i r))"
  by (cases i) (auto split: sum.splits prod.splits dest: block_ip_result)

lemma c2_results:
  "list_all2 reports (filter (\<lambda>i. \<not> silent i) is') (fst (block_c2_indicators B now is' s))"
proof (induction is' arbitrary: s)
  case (Cons i is')
  then show ?case using indicator_result[of i B now s] by (auto simp: Let_def case_prod_beta)
qed simp

section \<open>Properties\<close>

text \<open>C27. Whatever sequence of rules, quarantines, expired timers and flushes ran, every address the enforcer
  exports as blocked is in both of the kernel's block maps; without a loaded object it exports
  none.\<close>

theorem exported_ips_are_enforced:
  assumes "bpf_laws B" "s0 = TcEnforcer_new now \<or> s0 = TcEnforcer_with_bpf b path now"
  shows "case tc_bpf (foldl (tc_step B) s0 es) of
      None \<Rightarrow> tr_blocked_ips (export_rules (foldl (tc_step B) s0 es)) = []
    | Some b' \<Rightarrow> list_all (ip_enforced B b') (tr_blocked_ips (export_rules (foldl (tc_step B) s0 es)))"
proof -
  have "tc_ok B s0" using assms(2) by (auto simp: tc_ok_def TcEnforcer_new_def TcEnforcer_with_bpf_def)
  then have "tc_ok B (foldl (tc_step B) s0 es)" using tc.run_inv[of B s0 es] assms(1) by blast
  then show ?thesis by (auto simp: tc_ok_def export_rules_def split: option.splits)
qed

theorem exported_ips_are_enforced_witness:
  "\<forall>es. case tc_bpf (foldl (tc_step (list_bpf 2)) (TcEnforcer_with_bpf [(''XDP_BLOCKED_IPS'', []), (''BLOCKED_IPS'', [])] [] 0) es) of
      None \<Rightarrow> True
    | Some b' \<Rightarrow> list_all (ip_enforced (list_bpf 2) b') (tc_blocked_ips (foldl (tc_step (list_bpf 2))
        (TcEnforcer_with_bpf [(''XDP_BLOCKED_IPS'', []), (''BLOCKED_IPS'', [])] [] 0) es))"
proof
  fix es
  show "case tc_bpf (foldl (tc_step (list_bpf 2)) (TcEnforcer_with_bpf [(''XDP_BLOCKED_IPS'', []), (''BLOCKED_IPS'', [])] [] 0) es) of
      None \<Rightarrow> True
    | Some b' \<Rightarrow> list_all (ip_enforced (list_bpf 2) b') (tc_blocked_ips (foldl (tc_step (list_bpf 2))
        (TcEnforcer_with_bpf [(''XDP_BLOCKED_IPS'', []), (''BLOCKED_IPS'', [])] [] 0) es))"
    using exported_ips_are_enforced[OF list_bpf_laws disjI2[OF refl], of 2
        "[(''XDP_BLOCKED_IPS'', []), (''BLOCKED_IPS'', [])]" "[]" 0 es]
    by (simp add: export_rules_def split: option.splits)
qed

text \<open>A workload whose quarantine succeeded stays on the kernel's denylist until it is explicitly released:
  the timer of its quarantine, an unblock or a flush of all rules does not lift it.\<close>

theorem quarantine_outlasts_its_timer:
  assumes "bpf_laws B" "tc_bpf s = Some b" "tc_quarantine_workload B cg s = (None, s')"
    "TcUnquarantine cg \<notin> set es"
  shows "denied B cg (foldl (tc_step B) s' es)"
  using denied_run[OF assms(1) _ assms(4)] denied_by_quarantine[OF assms(1,2), of cg] assms(3) by simp

theorem quarantine_outlasts_its_timer_witness:
  "denied (list_bpf 2) 7 (foldl (tc_step (list_bpf 2))
     (TcEnforcer_with_bpf [(''DENYLIST'', [7])] ''p'' 0\<lparr>tc_quarantined_cgroups := [7]\<rparr>)
     [TcTimer (\<lambda>p. Inr [(''DENYLIST'', [])]) 7, TcFlush])"
proof (rule quarantine_outlasts_its_timer[OF list_bpf_laws])
  show "tc_bpf (TcEnforcer_with_bpf [(''DENYLIST'', [])] ''p'' 0) = Some [(''DENYLIST'', [])]"
    by (simp add: TcEnforcer_with_bpf_def)
  show "tc_quarantine_workload (list_bpf 2) 7 (TcEnforcer_with_bpf [(''DENYLIST'', [])] ''p'' 0) =
      (None, TcEnforcer_with_bpf [(''DENYLIST'', [7])] ''p'' 0\<lparr>tc_quarantined_cgroups := [7]\<rparr>)"
    by (simp add: tc_quarantine_workload_def TcEnforcer_with_bpf_def TcEnforcer_new_def checked_update_def list_bpf_def)
qed simp

text \<open>The maps the enforcer writes are not among those the agent's own object declares: with that object
  every block, unblock, quarantine and release fails and no rule ever takes effect.\<close>

theorem own_object_cannot_enforce:
  assumes "agent_object B b" "tc_bpf s = Some b"
  shows "tc_block_ip B now ip reason s = (Inl (ErrBpf ''XDP_BLOCKED_IPS map not found''), s)
    \<and> tc_unblock_ip B ip s = (Some (ErrBpf ''XDP_BLOCKED_IPS map not found''), s)
    \<and> tc_flush_all B s = (Some (ErrBpf ''XDP_BLOCKED_IPS map not found''), s)
    \<and> tc_quarantine_workload B cg s = (Some (ErrBpf ''DENYLIST map not found''), s)
    \<and> tc_unquarantine_workload B cg s = (Some (ErrBpf ''DENYLIST map not found''), s)"
proof -
  have "bm_access B b ''XDP_BLOCKED_IPS'' = MapMissing" "bm_access B b ''DENYLIST'' = MapMissing"
    using assms(1) undeclared unfolding agent_object_def by blast+
  moreover have "s\<lparr>tc_bpf := Some b\<rparr> = s" using assms(2) by (cases s) simp
  ultimately show ?thesis
    using assms(2) by (simp add: tc_block_ip_def tc_unblock_ip_def tc_flush_all_def unblock_maps_def Let_def
      tc_quarantine_workload_def tc_unquarantine_workload_def checked_update_def lenient_update_def)
qed

theorem own_object_cannot_enforce_witness:
  "fst (tc_quarantine_workload (list_bpf 9) 7
     (TcEnforcer_with_bpf (map (\<lambda>n. (n, [])) declared_maps) ''p'' 0)) = Some (ErrBpf ''DENYLIST map not found'')"
proof -
  have "agent_object (list_bpf 9) (map (\<lambda>n. (n, [])) declared_maps)"
    by (auto simp: agent_object_def list_bpf_def)
  from own_object_cannot_enforce[OF this, of "TcEnforcer_with_bpf (map (\<lambda>n. (n, [])) declared_maps) ''p'' 0" 0 0 "[]" 7]
  show ?thesis by (simp add: TcEnforcer_with_bpf_def)
qed

text \<open>Blocking a list of indicators reports on its addresses and ports in order, and never on a domain. An
  address counts as applied or carries an error; a port always counts as applied, although the
  kernel's object is left as it was.\<close>

theorem c2_report:
  "list_all2 reports (filter (\<lambda>i. \<not> silent i) is') (fst (block_c2_indicators B now is' s))
   \<and> tc_bpf (snd (block_c2_indicators B now (map CPort ps @ map CDomain ds) s)) = tc_bpf s"
proof -
  have "tc_bpf (snd (block_c2_indicators B now (map CDomain ds) s)) = tc_bpf s" for s
    by (induction ds arbitrary: s) (auto simp: Let_def case_prod_beta)
  then have "tc_bpf (snd (block_c2_indicators B now (map CPort ps @ map CDomain ds) s)) = tc_bpf s" for s
    by (induction ps arbitrary: s) (auto simp: Let_def case_prod_beta)
  then show ?thesis using c2_results by blast
qed

end
