(* ===== verification/Validation.thy ===== *)
theory Validation
  imports Correlation Experiment Float_Sums
begin

text \<open>
  \<open>validation.rs\<close>: the comparison of a traditional scan with the execution-aware one, the
  summary over several comparisons and the generated test data. Counts are 64-bit words and
  their differences wrap. The console report is not modelled.
\<close>

section \<open>Reports\<close>

record ScanResult =
  sn_total_cves :: u64
  sn_critical :: u64
  sn_high :: u64
  sn_medium :: u64
  sn_low :: u64
  sn_exploitable :: u64
  sn_false_positives :: u64

record ReductionMetrics =
  rd_total_reduction_percent :: f32
  rd_noise_reduction :: f32
  rd_critical_focus :: f32
  rd_time_saved :: string

datatype TestTarget = Dvwa | JuiceShop | Production string

record ValidationReport =
  vr_baseline_scan :: ScanResult
  vr_execution_aware_scan :: ScanResult
  vr_reduction_metrics :: ReductionMetrics
  vr_test_target :: TestTarget

type_synonym FalsePositiveValidator = "ValidationReport list"

definition FalsePositiveValidator_new :: FalsePositiveValidator where
  "FalsePositiveValidator_new = []"

definition count_if :: "('a \<Rightarrow> bool) \<Rightarrow> 'a list \<Rightarrow> u64" where
  "count_if P xs = of_nat (length (filter P xs))"

definition baseline_result :: "Vulnerability list \<Rightarrow> ScanResult" where
  "baseline_result vs =
     \<lparr>sn_total_cves = of_nat (length vs),
      sn_critical = count_if (\<lambda>v. vl_severity v = VCritical) vs,
      sn_high = count_if (\<lambda>v. vl_severity v = VHigh) vs,
      sn_medium = count_if (\<lambda>v. vl_severity v = VMedium) vs,
      sn_low = count_if (\<lambda>v. vl_severity v = VLow) vs,
      sn_exploitable = 0,
      sn_false_positives = of_nat (length vs) div 3\<rparr>"

definition execution_result :: "Finding list \<Rightarrow> ScanResult" where
  "execution_result fs =
     \<lparr>sn_total_cves = of_nat (length fs),
      sn_critical = count_if (\<lambda>f. fd_priority f = PCritical) fs,
      sn_high = count_if (\<lambda>f. fd_priority f = PHigh) fs,
      sn_medium = count_if (\<lambda>f. fd_priority f = PMedium) fs,
      sn_low = count_if (\<lambda>f. fd_priority f = PLow) fs,
      sn_exploitable = of_nat (length fs),
      sn_false_positives = count_if (\<lambda>f. fl_lt (fd_score f) (lit32 7)) fs\<rparr>"

definition critical_focus :: "ScanResult \<Rightarrow> ScanResult \<Rightarrow> f32" where
  "critical_focus b x =
     (if 0 < sn_critical b
      then fmul F32 (fdiv F32 (fl_nat F32 (unat (sn_critical x))) (fl_nat F32 (unat (sn_critical b)))) (lit32 100)
      else lit32 100)"

definition reduction_metrics :: "ScanResult \<Rightarrow> ScanResult \<Rightarrow> ReductionMetrics" where
  "reduction_metrics b x =
     \<lparr>rd_total_reduction_percent = reduction_percent (sn_total_cves x) (sn_total_cves b),
      rd_noise_reduction = reduction_percent (sn_low x) (sn_low b),
      rd_critical_focus = critical_focus b x,
      rd_time_saved = dec_w ((sn_total_cves b - sn_total_cves x) div 10) @ '' hours''\<rparr>"

definition compare_scans ::
  "TestTarget \<Rightarrow> Vulnerability list \<Rightarrow> Finding list \<Rightarrow> FalsePositiveValidator
   \<Rightarrow> ValidationReport \<times> FalsePositiveValidator" where
  "compare_scans target vs fs v =
     (let b = baseline_result vs; x = execution_result fs;
          r = \<lparr>vr_baseline_scan = b, vr_execution_aware_scan = x,
               vr_reduction_metrics = reduction_metrics b x, vr_test_target = target\<rparr>
      in (r, v @ [r]))"

section \<open>The summary\<close>

record ValidationSummary =
  vs_total_tests :: nat
  vs_average_reduction :: f32
  vs_dvwa_result :: "ValidationReport option"
  vs_juice_shop_result :: "ValidationReport option"
  vs_reports :: "ValidationReport list"

definition note_target ::
  "ValidationReport \<Rightarrow> ValidationReport option \<times> ValidationReport option
   \<Rightarrow> ValidationReport option \<times> ValidationReport option" where
  "note_target r = (\<lambda>(d, j). case vr_test_target r of
     Dvwa \<Rightarrow> (Some r, j) | JuiceShop \<Rightarrow> (d, Some r) | Production s \<Rightarrow> (d, j))"

definition generate_summary :: "FalsePositiveValidator \<Rightarrow> ValidationSummary" where
  "generate_summary v =
     (let xs = map (\<lambda>r. rd_total_reduction_percent (vr_reduction_metrics r)) v;
          (d, j) = fold note_target v (None, None)
      in \<lparr>vs_total_tests = length v,
          vs_average_reduction =
            (if xs = [] then lit32 0 else fdiv F32 (fsum F32 xs) (fl_nat F32 (length xs))),
          vs_dvwa_result = d, vs_juice_shop_result = j, vs_reports = v\<rparr>)"

section \<open>Test data\<close>

definition Vulnerability_default :: Vulnerability where
  "Vulnerability_default =
     \<lparr>vl_package = ''unknown'', vl_version = ''unknown'', vl_cve = ''CVE-0000-00000'',
      vl_severity = VLow, vl_cvss_score = lit32 0, vl_description = [], vl_fixed_version = None\<rparr>"

definition severity_of_name :: "string \<Rightarrow> VSeverity" where
  "severity_of_name s =
     (if s = ''Critical'' then VCritical else if s = ''High'' then VHigh
      else if s = ''Medium'' then VMedium else VLow)"

definition vulnerability_of :: "string \<times> string \<Rightarrow> Vulnerability" where
  "vulnerability_of = (\<lambda>(cve, sev). Vulnerability_default\<lparr>vl_cve := cve, vl_severity := severity_of_name sev\<rparr>)"

definition dvwa_baseline :: "Vulnerability list" where
  "dvwa_baseline = map vulnerability_of
     [(''CVE-2019-11043'', ''Critical''),
      (''CVE-2018-14884'', ''High''),
      (''CVE-2018-19518'', ''High''),
      (''CVE-2021-3156'', ''High''),
      (''CVE-2020-14765'', ''Medium''),
      (''CVE-2021-41773'', ''Critical''),
      (''CVE-2020-11022'', ''Medium''),
      (''CVE-2019-11358'', ''Low''),
      (''CVE-2020-11023'', ''Low''),
      (''CVE-2018-14041'', ''Medium''),
      (''CVE-2018-9999'', ''Low''),
      (''CVE-2020-0001'', ''Low'')]"

definition juice_shop_baseline :: "Vulnerability list" where
  "juice_shop_baseline = map vulnerability_of
     [(''CVE-2022-24999'', ''Critical''),
      (''CVE-2019-5413'', ''High''),
      (''CVE-2021-22939'', ''High''),
      (''CVE-2021-22931'', ''Critical''),
      (''CVE-2020-11028'', ''Medium''),
      (''CVE-2020-11023'', ''Low''),
      (''CVE-2019-12345'', ''Low''),
      (''CVE-2020-7660'', ''Medium''),
      (''CVE-2021-21388'', ''Medium''),
      (''CVE-2020-9999'', ''Low''),
      (''CVE-2021-0000'', ''Low'')]"

definition create_finding :: "int \<Rightarrow> string \<Rightarrow> Priority \<Rightarrow> f32 \<Rightarrow> Finding" where
  "create_finding now cve prio score =
     \<lparr>fd_id = ''finding-'' @ cve, fd_detected_at = now,
      fd_identity = \<lparr>ri_node_name = ''test'', ri_namespace = ''default'', ri_pod_name = ''test-pod'',
        ri_container_name = ''app'', ri_image = ''test:latest'', ri_workload = ''test-workload'', ri_labels = []\<rparr>,
      fd_signal = \<lparr>rs_cve = cve, rs_cvss = score, rs_epss = lit32 (95/100), rs_kev = True,
        rs_runtime = Reachable, rs_package = ''test'', rs_observed_paths = [], rs_signal_weight = lit32 0\<rparr>,
      fd_score = score, fd_priority = prio, fd_recommendation = ''Update'',
      fd_explainability = ExplainabilityReport_default\<rparr>"

definition dvwa_execution_findings :: "int \<Rightarrow> Finding list" where
  "dvwa_execution_findings now =
     [create_finding now ''CVE-2019-11043'' PCritical (lit32 (98/10)),
      create_finding now ''CVE-2021-41773'' PCritical (lit32 (91/10)),
      create_finding now ''CVE-2018-14884'' PHigh (lit32 (81/10))]"

definition juice_shop_execution_findings :: "int \<Rightarrow> Finding list" where
  "juice_shop_execution_findings now =
     [create_finding now ''CVE-2022-24999'' PCritical (lit32 (91/10)),
      create_finding now ''CVE-2021-22931'' PCritical (lit32 (98/10)),
      create_finding now ''CVE-2019-5413'' PHigh (lit32 (75/10))]"

section \<open>Counts\<close>

lemma severity_partition:
  "length (filter (\<lambda>v. vl_severity v = VCritical) vs) + length (filter (\<lambda>v. vl_severity v = VHigh) vs)
   + length (filter (\<lambda>v. vl_severity v = VMedium) vs) + length (filter (\<lambda>v. vl_severity v = VLow) vs)
   + length (filter (\<lambda>v. vl_severity v = VUnknown) vs) = length vs"
  by (induction vs) (auto intro: VSeverity.exhaust)

lemma priority_partition:
  "length (filter (\<lambda>f. fd_priority f = PCritical) fs) + length (filter (\<lambda>f. fd_priority f = PHigh) fs)
   + length (filter (\<lambda>f. fd_priority f = PMedium) fs) + length (filter (\<lambda>f. fd_priority f = PLow) fs)
   + length (filter (\<lambda>f. fd_priority f = Informational) fs) = length fs"
proof (induction fs)
  case (Cons f fs)
  then show ?case by (cases "fd_priority f") auto
qed simp

section \<open>Runs\<close>

definition run_comparisons :: "(TestTarget \<times> Vulnerability list \<times> Finding list) list \<Rightarrow> FalsePositiveValidator" where
  "run_comparisons runs =
     foldl (\<lambda>v (t, vs, fs). snd (compare_scans t vs fs v)) FalsePositiveValidator_new runs"

definition comparison :: "TestTarget \<times> Vulnerability list \<times> Finding list \<Rightarrow> ValidationReport" where
  "comparison = (\<lambda>(t, vs, fs).
     \<lparr>vr_baseline_scan = baseline_result vs, vr_execution_aware_scan = execution_result fs,
      vr_reduction_metrics = reduction_metrics (baseline_result vs) (execution_result fs), vr_test_target = t\<rparr>)"

lemma run_comparisons_map: "run_comparisons runs = map comparison runs"
proof -
  have "foldl (\<lambda>v (t, vs, fs). snd (compare_scans t vs fs v)) v runs = v @ map comparison runs" for v
    by (induction runs arbitrary: v) (auto simp: compare_scans_def comparison_def Let_def)
  then show ?thesis by (simp add: run_comparisons_def FalsePositiveValidator_new_def)
qed

lemma count_le: "m \<le> n \<Longrightarrow> n < 2 ^ 64 \<Longrightarrow> (of_nat m :: u64) \<le> of_nat n"
  by (simp add: word_of_nat_less_eq_iff take_bit_nat_eq_self)

lemma demo_counts:
  "sn_total_cves (baseline_result dvwa_baseline) = 12" "sn_critical (baseline_result dvwa_baseline) = 2"
  "sn_low (baseline_result dvwa_baseline) = 4"
  "sn_critical (baseline_result juice_shop_baseline) = 2" "sn_low (baseline_result juice_shop_baseline) = 4"
  "sn_total_cves (execution_result (dvwa_execution_findings t)) = 3"
  "sn_critical (execution_result (dvwa_execution_findings t)) = 2"
  "sn_low (execution_result (dvwa_execution_findings t)) = 0"
  "sn_critical (execution_result (juice_shop_execution_findings t)) = 2"
  "sn_low (execution_result (juice_shop_execution_findings t)) = 0"
  by (simp_all add: baseline_result_def execution_result_def count_if_def dvwa_baseline_def
      juice_shop_baseline_def dvwa_execution_findings_def juice_shop_execution_findings_def
      vulnerability_of_def severity_of_name_def create_finding_def)

lemma demo_percentages:
  "reduction_percent 3 12 = Fin 75" "reduction_percent 0 4 = Fin 100"
  "fmul F32 (fdiv F32 (fl_nat F32 2) (fl_nat F32 2)) (lit32 100) = Fin 100"
  by code_simp+

section \<open>Properties\<close>

text \<open>Whatever comparisons were run, as long as none reports more findings than its baseline has CVEs, the
  average reduction of the summary is a number between 0 and 100.\<close>

theorem average_reduction_is_percentage:
  assumes "\<forall>(t, vs, fs) \<in> set runs. length fs \<le> length vs \<and> length vs < 2 ^ 64" "length runs \<le> 100000"
  shows "fl_in 0 100 (vs_average_reduction (generate_summary (run_comparisons runs)))"
proof -
  let ?xs = "map (\<lambda>r. rd_total_reduction_percent (vr_reduction_metrics r)) (run_comparisons runs)"
  have "\<forall>x \<in> set ?xs. fl_in 0 100 x"
    using assms(1) by (auto simp: run_comparisons_map comparison_def reduction_metrics_def baseline_result_def
        execution_result_def intro!: reduction_in_range count_le split: prod.splits)
  moreover have "length ?xs \<le> 100000" using assms(2) by (simp add: run_comparisons_map)
  ultimately have "?xs \<noteq> [] \<Longrightarrow> fl_in 0 100 (fdiv F32 (fsum F32 ?xs) (fl_nat F32 (length ?xs)))"
    using mean32_in[of ?xs 100] by simp
  then show ?thesis by (simp add: generate_summary_def Let_def case_prod_beta fl_of_id)
qed

theorem average_reduction_is_percentage_witness:
  "fl_in 0 100 (vs_average_reduction (generate_summary
     (run_comparisons [(Dvwa, dvwa_baseline, dvwa_execution_findings 0), (JuiceShop, juice_shop_baseline, [])])))"
  by (rule average_reduction_is_percentage) (simp_all add: dvwa_baseline_def dvwa_execution_findings_def juice_shop_baseline_def)

text \<open>The per-severity counts of a baseline leave out exactly the CVEs of unknown severity, those of an
  execution-aware scan exactly the informational findings.\<close>

theorem counts_leave_out_the_unknown:
  "sn_critical (baseline_result vs) + sn_high (baseline_result vs) + sn_medium (baseline_result vs)
     + sn_low (baseline_result vs) + count_if (\<lambda>v. vl_severity v = VUnknown) vs = sn_total_cves (baseline_result vs)
   \<and> sn_critical (execution_result fs) + sn_high (execution_result fs) + sn_medium (execution_result fs)
     + sn_low (execution_result fs) + count_if (\<lambda>f. fd_priority f = Informational) fs = sn_total_cves (execution_result fs)"
  unfolding baseline_result_def execution_result_def count_if_def
  using severity_partition[of vs, THEN arg_cong[where f = "of_nat :: nat \<Rightarrow> u64"]]
    priority_partition[of fs, THEN arg_cong[where f = "of_nat :: nat \<Rightarrow> u64"]]
  by simp

text \<open>A scan that reports more findings than its baseline has CVEs is not shown as worse: the unsigned
  difference wraps, the reduction exceeds any percentage and the hours saved exceed 10^17.\<close>

theorem more_findings_save_ages:
  assumes "length vs < length fs" "length fs < 2 ^ 63" "vs \<noteq> []" "length vs < 2 ^ 24"
  shows "let m = vr_reduction_metrics (fst (compare_scans target vs fs v))
         in fl_le (Fin (2 ^ 39)) (rd_total_reduction_percent m)
          \<and> (\<exists>h. rd_time_saved m = dec_w (h :: u64) @ '' hours'' \<and> 10 ^ 17 \<le> unat h)"
proof -
  let ?b = "of_nat (length vs) :: u64" and ?x = "of_nat (length fs) :: u64"
  have u: "unat ?b = length vs" "unat ?x = length fs"
    using assms by (simp_all add: unsigned_of_nat take_bit_nat_eq_self)
  have "fl_le (Fin (2 ^ 39)) (reduction_percent ?x ?b)"
    using u assms by (intro reduction_wraps) (simp_all add: word_less_nat_alt)
  moreover have "10 ^ 17 \<le> unat ((?b - ?x) div 10)"
    using u assms by (simp add: unat_div unat_sub_if' not_le)
  ultimately show ?thesis
    by (auto simp: compare_scans_def reduction_metrics_def baseline_result_def execution_result_def Let_def)
qed

theorem more_findings_save_ages_witness:
  "fl_le (Fin (2 ^ 39)) (rd_total_reduction_percent (vr_reduction_metrics
     (fst (compare_scans Dvwa [Vulnerability_default] (dvwa_execution_findings 0) []))))"
  using more_findings_save_ages[of "[Vulnerability_default]" "dvwa_execution_findings 0" Dvwa "[]"]
  by (simp add: dvwa_execution_findings_def Let_def)

text \<open>On the generated data of both demo targets the criticals are all kept, the low CVEs all dropped, and
  the DVWA comparison reports a reduction of exactly 75 percent.\<close>

theorem demo_comparisons:
  "rd_total_reduction_percent (reduction_metrics (baseline_result dvwa_baseline) (execution_result (dvwa_execution_findings t))) = Fin 75
   \<and> list_all (\<lambda>(vs, fs). rd_noise_reduction (reduction_metrics (baseline_result vs) (execution_result fs)) = Fin 100
        \<and> rd_critical_focus (reduction_metrics (baseline_result vs) (execution_result fs)) = Fin 100)
      [(dvwa_baseline, dvwa_execution_findings t), (juice_shop_baseline, juice_shop_execution_findings t)]"
  by (simp add: reduction_metrics_def demo_counts demo_percentages critical_focus_def)

end
