(* ===== verification/Policy_Engine.thy ===== *)
theory Policy_Engine
  imports Cgroup Inventory Json
begin

text \<open>
  \<open>policy_engine.rs\<close>: loading Rego policies from a directory and asking \<open>opa eval\<close> for a
  decision on a finding. The directory, fresh ids, the clock, the JSON reader and the outcome
  of the subprocess are arguments.
\<close>

section \<open>Policies\<close>

record PolicyInfo =
  pi_id :: string
  pi_name :: string
  pi_description :: string
  pi_enabled :: bool
  pi_rules_count :: nat
  pi_source_path :: string
  pi_last_loaded :: int

datatype PolicyAction = Allow | Alert | Block | Quarantine | Audit

record PolicyDecision =
  pd_action :: PolicyAction
  pd_reason :: string
  pd_rule_id :: string
  pd_policy_name :: string

record ReloadResult =
  rr_reloaded :: nat
  rr_errors :: "string list"

record PolicyEngine =
  pg_policies :: "PolicyInfo list"
  pg_policy_dir :: string
  pg_last_loaded :: "int option"

definition PolicyEngine_with_dir :: "string \<Rightarrow> PolicyEngine" where
  "PolicyEngine_with_dir dir = \<lparr>pg_policies = [], pg_policy_dir = dir, pg_last_loaded = None\<rparr>"

definition PolicyEngine_new :: PolicyEngine where
  "PolicyEngine_new = \<lparr>pg_policies = [], pg_policy_dir = ''/etc/scanner/policies'', pg_last_loaded = None\<rparr>"

definition get_policy :: "string \<Rightarrow> PolicyEngine \<Rightarrow> PolicyInfo option" where
  "get_policy pid e = find (\<lambda>p. pi_id p = pid) (pg_policies e)"

section \<open>Loading\<close>

definition str_trim_start :: "string \<Rightarrow> string" where
  "str_trim_start = trim_front white_space"

definition split_once :: "char \<Rightarrow> string \<Rightarrow> (string \<times> string) option" where
  "split_once c s =
     (if c \<in> set s then Some (takeWhile (\<lambda>x. x \<noteq> c) s, tl (dropWhile (\<lambda>x. x \<noteq> c) s)) else None)"

definition extract_metadata :: "string \<Rightarrow> string \<Rightarrow> string option" where
  "extract_metadata content key =
     (case find (\<lambda>l. starts_with (str_trim_start l) (''# @'' @ key @ '':'')) (str_lines content) of
        None \<Rightarrow> None
      | Some l \<Rightarrow> map_option (\<lambda>(_, v). str_trim v) (split_once (CHR '':'') l))"

text \<open>\<open>s.matches(p).count()\<close> counts occurrences that do not overlap.\<close>

function count_matches :: "'a list \<Rightarrow> 'a list \<Rightarrow> nat" where
  "count_matches p s =
     (if p = [] then Suc (length s)
      else if prefix p s then Suc (count_matches p (drop (length p) s))
      else (case s of [] \<Rightarrow> 0 | x # xs \<Rightarrow> count_matches p xs))"
  by pat_completeness auto
termination
  by (relation "measure (\<lambda>(p, s). length s)") (auto simp: prefix_def)

declare count_matches.simps [simp del]

datatype load_outcome = Loaded PolicyInfo | LoadError string | LoadPanic

definition load_policy_file :: "string \<Rightarrow> int \<Rightarrow> string \<Rightarrow> string + string \<Rightarrow> load_outcome" where
  "load_policy_file uuid now path content =
     (case content of
        Inl e \<Rightarrow> LoadError (''Read error: '' @ e)
      | Inr c \<Rightarrow>
          (case (case extract_metadata c ''name'' of Some n \<Rightarrow> Some n | None \<Rightarrow> file_stem path) of
             None \<Rightarrow> LoadPanic
           | Some name \<Rightarrow>
               Loaded \<lparr>pi_id = uuid, pi_name = name,
                 pi_description = (case extract_metadata c ''description'' of Some d \<Rightarrow> d | None \<Rightarrow> []),
                 pi_enabled = True, pi_rules_count = max (count_matches ''rule'' c) 1,
                 pi_source_path = path, pi_last_loaded = now\<rparr>))"

text \<open>The loop over the directory; None is a panic. Entries that cannot be read are skipped.\<close>

fun load_policies ::
  "(nat \<Rightarrow> string) \<Rightarrow> int \<Rightarrow> dir_entry list \<Rightarrow> PolicyInfo list \<times> ReloadResult
   \<Rightarrow> (PolicyInfo list \<times> ReloadResult) option" where
  "load_policies ids now [] (ps, r) = Some (ps, r)"
| "load_policies ids now (EntryError e # es) (ps, r) = load_policies ids now es (ps, r)"
| "load_policies ids now (EntryFile path content # es) (ps, r) =
     (if path_extension path \<noteq> Some ''rego'' then load_policies ids now es (ps, r)
      else (case load_policy_file (ids (length ps)) now path content of
              Loaded i \<Rightarrow> load_policies ids now es (ps @ [i], r\<lparr>rr_reloaded := Suc (rr_reloaded r)\<rparr>)
            | LoadError e \<Rightarrow>
                load_policies ids now es (ps, r\<lparr>rr_errors := rr_errors r @ [path @ '': '' @ e]\<rparr>)
            | LoadPanic \<Rightarrow> None))"

text \<open>The policy directory: absent, unreadable, or its entries.\<close>

datatype policy_dir = DirMissing | DirUnreadable string | DirEntries "dir_entry list"

definition pg_reload ::
  "(nat \<Rightarrow> string) \<Rightarrow> int \<Rightarrow> policy_dir \<Rightarrow> PolicyEngine \<Rightarrow> (ReloadResult \<times> PolicyEngine) option" where
  "pg_reload ids now dir e =
     (let r = \<lparr>rr_reloaded = 0, rr_errors = []\<rparr>
      in case dir of
           DirMissing \<Rightarrow> Some (r, e\<lparr>pg_last_loaded := Some now\<rparr>)
         | DirUnreadable err \<Rightarrow>
             Some (r\<lparr>rr_errors := [''Failed to read policy dir: '' @ err]\<rparr>,
                   e\<lparr>pg_policies := [], pg_last_loaded := Some now\<rparr>)
         | DirEntries es \<Rightarrow>
             map_option (\<lambda>(ps, r). (r, e\<lparr>pg_policies := ps, pg_last_loaded := Some now\<rparr>))
               (load_policies ids now es ([], r)))"

section \<open>Evaluation\<close>

record FindingInput =
  fn_id :: string
  fn_cve :: string
  fn_cvss :: f32
  fn_epss :: f32
  fn_kev :: bool
  fn_priority :: string
  fn_score :: f32

record PolicyInput =
  pn_finding :: FindingInput
  pn_namespace :: string
  pn_workload :: string
  pn_labels :: "(string \<times> string) list"

definition policy_input_json :: "PolicyInput \<Rightarrow> json" where
  "policy_input_json i =
     (let f = pn_finding i
      in JObj [(''finding'', JObj [(''id'', JStr (fn_id f)), (''cve'', JStr (fn_cve f)),
                 (''cvss'', json_float (fn_cvss f)), (''epss'', json_float (fn_epss f)),
                 (''kev'', JBool (fn_kev f)), (''priority'', JStr (fn_priority f)),
                 (''score'', json_float (fn_score f))]),
               (''namespace'', JStr (pn_namespace i)), (''workload'', JStr (pn_workload i)),
               (''labels'', JObj (map (\<lambda>(k, v). (k, JStr v)) (pn_labels i)))])"

definition action_of_name :: "string \<Rightarrow> PolicyAction option" where
  "action_of_name s =
     map_of [(''allow'', Allow), (''alert'', Alert), (''block'', Block),
             (''quarantine'', Quarantine), (''audit'', Audit)] s"

text \<open>
  What serde derives: a unit variant is its name, or an object of one member with the name and
  null; a structure is an object with its fields or an array of exactly its fields.
\<close>

fun action_of_json :: "json \<Rightarrow> PolicyAction option" where
  "action_of_json (JStr s) = action_of_name s"
| "action_of_json (JObj [(k, JNull)]) = action_of_name k"
| "action_of_json _ = None"

fun str_of_json :: "json \<Rightarrow> string option" where
  "str_of_json (JStr s) = Some s"
| "str_of_json _ = None"

definition decision_of_fields :: "json option \<Rightarrow> json option \<Rightarrow> json option \<Rightarrow> json option \<Rightarrow> PolicyDecision option" where
  "decision_of_fields a r i n =
     (case (Option.bind a action_of_json, Option.bind r str_of_json, Option.bind i str_of_json,
            Option.bind n str_of_json) of
        (Some a, Some r, Some i, Some n) \<Rightarrow>
          Some \<lparr>pd_action = a, pd_reason = r, pd_rule_id = i, pd_policy_name = n\<rparr>
      | _ \<Rightarrow> None)"

fun decision_of_json :: "json \<Rightarrow> PolicyDecision option" where
  "decision_of_json (JObj ms) =
     decision_of_fields (map_of ms ''action'') (map_of ms ''reason'') (map_of ms ''rule_id'') (map_of ms ''policy_name'')"
| "decision_of_json (JArr [a, r, i, n]) = decision_of_fields (Some a) (Some r) (Some i) (Some n)"
| "decision_of_json _ = None"

text \<open>\<open>Value::get(0)\<close>: the first element of an array.\<close>

fun json_first :: "json \<Rightarrow> json option" where
  "json_first (JArr (x # xs)) = Some x"
| "json_first _ = None"

datatype opa_outcome = SpawnFailed string | WaitFailed string | Exited bool string string

text \<open>
  One run of the subprocess. Its standard input is piped but nothing writes to it, and
  \<open>wait_with_output\<close> closes it: what \<open>opa\<close> reads there is empty.
\<close>

definition evaluate_policy ::
  "(string \<Rightarrow> string \<Rightarrow> opa_outcome) \<Rightarrow> (string \<Rightarrow> string + json) \<Rightarrow> string \<Rightarrow> json \<Rightarrow> string + PolicyDecision option" where
  "evaluate_policy opa parse path input =
     (case opa path '''' of
        SpawnFailed e \<Rightarrow> Inl (''Failed to spawn OPA: '' @ e)
      | WaitFailed e \<Rightarrow> Inl (''OPA execution failed: '' @ e)
      | Exited ok out err \<Rightarrow>
          if \<not> ok then Inl (''OPA error: '' @ err)
          else (case parse out of
                  Inl e \<Rightarrow> Inl (''JSON parse error: '' @ e)
                | Inr v \<Rightarrow>
                    Inr (Option.bind (Option.bind (json_member ''result'' v) json_first) decision_of_json)))"

fun first_decision ::
  "(string \<Rightarrow> string \<Rightarrow> opa_outcome) \<Rightarrow> (string \<Rightarrow> string + json) \<Rightarrow> json \<Rightarrow> PolicyInfo list \<Rightarrow> PolicyDecision option" where
  "first_decision opa parse input [] = None"
| "first_decision opa parse input (p # ps) =
     (if \<not> pi_enabled p then first_decision opa parse input ps
      else (case evaluate_policy opa parse (pi_source_path p) input of
              Inr (Some d) \<Rightarrow> Some d
            | Inr None \<Rightarrow> first_decision opa parse input ps
            | Inl e \<Rightarrow> first_decision opa parse input ps))"

definition pg_evaluate ::
  "(string \<Rightarrow> string \<Rightarrow> opa_outcome) \<Rightarrow> (string \<Rightarrow> string + json) \<Rightarrow> PolicyInput \<Rightarrow> PolicyEngine \<Rightarrow> PolicyDecision option" where
  "pg_evaluate opa parse i e =
     (if pg_policies e = [] then None
      else first_decision opa parse (policy_input_json i) (pg_policies e))"

definition opa_available :: "bool option \<Rightarrow> bool" where
  "opa_available status = (case status of Some ok \<Rightarrow> ok | None \<Rightarrow> False)"

section \<open>Reloading\<close>

text \<open>A file with an extension has a stem, so the unwrap in the loader cannot fail.\<close>

lemma extension_stem: "path_extension p = Some x \<Longrightarrow> file_stem p \<noteq> None"
  by (auto simp: path_extension_def file_stem_def split: option.splits)

definition rego_files :: "dir_entry list \<Rightarrow> (string \<times> (string + string)) list" where
  "rego_files es =
     List.map_filter (\<lambda>d. case d of
       EntryFile p c \<Rightarrow> if path_extension p = Some ''rego'' then Some (p, c) else None
     | EntryError e \<Rightarrow> None) es"

definition readable :: "string \<times> (string + string) \<Rightarrow> bool" where
  "readable f = (case snd f of Inr c \<Rightarrow> True | Inl e \<Rightarrow> False)"

lemma load_policies_effect:
  "\<exists>ps' r'. load_policies ids now es (ps, r) = Some (ps', r')
     \<and> map pi_source_path ps' = map pi_source_path ps @ map fst (filter readable (rego_files es))
     \<and> rr_reloaded r' = rr_reloaded r + length (filter readable (rego_files es))
     \<and> length (rr_errors r') = length (rr_errors r) + length (filter (\<lambda>f. \<not> readable f) (rego_files es))
     \<and> (list_all pi_enabled ps \<longrightarrow> list_all pi_enabled ps')"
proof (induction es arbitrary: ps r)
  case (Cons d es)
  show ?case
  proof (cases d)
    case (EntryFile p c)
    show ?thesis
    proof (cases "path_extension p = Some ''rego''")
      case True
      then obtain n where n: "file_stem p = Some n" using extension_stem by fastforce
      show ?thesis
      proof (cases c)
        case (Inl e)
        from Cons.IH[of ps "r\<lparr>rr_errors := rr_errors r @ [p @ '': '' @ (''Read error: '' @ e)]\<rparr>"] True EntryFile Inl
        show ?thesis by (simp add: load_policy_file_def rego_files_def readable_def List.map_filter_simps)
      next
        case (Inr b)
        obtain i where i: "load_policy_file (ids (length ps)) now p c = Loaded i" "pi_source_path i = p" "pi_enabled i"
          using Inr n by (cases "extract_metadata b ''name''") (auto simp: load_policy_file_def)
        from Cons.IH[of "ps @ [i]" "r\<lparr>rr_reloaded := Suc (rr_reloaded r)\<rparr>"] True EntryFile Inr i
        show ?thesis by (simp add: rego_files_def readable_def List.map_filter_simps)
      qed
    next
      case False
      with Cons.IH[of ps r] EntryFile show ?thesis by (simp add: rego_files_def List.map_filter_simps)
    qed
  next
    case (EntryError e)
    with Cons.IH[of ps r] show ?thesis by (simp add: rego_files_def List.map_filter_simps)
  qed
qed (simp add: rego_files_def List.map_filter_simps)

section \<open>Deciding\<close>

definition decides ::
  "(string \<Rightarrow> string \<Rightarrow> opa_outcome) \<Rightarrow> (string \<Rightarrow> string + json) \<Rightarrow> PolicyInfo \<Rightarrow> PolicyDecision option" where
  "decides opa parse p =
     (if pi_enabled p
      then (case evaluate_policy opa parse (pi_source_path p) JNull of Inr d \<Rightarrow> d | Inl e \<Rightarrow> None) else None)"

lemma evaluate_input: "evaluate_policy opa parse path i = evaluate_policy opa parse path j"
  by (simp add: evaluate_policy_def)

lemma first_decision_list: "first_decision opa parse i ps = (case List.map_filter (decides opa parse) ps of [] \<Rightarrow> None | d # ds \<Rightarrow> Some d)"
proof (induction ps)
  case (Cons p ps)
  then show ?case
    using evaluate_input[of opa parse "pi_source_path p" i JNull]
    by (auto simp: decides_def List.map_filter_simps split: sum.splits option.splits)
qed (simp add: List.map_filter_simps)

text \<open>The documented output of \<open>opa eval --format json\<close>: the values are below \<open>expressions\<close>.\<close>

definition opa_output :: "json \<Rightarrow> bool" where
  "opa_output v \<longleftrightarrow> v = JObj [] \<or> (\<exists>es. v = JObj [(''result'', JArr (map (\<lambda>e. JObj [(''expressions'', e)]) es))])"

lemma opa_output_undecided:
  "opa_output v \<Longrightarrow> Option.bind (Option.bind (json_member ''result'' v) json_first) decision_of_json = None"
  unfolding opa_output_def
  by (elim disjE exE; simp) (case_tac es; simp add: decision_of_fields_def)

section \<open>Metadata\<close>

lemma split_on_line: "c \<notin> set l \<Longrightarrow> split_on c (l @ c # r) = l # split_on c r"
  by (induction l) auto

definition lined :: "string list \<Rightarrow> string" where
  "lined ls = concat (map (\<lambda>l. l @ [CHR 0x0A]) ls)"

lemma split_on_lined:
  "list_all (\<lambda>l. CHR 0x0A \<notin> set l) ls \<Longrightarrow> split_on (CHR 0x0A) (lined ls @ r) = ls @ split_on (CHR 0x0A) r"
  by (induction ls) (auto simp: lined_def split_on_line)

lemma str_lines_lined:
  "list_all (\<lambda>l. CHR 0x0A \<notin> set l) ls \<Longrightarrow> str_lines (lined ls @ r) = map strip_cr ls @ str_lines r"
  by (simp add: str_lines_def Let_def split_on_lined butlast_append)

lemma find_after: "find P xs = None \<Longrightarrow> find P (xs @ ys) = find P ys"
  by (induction xs) (auto split: if_splits)

lemma first_mapped:
  "(case List.map_filter f xs of [] \<Rightarrow> None | d # ds \<Rightarrow> Some d) = Some d \<longleftrightarrow>
   (\<exists>ps p qs. xs = ps @ p # qs \<and> list_all (\<lambda>q. f q = None) ps \<and> f p = Some d)"
  (is "?l xs \<longleftrightarrow> ?r xs")
proof (induction xs)
  case (Cons x xs)
  show ?case
  proof (cases "f x")
    case None
    have "?r (x # xs) \<longleftrightarrow> ?r xs"
    proof
      assume "?r (x # xs)"
      then obtain ps p qs where h: "x # xs = ps @ p # qs" "list_all (\<lambda>q. f q = None) ps" "f p = Some d" by blast
      then obtain ps' where "ps = x # ps'" using None by (cases ps) auto
      with h show "?r xs" by auto
    next
      assume "?r xs"
      then obtain ps p qs where "xs = ps @ p # qs" "list_all (\<lambda>q. f q = None) ps" "f p = Some d" by blast
      with None show "?r (x # xs)" by (intro exI[of _ "x # ps"]) auto
    qed
    with Cons None show ?thesis by (simp add: List.map_filter_simps)
  next
    case (Some c)
    have "?r (x # xs) \<longleftrightarrow> c = d"
    proof
      assume "?r (x # xs)"
      then obtain ps p qs where "x # xs = ps @ p # qs" "list_all (\<lambda>q. f q = None) ps" "f p = Some d" by blast
      with Some show "c = d" by (cases ps) auto
    next
      assume "c = d"
      with Some show "?r (x # xs)" by (intro exI[of _ "[]"]) auto
    qed
    with Some show ?thesis by (simp add: List.map_filter_simps)
  qed
qed (simp add: List.map_filter_simps)

section \<open>Properties\<close>

text \<open>A reload never panics. It loads exactly the readable Rego files in the order of the directory, all
  enabled, and reports one error for each unreadable one; other files do not count.\<close>

theorem reload_effect:
  "\<exists>r e'. pg_reload ids now (DirEntries es) e = Some (r, e')
     \<and> map pi_source_path (pg_policies e') = map fst (filter readable (rego_files es))
     \<and> list_all pi_enabled (pg_policies e')
     \<and> rr_reloaded r = length (pg_policies e')
     \<and> rr_reloaded r + length (rr_errors r) = length (rego_files es)"
proof -
  obtain ps r where l: "load_policies ids now es ([], \<lparr>rr_reloaded = 0, rr_errors = []\<rparr>) = Some (ps, r)"
    "map pi_source_path ps = map fst (filter readable (rego_files es))"
    "rr_reloaded r = length (filter readable (rego_files es))"
    "length (rr_errors r) = length (filter (\<lambda>f. \<not> readable f) (rego_files es))" "list_all pi_enabled ps"
    using load_policies_effect[of ids now es "[]" "\<lparr>rr_reloaded = 0, rr_errors = []\<rparr>"] by auto
  moreover have "length ps = length (filter readable (rego_files es))"
    using l(2) by (metis length_map)
  ultimately show ?thesis
    using sum_length_filter_compl[of readable "rego_files es"] by (simp add: pg_reload_def)
qed

text \<open>The decision is that of the first enabled policy, in loading order, for which the subprocess gives
  one; a policy that fails to run is passed over.\<close>

theorem first_policy_decides:
  "pg_evaluate opa parse i e = Some d \<longleftrightarrow>
     (\<exists>ps p qs. pg_policies e = ps @ p # qs \<and> list_all (\<lambda>q. decides opa parse q = None) ps
        \<and> decides opa parse p = Some d)"
  by (simp add: pg_evaluate_def first_decision_list first_mapped)

text \<open>The finding never reaches the policies: its JSON form is not written to the subprocess, so whatever is
  known of two findings the decisions on them are the same.\<close>

theorem decisions_ignore_the_finding:
  "pg_evaluate opa parse i e = pg_evaluate opa parse j e"
  by (simp add: pg_evaluate_def first_decision_list)

text \<open>What the subprocess prints puts the value of a decision below its expressions, where the engine does
  not look: no policy ever decides anything.\<close>

theorem opa_never_decides:
  assumes "\<And>path out err v. opa path '''' = Exited True out err \<Longrightarrow> parse out = Inr v \<Longrightarrow> opa_output v"
  shows "pg_evaluate opa parse i e = None"
proof -
  have "decides opa parse p = None" for p
    using assms opa_output_undecided
    by (auto simp: decides_def evaluate_policy_def split: opa_outcome.splits sum.splits)
  then show ?thesis by (simp add: pg_evaluate_def first_decision_list List.map_filter_def)
qed

theorem opa_never_decides_witness:
  "\<forall>i p. pg_evaluate (\<lambda>p i. Exited True ''out'' [])
     (\<lambda>t. Inr (JObj [(''result'', JArr [JObj [(''expressions'', JArr [JObj [(''value'', JStr ''block'')]])]])]))
     i (PolicyEngine_new\<lparr>pg_policies := [p]\<rparr>) = None"
proof (intro allI, rule opa_never_decides)
  have "opa_output (JObj [(''result'', JArr (map (\<lambda>e. JObj [(''expressions'', e)]) [JArr [JObj [(''value'', JStr ''block'')]]]))])"
    unfolding opa_output_def by blast
  then show "opa_output v" if "Inr (JObj [(''result'', JArr [JObj [(''expressions'', JArr [JObj [(''value'', JStr ''block'')]])]])]) = Inr v"
    for v using that by simp
qed

text \<open>The value of a key is what follows the colon of the first comment line with its tag, without the
  surrounding white space, whatever comes after that line.\<close>

theorem metadata_of_first_tag:
  assumes "list_all (\<lambda>l. CHR 0x0A \<notin> set l \<and> \<not> starts_with (str_trim_start (strip_cr l)) (''# @'' @ key @ '':'')) ls"
    "CHR 0x0A \<notin> set key" "CHR '':'' \<notin> set key" "CHR 0x0A \<notin> set v" "CHR 0x0D \<notin> set v"
  shows "extract_metadata (lined (ls @ [''# @'' @ key @ '':'' @ v]) @ rest) key = Some (str_trim v)"
proof -
  let ?t = "''# @'' @ key @ '':'' @ v"
  have "list_all (\<lambda>l. CHR 0x0A \<notin> set l) (ls @ [?t])"
    using assms by (auto simp: list_all_iff)
  then have "str_lines (lined (ls @ [?t]) @ rest) = map strip_cr ls @ strip_cr ?t # str_lines rest"
    by (simp add: str_lines_lined)
  moreover have "v \<noteq> [] \<Longrightarrow> last v \<noteq> CHR 0x0D" using assms(5) by (metis last_in_set)
  then have "strip_cr ?t = ?t" by (cases "v = []") (auto simp: strip_cr_def)
  moreover have "str_trim_start ?t = ?t"
    by (simp add: str_trim_start_def trim_front.simps white_space_def)
  moreover have "find (\<lambda>l. starts_with (str_trim_start l) (''# @'' @ key @ '':'')) (map strip_cr ls) = None"
    using assms(1) by (auto simp: find_None_iff list_all_iff)
  ultimately have "extract_metadata (lined (ls @ [?t]) @ rest) key = map_option (\<lambda>(_, v). str_trim v) (split_once (CHR '':'') ?t)"
    by (simp add: extract_metadata_def find_after)
  then show ?thesis using assms(3) by (simp add: split_once_def takeWhile_append dropWhile_append)
qed

theorem metadata_of_first_tag_witness:
  "extract_metadata (lined [''package scanner'', ''# @name: kev''] @ ''# @name: x'') ''name'' = Some (str_trim '' kev'')"
proof -
  have "\<not> starts_with (str_trim_start (strip_cr ''package scanner'')) (''# @'' @ ''name'' @ '':'')" by code_simp
  then show ?thesis using metadata_of_first_tag[of "''name''" "[''package scanner'']" "'' kev''" "''# @name: x''"] by simp
qed

end
