(* ===== verification/Audit_Trail.thy ===== *)
theory Audit_Trail
  imports Json Prelude
begin

text \<open>
  \<open>audit_trail.rs\<close>: audit events appended as lines to one file per day, and the removal of
  files past their retention. The directory is the list of its files with their contents. The
  outcomes of the file operations, the JSON writer and the calendar format of an instant are
  arguments; \<open>date_laws\<close> states what the format \<open>%Y-%m-%d\<close> gives for the years 0 to 9999.
\<close>

section \<open>Events\<close>

datatype AuditEventType =
    FindingGenerated | EnforcementTaken | PolicyDecided | IntelRefresh | ConfigurationChange
  | ScanTriggered | WebhookSent | SystemStart | SystemStop

fun event_type_name :: "AuditEventType \<Rightarrow> string" where
  "event_type_name FindingGenerated = ''finding_generated''"
| "event_type_name EnforcementTaken = ''enforcement_action''"
| "event_type_name PolicyDecided = ''policy_decision''"
| "event_type_name IntelRefresh = ''intel_refresh''"
| "event_type_name ConfigurationChange = ''configuration_change''"
| "event_type_name ScanTriggered = ''scan_triggered''"
| "event_type_name WebhookSent = ''webhook_sent''"
| "event_type_name SystemStart = ''system_start''"
| "event_type_name SystemStop = ''system_stop''"

datatype AuditSeverity = Info | Warning | Critical

fun audit_severity_name :: "AuditSeverity \<Rightarrow> string" where
  "audit_severity_name Info = ''info''"
| "audit_severity_name Warning = ''warning''"
| "audit_severity_name Critical = ''critical''"

text \<open>Instants are nanoseconds since the epoch.\<close>

record AuditEvent =
  ae_id :: string
  ae_timestamp :: int
  ae_event_type :: AuditEventType
  ae_severity :: AuditSeverity
  ae_actor :: string
  ae_resource :: string
  ae_action :: string
  ae_outcome :: string
  ae_metadata :: "json option"
  ae_controls :: "string list"

definition audit_json :: "(int \<Rightarrow> string) \<Rightarrow> AuditEvent \<Rightarrow> json" where
  "audit_json rfc e =
     JObj ([(''id'', JStr (ae_id e)), (''timestamp'', JStr (rfc (ae_timestamp e))),
            (''event_type'', JStr (event_type_name (ae_event_type e))),
            (''severity'', JStr (audit_severity_name (ae_severity e))), (''actor'', JStr (ae_actor e)),
            (''resource'', JStr (ae_resource e)), (''action'', JStr (ae_action e)),
            (''outcome'', JStr (ae_outcome e))]
           @ (case ae_metadata e of None \<Rightarrow> [] | Some m \<Rightarrow> [(''metadata'', m)])
           @ (if ae_controls e = [] then [] else [(''controls'', json_strs (ae_controls e))]))"

definition finding_event :: "string \<Rightarrow> int \<Rightarrow> string \<Rightarrow> string \<Rightarrow> string \<Rightarrow> string \<Rightarrow> string \<Rightarrow> AuditEvent" where
  "finding_event uuid now fid cve prio ns wl =
     \<lparr>ae_id = uuid, ae_timestamp = now, ae_event_type = FindingGenerated,
      ae_severity = (if prio = ''Critical'' then Critical else if prio = ''High'' then Warning else Info),
      ae_actor = ''system'', ae_resource = ''finding/'' @ fid, ae_action = ''generate'',
      ae_outcome = ''success'',
      ae_metadata = Some (JObj [(''cve'', JStr cve), (''priority'', JStr prio),
                                (''namespace'', JStr ns), (''workload'', JStr wl)]),
      ae_controls = [''CC7.1'', ''A.12.6.1'']\<rparr>"

definition enforcement_event :: "string \<Rightarrow> int \<Rightarrow> string \<Rightarrow> string \<Rightarrow> string \<Rightarrow> string \<Rightarrow> AuditEvent" where
  "enforcement_event uuid now fid action target result =
     \<lparr>ae_id = uuid, ae_timestamp = now, ae_event_type = EnforcementTaken,
      ae_severity = Warning, ae_actor = ''system'', ae_resource = ''finding/'' @ fid,
      ae_action = action, ae_outcome = result,
      ae_metadata = Some (JObj [(''target'', JStr target)]),
      ae_controls = [''CC6.1'', ''CC6.6'']\<rparr>"

definition SOC2_CONTROLS :: "(string \<times> string) list" where
  "SOC2_CONTROLS =
     [(''CC7.1'', ''Vulnerability Management - Identify and manage vulnerabilities''),
      (''CC7.2'', ''Monitoring - Detect and monitor security events''),
      (''CC6.1'', ''Logical Access - Implement logical access security''),
      (''CC6.6'', ''Boundary Protection - Restrict access at system boundaries''),
      (''CC7.3'', ''Incident Response - Evaluate and act on security events'')]"

definition ISO27001_CONTROLS :: "(string \<times> string) list" where
  "ISO27001_CONTROLS =
     [(''A.12.6.1'', ''Vulnerability Management''), (''A.12.4.1'', ''Event Logging''),
      (''A.12.4.3'', ''Administrator and Operator Logs''), (''A.14.2.8'', ''System Security Testing''),
      (''A.16.1.4'', ''Assessment of and Decision on Security Events'')]"

section \<open>The logger\<close>

record AuditLogger =
  al_output_dir :: string
  al_retention_days :: u32
  al_enabled :: bool

definition AuditLogger_new :: "string \<Rightarrow> u32 \<Rightarrow> AuditLogger" where
  "AuditLogger_new dir days = \<lparr>al_output_dir = dir, al_retention_days = days, al_enabled = True\<rparr>"

definition AuditLogger_disabled :: AuditLogger where
  "AuditLogger_disabled = \<lparr>al_output_dir = [], al_retention_days = 0, al_enabled = False\<rparr>"

type_synonym files = "(string \<times> string) list"

text \<open>
  The outcomes of the file operations of one event: whether the directory could be made and the
  file opened, and for each of the two writes how many bytes it wrote when it failed.
\<close>

record log_io =
  io_mkdir :: bool
  io_open :: bool
  io_write :: "nat option"
  io_newline :: "nat option"

definition io_fine :: log_io where
  "io_fine = \<lparr>io_mkdir = True, io_open = True, io_write = None, io_newline = None\<rparr>"

definition written :: "nat option \<Rightarrow> string \<Rightarrow> string" where
  "written failed s = (case failed of None \<Rightarrow> s | Some n \<Rightarrow> take n s)"

definition audit_file :: "(int \<Rightarrow> string) \<Rightarrow> int \<Rightarrow> string" where
  "audit_file ymd now = ''audit-'' @ ymd now @ ''.jsonl''"

definition al_log ::
  "(int \<Rightarrow> string) \<Rightarrow> (AuditEvent \<Rightarrow> string option) \<Rightarrow> log_io \<Rightarrow> AuditEvent \<Rightarrow> AuditLogger \<Rightarrow> files \<Rightarrow> files" where
  "al_log ymd to_text io e l fs =
     (if \<not> al_enabled l then fs
      else if \<not> io_mkdir io then fs
      else (case to_text e of
              None \<Rightarrow> fs
            | Some json \<Rightarrow>
                if io_open io
                then alist_modify (audit_file ymd (ae_timestamp e)) []
                       (\<lambda>c. c @ written (io_write io) json @ written (io_newline io) [CHR 0x0A]) fs
                else fs))"

definition DAY_NS :: int where
  "DAY_NS = 86400 * 10 ^ 9"

text \<open>The day of a file name, None for a file that is not an audit file.\<close>

definition file_date :: "string \<Rightarrow> string option" where
  "file_date name =
     (if starts_with name ''audit-'' \<and> ends_with name ''.jsonl''
      then Some (trim_end_matches ''.jsonl'' (trim_start_matches ''audit-'' name)) else None)"

definition expired :: "string \<Rightarrow> string \<Rightarrow> bool" where
  "expired cutoff name = (case file_date name of None \<Rightarrow> False | Some d \<Rightarrow> d < cutoff)"

text \<open>
  The listing of the directory may fail, as may the removal of a file. An instant before the
  first one the library represents is a panic, None.
\<close>

definition al_cleanup ::
  "(int \<Rightarrow> string) \<Rightarrow> int \<Rightarrow> bool \<Rightarrow> (string \<Rightarrow> bool) \<Rightarrow> int \<Rightarrow> AuditLogger \<Rightarrow> files \<Rightarrow> files option" where
  "al_cleanup ymd first_instant listed removed now l fs =
     (if \<not> al_enabled l then Some fs
      else let cutoff = now - uint (al_retention_days l) * DAY_NS
           in if cutoff < first_instant then None
              else Some (if listed
                         then filter (\<lambda>(n, c). \<not> (expired (ymd cutoff) n \<and> removed n)) fs else fs))"

section \<open>Dates\<close>

text \<open>
  The format is made of digits and hyphens, and for instants up to \<open>hi\<close> from \<open>lo\<close> on the
  order of the strings is the order of the days.
\<close>

definition date_laws :: "int \<Rightarrow> int \<Rightarrow> (int \<Rightarrow> string) \<Rightarrow> bool" where
  "date_laws lo hi ymd \<longleftrightarrow>
     (\<forall>t. set (ymd t) \<inter> {CHR ''a'', CHR ''l''} = {})
     \<and> (\<forall>t u. lo \<le> t \<longrightarrow> t \<le> hi \<longrightarrow> lo \<le> u \<longrightarrow> u \<le> hi \<longrightarrow>
          (ymd t < ymd u \<longleftrightarrow> t div DAY_NS < u div DAY_NS)
          \<and> (ymd t = ymd u \<longleftrightarrow> t div DAY_NS = u div DAY_NS))"

text \<open>A format that counts the days in strokes satisfies the laws from the epoch on.\<close>

definition strokes :: "int \<Rightarrow> string" where
  "strokes t = replicate (nat (t div DAY_NS)) (CHR ''-'')"

lemma replicate_less: "replicate m c < replicate n (c :: char) \<longleftrightarrow> m < n"
proof (induction m arbitrary: n)
  case 0
  then show ?case by (cases n) auto
next
  case (Suc m)
  then show ?case by (cases n) auto
qed

lemma strokes_laws: "date_laws 0 hi strokes"
proof -
  have c: "set (strokes t) \<inter> {CHR ''a'', CHR ''l''} = {}" for t
    by (simp add: strokes_def set_replicate_conv_if)
  have d: "0 \<le> t \<Longrightarrow> 0 \<le> t div DAY_NS" for t
    by (simp add: DAY_NS_def pos_imp_zdiv_nonneg_iff)
  have l: "strokes t < strokes u \<longleftrightarrow> t div DAY_NS < u div DAY_NS"
    and q: "strokes t = strokes u \<longleftrightarrow> t div DAY_NS = u div DAY_NS" if "0 \<le> t" "0 \<le> u" for t u
    using d[OF that(1)] d[OF that(2)] unfolding strokes_def replicate_less replicate_eq_replicate by arith+
  show ?thesis unfolding date_laws_def by (intro conjI allI impI c l q)
qed

lemma date_of_file:
  assumes "date_laws lo hi ymd"
  shows "file_date (audit_file ymd t) = Some (ymd t)"
proof -
  have n: "CHR ''a'' \<notin> set (ymd t)" "CHR ''l'' \<notin> set (ymd t)"
    using assms by (auto simp: date_laws_def)
  have "\<not> prefix ''audit-'' (ymd t @ ''.jsonl'')"
    using n(1) by (cases "ymd t") (auto simp: Cons_prefix_Cons)
  then have s: "trim_start_matches ''audit-'' (audit_file ymd t) = ymd t @ ''.jsonl''"
    by (subst trim_start_matches.simps) (simp add: audit_file_def trim_start_id)
  have "\<not> prefix ''lnosj.'' (rev (ymd t))"
    using n(2) by (cases "rev (ymd t)") (auto simp: Cons_prefix_Cons dest: arg_cong[where f = set])
  then have "trim_start_matches ''lnosj.'' (''lnosj.'' @ rev (ymd t)) = rev (ymd t)"
    by (subst trim_start_matches.simps) (simp add: trim_start_id)
  then have "trim_end_matches ''.jsonl'' (ymd t @ ''.jsonl'') = ymd t"
    by (simp add: trim_end_matches_def)
  with s show ?thesis
    by (simp add: file_date_def audit_file_def suffix_def)
qed

section \<open>Contents of a day\<close>

definition contents :: "string \<Rightarrow> files \<Rightarrow> string" where
  "contents n fs = (case map_of fs n of None \<Rightarrow> [] | Some c \<Rightarrow> c)"

definition log_all ::
  "(int \<Rightarrow> string) \<Rightarrow> (AuditEvent \<Rightarrow> string option) \<Rightarrow> AuditLogger \<Rightarrow> (log_io \<times> AuditEvent) list \<Rightarrow> files \<Rightarrow> files" where
  "log_all ymd to_text l es fs = foldl (\<lambda>fs (io, e). al_log ymd to_text io e l fs) fs es"

lemma audit_file_inject [simp]: "audit_file ymd t = audit_file ymd u \<longleftrightarrow> ymd t = ymd u"
  by (simp add: audit_file_def)

lemma log_contents:
  "al_enabled l \<Longrightarrow> to_text e = Some s \<Longrightarrow>
   contents (audit_file ymd t) (al_log ymd to_text io_fine e l fs) =
     contents (audit_file ymd t) fs @ (if ymd (ae_timestamp e) = ymd t then s @ [CHR 0x0A] else [])"
  using audit_file_inject[of ymd "ae_timestamp e" t]
  by (cases "ymd (ae_timestamp e) = ymd t") (auto simp: contents_def al_log_def io_fine_def written_def audit_file_def)

lemma log_all_contents:
  "al_enabled l \<Longrightarrow> list_all (\<lambda>e. to_text e = Some (tx e)) es \<Longrightarrow>
   contents (audit_file ymd t) (log_all ymd to_text l (map (Pair io_fine) es) fs) =
     contents (audit_file ymd t) fs
     @ concat (map (\<lambda>e. tx e @ [CHR 0x0A]) (filter (\<lambda>e. ymd (ae_timestamp e) = ymd t) es))"
  unfolding log_all_def
  by (induction es arbitrary: fs) (auto simp: log_contents)

lemma split_lines:
  "list_all (\<lambda>w. c \<notin> set w) ws \<Longrightarrow> split_on c (concat (map (\<lambda>w. w @ [c]) ws)) = ws @ [[]]"
proof (induction ws)
  case (Cons w ws)
  have "c \<notin> set v \<Longrightarrow> split_on c (v @ c # r) = v # split_on c r" for v r
    by (induction v) auto
  with Cons show ?case by simp
qed simp

section \<open>Properties\<close>

text \<open>C31. When nothing fails, the file of a day holds exactly the events logged with a timestamp of that day,
  one per line in the order they were logged: splitting the file gives them back.\<close>

theorem day_file_holds_its_events:
  assumes "al_enabled l" "list_all (\<lambda>e. to_text e = Some (tx e) \<and> CHR 0x0A \<notin> set (tx e)) es"
  shows "split_on (CHR 0x0A) (contents (audit_file ymd t) (log_all ymd to_text l (map (Pair io_fine) es) [])) =
    map tx (filter (\<lambda>e. ymd (ae_timestamp e) = ymd t) es) @ [[]]"
proof -
  let ?d = "filter (\<lambda>e. ymd (ae_timestamp e) = ymd t) es"
  have "list_all (\<lambda>e. to_text e = Some (tx e)) es" "list_all (\<lambda>w. CHR 0x0A \<notin> set w) (map tx ?d)"
    using assms(2) by (auto simp: list_all_iff)
  then show ?thesis
    using log_all_contents[OF assms(1), of to_text tx es ymd t "[]"] split_lines[of "CHR 0x0A" "map tx ?d"]
    by (simp add: contents_def comp_def)
qed

theorem day_file_holds_its_events_witness:
  "split_on (CHR 0x0A) (contents (audit_file strokes 5)
     (log_all strokes (\<lambda>e. Some (ae_id e)) (AuditLogger_new ''/var'' 90)
       (map (Pair io_fine) [finding_event ''a'' 0 ''f'' ''c'' ''High'' ''n'' ''w'', enforcement_event ''b'' 1 ''f'' ''x'' ''t'' ''r'']) []))
   = [''a'', ''b'', []]"
proof -
  have "strokes 0 = strokes 5" "strokes 1 = strokes 5" by (simp_all add: strokes_def DAY_NS_def)
  then show ?thesis
    using day_file_holds_its_events[of "AuditLogger_new ''/var'' 90" "\<lambda>e. Some (ae_id e)" ae_id
      "[finding_event ''a'' 0 ''f'' ''c'' ''High'' ''n'' ''w'', enforcement_event ''b'' 1 ''f'' ''x'' ''t'' ''r'']" strokes 5]
    by (simp add: AuditLogger_new_def finding_event_def enforcement_event_def)
qed

text \<open>A cleanup that meets no error removes an audit file exactly when its day lies before the day of the
  cutoff, and leaves every file that is not an audit file.\<close>

theorem cleanup_removes_expired_days:
  assumes "date_laws lo hi ymd" "al_enabled l" "first_instant \<le> lo" "now \<le> hi"
    "lo \<le> now - uint (al_retention_days l) * DAY_NS" "distinct (map fst fs)"
  shows "\<exists>fs'. al_cleanup ymd first_instant True (\<lambda>n. True) now l fs = Some fs'
    \<and> (\<forall>t. lo \<le> t \<and> t \<le> hi \<longrightarrow> map_of fs' (audit_file ymd t) =
          (if (now - uint (al_retention_days l) * DAY_NS) div DAY_NS \<le> t div DAY_NS
           then map_of fs (audit_file ymd t) else None))
    \<and> (\<forall>n. file_date n = None \<longrightarrow> map_of fs' n = map_of fs n)"
proof -
  let ?c = "now - uint (al_retention_days l) * DAY_NS"
  let ?fs = "filter (\<lambda>(n, c). \<not> expired (ymd ?c) n) fs"
  have "0 \<le> uint (al_retention_days l) * DAY_NS" by (simp add: DAY_NS_def)
  then have c: "lo \<le> ?c" "?c \<le> hi" using assms(4,5) by linarith+
  have m: "map_of ?fs n = (if expired (ymd ?c) n then None else map_of fs n)" for n
    using assms(6) by (induction fs) (auto simp: map_of_eq_None_iff image_iff)
  have e: "expired (ymd ?c) (audit_file ymd t) \<longleftrightarrow> \<not> ?c div DAY_NS \<le> t div DAY_NS" if "lo \<le> t" "t \<le> hi" for t
    using assms(1) c that by (auto simp: expired_def date_of_file[OF assms(1)] date_laws_def)
  have "al_cleanup ymd first_instant True (\<lambda>n. True) now l fs = Some ?fs"
    using assms(2,3) c by (simp add: al_cleanup_def Let_def)
  with m e show ?thesis by (auto simp: expired_def)
qed

theorem cleanup_removes_expired_days_witness:
  "\<exists>fs'. al_cleanup strokes 0 True (\<lambda>n. True) (10 * DAY_NS) (AuditLogger_new ''/var'' 2)
       [(audit_file strokes (7 * DAY_NS), ''x''), (audit_file strokes (8 * DAY_NS), ''y''), (''notes'', ''z'')] = Some fs'
     \<and> map_of fs' ''notes'' = Some ''z''"
proof -
  let ?fs = "[(audit_file strokes (7 * DAY_NS), ''x''), (audit_file strokes (8 * DAY_NS), ''y''), (''notes'', ''z'')]"
  have a: "audit_file strokes t \<noteq> ''notes''" for t by (simp add: audit_file_def)
  have "strokes (7 * DAY_NS) \<noteq> strokes (8 * DAY_NS)" by (simp add: strokes_def DAY_NS_def)
  then have d: "distinct (map fst ?fs)" using a by simp
  have n: "file_date ''notes'' = None" by code_simp
  have e: "al_enabled (AuditLogger_new ''/var'' 2)" by (simp add: AuditLogger_new_def)
  have "0 \<le> 10 * DAY_NS - uint (al_retention_days (AuditLogger_new ''/var'' 2)) * DAY_NS"
    by (simp add: AuditLogger_new_def DAY_NS_def)
  from cleanup_removes_expired_days[OF strokes_laws e order_refl order_refl this d]
  obtain fs' where "al_cleanup strokes 0 True (\<lambda>n. True) (10 * DAY_NS) (AuditLogger_new ''/var'' 2) ?fs = Some fs'"
    "map_of fs' ''notes'' = map_of ?fs ''notes''"
    using n by blast
  moreover have "map_of ?fs ''notes'' = Some ''z''" using a[of "7 * DAY_NS"] a[of "8 * DAY_NS"] by simp
  ultimately show ?thesis by metis
qed

text \<open>A write of the line end that fails joins two events: the next one of the day continues the line, and
  no reader of the file sees either of them.\<close>

theorem lost_line_end_joins_events:
  assumes "to_text e = Some s" "to_text f = Some r" "CHR 0x0A \<notin> set (s @ r)"
    "ymd (ae_timestamp e) = ymd (ae_timestamp f)"
  shows "split_on (CHR 0x0A) (contents (audit_file ymd (ae_timestamp f))
      (log_all ymd to_text (AuditLogger_new dir days) [(io_fine\<lparr>io_newline := Some 0\<rparr>, e), (io_fine, f)] []))
    = [s @ r, []]"
proof -
  have "contents (audit_file ymd (ae_timestamp f))
      (log_all ymd to_text (AuditLogger_new dir days) [(io_fine\<lparr>io_newline := Some 0\<rparr>, e), (io_fine, f)] []) = (s @ r) @ [CHR 0x0A]"
    using assms by (simp add: log_all_def al_log_def AuditLogger_new_def io_fine_def written_def contents_def)
  then show ?thesis using split_lines[of "CHR 0x0A" "[s @ r]"] assms(3) by simp
qed

theorem lost_line_end_joins_events_witness:
  "split_on (CHR 0x0A) (contents (audit_file strokes 0)
     (log_all strokes (\<lambda>e. Some (ae_id e)) (AuditLogger_new ''/var'' 90)
       [(io_fine\<lparr>io_newline := Some 0\<rparr>, finding_event ''a'' 0 ''f'' ''c'' ''High'' ''n'' ''w''),
        (io_fine, finding_event ''b'' 0 ''f'' ''c'' ''High'' ''n'' ''w'')] [])) = [''ab'', []]"
  using lost_line_end_joins_events[of "\<lambda>e. Some (ae_id e)" "finding_event ''a'' 0 ''f'' ''c'' ''High'' ''n'' ''w''" "''a''"
    "finding_event ''b'' 0 ''f'' ''c'' ''High'' ''n'' ''w''" "''b''" strokes "''/var''" 90]
  by (simp add: finding_event_def)

end
