(* ===== verification/Socket_Addr.thy ===== *)
theory Socket_Addr
  imports Prelude
begin

text \<open>
  The recogniser behind \<open>str::parse::<SocketAddr>\<close>: the parsers of \<open>std::net\<close>, each taking
  a string to what is left of it, None when it does not match. Only whether a text parses is
  used, so the numbers are checked for their range and not kept.
\<close>

definition digit_value :: "char \<Rightarrow> int option" where
  "digit_value c =
     (let n = (of_char c :: int)
      in if 48 \<le> n \<and> n \<le> 57 then Some (n - 48)
         else if 65 \<le> n \<and> n \<le> 70 then Some (n - 55)
         else if 97 \<le> n \<and> n \<le> 102 then Some (n - 87) else None)"

definition is_radix :: "int \<Rightarrow> char \<Rightarrow> bool" where
  "is_radix radix c = (case digit_value c of Some d \<Rightarrow> d < radix | None \<Rightarrow> False)"

definition number_of :: "int \<Rightarrow> string \<Rightarrow> int" where
  "number_of radix s = foldl (\<lambda>a c. a * radix + (case digit_value c of Some d \<Rightarrow> d | None \<Rightarrow> 0)) 0 s"

definition read_char :: "char \<Rightarrow> string \<Rightarrow> string option" where
  "read_char c s = (case s of x # r \<Rightarrow> if x = c then Some r else None | [] \<Rightarrow> None)"

text \<open>
  \<open>read_number\<close>: all digits at the front, at most \<open>max_digits\<close> of them when that is given,
  with a value below \<open>bound\<close>; a leading zero may be forbidden.
\<close>

definition read_number :: "int \<Rightarrow> nat option \<Rightarrow> bool \<Rightarrow> int \<Rightarrow> string \<Rightarrow> string option" where
  "read_number radix max_digits zero_prefix bound s =
     (let ds = takeWhile (is_radix radix) s
      in if ds = [] then None
         else if (case max_digits of Some k \<Rightarrow> k < length ds | None \<Rightarrow> False) then None
         else if bound \<le> number_of radix ds then None
         else if \<not> zero_prefix \<and> hd ds = CHR ''0'' \<and> 1 < length ds then None
         else Some (dropWhile (is_radix radix) s))"

definition read_octet :: "string \<Rightarrow> string option" where
  "read_octet = read_number 10 (Some 3) False 256"

definition read_ipv4 :: "string \<Rightarrow> string option" where
  "read_ipv4 s =
     (let dot = (\<lambda>r. Option.bind (read_char (CHR ''.'') r) read_octet)
      in Option.bind (Option.bind (Option.bind (read_octet s) dot) dot) dot)"

definition read_port :: "string \<Rightarrow> string option" where
  "read_port s = Option.bind (read_char (CHR '':'') s) (read_number 10 None True 65536)"

definition read_socket_v4 :: "string \<Rightarrow> string option" where
  "read_socket_v4 s = Option.bind (read_ipv4 s) read_port"

text \<open>
  \<open>read_groups\<close>: up to \<open>limit\<close> groups from group \<open>i\<close> on, the number read, whether they end
  in an embedded IPv4 address, and the rest.
\<close>

function read_groups :: "nat \<Rightarrow> nat \<Rightarrow> string \<Rightarrow> nat \<times> bool \<times> string" where
  "read_groups limit i s =
     (if limit \<le> i then (limit, False, s)
      else let sep = (\<lambda>r. if i = 0 then Some r else read_char (CHR '':'') r)
           in case (if i + 1 < limit then Option.bind (sep s) read_ipv4 else None) of
                Some r \<Rightarrow> (i + 2, True, r)
              | None \<Rightarrow>
                  (case Option.bind (sep s) (read_number 16 (Some 4) True 65536) of
                     Some r \<Rightarrow> read_groups limit (Suc i) r
                   | None \<Rightarrow> (i, False, s)))"
  by pat_completeness auto
termination
  by (relation "measure (\<lambda>(limit, i, s). limit - i)") auto

declare read_groups.simps [simp del]

definition read_ipv6 :: "string \<Rightarrow> string option" where
  "read_ipv6 s =
     (let (n, v4, r) = read_groups 8 0 s
      in if n = 8 then Some r
         else if v4 then None
         else Option.bind (Option.bind (read_char (CHR '':'') r) (read_char (CHR '':'')))
                (\<lambda>r. Some (snd (snd (read_groups (8 - (n + 1)) 0 r)))))"

definition read_scope :: "string \<Rightarrow> string" where
  "read_scope s =
     (case Option.bind (read_char (CHR ''%'') s) (read_number 10 None True (2 ^ 32)) of
        Some r \<Rightarrow> r | None \<Rightarrow> s)"

definition read_socket_v6 :: "string \<Rightarrow> string option" where
  "read_socket_v6 s =
     Option.bind (Option.bind (read_char (CHR ''['') s) read_ipv6)
       (\<lambda>r. Option.bind (read_char (CHR '']'') (read_scope r)) read_port)"

definition is_socket_addr :: "string \<Rightarrow> bool" where
  "is_socket_addr s \<longleftrightarrow>
     (case read_socket_v4 s of Some r \<Rightarrow> r = [] | None \<Rightarrow>
        (case read_socket_v6 s of Some r \<Rightarrow> r = [] | None \<Rightarrow> False))"

lemma socket_addr_examples:
  "is_socket_addr ''0.0.0.0:9898''" "is_socket_addr ''[::1]:80''" "is_socket_addr ''[::ffff:1.2.3.4]:080''"
  "is_socket_addr ''[fe80::1%2]:1''" "\<not> is_socket_addr ''localhost:9898''" "\<not> is_socket_addr ''0.0.0.0''"
  "\<not> is_socket_addr ''256.0.0.1:1''" "\<not> is_socket_addr ''1.2.3.04:1''" "\<not> is_socket_addr ''1.2.3.4:65536''"
  "\<not> is_socket_addr '':9898''" "\<not> is_socket_addr ''[1:2:3:4:5:6:7:8:9]:1''"
  by code_simp+

end
