(* ===== verification/App_Config.thy ===== *)
theory App_Config
  imports Socket_Addr Risk_Engine Enforcement_Controller Webhook_Export
begin

text \<open>
  \<open>config.rs\<close>: the configuration of the agent, its defaults, the sources it is loaded from
  and its validation. Deserialising the merged sources is the work of the crates config and
  serde, an argument; of them only the rule for absent fields is used.
\<close>

section \<open>Configuration\<close>

record IntelConfig =
  ic_kev_url :: string
  ic_epss_url :: string
  ic_refresh_interval_secs :: u64

record RuntimeConfig =
  ru_node_name :: string
  ru_sbom_dir :: string
  ru_seccomp_output_dir :: string

text \<open>The section \<open>export\<close>; one webhook's settings are an \<open>ExportConfig\<close> of Webhook_Export.\<close>

record FileExportConfig =
  fx_enabled :: bool
  fx_format :: string
  fx_output_path :: string
  fx_rotate_interval_secs :: u64
  fx_compress :: bool
  fx_endpoints :: "(string \<times> ExportConfig) list"

record AppConfig =
  ap_bpf_object_path :: string
  ap_metrics_bind_addr :: string
  ap_intel :: IntelConfig
  ap_risk :: RiskConfig
  ap_runtime :: RuntimeConfig
  ap_remediator :: RemediatorConfig
  ap_webhook :: ExportConfig
  ap_export :: FileExportConfig

definition AppConfig_default :: AppConfig where
  "AppConfig_default =
     \<lparr>ap_bpf_object_path = ''./dist/scanner-ebpf.so'',
      ap_metrics_bind_addr = ''0.0.0.0:9898'',
      ap_intel = \<lparr>ic_kev_url = ''https://www.cisa.gov/sites/default/files/feeds/known_exploited_vulnerabilities.json'',
                  ic_epss_url = ''https://api.first.org/data/v1/epss'', ic_refresh_interval_secs = 21600\<rparr>,
      ap_risk = \<lparr>minimum_cvss = lit64 7, minimum_epss = lit64 (40/100)\<rparr>,
      ap_runtime = \<lparr>ru_node_name = ''unknown'', ru_sbom_dir = ''/var/lib/scanner/sboms'',
                    ru_seccomp_output_dir = ''/var/lib/scanner/seccomp''\<rparr>,
      ap_remediator = \<lparr>rm_enabled = True, rm_address = ''localhost:50051'', rm_timeout_secs = 30,
                       rm_max_retries = 3, rm_enforce_critical = True, rm_enforce_high = False,
                       rm_auto_seccomp = True, rm_auto_quarantine = False\<rparr>,
      ap_webhook = ExportConfig_default,
      ap_export = \<lparr>fx_enabled = True, fx_format = ''json'', fx_output_path = ''/var/lib/scanner/findings'',
                   fx_rotate_interval_secs = 3600, fx_compress = True, fx_endpoints = []\<rparr>\<rparr>"

section \<open>Loading\<close>

datatype cfg_value = CvStr string | CvInt int | CvFloat f64 | CvBool bool

definition default_entries :: "(string \<times> cfg_value) list" where
  "default_entries =
     (let d = AppConfig_default; i = ap_intel d; r = ap_runtime d; m = ap_remediator d; x = ap_export d
      in [(''bpf.object_path'', CvStr (ap_bpf_object_path d)),
          (''metrics.bind_addr'', CvStr (ap_metrics_bind_addr d)),
          (''intel.kev_url'', CvStr (ic_kev_url i)),
          (''intel.epss_url'', CvStr (ic_epss_url i)),
          (''intel.refresh_interval_secs'', CvInt (uint (ic_refresh_interval_secs i))),
          (''risk.minimum_cvss'', CvFloat (minimum_cvss (ap_risk d))),
          (''risk.minimum_epss'', CvFloat (minimum_epss (ap_risk d))),
          (''runtime.node_name'', CvStr (ru_node_name r)),
          (''runtime.sbom_dir'', CvStr (ru_sbom_dir r)),
          (''runtime.seccomp_output_dir'', CvStr (ru_seccomp_output_dir r)),
          (''remediator.enabled'', CvBool (rm_enabled m)),
          (''remediator.address'', CvStr (rm_address m)),
          (''remediator.timeout_secs'', CvInt (uint (rm_timeout_secs m))),
          (''remediator.max_retries'', CvInt (uint (rm_max_retries m))),
          (''remediator.enforce_critical'', CvBool (rm_enforce_critical m)),
          (''remediator.enforce_high'', CvBool (rm_enforce_high m)),
          (''remediator.auto_seccomp'', CvBool (rm_auto_seccomp m)),
          (''remediator.auto_quarantine'', CvBool (rm_auto_quarantine m)),
          (''export.enabled'', CvBool (fx_enabled x)),
          (''export.format'', CvStr (fx_format x)),
          (''export.output_path'', CvStr (fx_output_path x)),
          (''export.rotate_interval_secs'', CvInt (uint (fx_rotate_interval_secs x))),
          (''export.compress'', CvBool (fx_compress x))])"

definition outside :: "f64 \<Rightarrow> f64 \<Rightarrow> f64 \<Rightarrow> bool" where
  "outside lo hi x \<longleftrightarrow> fl_lt x lo \<or> fl_gt x hi"

text \<open>
  \<open>validate\<close>: None is success. \<open>ebpf_build\<close> tells whether the check of the object file is
  compiled in, \<open>exists\<close> whether a path exists.
\<close>

definition cfg_validate :: "bool \<Rightarrow> (string \<Rightarrow> bool) \<Rightarrow> AppConfig \<Rightarrow> string option" where
  "cfg_validate ebpf_build exists c =
     (if outside (lit64 0) (lit64 10) (minimum_cvss (ap_risk c))
      then Some ''SCANNER__RISK__MINIMUM_CVSS must be between 0.0 and 10.0''
      else if outside (lit64 0) (lit64 1) (minimum_epss (ap_risk c))
      then Some ''SCANNER__RISK__MINIMUM_EPSS must be between 0.0 and 1.0''
      else if \<not> is_socket_addr (ap_metrics_bind_addr c)
      then Some ''SCANNER__METRICS__BIND_ADDR must be a valid socket address (e.g. 0.0.0.0:9898)''
      else if ic_refresh_interval_secs (ap_intel c) < 60
      then Some ''SCANNER__INTEL__REFRESH_INTERVAL_SECS must be at least 60 seconds''
      else if ebpf_build \<and> \<not> exists (ap_bpf_object_path c)
      then Some (''SCANNER__BPF__OBJECT_PATH does not exist: '' @ ap_bpf_object_path c)
      else None)"

text \<open>
  \<open>load\<close>: the environment's entries, keys already lowered and dotted, override the defaults.
\<close>

definition AppConfig_load ::
  "((string \<times> cfg_value) list \<Rightarrow> string + AppConfig) \<Rightarrow> bool \<Rightarrow> (string \<Rightarrow> bool)
   \<Rightarrow> (string \<times> cfg_value) list \<Rightarrow> string + AppConfig" where
  "AppConfig_load deserialize ebpf_build exists env =
     (case deserialize (env @ default_entries) of
        Inl e \<Rightarrow> Inl e
      | Inr c \<Rightarrow> (case cfg_validate ebpf_build exists c of Some e \<Rightarrow> Inl e | None \<Rightarrow> Inr c))"

section \<open>Absent fields\<close>

text \<open>The fields of the configuration that have no default in the structures themselves.\<close>

definition required_fields :: "string list" where
  "required_fields =
     map fst default_entries @ [''export.endpoints'', ''webhook.url'', ''webhook.timeout_secs'', ''webhook.max_retries'',
       ''webhook.batch_size'', ''webhook.batch_timeout_secs'', ''webhook.min_priority'', ''webhook.include_metadata'']"

definition present :: "string \<Rightarrow> (string \<times> 'v) list \<Rightarrow> bool" where
  "present field entries \<longleftrightarrow> list_ex (\<lambda>(k, v). k = field \<or> starts_with k (field @ ''.'')) entries"

text \<open>serde's rule: a structure with an absent required field is not deserialised.\<close>

definition absent_fields_fail :: "((string \<times> cfg_value) list \<Rightarrow> string + AppConfig) \<Rightarrow> bool" where
  "absent_fields_fail deserialize \<longleftrightarrow>
     (\<forall>es. \<not> list_all (\<lambda>f. present f es) required_fields \<longrightarrow> (\<exists>e. deserialize es = Inl e))"

definition strict_reader :: "AppConfig \<Rightarrow> (string \<times> cfg_value) list \<Rightarrow> string + AppConfig" where
  "strict_reader c es = (if list_all (\<lambda>f. present f es) required_fields then Inr c else Inl ''missing field'')"

lemma strict_reader_fails: "absent_fields_fail (strict_reader c)"
  by (simp add: absent_fields_fail_def strict_reader_def)

lemma present_append: "present f (xs @ ys) \<longleftrightarrow> present f xs \<or> present f ys"
  by (auto simp: present_def list_ex_iff)

lemma no_webhook_default: "\<not> present ''webhook.url'' default_entries" "\<not> present ''export.endpoints'' default_entries"
  by (simp_all add: present_def default_entries_def Let_def)

lemma in_range: "\<not> outside (lit64 0) (lit64 (of_int k)) x \<Longrightarrow> 0 < k \<Longrightarrow> k < 100 \<Longrightarrow> x = NaN \<or> fl_in 0 (of_int k) x"
  using fl_of_id[of F64 "of_int k"] fl_bound_int(2)[of k]
  by (cases x) (auto simp: outside_def fl_of_id not_less)

lemma default_thresholds:
  "\<not> fl_lt (lit64 7) (lit64 0)" "\<not> fl_gt (lit64 7) (lit64 10)"
  "\<not> fl_lt (lit64 (2/5)) (lit64 0)" "\<not> fl_gt (lit64 (2/5)) (lit64 1)"
  "\<not> fl_lt (lit64 0) (lit64 0)" "\<not> fl_gt (lit64 0) (lit64 10)" "\<not> fl_gt (lit64 0) (lit64 1)"
  "\<not> fl_gt NaN x" "\<not> fl_lt NaN x"
proof -
  have "fl_in 0 1 (fl_of F64 (2/5))" by (rule fl_of_in) simp_all
  then show "\<not> fl_lt (lit64 (2/5)) (lit64 0)" "\<not> fl_gt (lit64 (2/5)) (lit64 1)"
    by (cases "fl_of F64 (2/5)"; simp add: fl_of_id not_less)+
qed (simp_all add: fl_of_id)

section \<open>Properties\<close>

text \<open>The defaults are not enough to start: no default covers the webhook section or the export endpoints,
  so unless the environment supplies both, loading fails, although the default configuration
  itself is valid.\<close>

theorem defaults_do_not_load:
  assumes "absent_fields_fail deserialize" "\<not> present ''webhook.url'' env \<or> \<not> present ''export.endpoints'' env"
  shows "(\<exists>e. AppConfig_load deserialize ebpf_build exists env = Inl e)
    \<and> cfg_validate False exists AppConfig_default = None"
proof
  have "\<not> list_all (\<lambda>f. present f (env @ default_entries)) required_fields"
    using assms(2) no_webhook_default by (auto simp: required_fields_def present_append)
  then show "\<exists>e. AppConfig_load deserialize ebpf_build exists env = Inl e"
    using assms(1) by (fastforce simp: absent_fields_fail_def AppConfig_load_def)
  show "cfg_validate False exists AppConfig_default = None"
    using socket_addr_examples(1) by (simp add: cfg_validate_def AppConfig_default_def outside_def default_thresholds)
qed

theorem defaults_do_not_load_witness:
  "\<exists>e. AppConfig_load (strict_reader AppConfig_default) True (\<lambda>p. True)
     [(''runtime.node_name'', CvStr ''node-1''), (''bpf.object_path'', CvStr ''/opt/scanner.o'')] = Inl e"
proof -
  have "\<not> present ''webhook.url'' [(''runtime.node_name'', CvStr ''node-1''), (''bpf.object_path'', CvStr ''/opt/scanner.o'')]"
    by (simp add: present_def)
  then show ?thesis using defaults_do_not_load[OF strict_reader_fails] by blast
qed

text \<open>A configuration that loads has a parsable metrics address, a refresh interval of at least a minute,
  an existing object file where it is needed, and thresholds within their ranges unless they
  are NaN.\<close>

theorem loaded_config_is_valid:
  assumes "AppConfig_load deserialize ebpf_build exists env = Inr c"
  shows "is_socket_addr (ap_metrics_bind_addr c) \<and> 60 \<le> ic_refresh_interval_secs (ap_intel c)
    \<and> (ebpf_build \<longrightarrow> exists (ap_bpf_object_path c))
    \<and> (minimum_cvss (ap_risk c) = NaN \<or> fl_in 0 10 (minimum_cvss (ap_risk c)))
    \<and> (minimum_epss (ap_risk c) = NaN \<or> fl_in 0 1 (minimum_epss (ap_risk c)))"
proof -
  have "cfg_validate ebpf_build exists c = None"
    using assms by (auto simp: AppConfig_load_def split: sum.splits option.splits)
  then show ?thesis
    using in_range[of 10 "minimum_cvss (ap_risk c)"] in_range[of 1 "minimum_epss (ap_risk c)"]
    by (auto simp: cfg_validate_def not_less split: if_splits)
qed

theorem loaded_config_is_valid_witness:
  "is_socket_addr (ap_metrics_bind_addr AppConfig_default)"
proof -
  have "AppConfig_load (\<lambda>es. Inr AppConfig_default) False (\<lambda>p. True) [] = Inr AppConfig_default"
    using socket_addr_examples(1)
    by (simp add: AppConfig_load_def cfg_validate_def AppConfig_default_def outside_def default_thresholds)
  from loaded_config_is_valid[OF this] show ?thesis by blast
qed

text \<open>A threshold that is NaN passes the validation whatever else holds: it is compared as neither below
  nor above its bounds.\<close>

theorem nan_threshold_validates:
  "cfg_validate b exists (c\<lparr>ap_risk := \<lparr>minimum_cvss = NaN, minimum_epss = NaN\<rparr>\<rparr>) =
   cfg_validate b exists (c\<lparr>ap_risk := \<lparr>minimum_cvss = lit64 0, minimum_epss = lit64 0\<rparr>\<rparr>)"
  by (simp add: cfg_validate_def outside_def default_thresholds)

end
