(* ===== verification/Oci_Scanner.thy ===== *)
theory Oci_Scanner
  imports Policy_Engine
begin

text \<open>
  \<open>oci_scanner.rs\<close>: references of OCI artifacts, the request for their manifest, its
  classification and the scan over the layers. The registry's answer and the exit of cosign are
  arguments.
\<close>

section \<open>Manifests\<close>

record OciLayer =
  ly_media_type :: string
  ly_digest :: string
  ly_size :: u64
  ly_annotations :: "(string \<times> string) list option"

record OciConfig =
  oc_media_type :: string
  oc_digest :: string

record OciManifest =
  mf_media_type :: string
  mf_layers :: "OciLayer list"
  mf_config :: "OciConfig option"

datatype ArtifactType = ContainerImage | HelmChart | WasmModule | UnknownArtifact

record OciFinding =
  og_severity :: string
  og_description :: string
  og_layer_digest :: string
  og_file_path :: "string option"

record OciScanResult =
  os_reference :: string
  os_artifact_type :: ArtifactType
  os_layers_scanned :: nat
  os_findings :: "OciFinding list"
  os_scan_duration_ms :: u64

record RegistryAuth =
  ra_username :: "string option"
  ra_password :: "string option"
  ra_token :: "string option"

type_synonym OciScanner = "(string \<times> RegistryAuth) list"

definition OciScanner_new :: OciScanner where "OciScanner_new = []"

definition with_auth :: "string \<Rightarrow> RegistryAuth \<Rightarrow> OciScanner \<Rightarrow> OciScanner" where
  "with_auth registry auth s = AList.update registry auth s"

section \<open>References\<close>

definition rsplit_once :: "char \<Rightarrow> string \<Rightarrow> (string \<times> string) option" where
  "rsplit_once c s = map_option (\<lambda>(a, b). (rev b, rev a)) (split_once c (rev s))"

definition parse_reference :: "string \<Rightarrow> string + (string \<times> string \<times> string)" where
  "parse_reference reference =
     (let reference = (if starts_with reference ''oci://'' then drop 6 reference else reference)
      in case split_once (CHR ''/'') reference of
           None \<Rightarrow> Inl ''Invalid reference format''
         | Some (registry, remainder) \<Rightarrow>
             (case rsplit_once (CHR '':'') remainder of
                Some (repo, tag) \<Rightarrow> Inr (registry, repo, tag)
              | None \<Rightarrow> Inr (registry, remainder, ''latest'')))"

definition classify_artifact :: "OciManifest \<Rightarrow> ArtifactType" where
  "classify_artifact m =
     (let config_type = (case mf_config m of Some c \<Rightarrow> oc_media_type c | None \<Rightarrow> [])
      in if contains config_type ''helm'' \<or> list_ex (\<lambda>l. contains (ly_media_type l) ''helm'') (mf_layers m)
         then HelmChart
         else if list_ex (\<lambda>l. contains (ly_media_type l) ''wasm'') (mf_layers m) then WasmModule
         else if contains config_type ''container'' \<or> contains config_type ''docker'' then ContainerImage
         else UnknownArtifact)"

section \<open>Fetching and scanning\<close>

datatype request_auth = NoAuth | BearerToken string | BasicAuth string string

definition request_auth_for :: "string \<Rightarrow> OciScanner \<Rightarrow> request_auth" where
  "request_auth_for registry s =
     (case map_of s registry of
        None \<Rightarrow> NoAuth
      | Some a \<Rightarrow>
          (case ra_token a of
             Some t \<Rightarrow> BearerToken t
           | None \<Rightarrow>
               (case (ra_username a, ra_password a) of
                  (Some u, Some p) \<Rightarrow> BasicAuth u p | _ \<Rightarrow> NoAuth)))"

definition manifest_url :: "string \<Rightarrow> string \<Rightarrow> string \<Rightarrow> string" where
  "manifest_url registry repository tag =
     ''https://'' @ registry @ ''/v2/'' @ repository @ ''/manifests/'' @ tag"

text \<open>The answer to a request: a transport error, a status with its text, or a body that may not parse.\<close>

datatype registry_answer = SendFailed string | BadStatus string | Body "string + OciManifest"

definition fetch_manifest ::
  "(string \<Rightarrow> request_auth \<Rightarrow> registry_answer) \<Rightarrow> string \<Rightarrow> string \<Rightarrow> string \<Rightarrow> OciScanner \<Rightarrow> string + OciManifest" where
  "fetch_manifest get registry repository tag s =
     (case get (manifest_url registry repository tag) (request_auth_for registry s) of
        SendFailed e \<Rightarrow> Inl (''HTTP error: '' @ e)
      | BadStatus st \<Rightarrow> Inl (''Registry returned '' @ st)
      | Body (Inl e) \<Rightarrow> Inl (''Manifest parse error: '' @ e)
      | Body (Inr m) \<Rightarrow> Inr m)"

definition scan_helm_layer :: "string \<Rightarrow> string \<Rightarrow> string \<Rightarrow> string + OciFinding list" where
  "scan_helm_layer registry repository digest = Inr []"

definition scan_wasm_layer :: "string \<Rightarrow> string \<Rightarrow> string \<Rightarrow> string + OciFinding list" where
  "scan_wasm_layer registry repository digest = Inr []"

fun scan_layers ::
  "ArtifactType \<Rightarrow> string \<Rightarrow> string \<Rightarrow> OciLayer list \<Rightarrow> OciFinding list \<Rightarrow> string + OciFinding list" where
  "scan_layers t registry repository [] acc = Inr acc"
| "scan_layers t registry repository (l # ls) acc =
     (let found = (case t of
            HelmChart \<Rightarrow> if contains (ly_media_type l) ''tar''
                          then scan_helm_layer registry repository (ly_digest l) else Inr []
          | WasmModule \<Rightarrow> scan_wasm_layer registry repository (ly_digest l)
          | ContainerImage \<Rightarrow> Inr []
          | UnknownArtifact \<Rightarrow> Inr [])
      in case found of Inl e \<Rightarrow> Inl e | Inr fs \<Rightarrow> scan_layers t registry repository ls (acc @ fs))"

definition oci_scan ::
  "(string \<Rightarrow> request_auth \<Rightarrow> registry_answer) \<Rightarrow> u64 \<Rightarrow> string \<Rightarrow> OciScanner \<Rightarrow> string + OciScanResult" where
  "oci_scan get elapsed_ms reference s =
     (case parse_reference reference of
        Inl e \<Rightarrow> Inl e
      | Inr (registry, repository, tag) \<Rightarrow>
          (case fetch_manifest get registry repository tag s of
             Inl e \<Rightarrow> Inl e
           | Inr m \<Rightarrow>
               (case scan_layers (classify_artifact m) registry repository (mf_layers m) [] of
                  Inl e \<Rightarrow> Inl e
                | Inr fs \<Rightarrow>
                    Inr \<lparr>os_reference = reference, os_artifact_type = classify_artifact m,
                         os_layers_scanned = length (mf_layers m), os_findings = fs,
                         os_scan_duration_ms = elapsed_ms\<rparr>)))"

definition verify_signature :: "string + bool \<Rightarrow> string + bool" where
  "verify_signature cosign = (case cosign of Inl e \<Rightarrow> Inl (''Failed to run cosign: '' @ e) | Inr ok \<Rightarrow> Inr ok)"

section \<open>Splitting\<close>

lemma split_once_at: "c \<notin> set a \<Longrightarrow> split_once c (a @ c # b) = Some (a, b)"
  by (simp add: split_once_def takeWhile_append dropWhile_append)

lemma rsplit_once_at: "c \<notin> set b \<Longrightarrow> rsplit_once c (a @ c # b) = Some (a, b)"
  using split_once_at[of c "rev b" "rev a"] by (simp add: rsplit_once_def)

lemma rsplit_once_none: "c \<notin> set a \<Longrightarrow> rsplit_once c a = None"
  by (simp add: rsplit_once_def split_once_def)

lemma scan_layers_empty: "scan_layers t registry repository ls acc = Inr acc"
  by (induction ls arbitrary: acc) (auto simp: scan_helm_layer_def scan_wasm_layer_def split: ArtifactType.split)

lemma no_scheme: "CHR ''/'' \<notin> set a \<Longrightarrow> a \<noteq> ''oci:'' \<Longrightarrow> \<not> prefix ''oci://'' (a @ CHR ''/'' # b)"
proof
  assume a: "CHR ''/'' \<notin> set a" "a \<noteq> ''oci:''" "prefix ''oci://'' (a @ CHR ''/'' # b)"
  then obtain r where r: "''oci:'' @ CHR ''/'' # CHR ''/'' # r = a @ CHR ''/'' # b" by (auto simp: prefix_def)
  have t: "takeWhile (\<lambda>x. x \<noteq> CHR ''/'') (a @ CHR ''/'' # b) = a"
    using a(1) by (simp add: takeWhile_append)
  have "takeWhile (\<lambda>x. x \<noteq> CHR ''/'') (''oci:'' @ CHR ''/'' # CHR ''/'' # r) = ''oci:''" by simp
  with t have "a = ''oci:''" unfolding r by simp
  with a(2) show False ..
qed

lemma parse_at:
  assumes "CHR ''/'' \<notin> set registry" "registry \<noteq> ''oci:''"
  shows "parse_reference (registry @ ''/'' @ rest) =
    (case rsplit_once (CHR '':'') rest of Some (r, t) \<Rightarrow> Inr (registry, r, t) | None \<Rightarrow> Inr (registry, rest, ''latest''))"
  using no_scheme[OF assms, of rest] split_once_at[OF assms(1), of rest] by (simp add: parse_reference_def Let_def)

section \<open>Properties\<close>

text \<open>C39. A reference made of a registry, a repository and a tag is taken apart into just these, with or without
  the scheme in front; without a tag the tag is latest.\<close>

theorem reference_roundtrip:
  assumes "CHR ''/'' \<notin> set registry" "registry \<noteq> ''oci:''" "CHR '':'' \<notin> set tag" "CHR '':'' \<notin> set plain"
  shows "parse_reference (registry @ ''/'' @ repo @ '':'' @ tag) = Inr (registry, repo, tag)
    \<and> parse_reference (''oci://'' @ registry @ ''/'' @ repo @ '':'' @ tag) = Inr (registry, repo, tag)
    \<and> parse_reference (registry @ ''/'' @ plain) = Inr (registry, plain, ''latest'')"
proof (intro conjI)
  show "parse_reference (registry @ ''/'' @ repo @ '':'' @ tag) = Inr (registry, repo, tag)"
    using parse_at[OF assms(1,2), of "repo @ '':'' @ tag"] rsplit_once_at[OF assms(3), of repo] by simp
  show "parse_reference (''oci://'' @ registry @ ''/'' @ repo @ '':'' @ tag) = Inr (registry, repo, tag)"
    using split_once_at[OF assms(1), of "repo @ '':'' @ tag"] rsplit_once_at[OF assms(3), of repo]
    by (simp add: parse_reference_def)
  show "parse_reference (registry @ ''/'' @ plain) = Inr (registry, plain, ''latest'')"
    using parse_at[OF assms(1,2), of plain] rsplit_once_none[OF assms(4)] by simp
qed

theorem reference_roundtrip_witness:
  "parse_reference ''localhost:5000/org/image:v1'' = Inr (''localhost:5000'', ''org/image'', ''v1'')"
  using reference_roundtrip[of "''localhost:5000''" "''v1''" "''x''" "''org/image''"] by simp

text \<open>A reference by digest is not understood: the algorithm of the digest stays with the repository, and the
  manifest is asked for under a name no registry has.\<close>

theorem digests_are_split:
  assumes "CHR ''/'' \<notin> set registry" "registry \<noteq> ''oci:''" "CHR '':'' \<notin> set hex"
  shows "parse_reference (registry @ ''/'' @ repo @ ''@sha256:'' @ hex) = Inr (registry, repo @ ''@sha256'', hex)
    \<and> manifest_url registry (repo @ ''@sha256'') hex =
        ''https://'' @ registry @ ''/v2/'' @ repo @ ''@sha256/manifests/'' @ hex"
  using parse_at[OF assms(1,2), of "repo @ ''@sha256:'' @ hex"] rsplit_once_at[OF assms(3), of "repo @ ''@sha256''"]
  by (simp add: manifest_url_def)

theorem digests_are_split_witness:
  "parse_reference ''ghcr.io/org/image@sha256:ab12'' = Inr (''ghcr.io'', ''org/image@sha256'', ''ab12'')"
  using digests_are_split[of "''ghcr.io''" "''ab12''" "''org/image''"] by simp

text \<open>A scan succeeds exactly when the reference parses and the manifest is fetched, covers all its layers,
  and reports no finding whatever the artifact holds.\<close>

theorem scan_outcome:
  "case parse_reference reference of
     Inl e \<Rightarrow> oci_scan get ms reference s = Inl e
   | Inr (registry, repository, tag) \<Rightarrow>
       (case fetch_manifest get registry repository tag s of
          Inl e \<Rightarrow> oci_scan get ms reference s = Inl e
        | Inr m \<Rightarrow> \<exists>r. oci_scan get ms reference s = Inr r \<and> os_layers_scanned r = length (mf_layers m)
            \<and> os_artifact_type r = classify_artifact m \<and> os_findings r = [])"
  by (auto simp: oci_scan_def scan_layers_empty split: sum.split prod.split)

text \<open>A token takes precedence over a password, credentials are sent only to the registry they were given
  for, and incomplete ones are not sent at all.\<close>

theorem credentials_stay_with_their_registry:
  "request_auth_for registry (with_auth other a s) =
     (if registry = other
      then (case ra_token a of Some t \<Rightarrow> BearerToken t
            | None \<Rightarrow> if ra_username a = None \<or> ra_password a = None then NoAuth
                       else BasicAuth (the (ra_username a)) (the (ra_password a)))
      else request_auth_for registry s)"
  by (auto simp: request_auth_for_def with_auth_def split: option.splits)

end
