(* ===== verification/Exploit_Simulator.thy ===== *)
theory Exploit_Simulator
  imports Common
begin

text \<open>
  \<open>exploit_simulator.rs\<close>: templates of simulated exploits, the safety checks in front of them
  and the result of a simulation. The elapsed time is an argument.
\<close>

datatype SimulationType =
    BufferOverflow | PathTraversal | CommandInjection | SqlInjection | Deserialization | NoSimulation

record SimulationResult =
  sm_cve_id :: string
  sm_exploitable :: bool
  sm_confidence :: f32
  sm_evidence :: "string list"
  sm_duration_ms :: u64
  sm_simulation_type :: SimulationType
  sm_safety_checks_passed :: bool

record TestCase =
  te_name :: string
  te_input :: "u8 list"
  te_expected_vulnerable :: bool

record SimulationTemplate =
  sp_cve_pattern :: string
  sp_simulation_type :: SimulationType
  sp_test_cases :: "TestCase list"

record ExploitSimulator =
  si_templates :: "SimulationTemplate list"
  si_timeout_secs :: u64

record TargetInfo =
  ti_namespace :: string
  ti_workload :: string
  ti_container :: string
  ti_image :: string
  ti_vuln_type :: string
  ti_is_isolated :: bool

definition byte_str :: "string \<Rightarrow> u8 list" where
  "byte_str s = map (\<lambda>c. of_nat (of_char c)) s"

definition test_case :: "string \<Rightarrow> u8 list \<Rightarrow> TestCase" where
  "test_case name input = \<lparr>te_name = name, te_input = input, te_expected_vulnerable = True\<rparr>"

definition load_default_templates :: "SimulationTemplate list" where
  "load_default_templates =
     [\<lparr>sp_cve_pattern = ''buffer-overflow'', sp_simulation_type = BufferOverflow,
       sp_test_cases = [test_case ''small-overflow'' (replicate 256 0x41),
                        test_case ''large-overflow'' (replicate 4096 0x41)]\<rparr>,
      \<lparr>sp_cve_pattern = ''path-traversal'', sp_simulation_type = PathTraversal,
       sp_test_cases = [test_case ''dot-dot-slash'' (byte_str ''../../../etc/passwd''),
                        test_case ''encoded-traversal'' (byte_str ''..%2F..%2F..%2Fetc%2Fpasswd'')]\<rparr>,
      \<lparr>sp_cve_pattern = ''command-injection'', sp_simulation_type = CommandInjection,
       sp_test_cases = [test_case ''semicolon-injection'' (byte_str ''; id''),
                        test_case ''pipe-injection'' (byte_str ''| id'')]\<rparr>]"

definition ExploitSimulator_new :: "u64 \<Rightarrow> ExploitSimulator" where
  "ExploitSimulator_new secs = \<lparr>si_templates = load_default_templates, si_timeout_secs = secs\<rparr>"

definition system_namespaces :: "string list" where
  "system_namespaces = [''kube-system'', ''kube-public'', ''kube-node-lease'']"

definition sim_safety_checks :: "TargetInfo \<Rightarrow> bool" where
  "sim_safety_checks t =
     (if starts_with (ti_namespace t) ''prod-'' \<or> ti_namespace t = ''production'' then False
      else if ti_namespace t \<in> set system_namespaces then False
      else if \<not> ti_is_isolated t then False else True)"

text \<open>The safe default that stands for running a test case.\<close>

definition run_test_case :: "TestCase \<Rightarrow> TargetInfo \<Rightarrow> string + bool" where
  "run_test_case c t = Inr False"

definition test_evidence :: "TargetInfo \<Rightarrow> TestCase \<Rightarrow> bool \<times> string" where
  "test_evidence t c =
     (case run_test_case c t of
        Inr True \<Rightarrow> (True, ''Test '' @ [CHR 0x27] @ te_name c @ [CHR 0x27] @ '' passed - vulnerable'')
      | Inr False \<Rightarrow> (False, ''Test '' @ [CHR 0x27] @ te_name c @ [CHR 0x27] @ '' failed - not vulnerable'')
      | Inl e \<Rightarrow> (False, ''Test '' @ [CHR 0x27] @ te_name c @ [CHR 0x27] @ '' error: '' @ e))"

definition find_template :: "string \<Rightarrow> TargetInfo \<Rightarrow> ExploitSimulator \<Rightarrow> SimulationTemplate option" where
  "find_template cve t s =
     find (\<lambda>p. contains cve (sp_cve_pattern p) \<or> contains (ti_vuln_type t) (sp_cve_pattern p)) (si_templates s)"

definition simulate :: "string \<Rightarrow> TargetInfo \<Rightarrow> u64 \<Rightarrow> ExploitSimulator \<Rightarrow> SimulationResult" where
  "simulate cve t elapsed_ms s =
     (case find_template cve t s of
        None \<Rightarrow>
          \<lparr>sm_cve_id = cve, sm_exploitable = False, sm_confidence = lit32 0,
           sm_evidence = [''No matching simulation template''], sm_duration_ms = elapsed_ms,
           sm_simulation_type = NoSimulation, sm_safety_checks_passed = True\<rparr>
      | Some p \<Rightarrow>
          if \<not> sim_safety_checks t
          then \<lparr>sm_cve_id = cve, sm_exploitable = False, sm_confidence = lit32 0,
                sm_evidence = [''Safety checks failed - skipping simulation''],
                sm_duration_ms = elapsed_ms, sm_simulation_type = sp_simulation_type p,
                sm_safety_checks_passed = False\<rparr>
          else let rs = map (test_evidence t) (sp_test_cases p);
                   exploitable = list_ex fst rs
               in \<lparr>sm_cve_id = cve, sm_exploitable = exploitable,
                   sm_confidence = (if exploitable then lit32 (8/10) else lit32 (2/10)),
                   sm_evidence = map snd rs, sm_duration_ms = elapsed_ms,
                   sm_simulation_type = sp_simulation_type p, sm_safety_checks_passed = True\<rparr>)"

section \<open>The gate\<close>

interpretation simulation_gate: gate
  "\<lambda>t. [\<not> starts_with (ti_namespace t) ''prod-'', ti_namespace t \<noteq> ''production'',
        ti_namespace t \<notin> set system_namespaces, ti_is_isolated t]"
  sim_safety_checks
  by unfold_locales (auto simp: sim_safety_checks_def)

definition ran_tests :: "SimulationTemplate \<Rightarrow> string list" where
  "ran_tests p = map (\<lambda>c. ''Test '' @ [CHR 0x27] @ te_name c @ [CHR 0x27] @ '' failed - not vulnerable'') (sp_test_cases p)"

lemma test_evidence_safe: "test_evidence t c = (False, ''Test '' @ [CHR 0x27] @ te_name c @ [CHR 0x27] @ '' failed - not vulnerable'')"
  by (simp add: test_evidence_def run_test_case_def)

section \<open>Properties\<close>

text \<open>No simulation touches a namespace named production, one that starts with prod- or a system
  namespace, nor a target that is not isolated: unless no template matches, the result then
  says that the safety checks failed and shows no test.\<close>

theorem protected_targets_are_skipped:
  assumes "find_template cve t s = Some p"
    "starts_with (ti_namespace t) ''prod-'' \<or> ti_namespace t = ''production''
     \<or> ti_namespace t \<in> set system_namespaces \<or> \<not> ti_is_isolated t"
  shows "\<not> sm_safety_checks_passed (simulate cve t ms s)
    \<and> sm_evidence (simulate cve t ms s) = [''Safety checks failed - skipping simulation'']"
  using assms simulation_gate.blocked_by[of t] by (auto simp: simulate_def)

theorem protected_targets_are_skipped_witness:
  "\<not> sm_safety_checks_passed (simulate ''CVE-1'' \<lparr>ti_namespace = ''prod-eu'', ti_workload = [], ti_container = [],
      ti_image = [], ti_vuln_type = ''path-traversal'', ti_is_isolated = True\<rparr> 0 (ExploitSimulator_new 5))"
proof -
  let ?t = "\<lparr>ti_namespace = ''prod-eu'', ti_workload = [], ti_container = [],
      ti_image = [], ti_vuln_type = ''path-traversal'', ti_is_isolated = True\<rparr>"
  obtain p where "find_template ''CVE-1'' ?t (ExploitSimulator_new 5) = Some p"
    by (simp add: find_template_def ExploitSimulator_new_def load_default_templates_def sublist_code)
  from protected_targets_are_skipped[OF this] show ?thesis by simp
qed

text \<open>A simulation never finds anything exploitable: each test of the template is listed as failed, with
  the low confidence, because no test case is ever run.\<close>

theorem nothing_is_exploitable:
  "\<not> sm_exploitable (simulate cve t ms s)
   \<and> (case find_template cve t s of
        None \<Rightarrow> sm_simulation_type (simulate cve t ms s) = NoSimulation
      | Some p \<Rightarrow> sim_safety_checks t \<longrightarrow>
          sm_evidence (simulate cve t ms s) = ran_tests p \<and> sm_confidence (simulate cve t ms s) = lit32 (2/10))"
  by (auto simp: simulate_def test_evidence_safe ran_tests_def Let_def list_ex_iff comp_def split: option.split)

theorem nothing_is_exploitable_witness:
  "sm_confidence (simulate ''CVE-1'' \<lparr>ti_namespace = ''test'', ti_workload = [], ti_container = [],
      ti_image = [], ti_vuln_type = ''path-traversal'', ti_is_isolated = True\<rparr> 0 (ExploitSimulator_new 5)) = lit32 (2/10)"
proof -
  let ?t = "\<lparr>ti_namespace = ''test'', ti_workload = [], ti_container = [],
      ti_image = [], ti_vuln_type = ''path-traversal'', ti_is_isolated = True\<rparr>"
  have "find_template ''CVE-1'' ?t (ExploitSimulator_new 5) \<noteq> None" "sim_safety_checks ?t"
    by (simp_all add: find_template_def ExploitSimulator_new_def load_default_templates_def sublist_code
        sim_safety_checks_def system_namespaces_def)
  with nothing_is_exploitable[of "''CVE-1''" ?t 0 "ExploitSimulator_new 5"] show ?thesis
    by (auto split: option.splits)
qed

text \<open>The guard for production looks for the prefix with its hyphen: the namespace prod itself is not
  protected and an isolated target in it is simulated.\<close>

theorem plain_prod_is_simulated:
  "ti_namespace t = ''prod'' \<and> ti_is_isolated t \<longrightarrow> sim_safety_checks t"
  by (auto simp: sim_safety_checks_def system_namespaces_def)

theorem plain_prod_is_simulated_witness:
  "sim_safety_checks \<lparr>ti_namespace = ''prod'', ti_workload = [], ti_container = [], ti_image = [],
     ti_vuln_type = [], ti_is_isolated = True\<rparr>"
  by (rule plain_prod_is_simulated[rule_format]) simp

end
