(* ===== verification/Rest_Api.thy ===== *)
theory Rest_Api
  imports State_Store Policy_Engine
begin

text \<open>
  \<open>api/\<close> and \<open>slack_commands.rs\<close>: the handlers of the HTTP interface over the finding store, the
  policy engine and the queue of requested scans. Requests arrive as the extractors of axum
  deliver them. The clock, fresh ids, the two ways chrono prints a time and the JSON
  reader of Slack's payload are arguments.
\<close>

section \<open>Requests and answers\<close>

record PaginationParams =
  pp_page :: "u32 option"
  pp_per_page :: "u32 option"

definition pp_offset :: "PaginationParams \<Rightarrow> nat" where
  "pp_offset p =
     (let page = max (case pp_page p of None \<Rightarrow> 1 | Some n \<Rightarrow> n) 1;
          per_page = min (case pp_per_page p of None \<Rightarrow> 50 | Some n \<Rightarrow> n) 200
      in unat ((page - 1) * per_page))"

definition pp_limit :: "PaginationParams \<Rightarrow> nat" where
  "pp_limit p = unat (min (case pp_per_page p of None \<Rightarrow> 50 | Some n \<Rightarrow> n) 200)"

record 'a PaginatedResponse =
  pr_data :: "'a list"
  pr_total :: nat
  pr_page :: u32
  pr_per_page :: u32

record FindingsFilter =
  ff_priority :: "string option"
  ff_namespace :: "string option"
  ff_workload :: "string option"
  ff_cve :: "string option"
  ff_since :: "int option"
  ff_pagination :: PaginationParams

record TriggerScanRequest =
  ts_namespace :: "string option"
  ts_workload :: "string option"
  ts_image :: "string option"

record http_response =
  hr_status :: nat
  hr_body :: json

definition ErrorResponse_new :: "string \<Rightarrow> string \<Rightarrow> string \<Rightarrow> json" where
  "ErrorResponse_new time err message =
     JObj [(''error'', JStr err), (''message'', JStr message), (''timestamp'', JStr time)]"

section \<open>Findings\<close>

text \<open>
  The priority of a finding is one of five ASCII words, and no character outside ASCII has a
  lower case among their letters, so comparing after the ASCII conversion is the comparison
  after \<open>to_lowercase\<close>.
\<close>

definition matches_filter :: "FindingsFilter \<Rightarrow> FindingSummary \<Rightarrow> bool" where
  "matches_filter ff f \<longleftrightarrow>
     (case ff_priority ff of None \<Rightarrow> True
      | Some p \<Rightarrow> to_ascii_lowercase (fs_priority f) = to_ascii_lowercase p)
     \<and> (case ff_namespace ff of None \<Rightarrow> True | Some n \<Rightarrow> fs_namespace f = n)
     \<and> (case ff_workload ff of None \<Rightarrow> True | Some w \<Rightarrow> fs_workload f = w)
     \<and> (case ff_cve ff of None \<Rightarrow> True | Some c \<Rightarrow> contains (fs_cve f) c)"

definition list_findings :: "FindingsFilter \<Rightarrow> FindingStore \<Rightarrow> FindingSummary PaginatedResponse" where
  "list_findings ff s =
     (let filtered = filter (matches_filter ff) (fst_get_all s);
          offset = pp_offset (ff_pagination ff);
          limit = pp_limit (ff_pagination ff);
          page = (case pp_page (ff_pagination ff) of None \<Rightarrow> 1 | Some n \<Rightarrow> n);
          per_page = min (case pp_per_page (ff_pagination ff) of None \<Rightarrow> 50 | Some n \<Rightarrow> n) 200
      in \<lparr>pr_data = take limit (drop offset filtered), pr_total = length filtered,
          pr_page = page, pr_per_page = per_page\<rparr>)"

definition summary_json :: "(int \<Rightarrow> string) \<Rightarrow> FindingSummary \<Rightarrow> json" where
  "summary_json ser f =
     JObj [(''id'', JStr (fs_id f)), (''detected_at'', JStr (ser (fs_detected_at f))),
           (''cve'', JStr (fs_cve f)), (''cvss'', json_float (fs_cvss f)),
           (''epss'', json_float (fs_epss f)), (''kev'', JBool (fs_kev f)),
           (''priority'', JStr (fs_priority f)), (''namespace'', JStr (fs_namespace f)),
           (''workload'', JStr (fs_workload f)), (''pod_name'', JStr (fs_pod_name f)),
           (''score'', json_float (fs_score f)), (''recommendation'', JStr (fs_recommendation f)),
           (''acknowledged'', JBool (fs_acknowledged f)),
           (''acknowledged_at'', json_opt (\<lambda>t. JStr (ser t)) (fs_acknowledged_at f)),
           (''acknowledged_by'', json_opt JStr (fs_acknowledged_by f))]"

definition page_json :: "(int \<Rightarrow> string) \<Rightarrow> FindingSummary PaginatedResponse \<Rightarrow> json" where
  "page_json ser r =
     JObj [(''data'', JArr (map (summary_json ser) (pr_data r))), (''total'', JInt (int (pr_total r))),
           (''page'', JInt (uint (pr_page r))), (''per_page'', JInt (uint (pr_per_page r)))]"

definition get_finding :: "(int \<Rightarrow> string) \<Rightarrow> string \<Rightarrow> string \<Rightarrow> FindingStore \<Rightarrow> http_response" where
  "get_finding ser time fid s =
     (case fst_get fid s of
        Some f \<Rightarrow> \<lparr>hr_status = 200, hr_body = summary_json ser f\<rparr>
      | None \<Rightarrow> \<lparr>hr_status = 404,
                 hr_body = ErrorResponse_new time ''not_found'' (''Finding '' @ fid @ '' not found'')\<rparr>)"

definition acknowledge_finding ::
  "int \<Rightarrow> string \<Rightarrow> string \<Rightarrow> string \<Rightarrow> string option \<Rightarrow> FindingStore \<Rightarrow> http_response \<times> FindingStore" where
  "acknowledge_finding now stamp time fid reason s =
     (case fst_acknowledge now fid reason s of
        Inr s' \<Rightarrow> (\<lparr>hr_status = 200,
                    hr_body = JObj [(''status'', JStr ''acknowledged''), (''finding_id'', JStr fid),
                                    (''timestamp'', JStr stamp)]\<rparr>, s')
      | Inl e \<Rightarrow> (\<lparr>hr_status = 404, hr_body = ErrorResponse_new time ''not_found'' e\<rparr>, s))"

definition findings_stats :: "FindingStore \<Rightarrow> http_response" where
  "findings_stats s =
     (let st = fst_stats s; n = (\<lambda>k. JInt (int k))
      in \<lparr>hr_status = 200,
          hr_body = JObj
            [(''total'', n (st_total st)),
             (''by_priority'', JObj
                [(''critical'', n (st_critical st)), (''high'', n (st_high st)),
                 (''medium'', n (st_medium st)), (''low'', n (st_low st)),
                 (''informational'', n (st_informational st))]),
             (''acknowledged'', n (st_acknowledged st)),
             (''unacknowledged'', JInt ((int (st_total st) - int (st_acknowledged st)) mod 2 ^ 64))]\<rparr>)"

section \<open>Policies\<close>

definition policy_json :: "(int \<Rightarrow> string) \<Rightarrow> PolicyInfo \<Rightarrow> json" where
  "policy_json ser p =
     JObj [(''id'', JStr (pi_id p)), (''name'', JStr (pi_name p)),
           (''description'', JStr (pi_description p)), (''enabled'', JBool (pi_enabled p)),
           (''rules_count'', JInt (int (pi_rules_count p))), (''source_path'', JStr (pi_source_path p)),
           (''last_loaded'', JStr (ser (pi_last_loaded p)))]"

definition list_policies :: "(int \<Rightarrow> string) \<Rightarrow> PolicyEngine \<Rightarrow> http_response" where
  "list_policies ser e =
     \<lparr>hr_status = 200,
      hr_body = JObj [(''policies'', JArr (map (policy_json ser) (pg_policies e))),
                      (''total'', JInt (int (length (pg_policies e))))]\<rparr>"

definition api_get_policy :: "(int \<Rightarrow> string) \<Rightarrow> string \<Rightarrow> string \<Rightarrow> PolicyEngine \<Rightarrow> http_response" where
  "api_get_policy ser time pid e =
     (case get_policy pid e of
        Some p \<Rightarrow> \<lparr>hr_status = 200, hr_body = policy_json ser p\<rparr>
      | None \<Rightarrow> \<lparr>hr_status = 404,
                 hr_body = ErrorResponse_new time ''not_found'' (''Policy '' @ pid @ '' not found'')\<rparr>)"

text \<open>None is the panic of \<open>reload\<close>.\<close>

definition reload_policies ::
  "(nat \<Rightarrow> string) \<Rightarrow> int \<Rightarrow> string \<Rightarrow> policy_dir \<Rightarrow> PolicyEngine \<Rightarrow> (http_response \<times> PolicyEngine) option" where
  "reload_policies ids now stamp dir e =
     map_option (\<lambda>(r, e').
         (\<lparr>hr_status = 200,
           hr_body = JObj [(''reloaded'', JInt (int (rr_reloaded r))), (''errors'', json_strs (rr_errors r)),
                           (''timestamp'', JStr stamp)]\<rparr>, e'))
       (pg_reload ids now dir e)"

section \<open>Scans, statistics and webhooks\<close>

text \<open>A bounded channel: a send waits when the buffer is full and fails when the receiver is gone.\<close>

record 'a channel =
  ch_buffer :: "'a list"
  ch_bound :: nat
  ch_open :: bool

datatype 'a send_result = Sent "'a channel" | Full | Closed

definition ch_send :: "'a \<Rightarrow> 'a channel \<Rightarrow> 'a send_result" where
  "ch_send x c =
     (if \<not> ch_open c then Closed
      else if length (ch_buffer c) < ch_bound c then Sent (c\<lparr>ch_buffer := ch_buffer c @ [x]\<rparr>) else Full)"

text \<open>None: the handler waits for room in the channel.\<close>

definition trigger_scan ::
  "string \<Rightarrow> string \<Rightarrow> string \<Rightarrow> TriggerScanRequest \<Rightarrow> TriggerScanRequest channel
   \<Rightarrow> (http_response \<times> TriggerScanRequest channel) option" where
  "trigger_scan uuid stamp time req c =
     (case ch_send req c of
        Sent c' \<Rightarrow> Some (\<lparr>hr_status = 202,
                         hr_body = JObj [(''scan_id'', JStr uuid), (''status'', JStr ''queued''),
                                         (''started_at'', JStr stamp)]\<rparr>, c')
      | Closed \<Rightarrow> Some (\<lparr>hr_status = 503,
                         hr_body = ErrorResponse_new time ''unavailable'' ''Scan trigger channel closed''\<rparr>, c)
      | Full \<Rightarrow> None)"

definition system_stats :: "string \<Rightarrow> string \<Rightarrow> http_response" where
  "system_stats version stamp =
     \<lparr>hr_status = 200,
      hr_body = JObj [(''version'', JStr version), (''timestamp'', JStr stamp),
        (''metrics_endpoint'', JStr ''/metrics''), (''health_endpoint'', JStr ''/health''),
        (''ready_endpoint'', JStr ''/ready''), (''api_version'', JStr ''v1'')]\<rparr>"

definition list_webhooks :: http_response where
  "list_webhooks =
     \<lparr>hr_status = 200,
      hr_body = JObj [(''webhooks'', JArr []), (''total'', JInt 0),
        (''note'', JStr ''Webhook management is configured via CLI flags and config files. Full CRUD API coming in future release.'')]\<rparr>"

definition create_webhook :: "string \<Rightarrow> http_response" where
  "create_webhook time =
     \<lparr>hr_status = 501,
      hr_body = ErrorResponse_new time ''not_implemented''
        ''Webhook creation via API is not yet supported. Use config files or CLI flags.''\<rparr>"

definition delete_webhook :: "string \<Rightarrow> http_response" where
  "delete_webhook time =
     \<lparr>hr_status = 501,
      hr_body = ErrorResponse_new time ''not_implemented''
        ''Webhook deletion via API is not yet supported. Use config files or CLI flags.''\<rparr>"

section \<open>Slack\<close>

record SlackCommand =
  sc_token :: string
  sc_team_id :: string
  sc_team_domain :: string
  sc_channel_id :: string
  sc_channel_name :: string
  sc_user_id :: string
  sc_user_name :: string
  sc_command :: string
  sc_text :: string
  sc_response_url :: string
  sc_trigger_id :: string

record SlackUser =
  su_id :: string
  su_name :: string

record SlackAction =
  sa_action_id :: string
  sa_value :: string

record SlackInteraction =
  si_interaction_type :: string
  si_user :: SlackUser
  si_trigger_id :: string
  si_response_url :: string
  si_actions :: "SlackAction list"

record SlackResponse =
  sl_response_type :: string
  sl_text :: string
  sl_blocks :: "json list option"

definition slack_json :: "SlackResponse \<Rightarrow> json" where
  "slack_json r =
     JObj ([(''response_type'', JStr (sl_response_type r)), (''text'', JStr (sl_text r))]
           @ (case sl_blocks r of None \<Rightarrow> [] | Some bs \<Rightarrow> [(''blocks'', JArr bs)]))"

text \<open>\<open>str::split_whitespace\<close>; \<open>acc\<close> is the word read so far.\<close>

function words_from :: "string \<Rightarrow> string \<Rightarrow> string list" where
  "words_from acc s =
     (case s of
        [] \<Rightarrow> (if acc = [] then [] else [acc])
      | c # cs \<Rightarrow>
          (case find (\<lambda>w. w \<noteq> [] \<and> prefix w s) white_space of
             Some w \<Rightarrow> (if acc = [] then [] else [acc]) @ words_from [] (drop (length w) s)
           | None \<Rightarrow> words_from (acc @ [c]) cs))"
  by pat_completeness auto
termination
  by (relation "measure (\<lambda>(acc, s). length s)") (auto simp: find_Some_iff prefix_def)

declare words_from.simps [simp del]

definition split_whitespace :: "string \<Rightarrow> string list" where
  "split_whitespace = words_from []"

definition bullet :: string where "bullet = [CHR 0xE2, CHR 0x80, CHR 0xA2, CHR 0x20]"

definition ephemeral :: "string \<Rightarrow> SlackResponse" where
  "ephemeral t = \<lparr>sl_response_type = ''ephemeral'', sl_text = t, sl_blocks = None\<rparr>"

definition block_header :: "string \<Rightarrow> json" where
  "block_header t = JObj [(''type'', JStr ''header''),
     (''text'', JObj [(''type'', JStr ''plain_text''), (''text'', JStr t)])]"

definition mrkdwn :: "string \<Rightarrow> json" where
  "mrkdwn t = JObj [(''type'', JStr ''mrkdwn''), (''text'', JStr t)]"

definition status_response :: "FindingStats \<Rightarrow> SlackResponse" where
  "status_response st =
     \<lparr>sl_response_type = ''in_channel'',
      sl_text = ''*Scanner Status*'' @ ''\<newline>'' @ bullet @ ''Total Findings: '' @ dec_nat (st_total st)
        @ ''\<newline>'' @ bullet @ ''Critical: '' @ dec_nat (st_critical st) @ '' | High: '' @ dec_nat (st_high st)
        @ '' | Medium: '' @ dec_nat (st_medium st) @ '' | Low: '' @ dec_nat (st_low st)
        @ ''\<newline>'' @ bullet @ ''Acknowledged: '' @ dec_nat (st_acknowledged st),
      sl_blocks = Some
        [block_header ''Scanner Status'',
         JObj [(''type'', JStr ''section''), (''fields'', JArr
           [mrkdwn (''*Total Findings:* '' @ dec_nat (st_total st)),
            mrkdwn (''*Acknowledged:* '' @ dec_nat (st_acknowledged st))])],
         JObj [(''type'', JStr ''section''), (''fields'', JArr
           [mrkdwn (''*Critical:* '' @ dec_nat (st_critical st)), mrkdwn (''*High:* '' @ dec_nat (st_high st)),
            mrkdwn (''*Medium:* '' @ dec_nat (st_medium st)), mrkdwn (''*Low:* '' @ dec_nat (st_low st))])]]\<rparr>"

definition finding_block :: "FindingSummary \<Rightarrow> json" where
  "finding_block f =
     JObj [(''type'', JStr ''section''),
       (''text'', mrkdwn (''*'' @ fs_cve f @ ''* ('' @ fs_priority f @ '')'' @ ''\<newline>'' @ ''Workload: ''
          @ fs_workload f @ '' | Score: '' @ fmt_fixed 1 (fs_score f) @ ''\<newline>'' @ fs_recommendation f)),
       (''accessory'', JObj [(''type'', JStr ''button''),
          (''text'', JObj [(''type'', JStr ''plain_text''), (''text'', JStr ''Acknowledge'')]),
          (''action_id'', JStr ''acknowledge_finding''), (''value'', JStr (fs_id f))])]"

definition shown_findings :: "string option \<Rightarrow> FindingStore \<Rightarrow> FindingSummary list" where
  "shown_findings p s =
     take 5 (filter (\<lambda>f. case p of None \<Rightarrow> True
                          | Some q \<Rightarrow> to_ascii_lowercase (fs_priority f) = to_ascii_lowercase q) (fst_get_all s))"

definition findings_response :: "string option \<Rightarrow> FindingStore \<Rightarrow> SlackResponse" where
  "findings_response p s =
     (let filtered = shown_findings p s
      in if filtered = [] then ephemeral ''No findings match the filter.''
         else \<lparr>sl_response_type = ''in_channel'', sl_text = dec_nat (length filtered) @ '' findings found'',
               sl_blocks = Some (block_header ''Recent Findings'' # map finding_block filtered)\<rparr>)"

definition help_response :: SlackResponse where
  "help_response =
     ephemeral (''*Available Commands*'' @ ''\<newline>'' @ bullet @ ''`/scanner status` - Show scanner status''
       @ ''\<newline>'' @ bullet @ ''`/scanner findings [priority]` - List recent findings''
       @ ''\<newline>'' @ bullet @ ''`/scanner help` - Show this help'')"

definition handle_scanner_command :: "string \<Rightarrow> FindingStore \<Rightarrow> SlackResponse" where
  "handle_scanner_command t s =
     (let parts = split_whitespace t;
          subcommand = (case parts of [] \<Rightarrow> ''help'' | p # _ \<Rightarrow> p)
      in if subcommand = ''status'' then status_response (fst_stats s)
         else if subcommand = ''findings''
           then findings_response (case parts of _ # p # _ \<Rightarrow> Some p | _ \<Rightarrow> None) s
         else if subcommand = ''help'' then help_response
         else ephemeral (''Unknown subcommand: '' @ subcommand
                         @ ''. Use `/scanner help` for available commands.''))"

definition handle_slack_command :: "SlackCommand \<Rightarrow> FindingStore \<Rightarrow> http_response" where
  "handle_slack_command cmd s =
     \<lparr>hr_status = 200,
      hr_body = slack_json (if sc_command cmd = ''/scanner'' then handle_scanner_command (sc_text cmd) s
                            else ephemeral (''Unknown command: '' @ sc_command cmd))\<rparr>"

definition slack_action :: "int \<Rightarrow> string \<Rightarrow> SlackAction \<Rightarrow> FindingStore \<Rightarrow> FindingStore" where
  "slack_action now user a s =
     (if sa_action_id a = ''acknowledge_finding''
      then (case fst_acknowledge now (sa_value a) (Some (''Acknowledged by '' @ user @ '' via Slack'')) s of
              Inl _ \<Rightarrow> s | Inr s' \<Rightarrow> s')
      else s)"

definition handle_slack_interaction ::
  "(string \<Rightarrow> string + SlackInteraction) \<Rightarrow> int \<Rightarrow> (string \<rightharpoonup> string) \<Rightarrow> FindingStore
   \<Rightarrow> http_response \<times> FindingStore" where
  "handle_slack_interaction parse now form s =
     (let payload_str = (case form ''payload'' of None \<Rightarrow> [] | Some p \<Rightarrow> p)
      in case parse payload_str of
           Inl e \<Rightarrow> (\<lparr>hr_status = 400, hr_body = JObj [(''error'', JStr (''Invalid payload: '' @ e))]\<rparr>, s)
         | Inr i \<Rightarrow> (\<lparr>hr_status = 200, hr_body = JObj [(''text'', JStr ''Action processed'')]\<rparr>,
                     fold (slack_action now (su_name (si_user i))) (si_actions i) s))"

section \<open>The interface as a whole\<close>

record ApiState =
  ap_findings :: FindingStore
  ap_policies :: PolicyEngine
  ap_scans :: "TriggerScanRequest channel"

text \<open>The state \<open>main\<close> hands to the server: the receiver of the channel is kept but never read.\<close>

definition ApiState_new :: ApiState where
  "ApiState_new = \<lparr>ap_findings = FindingStore_new, ap_policies = PolicyEngine_new,
     ap_scans = \<lparr>ch_buffer = [], ch_bound = 32, ch_open = True\<rparr>\<rparr>"

datatype api_request =
  ListFindings FindingsFilter
| GetFinding string
| AcknowledgeFinding string "string option"
| FindingsStatistics
| ListPolicies
| GetPolicy string
| ReloadPolicies policy_dir
| ListWebhooks
| CreateWebhook
| DeleteWebhook
| TriggerScan TriggerScanRequest
| SystemStatistics
| SlackCommandPost SlackCommand
| SlackActionPost "string \<rightharpoonup> string"

record api_env =
  en_ser :: "int \<Rightarrow> string"
  en_rfc :: "int \<Rightarrow> string"
  en_now :: int
  en_uuid :: "nat \<Rightarrow> string"
  en_version :: string
  en_parse :: "string \<Rightarrow> string + SlackInteraction"

text \<open>A request is answered, keeps its caller waiting, or panics.\<close>

datatype api_outcome = Answered http_response ApiState | Waiting | Panicked

definition read_only :: "http_response \<Rightarrow> ApiState \<Rightarrow> api_outcome" where
  "read_only r s = Answered r s"

fun serve :: "api_env \<Rightarrow> api_request \<Rightarrow> ApiState \<Rightarrow> api_outcome" where
  "serve e (ListFindings ff) s =
     read_only \<lparr>hr_status = 200, hr_body = page_json (en_ser e) (list_findings ff (ap_findings s))\<rparr> s"
| "serve e (GetFinding fid) s =
     read_only (get_finding (en_ser e) (en_ser e (en_now e)) fid (ap_findings s)) s"
| "serve e (AcknowledgeFinding fid reason) s =
     (case acknowledge_finding (en_now e) (en_rfc e (en_now e)) (en_ser e (en_now e)) fid reason (ap_findings s) of
        (r, fs) \<Rightarrow> Answered r (s\<lparr>ap_findings := fs\<rparr>))"
| "serve e FindingsStatistics s = read_only (findings_stats (ap_findings s)) s"
| "serve e ListPolicies s = read_only (list_policies (en_ser e) (ap_policies s)) s"
| "serve e (GetPolicy pid) s =
     read_only (api_get_policy (en_ser e) (en_ser e (en_now e)) pid (ap_policies s)) s"
| "serve e (ReloadPolicies dir) s =
     (case reload_policies (en_uuid e) (en_now e) (en_rfc e (en_now e)) dir (ap_policies s) of
        None \<Rightarrow> Panicked
      | Some (r, p) \<Rightarrow> Answered r (s\<lparr>ap_policies := p\<rparr>))"
| "serve e ListWebhooks s = read_only list_webhooks s"
| "serve e CreateWebhook s = read_only (create_webhook (en_ser e (en_now e))) s"
| "serve e DeleteWebhook s = read_only (delete_webhook (en_ser e (en_now e))) s"
| "serve e (TriggerScan req) s =
     (case trigger_scan (en_uuid e 0) (en_rfc e (en_now e)) (en_ser e (en_now e)) req (ap_scans s) of
        None \<Rightarrow> Waiting
      | Some (r, c) \<Rightarrow> Answered r (s\<lparr>ap_scans := c\<rparr>))"
| "serve e SystemStatistics s = read_only (system_stats (en_version e) (en_rfc e (en_now e))) s"
| "serve e (SlackCommandPost cmd) s = read_only (handle_slack_command cmd (ap_findings s)) s"
| "serve e (SlackActionPost form) s =
     (case handle_slack_interaction (en_parse e) (en_now e) form (ap_findings s) of
        (r, fs) \<Rightarrow> Answered r (s\<lparr>ap_findings := fs\<rparr>))"

definition after :: "ApiState \<Rightarrow> api_outcome \<Rightarrow> ApiState" where
  "after s r = (case r of Answered _ s' \<Rightarrow> s' | _ \<Rightarrow> s)"

text \<open>The routes, in the order of the router.\<close>

definition route_patterns :: "string list" where
  "route_patterns =
     [''/api/v1/findings'', ''/api/v1/findings/stats'', ''/api/v1/findings/{id}'',
      ''/api/v1/findings/{id}/acknowledge'', ''/api/v1/policies'', ''/api/v1/policies/reload'',
      ''/api/v1/policies/{id}'', ''/api/v1/webhooks'', ''/api/v1/webhooks/{id}'', ''/api/v1/scans'',
      ''/api/v1/stats'', ''/api/v1/slack/commands'', ''/api/v1/slack/actions'']"

section \<open>Pages\<close>

lemma concat_chunks: "concat (map (\<lambda>i. take n (drop (i * n) xs)) [0..<k]) = take (k * n) xs"
  by (induction k) (simp_all add: take_add[symmetric] add.commute)

lemma page_offset:
  fixes n :: u32
  assumes "n \<le> 200" "Suc i * unat n < 2 ^ 32" "n \<noteq> 0"
  shows "pp_offset \<lparr>pp_page = Some (of_nat (Suc i)), pp_per_page = Some n\<rparr> = i * unat n"
proof -
  have n: "0 < unat n" using assms(3) by (simp add: unat_gt_0)
  have "Suc i \<le> Suc i * unat n" using n by (cases "unat n") auto
  then have i: "Suc i < 2 ^ 32" using assms(2) by linarith
  have "i * unat n < Suc i * unat n" using n by simp
  then have p: "i * unat n < 2 ^ 32" using assms(2) by linarith
  have u: "unat (of_nat i :: u32) = i" "unat (of_nat (Suc i) :: u32) = Suc i"
    using i by (simp_all add: unat_of_nat take_bit_eq_mod del: of_nat_Suc)
  have "(1 :: u32) \<le> of_nat (Suc i)" unfolding word_le_nat_alt u(2) by simp
  then have m: "max (of_nat (Suc i) :: u32) 1 - 1 = of_nat i"
    by (simp add: max_absorb1 del: of_nat_Suc) simp
  show ?thesis unfolding pp_offset_def Let_def
    using assms(1) m p u(1) by (simp add: unat_word_ariths min_absorb1 del: of_nat_Suc)
qed

lemma matches_other_page [simp]: "matches_filter (ff\<lparr>ff_pagination := p\<rparr>) = matches_filter ff"
  by (rule ext) (simp add: matches_filter_def)

lemma page_data:
  assumes "n \<le> (200 :: u32)" "Suc i * unat n < 2 ^ 32" "n \<noteq> 0"
  shows "pr_data (list_findings (ff\<lparr>ff_pagination := \<lparr>pp_page = Some (of_nat (Suc i)), pp_per_page = Some n\<rparr>\<rparr>) s)
    = take (unat n) (drop (i * unat n) (filter (matches_filter ff) (findings s)))"
proof -
  have "pp_limit \<lparr>pp_page = Some (of_nat (Suc i)), pp_per_page = Some n\<rparr> = unat n"
    using assms(1) by (simp add: pp_limit_def min_absorb1)
  then show ?thesis
    unfolding list_findings_def Let_def using page_offset[OF assms]
    by (simp add: fst_get_all_def del: of_nat_Suc)
qed

section \<open>What requests change\<close>

text \<open>A finding without its acknowledgement.\<close>

definition finding_core :: "FindingSummary \<Rightarrow> FindingSummary" where
  "finding_core f = f\<lparr>fs_acknowledged := False, fs_acknowledged_at := None, fs_acknowledged_by := None\<rparr>"

definition acknowledged_in :: "FindingStore \<Rightarrow> nat set" where
  "acknowledged_in s = {i. i < length (findings s) \<and> fs_acknowledged (findings s ! i)}"

definition only_acknowledges :: "FindingStore \<Rightarrow> FindingStore \<Rightarrow> bool" where
  "only_acknowledges s s' \<longleftrightarrow>
     map finding_core (findings s') = map finding_core (findings s) \<and> acknowledged_in s \<subseteq> acknowledged_in s'"

lemma only_acknowledges_refl [simp]: "only_acknowledges s s"
  by (simp add: only_acknowledges_def)

lemma only_acknowledges_trans: "only_acknowledges a b \<Longrightarrow> only_acknowledges b c \<Longrightarrow> only_acknowledges a c"
  by (auto simp: only_acknowledges_def)

lemma acknowledge_only: "fst_acknowledge now i reason s = Inr s' \<Longrightarrow> only_acknowledges s s'"
proof -
  assume "fst_acknowledge now i reason s = Inr s'"
  then obtain ys where ys: "update_first (\<lambda>f. fs_id f = i) (mark_acknowledged now reason) (findings s) = Some ys"
    "s' = s\<lparr>findings := ys\<rparr>"
    by (auto simp: fst_acknowledge_def split: option.splits)
  obtain us x vs where u: "findings s = us @ x # vs" "ys = us @ mark_acknowledged now reason x # vs"
    using update_first_split[OF ys(1)] by auto
  have "finding_core (mark_acknowledged now reason x) = finding_core x"
    by (simp add: finding_core_def mark_acknowledged_def)
  moreover have "acknowledged_in s \<subseteq> acknowledged_in s'"
    using u ys(2) by (auto simp: acknowledged_in_def nth_append nth_Cons mark_acknowledged_def split: nat.splits)
  ultimately show ?thesis using u ys(2) by (simp add: only_acknowledges_def)
qed

lemma slack_only: "only_acknowledges s (slack_action now user a s)"
  by (auto simp: slack_action_def acknowledge_only split: sum.splits)

lemma slack_actions_only: "only_acknowledges s (fold (slack_action now user) as s)"
  by (induction as arbitrary: s) (auto intro: only_acknowledges_trans slack_only)

lemma interaction_only: "only_acknowledges s (snd (handle_slack_interaction parse now form s))"
  by (simp add: handle_slack_interaction_def slack_actions_only Let_def split: sum.splits)

lemma acknowledge_finding_only: "only_acknowledges s (snd (acknowledge_finding now stamp time i reason s))"
  by (auto simp: acknowledge_finding_def acknowledge_only split: sum.splits)

lemma serve_findings: "only_acknowledges (ap_findings s) (ap_findings (after s (serve e r s)))"
proof (cases r)
  case (AcknowledgeFinding i reason)
  then show ?thesis
    using acknowledge_finding_only[of "ap_findings s" "en_now e" "en_rfc e (en_now e)" "en_ser e (en_now e)" i reason]
    by (simp add: after_def case_prod_beta)
next
  case (SlackActionPost form)
  then show ?thesis using interaction_only[of "ap_findings s" "en_parse e" "en_now e" form]
    by (simp add: after_def case_prod_beta)
qed (auto simp: after_def read_only_def split: option.splits)

definition api_step :: "ApiState \<Rightarrow> api_env \<times> api_request \<Rightarrow> ApiState" where
  "api_step s q = after s (serve (fst q) (snd q) s)"

interpretation api: event_machine api_step "\<lambda>s. only_acknowledges fs (ap_findings s)" for fs
  by unfold_locales (auto simp: api_step_def intro: only_acknowledges_trans serve_findings)

section \<open>The scan queue\<close>

fun scan_of :: "api_request \<Rightarrow> TriggerScanRequest list" where
  "scan_of (TriggerScan req) = [req]"
| "scan_of _ = []"

definition queued :: "ApiState \<Rightarrow> TriggerScanRequest list \<Rightarrow> bool" where
  "queued s qs \<longleftrightarrow> ap_scans s = \<lparr>ch_buffer = take 32 qs, ch_bound = 32, ch_open = True\<rparr>"

lemma queued_step: "queued s qs \<Longrightarrow> queued (api_step s q) (qs @ scan_of (snd q))"
  by (cases "snd q")
    (auto simp: queued_def api_step_def after_def read_only_def trigger_scan_def ch_send_def
      split: option.splits prod.splits)

lemma queued_run: "queued s qs \<Longrightarrow> queued (foldl api_step s es) (qs @ concat (map (scan_of \<circ> snd) es))"
proof (induction es arbitrary: s qs)
  case (Cons q es)
  then show ?case using Cons.IH[OF queued_step[OF Cons.prems, of q]] by simp
qed simp

lemma trigger_waits: "queued s qs \<Longrightarrow> serve e (TriggerScan req) s = Waiting \<longleftrightarrow> 32 \<le> length qs"
  by (auto simp: queued_def trigger_scan_def ch_send_def split: option.splits if_splits)

section \<open>Properties\<close>

text \<open>C28. Pages neither lose nor repeat a finding: with one to 200 findings per page, and as many
  pages as cover what a filter selects and keep the offsets within 32 bits, the pages from the
  first on, put together, are the findings the filter selects, in the order of the store.\<close>

theorem pages_partition_findings:
  assumes "n \<le> (200 :: u32)" "n \<noteq> 0" "k * unat n < 2 ^ 32"
    "length (filter (matches_filter ff) (findings s)) \<le> k * unat n"
  shows "concat (map (\<lambda>i. pr_data (list_findings
           (ff\<lparr>ff_pagination := \<lparr>pp_page = Some (of_nat (Suc i)), pp_per_page = Some n\<rparr>\<rparr>) s)) [0..<k])
         = filter (matches_filter ff) (findings s)"
proof -
  have "Suc i * unat n < 2 ^ 32" if "i < k" for i
    using mult_le_mono1[of "Suc i" k "unat n"] that assms(3) by linarith
  then have "concat (map (\<lambda>i. pr_data (list_findings
           (ff\<lparr>ff_pagination := \<lparr>pp_page = Some (of_nat (Suc i)), pp_per_page = Some n\<rparr>\<rparr>) s)) [0..<k])
    = concat (map (\<lambda>i. take (unat n) (drop (i * unat n) (filter (matches_filter ff) (findings s)))) [0..<k])"
    using assms(1,2) by (intro arg_cong[of _ _ concat] map_cong refl page_data) auto
  then show ?thesis using assms(4) by (simp only: concat_chunks) simp
qed

theorem pages_partition_findings_witness:
  "\<forall>a b c. concat (map (\<lambda>i. pr_data (list_findings
     \<lparr>ff_priority = None, ff_namespace = None, ff_workload = None, ff_cve = None, ff_since = None,
      ff_pagination = \<lparr>pp_page = Some (of_nat (Suc i)), pp_per_page = Some 2\<rparr>\<rparr>
     (FindingStore_new\<lparr>findings := [a, b, c]\<rparr>))) [0..<2]) = [a, b, c]"
proof (intro allI)
  fix a b c
  show "concat (map (\<lambda>i. pr_data (list_findings
     \<lparr>ff_priority = None, ff_namespace = None, ff_workload = None, ff_cve = None, ff_since = None,
      ff_pagination = \<lparr>pp_page = Some (of_nat (Suc i)), pp_per_page = Some 2\<rparr>\<rparr>
     (FindingStore_new\<lparr>findings := [a, b, c]\<rparr>))) [0..<2]) = [a, b, c]"
    using pages_partition_findings[of 2 2 "\<lparr>ff_priority = None, ff_namespace = None, ff_workload = None,
        ff_cve = None, ff_since = None, ff_pagination = \<lparr>pp_page = None, pp_per_page = None\<rparr>\<rparr>"
        "FindingStore_new\<lparr>findings := [a, b, c]\<rparr>"]
    by (simp add: matches_filter_def del: of_nat_Suc upt_rec_numeral)
qed

text \<open>The offset is computed in 32 bits and wraps: page 2147483649 with two findings per page
  shows the first page again, and the answer still names the page asked for.\<close>

theorem far_pages_wrap:
  "let r = list_findings (ff\<lparr>ff_pagination := \<lparr>pp_page = Some 2147483649, pp_per_page = Some 2\<rparr>\<rparr>) s
   in pr_data r = pr_data (list_findings (ff\<lparr>ff_pagination := \<lparr>pp_page = Some 1, pp_per_page = Some 2\<rparr>\<rparr>) s)
      \<and> pr_page r = 2147483649"
  by (simp add: list_findings_def pp_offset_def pp_limit_def Let_def)

text \<open>The since parameter of a findings query is read and never looked at.\<close>

theorem since_is_ignored: "list_findings (ff\<lparr>ff_since := t\<rparr>) s = list_findings (ff\<lparr>ff_since := u\<rparr>) s"
  by (simp add: list_findings_def matches_filter_def cong: filter_cong)

text \<open>C14. No sequence of requests, Slack's included, adds, drops, reorders or alters a finding: all
  they change is acknowledgements, and none is ever taken back.\<close>

theorem requests_only_acknowledge:
  "map finding_core (findings (ap_findings (foldl api_step s es))) = map finding_core (findings (ap_findings s))
   \<and> acknowledged_in (ap_findings s) \<subseteq> acknowledged_in (ap_findings (foldl api_step s es))"
  using api.run_inv[of "ap_findings s" s es] by (simp add: only_acknowledges_def)

text \<open>C29. The queue of scans is filled by requests and emptied by nobody: after any history of
  requests a scan request is kept waiting for good exactly when 32 were made before it.\<close>

theorem scan_requests_stall:
  "serve e (TriggerScan req) (foldl api_step ApiState_new es) = Waiting
   \<longleftrightarrow> 32 \<le> length (concat (map (scan_of \<circ> snd) es))"
proof (rule trigger_waits)
  show "queued (foldl api_step ApiState_new es) (concat (map (scan_of \<circ> snd) es))"
    using queued_run[of ApiState_new "[]" es] by (simp add: queued_def ApiState_new_def)
qed

text \<open>An acknowledgement through Slack's button has the effect on the store of the REST call
  with the text of the button as its reason.\<close>

theorem slack_button_acknowledges:
  assumes "form ''payload'' = Some p" "parse p = Inr i" "si_actions i = [\<lparr>sa_action_id = ''acknowledge_finding'', sa_value = v\<rparr>]"
  shows "snd (handle_slack_interaction parse now form s) =
         snd (acknowledge_finding now stamp time v
                (Some (''Acknowledged by '' @ su_name (si_user i) @ '' via Slack'')) s)"
  using assms by (simp add: handle_slack_interaction_def slack_action_def acknowledge_finding_def split: sum.splits)

theorem slack_button_acknowledges_witness:
  "\<exists>i. si_actions i = [\<lparr>sa_action_id = ''acknowledge_finding'', sa_value = ''f1''\<rparr>] \<and>
     snd (handle_slack_interaction (\<lambda>_. Inr i) 7 [''payload'' \<mapsto> ''x''] FindingStore_new) =
     snd (acknowledge_finding 7 [] [] ''f1'' (Some ''Acknowledged by ann via Slack'') FindingStore_new)"
  using slack_button_acknowledges[of "[''payload'' \<mapsto> ''x'']" "''x''"
      "\<lambda>_. Inr \<lparr>si_interaction_type = [], si_user = \<lparr>su_id = [], su_name = ''ann''\<rparr>, si_trigger_id = [],
        si_response_url = [], si_actions = [\<lparr>sa_action_id = ''acknowledge_finding'', sa_value = ''f1''\<rparr>]\<rparr>"
      "\<lparr>si_interaction_type = [], si_user = \<lparr>su_id = [], su_name = ''ann''\<rparr>, si_trigger_id = [],
        si_response_url = [], si_actions = [\<lparr>sa_action_id = ''acknowledge_finding'', sa_value = ''f1''\<rparr>]\<rparr>"
      "''f1''" 7 FindingStore_new "[]" "[]"]
  by (intro exI[of _ "\<lparr>si_interaction_type = [], si_user = \<lparr>su_id = [], su_name = ''ann''\<rparr>, si_trigger_id = [],
        si_response_url = [], si_actions = [\<lparr>sa_action_id = ''acknowledge_finding'', sa_value = ''f1''\<rparr>]\<rparr>"]) simp

text \<open>The count of open findings in the statistics never wraps below zero: it is the number of
  findings without an acknowledgement.\<close>

theorem open_findings_are_counted:
  "length (findings s) \<le> 10000 \<Longrightarrow>
   json_member ''unacknowledged'' (hr_body (findings_stats s)) =
     Some (JInt (int (length (filter (\<lambda>f. \<not> fs_acknowledged f) (findings s)))))"
proof -
  assume l: "length (findings s) \<le> 10000"
  let ?a = "length (filter fs_acknowledged (findings s))" and ?u = "length (filter (\<lambda>f. \<not> fs_acknowledged f) (findings s))"
  have "?a + ?u = length (findings s)" by (rule sum_length_filter_compl)
  moreover from this l have "int ?u mod 2 ^ 64 = int ?u" by (intro mod_pos_pos_trivial) auto
  moreover have "int (length (findings s)) - int ?a = int ?u" using calculation(1) by linarith
  ultimately show ?thesis
    using stats_add_up[of s] by (simp add: findings_stats_def Let_def)
qed

theorem open_findings_are_counted_witness:
  "json_member ''unacknowledged'' (hr_body (findings_stats FindingStore_new)) = Some (JInt 0)"
  using open_findings_are_counted[of FindingStore_new] by (simp add: FindingStore_new_def)

end
