(* ===== verification/Aggregator.thy ===== *)
theory Aggregator
  imports Float_Sums Cgroup
begin

text \<open>
  The service \<open>scanner-aggregator\<close>: attack paths reported by the nodes of several clusters,
  the correlation of a CVE seen in more than one cluster, heartbeats, federation with peers and
  the statistics. Hash maps are association lists in one fixed order; clocks and fresh ids
  are arguments. The locks that guard the four tables are the subject of Aggregator_Locks.
\<close>

section \<open>Data\<close>

record PathSummary =
  ps_node_types :: "string list"
  ps_node_count :: nat
  ps_confidence :: f32
  ps_risk_score :: f32
  ps_indicators :: "string list"

record ClusterPath =
  cp_cluster_id :: string
  cp_node_name :: string
  cp_path_id :: string
  cp_path_summary :: PathSummary
  cp_timestamp :: int
  cp_pod_name :: string
  cp_namespace :: string

datatype PatternType =
    DistributedVulnerability | LateralMovement | CoordinatedAttack | SupplyChainCompromise | DataExfiltration

record GlobalCorrelation =
  gc_correlation_id :: string
  gc_pattern_type :: PatternType
  gc_affected_clusters :: "string list"
  gc_affected_nodes :: "string list"
  gc_total_instances :: nat
  gc_first_seen :: int
  gc_last_seen :: int
  gc_confidence :: f32
  gc_risk_score :: f32
  gc_description :: string

datatype PeerStatus = Active | Inactive | Syncing | PeerError

record FederationPeer =
  fp_peer_id :: string
  fp_endpoint :: string
  fp_api_key :: "string option"
  fp_last_sync :: "int option"
  fp_status :: PeerStatus

record FederationSync =
  fs_source_peer :: string
  fs_paths :: "ClusterPath list"
  fs_correlations :: "GlobalCorrelation list"
  fs_timestamp :: int

record AggregatorState =
  as_paths :: "(string \<times> ClusterPath) list"
  as_correlations :: "GlobalCorrelation list"
  as_cluster_heartbeat :: "(string \<times> int) list"
  as_federation_peers :: "(string \<times> FederationPeer) list"

definition AggregatorState_new :: AggregatorState where
  "AggregatorState_new =
     \<lparr>as_paths = [], as_correlations = [], as_cluster_heartbeat = [], as_federation_peers = []\<rparr>"

section \<open>Correlation\<close>

fun tail_from :: "'a list \<Rightarrow> 'a list \<Rightarrow> 'a list option" where
  "tail_from p [] = (if p = [] then Some [] else None)"
| "tail_from p (x # xs) = (if prefix p (x # xs) then Some (x # xs) else tail_from p xs)"

definition extract_cve :: "string \<Rightarrow> string" where
  "extract_cve indicator =
     (case tail_from ''CVE-'' indicator of
        Some r \<Rightarrow> takeWhile (\<lambda>c. is_alnum_c c \<or> c = CHR ''-'') r
      | None \<Rightarrow> ''UNKNOWN'')"

definition path_key :: "ClusterPath \<Rightarrow> string" where
  "path_key p = cp_cluster_id p @ '':'' @ cp_path_id p"

text \<open>The CVEs a path names, one for each indicator that contains one.\<close>

definition path_cves :: "ClusterPath \<Rightarrow> string list" where
  "path_cves p =
     map extract_cve (filter (\<lambda>i. contains i ''CVE-'') (ps_indicators (cp_path_summary p)))"

definition vuln_groups :: "ClusterPath list \<Rightarrow> (string \<times> ClusterPath list) list" where
  "vuln_groups ps =
     foldl (\<lambda>m (cve, p). alist_modify cve [] (\<lambda>q. q @ [p]) m) []
       (concat (map (\<lambda>p. map (\<lambda>c. (c, p)) (path_cves p)) ps))"

definition mean_of :: "(ClusterPath \<Rightarrow> f32) \<Rightarrow> ClusterPath list \<Rightarrow> f32" where
  "mean_of f ps = fdiv F32 (fsum F32 (map f ps)) (fl_nat F32 (length ps))"

definition correlation_for :: "(string \<Rightarrow> string) \<Rightarrow> string \<Rightarrow> ClusterPath list \<Rightarrow> GlobalCorrelation" where
  "correlation_for uuid cve ps =
     (let clusters = remdups (map cp_cluster_id ps)
      in \<lparr>gc_correlation_id = ''corr-'' @ uuid cve, gc_pattern_type = DistributedVulnerability,
          gc_affected_clusters = clusters, gc_affected_nodes = map cp_node_name ps,
          gc_total_instances = length ps,
          gc_first_seen = (if ps = [] then 0 else Min (set (map cp_timestamp ps))),
          gc_last_seen = (if ps = [] then 0 else Max (set (map cp_timestamp ps))),
          gc_confidence = mean_of (ps_confidence \<circ> cp_path_summary) ps,
          gc_risk_score = mean_of (ps_risk_score \<circ> cp_path_summary) ps,
          gc_description = dec_nat (length ps) @ '' affected by '' @ cve @ '' across ''
            @ dec_nat (length clusters) @ '' clusters''\<rparr>)"

definition new_correlations :: "(string \<Rightarrow> string) \<Rightarrow> ClusterPath list \<Rightarrow> GlobalCorrelation list" where
  "new_correlations uuid ps =
     List.map_filter (\<lambda>(cve, is').
         if 1 < length is' \<and> 1 < length (remdups (map cp_cluster_id is'))
         then Some (correlation_for uuid cve is') else None)
       (vuln_groups ps)"

definition analyze_correlations :: "(string \<Rightarrow> string) \<Rightarrow> AggregatorState \<Rightarrow> AggregatorState" where
  "analyze_correlations uuid s =
     (let new = new_correlations uuid (map snd (as_paths s))
      in if new \<noteq> [] then s\<lparr>as_correlations := new\<rparr> else s)"

definition add_path :: "(string \<Rightarrow> string) \<Rightarrow> int \<Rightarrow> ClusterPath \<Rightarrow> AggregatorState \<Rightarrow> AggregatorState" where
  "add_path uuid now p s =
     analyze_correlations uuid
       (s\<lparr>as_paths := AList.update (path_key p) p (as_paths s),
          as_cluster_heartbeat := AList.update (cp_cluster_id p) now (as_cluster_heartbeat s)\<rparr>)"

section \<open>Federation\<close>

definition register_peer :: "FederationPeer \<Rightarrow> AggregatorState \<Rightarrow> AggregatorState" where
  "register_peer p s = s\<lparr>as_federation_peers := AList.update (fp_peer_id p) p (as_federation_peers s)\<rparr>"

definition get_peers :: "AggregatorState \<Rightarrow> FederationPeer list" where
  "get_peers s = map snd (as_federation_peers s)"

definition merge_correlations :: "GlobalCorrelation list \<Rightarrow> GlobalCorrelation list \<Rightarrow> GlobalCorrelation list" where
  "merge_correlations cs new =
     foldl (\<lambda>cs c. if list_ex (\<lambda>d. gc_correlation_id d = gc_correlation_id c) cs then cs else cs @ [c]) cs new"

definition receive_federation_sync :: "int \<Rightarrow> FederationSync \<Rightarrow> AggregatorState \<Rightarrow> AggregatorState" where
  "receive_federation_sync now y s =
     s\<lparr>as_paths := foldl (\<lambda>m p. AList.update (path_key p) p m) (as_paths s) (fs_paths y),
       as_correlations := merge_correlations (as_correlations s) (fs_correlations y),
       as_federation_peers :=
         (case map_of (as_federation_peers s) (fs_source_peer y) of
            None \<Rightarrow> as_federation_peers s
          | Some p \<Rightarrow> AList.update (fs_source_peer y) (p\<lparr>fp_last_sync := Some now, fp_status := Active\<rparr>)
                        (as_federation_peers s))\<rparr>"

definition prepare_federation_sync :: "int \<Rightarrow> string \<Rightarrow> AggregatorState \<Rightarrow> FederationSync" where
  "prepare_federation_sync now peer s =
     \<lparr>fs_source_peer = peer, fs_paths = map snd (as_paths s), fs_correlations = as_correlations s,
      fs_timestamp = now\<rparr>"

section \<open>Statistics\<close>

record GlobalStats =
  gs_total_paths :: u64
  gs_unique_clusters :: u32
  gs_active_correlations :: nat
  gs_avg_confidence :: f32
  gs_healthy_clusters :: u32

definition get_stats :: "AggregatorState \<Rightarrow> GlobalStats" where
  "get_stats s =
     (let ps = map snd (as_paths s)
      in \<lparr>gs_total_paths = of_nat (length ps),
          gs_unique_clusters = of_nat (length (remdups (map cp_cluster_id ps))),
          gs_active_correlations = length (as_correlations s),
          gs_avg_confidence =
            (if ps = [] then lit32 0 else mean_of (ps_confidence \<circ> cp_path_summary) ps),
          gs_healthy_clusters = of_nat (length (as_cluster_heartbeat s))\<rparr>)"

section \<open>Instances of a CVE\<close>

text \<open>The paths that name a CVE, each as often as its indicators do.\<close>

definition instances :: "string \<Rightarrow> ClusterPath list \<Rightarrow> ClusterPath list" where
  "instances cve ps = concat (map (\<lambda>p. map (\<lambda>c. p) (filter (\<lambda>c. c = cve) (path_cves p))) ps)"

definition distributed :: "string \<Rightarrow> ClusterPath list \<Rightarrow> bool" where
  "distributed cve ps \<longleftrightarrow>
     (\<exists>p \<in> set ps. \<exists>q \<in> set ps. cve \<in> set (path_cves p) \<and> cve \<in> set (path_cves q)
        \<and> cp_cluster_id p \<noteq> cp_cluster_id q)"

lemma group_lookup:
  "map_of (foldl (\<lambda>m (cve, p). alist_modify cve [] (\<lambda>q. q @ [p]) m) m xs) cve =
     (if map snd (filter (\<lambda>(c, p). c = cve) xs) = [] then map_of m cve
      else Some ((case map_of m cve of None \<Rightarrow> [] | Some q \<Rightarrow> q) @ map snd (filter (\<lambda>(c, p). c = cve) xs)))"
  by (induction xs arbitrary: m) auto

lemma group_distinct:
  "distinct (map fst m) \<Longrightarrow>
   distinct (map fst (foldl (\<lambda>m (cve, p). alist_modify cve [] (\<lambda>q. q @ [p]) m) m xs))"
  by (induction xs arbitrary: m) auto

lemma instances_pairs:
  "map snd (filter (\<lambda>(c, p). c = cve) (concat (map (\<lambda>p. map (\<lambda>c. (c, p)) (path_cves p)) ps))) = instances cve ps"
  unfolding instances_def by (induction ps) (auto simp: filter_map comp_def)

lemma vuln_groups_lookup: "map_of (vuln_groups ps) cve = (if instances cve ps = [] then None else Some (instances cve ps))"
  unfolding vuln_groups_def group_lookup instances_pairs by simp

lemma vuln_groups_distinct: "distinct (map fst (vuln_groups ps))"
  unfolding vuln_groups_def by (rule group_distinct) simp

lemma set_instances: "set (instances cve ps) = {p \<in> set ps. cve \<in> set (path_cves p)}"
  by (auto simp: instances_def)

lemma two_different: "1 < length (remdups xs) \<longleftrightarrow> (\<exists>x \<in> set xs. \<exists>y \<in> set xs. x \<noteq> y)"
proof -
  have "length (remdups xs) = card (set xs)" by (simp add: length_remdups_card_conv)
  moreover have "1 < card (set xs) \<longleftrightarrow> (\<exists>x \<in> set xs. \<exists>y \<in> set xs. x \<noteq> y)"
    using card_le_Suc0_iff_eq[of "set xs"] by (auto simp: not_le[symmetric])
  ultimately show ?thesis by simp
qed

lemma distributed_instances:
  "1 < length (instances cve ps) \<and> 1 < length (remdups (map cp_cluster_id (instances cve ps))) \<longleftrightarrow> distributed cve ps"
proof -
  have "length (remdups (map cp_cluster_id (instances cve ps))) \<le> length (instances cve ps)"
    using length_remdups_leq[of "map cp_cluster_id (instances cve ps)"] by simp
  moreover have "1 < length (remdups (map cp_cluster_id (instances cve ps))) \<longleftrightarrow> distributed cve ps"
    unfolding distributed_def two_different by (auto simp: set_instances)
  ultimately show ?thesis by linarith
qed

lemma correlations_exact:
  "\<exists>cs. distinct cs \<and> set cs = {cve. distributed cve ps}
    \<and> new_correlations uuid ps = map (\<lambda>cve. correlation_for uuid cve (instances cve ps)) cs"
proof -
  let ?g = "vuln_groups ps"
  let ?P = "\<lambda>cve. distributed cve ps"
  have g: "(cve, is') \<in> set ?g \<longleftrightarrow> is' = instances cve ps \<and> is' \<noteq> []" for cve is'
    using vuln_groups_lookup[of ps cve] map_of_eq_Some_iff[OF vuln_groups_distinct[of ps], of cve is']
    by (auto split: if_splits)
  have "List.map_filter (\<lambda>(cve, is').
         if 1 < length is' \<and> 1 < length (remdups (map cp_cluster_id is'))
         then Some (correlation_for uuid cve is') else None) xs
     = map (\<lambda>cve. correlation_for uuid cve (instances cve ps)) (filter ?P (map fst xs))"
    if "\<forall>(cve, is') \<in> set xs. is' = instances cve ps" for xs
    using that by (induction xs) (auto simp: List.map_filter_simps distributed_instances[symmetric])
  moreover have "distinct (filter ?P (map fst ?g))" using vuln_groups_distinct by simp
  moreover have "cve \<in> fst ` set ?g" if "?P cve" for cve
  proof -
    have "instances cve ps \<noteq> []" using that distributed_instances[of cve ps] by auto
    then show ?thesis using g by force
  qed
  then have "set (filter ?P (map fst ?g)) = {cve. ?P cve}" by auto
  ultimately show ?thesis
    unfolding new_correlations_def using g by (intro exI[of _ "filter ?P (map fst ?g)"]) blast
qed

section \<open>Runs\<close>

datatype agg_event =
    PathReported "string \<Rightarrow> string" int ClusterPath
  | PeerRegistered FederationPeer
  | SyncReceived int FederationSync

fun agg_step :: "AggregatorState \<Rightarrow> agg_event \<Rightarrow> AggregatorState" where
  "agg_step s (PathReported uuid now p) = add_path uuid now p s"
| "agg_step s (PeerRegistered p) = register_peer p s"
| "agg_step s (SyncReceived now y) = receive_federation_sync now y s"

fun event_paths :: "agg_event \<Rightarrow> ClusterPath list" where
  "event_paths (PathReported uuid now p) = [p]"
| "event_paths (PeerRegistered p) = []"
| "event_paths (SyncReceived now y) = fs_paths y"

definition aggregator_ok :: "AggregatorState \<Rightarrow> bool" where
  "aggregator_ok s \<longleftrightarrow>
     distinct (map fst (as_paths s)) \<and> list_all (\<lambda>(k, p). k = path_key p) (as_paths s)
     \<and> distinct (map fst (as_federation_peers s)) \<and> list_all (\<lambda>(k, p). k = fp_peer_id p) (as_federation_peers s)
     \<and> distinct (map fst (as_cluster_heartbeat s))"

lemma add_path_paths: "as_paths (add_path uuid now p s) = AList.update (path_key p) p (as_paths s)"
  by (simp add: add_path_def analyze_correlations_def Let_def)

lemma add_path_others:
  "as_federation_peers (add_path uuid now p s) = as_federation_peers s"
  "as_cluster_heartbeat (add_path uuid now p s) = AList.update (cp_cluster_id p) now (as_cluster_heartbeat s)"
  by (simp_all add: add_path_def analyze_correlations_def Let_def)

lemma update_keyed:
  "list_all (\<lambda>(k, v). k = f v) m \<Longrightarrow> list_all (\<lambda>(k, v). k = f v) (AList.update (f v) v m)"
  by (induction m) auto

lemma paths_update_all:
  "distinct (map fst m) \<Longrightarrow> distinct (map fst (foldl (\<lambda>m p. AList.update (path_key p) p m) m ps))"
  "list_all (\<lambda>(k, p). k = path_key p) m \<Longrightarrow>
   list_all (\<lambda>(k, p). k = path_key p) (foldl (\<lambda>m p. AList.update (path_key p) p m) m ps)"
  by (induction ps arbitrary: m) (auto simp: distinct_update update_keyed[where f = path_key])

lemma agg_step_ok: "aggregator_ok s \<Longrightarrow> aggregator_ok (agg_step s e)"
proof (cases e)
  case (SyncReceived now y)
  assume ok: "aggregator_ok s"
  show ?thesis
  proof (cases "map_of (as_federation_peers s) (fs_source_peer y)")
    case None
    with ok SyncReceived show ?thesis
      by (simp add: aggregator_ok_def receive_federation_sync_def paths_update_all)
  next
    case (Some p)
    let ?p = "p\<lparr>fp_last_sync := Some now, fp_status := Active\<rparr>"
    have "fp_peer_id p = fs_source_peer y"
      using ok map_of_SomeD[OF Some] by (auto simp: aggregator_ok_def list_all_iff)
    then have "list_all (\<lambda>(k, v). k = fp_peer_id v) (AList.update (fs_source_peer y) ?p (as_federation_peers s))"
      using update_keyed[where f = fp_peer_id and m = "as_federation_peers s" and v = ?p] ok
      by (simp add: aggregator_ok_def)
    with ok SyncReceived Some show ?thesis
      by (simp add: aggregator_ok_def receive_federation_sync_def paths_update_all distinct_update)
  qed
next
  case (PathReported uuid now p)
  then show "aggregator_ok s \<Longrightarrow> ?thesis"
    by (simp add: aggregator_ok_def add_path_paths add_path_others distinct_update update_keyed[where f = path_key])
next
  case (PeerRegistered p)
  then show "aggregator_ok s \<Longrightarrow> ?thesis"
    by (simp add: aggregator_ok_def register_peer_def distinct_update update_keyed[where f = fp_peer_id])
qed

interpretation agg: event_machine agg_step aggregator_ok
  by unfold_locales (rule agg_step_ok)

lemma map_of_updates:
  "map_of (foldl (\<lambda>m p. AList.update (path_key p) p m) m ps) k =
   (if filter (\<lambda>p. path_key p = k) ps = [] then map_of m k else Some (last (filter (\<lambda>p. path_key p = k) ps)))"
  by (induction ps arbitrary: m) auto

lemma step_paths:
  "as_paths (agg_step s e) = foldl (\<lambda>m p. AList.update (path_key p) p m) (as_paths s) (event_paths e)"
  by (cases e) (simp_all add: add_path_paths register_peer_def receive_federation_sync_def)

lemma run_paths:
  "as_paths (foldl agg_step s es) =
   foldl (\<lambda>m p. AList.update (path_key p) p m) (as_paths s) (concat (map event_paths es))"
  by (induction es arbitrary: s) (simp_all add: step_paths)

lemma paths_run:
  "map_of (as_paths (foldl agg_step s es)) k =
   (if filter (\<lambda>p. path_key p = k) (concat (map event_paths es)) = [] then map_of (as_paths s) k
    else Some (last (filter (\<lambda>p. path_key p = k) (concat (map event_paths es)))))"
  unfolding run_paths by (rule map_of_updates)

section \<open>Sample data\<close>

definition sample_path :: "string \<Rightarrow> ClusterPath" where
  "sample_path c =
     \<lparr>cp_cluster_id = c, cp_node_name = ''n'', cp_path_id = ''p'',
      cp_path_summary = \<lparr>ps_node_types = [], ps_node_count = 2, ps_confidence = Fin 1, ps_risk_score = Fin 1,
                         ps_indicators = [''CVE-1'']\<rparr>,
      cp_timestamp = 0, cp_pod_name = ''pod'', cp_namespace = ''ns''\<rparr>"

definition sample_sync :: "ClusterPath list \<Rightarrow> FederationSync" where
  "sample_sync ps = \<lparr>fs_source_peer = ''peer'', fs_paths = ps, fs_correlations = [], fs_timestamp = 0\<rparr>"

section \<open>Properties\<close>

text \<open>C25. After a path is reported there is one correlation for exactly each CVE that stored paths of two
  clusters name, built from all the paths that name it; if there is no such CVE the
  correlations of earlier reports stay.\<close>

theorem report_correlates_exactly:
  "let ps = map snd (AList.update (path_key p) p (as_paths s))
   in \<exists>cs. distinct cs \<and> set cs = {cve. distributed cve ps}
      \<and> as_correlations (add_path uuid now p s) =
          (if cs = [] then as_correlations s
           else map (\<lambda>cve. correlation_for uuid cve (instances cve ps)) cs)"
proof -
  let ?ps = "map snd (AList.update (path_key p) p (as_paths s))"
  obtain cs where cs: "distinct cs" "set cs = {cve. distributed cve ?ps}"
    "new_correlations uuid ?ps = map (\<lambda>cve. correlation_for uuid cve (instances cve ?ps)) cs"
    using correlations_exact by blast
  then show ?thesis
    by (auto simp: Let_def add_path_def analyze_correlations_def intro!: exI[of _ cs])
qed

text \<open>In every state the service reaches each path is stored under its own key, each peer under its id, and
  no key of the three tables occurs twice.\<close>

theorem aggregator_run_wellformed:
  "aggregator_ok (foldl agg_step AggregatorState_new es)"
  by (rule agg.run_inv) (simp add: aggregator_ok_def AggregatorState_new_def)

text \<open>The stored path of a key is the last one reported or synchronised under it.\<close>

theorem last_path_wins:
  "map_of (as_paths (foldl agg_step s es)) k =
   (case filter (\<lambda>p. path_key p = k) (concat (map event_paths es)) of
      [] \<Rightarrow> map_of (as_paths s) k | p # ps \<Rightarrow> Some (last (p # ps)))"
  using paths_run[of s es k] by (simp split: list.splits)

text \<open>Correlations a peer sent do not outlast the next report that finds one: what is stored then is the same
  as if the peer had sent none.\<close>

theorem federated_correlations_are_lost:
  assumes "distributed cve (map snd (as_paths (add_path uuid now p (receive_federation_sync t y s))))"
  shows "as_correlations (add_path uuid now p (receive_federation_sync t y s)) =
    as_correlations (add_path uuid now p (receive_federation_sync t (y\<lparr>fs_correlations := []\<rparr>) (s\<lparr>as_correlations := []\<rparr>)))"
proof -
  let ?s = "receive_federation_sync t y s"
    and ?t = "receive_federation_sync t (y\<lparr>fs_correlations := []\<rparr>) (s\<lparr>as_correlations := []\<rparr>)"
  have p: "as_paths ?s = as_paths ?t" by (simp add: receive_federation_sync_def)
  have "distributed cve (map snd (AList.update (path_key p) p (as_paths ?s)))"
    using assms by (simp add: add_path_paths)
  then have "new_correlations uuid (map snd (AList.update (path_key p) p (as_paths ?s))) \<noteq> []"
    using correlations_exact[of "map snd (AList.update (path_key p) p (as_paths ?s))" uuid] by auto
  then show ?thesis using p by (simp add: add_path_def analyze_correlations_def Let_def)
qed

theorem federated_correlations_are_lost_witness:
  "as_correlations (add_path (\<lambda>c. c) 1 (sample_path ''b'') (receive_federation_sync 0 (sample_sync [sample_path ''a'']) AggregatorState_new))
   = as_correlations (add_path (\<lambda>c. c) 1 (sample_path ''b'')
       (receive_federation_sync 0 ((sample_sync [sample_path ''a''])\<lparr>fs_correlations := []\<rparr>) (AggregatorState_new\<lparr>as_correlations := []\<rparr>)))"
proof (rule federated_correlations_are_lost)
  have "''CVE-1'' \<in> set (path_cves (sample_path c))" for c
    by (simp add: sample_path_def path_cves_def extract_cve_def sublist_code is_alnum_c_def is_digit_c_def is_upper_c_def)
  then show "distributed ''CVE-1'' (map snd (as_paths (add_path (\<lambda>c. c) 1 (sample_path ''b'')
      (receive_federation_sync 0 (sample_sync [sample_path ''a'']) AggregatorState_new))))"
    by (simp add: distributed_def add_path_paths receive_federation_sync_def sample_sync_def AggregatorState_new_def)
       (simp add: sample_path_def path_key_def)
qed

text \<open>The key of a path joins the ids with a colon that may occur in them: paths of different clusters can
  have one key, and the later report then overwrites the earlier one.\<close>

theorem keys_can_collide:
  assumes "cp_cluster_id p = a @ '':'' @ b" "cp_path_id p = c" "cp_cluster_id q = a" "cp_path_id q = b @ '':'' @ c"
  shows "map_of (as_paths (add_path uuid' now' q (add_path uuid now p s))) (path_key p) = Some q"
proof -
  have "path_key p = path_key q" using assms by (simp add: path_key_def)
  then show ?thesis by (simp add: add_path_paths)
qed

theorem keys_can_collide_witness:
  "map_of (as_paths (add_path (\<lambda>c. c) 1 (sample_path ''x''\<lparr>cp_path_id := ''y:z''\<rparr>)
     (add_path (\<lambda>c. c) 0 (sample_path ''x:y''\<lparr>cp_path_id := ''z''\<rparr>) AggregatorState_new)))
     (path_key (sample_path ''x:y''\<lparr>cp_path_id := ''z''\<rparr>)) = Some (sample_path ''x''\<lparr>cp_path_id := ''y:z''\<rparr>)"
  by (rule keys_can_collide[of _ "''x''" "''y''" "''z''"]) (simp_all add: sample_path_def)

text \<open>When all confidences lie between 0 and 1 so does their average in the statistics, and in every new
  correlation.\<close>

theorem average_confidence_range:
  assumes "\<forall>p \<in> set (map snd (as_paths s)). fl_in 0 1 (ps_confidence (cp_path_summary p))"
    "length (as_paths s) < 2 ^ 24"
  shows "fl_in 0 1 (gs_avg_confidence (get_stats s))"
proof -
  let ?xs = "map (ps_confidence \<circ> cp_path_summary) (map snd (as_paths s))"
  have "as_paths s \<noteq> [] \<Longrightarrow> fl_in 0 1 (mean_of (ps_confidence \<circ> cp_path_summary) (map snd (as_paths s)))"
    using mean32_in[of ?xs 1] assms by (simp add: mean_of_def)
  then show ?thesis by (simp add: get_stats_def Let_def fl_of_id)
qed

theorem average_confidence_range_witness:
  "fl_in 0 1 (gs_avg_confidence (get_stats (add_path (\<lambda>c. c) 0 (sample_path ''a'') AggregatorState_new)))"
  by (rule average_confidence_range) (simp_all add: add_path_paths AggregatorState_new_def sample_path_def)

end
