(* ===== verification/Aggregator_Locks.thy ===== *)
theory Aggregator_Locks
  imports Prelude
begin

text \<open>
  The four tables of the aggregator are behind tokio's \<open>RwLock\<close>s, and its handlers run
  concurrently. A handler is the sequence of locks it takes and gives back, in the order of the
  guards in its body. The locks are fair, as tokio documents: a request waits when the lock
  is held in a way that excludes it or when another request waits already, and a release lets
  in the requests at the front of the queue.
\<close>

section \<open>Locks and handlers\<close>

datatype lock = Paths | Correlations | Heartbeats | Peers

datatype mode = Rd | Wr

datatype lock_op = Acquire lock mode | Release lock

text \<open>
  A report keeps the guard of the heartbeats while it asks for the paths a second time;
  \<open>found\<close> tells whether its analysis has correlations to store.
\<close>

definition add_path_ops :: "bool \<Rightarrow> lock_op list" where
  "add_path_ops found =
     [Acquire Paths Wr, Acquire Heartbeats Wr, Release Paths, Acquire Paths Rd]
     @ (if found then [Acquire Correlations Wr, Release Correlations] else [])
     @ [Release Paths, Release Heartbeats]"

definition receive_sync_ops :: "lock_op list" where
  "receive_sync_ops =
     [Acquire Paths Wr, Acquire Correlations Wr, Acquire Peers Wr,
      Release Peers, Release Correlations, Release Paths]"

definition prepare_sync_ops :: "lock_op list" where
  "prepare_sync_ops = [Acquire Paths Rd, Acquire Correlations Rd, Release Correlations, Release Paths]"

definition get_stats_ops :: "lock_op list" where
  "get_stats_ops =
     [Acquire Paths Rd, Acquire Correlations Rd, Acquire Heartbeats Rd,
      Release Heartbeats, Release Correlations, Release Paths]"

definition register_peer_ops :: "lock_op list" where
  "register_peer_ops = [Acquire Peers Wr, Release Peers]"

definition get_peers_ops :: "lock_op list" where
  "get_peers_ops = [Acquire Peers Rd, Release Peers]"

definition get_correlations_ops :: "lock_op list" where
  "get_correlations_ops = [Acquire Correlations Rd, Release Correlations]"

section \<open>Steps\<close>

record task =
  tk_ops :: "lock_op list"
  tk_held :: "(lock \<times> mode) list"
  tk_wait :: "(lock \<times> mode) option"

record lock_state =
  lk_tasks :: "task list"
  lk_queue :: "lock \<Rightarrow> nat list"

definition start :: "lock_op list list \<Rightarrow> lock_state" where
  "start ps = \<lparr>lk_tasks = map (\<lambda>p. \<lparr>tk_ops = p, tk_held = [], tk_wait = None\<rparr>) ps, lk_queue = (\<lambda>l. [])\<rparr>"

definition holds :: "lock \<Rightarrow> mode \<Rightarrow> task \<Rightarrow> bool" where
  "holds l m t \<longleftrightarrow> (l, m) \<in> set (tk_held t)"

definition admissible :: "lock \<Rightarrow> mode \<Rightarrow> task list \<Rightarrow> bool" where
  "admissible l m ts \<longleftrightarrow>
     (case m of Rd \<Rightarrow> list_all (\<lambda>t. \<not> holds l Wr t) ts
              | Wr \<Rightarrow> list_all (\<lambda>t. \<not> holds l Rd t \<and> \<not> holds l Wr t) ts)"

fun wake :: "lock \<Rightarrow> task list \<Rightarrow> nat list \<Rightarrow> task list \<times> nat list" where
  "wake l ts [] = (ts, [])"
| "wake l ts (j # q) =
     (case tk_wait (ts ! j) of
        None \<Rightarrow> (ts, j # q)
      | Some (l', m) \<Rightarrow>
          if admissible l m ts
          then wake l (ts[j := (ts ! j)\<lparr>tk_held := (l, m) # tk_held (ts ! j), tk_wait := None\<rparr>]) q
          else (ts, j # q))"

fun run_op :: "nat \<Rightarrow> lock_op \<Rightarrow> lock_op list \<Rightarrow> lock_state \<Rightarrow> lock_state" where
  "run_op i (Acquire l m) ops s =
     (let t = lk_tasks s ! i
      in if lk_queue s l = [] \<and> admissible l m (lk_tasks s)
         then s\<lparr>lk_tasks := (lk_tasks s)[i := t\<lparr>tk_ops := ops, tk_held := (l, m) # tk_held t\<rparr>]\<rparr>
         else s\<lparr>lk_tasks := (lk_tasks s)[i := t\<lparr>tk_ops := ops, tk_wait := Some (l, m)\<rparr>],
                lk_queue := (lk_queue s)(l := lk_queue s l @ [i])\<rparr>)"
| "run_op i (Release l) ops s =
     (let t = lk_tasks s ! i;
          ts = (lk_tasks s)[i := t\<lparr>tk_ops := ops, tk_held := filter (\<lambda>h. fst h \<noteq> l) (tk_held t)\<rparr>];
          (ts, q) = wake l ts (lk_queue s l)
      in \<lparr>lk_tasks = ts, lk_queue = (lk_queue s)(l := q)\<rparr>)"

inductive lock_step :: "lock_state \<Rightarrow> lock_state \<Rightarrow> bool" where
  run: "i < length (lk_tasks s) \<Longrightarrow> tk_wait (lk_tasks s ! i) = None \<Longrightarrow> tk_ops (lk_tasks s ! i) = a # ops \<Longrightarrow>
        lock_step s (run_op i a ops s)"

abbreviation lock_steps :: "lock_state \<Rightarrow> lock_state \<Rightarrow> bool" where
  "lock_steps \<equiv> lock_step\<^sup>*\<^sup>*"

definition finished :: "lock_state \<Rightarrow> bool" where
  "finished s \<longleftrightarrow> list_all (\<lambda>t. tk_ops t = [] \<and> tk_wait t = None) (lk_tasks s)"

text \<open>Some handler is not done, and each is done or waits.\<close>

definition deadlocked :: "lock_state \<Rightarrow> bool" where
  "deadlocked s \<longleftrightarrow> \<not> finished s \<and> list_all (\<lambda>t. tk_ops t = [] \<or> tk_wait t \<noteq> None) (lk_tasks s)"

lemma deadlocked_final: "deadlocked s \<Longrightarrow> \<not> lock_step s s'"
  by (auto simp: deadlocked_def list_all_length elim!: lock_step.cases)

text \<open>The tasks of a schedule run one operation each, in turn.\<close>

fun schedule :: "nat list \<Rightarrow> lock_state \<Rightarrow> lock_state" where
  "schedule [] s = s"
| "schedule (i # is') s =
     (case tk_ops (lk_tasks s ! i) of [] \<Rightarrow> s | a # ops \<Rightarrow> schedule is' (run_op i a ops s))"

fun runnable :: "nat list \<Rightarrow> lock_state \<Rightarrow> bool" where
  "runnable [] s \<longleftrightarrow> True"
| "runnable (i # is') s \<longleftrightarrow>
     i < length (lk_tasks s) \<and> tk_wait (lk_tasks s ! i) = None
     \<and> (case tk_ops (lk_tasks s ! i) of [] \<Rightarrow> False | a # ops \<Rightarrow> runnable is' (run_op i a ops s))"

lemma runnable_steps: "runnable is' s \<Longrightarrow> lock_steps s (schedule is' s)"
proof (induction is' arbitrary: s)
  case (Cons i is')
  then show ?case
    by (auto split: list.splits intro: converse_rtranclp_into_rtranclp lock_step.run)
qed simp

section \<open>Ordered handlers\<close>

fun rank :: "lock \<Rightarrow> nat" where
  "rank Paths = 0"
| "rank Correlations = 1"
| "rank Heartbeats = 2"
| "rank Peers = 3"

text \<open>Every lock is taken after those of lower rank and given back at the end.\<close>

fun in_order :: "lock list \<Rightarrow> lock_op list \<Rightarrow> bool" where
  "in_order hs [] \<longleftrightarrow> hs = []"
| "in_order hs (Acquire l m # p) \<longleftrightarrow> list_all (\<lambda>h. rank h < rank l) hs \<and> in_order (l # hs) p"
| "in_order hs (Release l # p) \<longleftrightarrow> in_order (filter (\<lambda>h. h \<noteq> l) hs) p"

lemma ordered_handlers:
  "in_order [] receive_sync_ops" "in_order [] prepare_sync_ops" "in_order [] get_stats_ops"
  "in_order [] register_peer_ops" "in_order [] get_peers_ops" "in_order [] get_correlations_ops"
  by (simp_all add: receive_sync_ops_def prepare_sync_ops_def get_stats_ops_def register_peer_ops_def
      get_peers_ops_def get_correlations_ops_def)

definition pending :: "task \<Rightarrow> lock list" where
  "pending t = (case tk_wait t of None \<Rightarrow> [] | Some (l, m) \<Rightarrow> [l]) @ map fst (tk_held t)"

definition task_ok :: "task \<Rightarrow> bool" where
  "task_ok t \<longleftrightarrow> in_order (pending t) (tk_ops t) \<and> sorted_wrt (\<lambda>a b. rank b < rank a) (pending t)"

text \<open>The queues hold the waiting tasks, and the first of a queue is excluded by a holder.\<close>

definition waits :: "lock \<Rightarrow> task \<Rightarrow> bool" where
  "waits l t \<longleftrightarrow> (\<exists>m. tk_wait t = Some (l, m))"

definition front_excluded :: "lock \<Rightarrow> task list \<Rightarrow> nat list \<Rightarrow> bool" where
  "front_excluded l ts q \<longleftrightarrow>
     (case q of [] \<Rightarrow> True
      | j # _ \<Rightarrow> (case tk_wait (ts ! j) of None \<Rightarrow> False | Some (l', m) \<Rightarrow> \<not> admissible l m ts))"

definition locks_ok :: "lock_state \<Rightarrow> bool" where
  "locks_ok s \<longleftrightarrow>
     list_all task_ok (lk_tasks s)
     \<and> (\<forall>l. distinct (lk_queue s l)
          \<and> set (lk_queue s l) = {i. i < length (lk_tasks s) \<and> waits l (lk_tasks s ! i)}
          \<and> front_excluded l (lk_tasks s) (lk_queue s l))"

lemma locks_okD:
  assumes "locks_ok s"
  shows "i < length (lk_tasks s) \<Longrightarrow> task_ok (lk_tasks s ! i)"
    and "distinct (lk_queue s l)"
    and "set (lk_queue s l) = {i. i < length (lk_tasks s) \<and> waits l (lk_tasks s ! i)}"
    and "front_excluded l (lk_tasks s) (lk_queue s l)"
proof -
  note u = assms[unfolded locks_ok_def]
  note a = conjunct1[OF u] and b = spec[OF conjunct2[OF u], of l]
  show "i < length (lk_tasks s) \<Longrightarrow> task_ok (lk_tasks s ! i)" using a by (simp add: list_all_length)
  show "distinct (lk_queue s l)" by (rule conjunct1[OF b])
  show "set (lk_queue s l) = {i. i < length (lk_tasks s) \<and> waits l (lk_tasks s ! i)}"
    by (rule conjunct1[OF conjunct2[OF b]])
  show "front_excluded l (lk_tasks s) (lk_queue s l)" by (rule conjunct2[OF conjunct2[OF b]])
qed

lemma locks_ok_start: "list_all (in_order []) ps \<Longrightarrow> locks_ok (start ps)"
  by (auto simp: locks_ok_def start_def list_all_length task_ok_def pending_def waits_def front_excluded_def)

lemma front_blocked: "front_excluded l ts q \<Longrightarrow> n \<in> set q \<Longrightarrow> \<exists>m. \<not> admissible l m ts"
  by (cases q) (auto simp: front_excluded_def split: option.splits)

lemma excluded_held: "\<not> admissible l m ts \<Longrightarrow> \<exists>j < length ts. l \<in> fst ` set (tk_held (ts ! j))"
  by (force simp: admissible_def holds_def list_all_length split: mode.splits)

lemma ne_if_in: "x \<in> A \<Longrightarrow> A \<noteq> {}"
  by auto

lemma finite_locks: "finite (UNIV :: lock set)"
proof -
  have "UNIV = {Paths, Correlations, Heartbeats, Peers}"
    by (rule set_eqI, case_tac x) simp_all
  then show ?thesis by (metis finite.emptyI finite.insertI)
qed

lemma highest: "finite W \<Longrightarrow> W \<noteq> {} \<Longrightarrow> \<exists>l \<in> W. \<forall>k \<in> W. f k \<le> (f l :: nat)"
proof -
  assume W: "finite W" "W \<noteq> {}"
  then have "Max (f ` W) \<in> f ` W" by (intro Max_in) auto
  then obtain l where "l \<in> W" "f l = Max (f ` W)" by auto
  with W(1) show ?thesis by (intro bexI[of _ l]) auto
qed

text \<open>Of the locks waited for, the one of highest rank has a holder that is not done and does not wait.\<close>

lemma locks_ok_progress: "locks_ok s \<Longrightarrow> \<not> deadlocked s"
proof
  assume ok: "locks_ok s" and d: "deadlocked s"
  let ?ts = "lk_tasks s"
  let ?W = "{l. \<exists>i < length ?ts. waits l (?ts ! i)}"
  have idle: "tk_ops (?ts ! i) = [] \<or> tk_wait (?ts ! i) \<noteq> None" if "i < length ?ts" for i
    using d that by (simp add: deadlocked_def list_all_length)
  have t: "task_ok (?ts ! i)" if "i < length ?ts" for i
    using locks_okD(1)[OF ok that] .
  obtain i where i: "i < length ?ts" "tk_ops (?ts ! i) \<noteq> [] \<or> tk_wait (?ts ! i) \<noteq> None"
    using d by (auto simp: deadlocked_def finished_def list_all_length)
  then obtain a m where "tk_wait (?ts ! i) = Some (a, m)" using idle[OF i(1)] by fastforce
  then have "waits a (?ts ! i)" by (simp add: waits_def)
  then have "a \<in> ?W" using i(1) by (intro CollectI exI[of _ i] conjI)
  then have ne: "?W \<noteq> {}" by (rule ne_if_in)
  have f: "finite ?W" by (rule finite_subset[OF subset_UNIV finite_locks])
  obtain l where l: "l \<in> ?W" "\<forall>k \<in> ?W. rank k \<le> rank l"
    using highest[OF f ne, of rank] by (elim bexE)
  have q: "set (lk_queue s l) = {i. i < length ?ts \<and> waits l (?ts ! i)}"
    "front_excluded l ?ts (lk_queue s l)"
    using locks_okD(3,4)[OF ok] .
  obtain n where "n < length ?ts" "waits l (?ts ! n)" using l(1) by (elim CollectE exE conjE)
  then have "n \<in> set (lk_queue s l)" unfolding q(1) by (intro CollectI conjI)
  from front_blocked[OF q(2) this] obtain m where "\<not> admissible l m ?ts" by (elim exE)
  from excluded_held[OF this] obtain j where j: "j < length ?ts" "l \<in> fst ` set (tk_held (?ts ! j))"
    by (elim exE conjE)
  show False
  proof (cases "tk_wait (?ts ! j)")
    case None
    then show False using t[OF j(1)] idle[OF j(1)] j(2) by (auto simp: task_ok_def pending_def)
  next
    case (Some w)
    obtain k m' where w: "w = (k, m')" by fastforce
    then have "waits k (?ts ! j)" using Some by (simp add: waits_def)
    then have "k \<in> ?W" using j(1) by (intro CollectI exI[of _ j] conjI)
    moreover have "rank l < rank k"
      using t[OF j(1)] Some w j(2) by (auto simp: task_ok_def pending_def)
    ultimately show False using bspec[OF l(2)] by fastforce
  qed
qed

section \<open>The invariant is kept\<close>

lemma admissible_cong:
  "length ts' = length ts \<Longrightarrow> (\<And>i m. i < length ts \<Longrightarrow> holds l m (ts' ! i) = holds l m (ts ! i)) \<Longrightarrow>
   admissible l m ts' = admissible l m ts"
  by (cases m) (simp_all add: admissible_def list_all_length)

lemma update_elsewhere:
  "k \<noteq> l \<Longrightarrow> j < length ts \<Longrightarrow> admissible k m (ts[j := (ts ! j)\<lparr>tk_held := (l, n) # tk_held (ts ! j), tk_wait := w\<rparr>]) = admissible k m ts"
  by (rule admissible_cong) (auto simp: holds_def nth_list_update)

lemma wake_props:
  assumes "wake l ts q = (ts', q')" "distinct q" "\<forall>j \<in> set q. j < length ts \<and> waits l (ts ! j)"
  shows "length ts' = length ts"
    and "i < length ts \<Longrightarrow> pending (ts' ! i) = pending (ts ! i) \<and> tk_ops (ts' ! i) = tk_ops (ts ! i)"
    and "i < length ts \<Longrightarrow> i \<notin> set q \<Longrightarrow> ts' ! i = ts ! i"
    and "k \<noteq> l \<Longrightarrow> admissible k m ts' = admissible k m ts"
    and "distinct q'" and "set q' = {i \<in> set q. waits l (ts' ! i)}"
    and "i \<in> set q \<Longrightarrow> \<not> waits l (ts' ! i) \<Longrightarrow> tk_wait (ts' ! i) = None"
    and "front_excluded l ts' q'"
proof -
  have "length ts' = length ts
    \<and> (\<forall>i < length ts. pending (ts' ! i) = pending (ts ! i) \<and> tk_ops (ts' ! i) = tk_ops (ts ! i)
         \<and> (i \<notin> set q \<longrightarrow> ts' ! i = ts ! i))
    \<and> (\<forall>k m. k \<noteq> l \<longrightarrow> admissible k m ts' = admissible k m ts)
    \<and> distinct q' \<and> set q' = {i \<in> set q. waits l (ts' ! i)}
    \<and> (\<forall>i \<in> set q. \<not> waits l (ts' ! i) \<longrightarrow> tk_wait (ts' ! i) = None)
    \<and> front_excluded l ts' q'"
    using assms
  proof (induction l ts q rule: wake.induct)
    case (2 l ts j q)
    obtain m where w: "tk_wait (ts ! j) = Some (l, m)" "j < length ts"
      using "2.prems"(3) by (auto simp: waits_def)
    let ?u = "ts[j := (ts ! j)\<lparr>tk_held := (l, m) # tk_held (ts ! j), tk_wait := None\<rparr>]"
    show ?case
    proof (cases "admissible l m ts")
      case True
      have r: "wake l ?u q = (ts', q')" using "2.prems"(1) w True by simp
      have d: "distinct q" "j \<notin> set q" "\<forall>i \<in> set q. i < length ?u \<and> waits l (?u ! i)"
        using "2.prems"(2,3) by (auto simp: nth_list_update)
      note IH = "2.IH"[OF w(1) refl True r d(1,3)]
      have p: "pending (?u ! i) = pending (ts ! i) \<and> tk_ops (?u ! i) = tk_ops (ts ! i)" if "i < length ts" for i
        using w that by (cases "i = j") (auto simp: pending_def)
      have "ts' ! j = ?u ! j" using IH d(2) w(2) by simp
      then have "\<not> waits l (ts' ! j)" "tk_wait (ts' ! j) = None" using w(2) by (auto simp: waits_def)
      moreover have "admissible k n ?u = admissible k n ts" if "k \<noteq> l" for k n
        using update_elsewhere[OF that w(2)] .
      moreover have "?u ! i = ts ! i" if "i \<noteq> j" for i using that by simp
      ultimately show ?thesis using IH p by auto
    next
      case False
      then have r: "ts' = ts" "q' = j # q" using "2.prems"(1) w by auto
      show ?thesis using "2.prems"(2,3) w False unfolding r by (auto simp: front_excluded_def)
    qed
  qed (auto simp: front_excluded_def)
  then show "length ts' = length ts"
    and "i < length ts \<Longrightarrow> pending (ts' ! i) = pending (ts ! i) \<and> tk_ops (ts' ! i) = tk_ops (ts ! i)"
    and "i < length ts \<Longrightarrow> i \<notin> set q \<Longrightarrow> ts' ! i = ts ! i"
    and "k \<noteq> l \<Longrightarrow> admissible k m ts' = admissible k m ts"
    and "distinct q'" and "set q' = {i \<in> set q. waits l (ts' ! i)}"
    and "i \<in> set q \<Longrightarrow> \<not> waits l (ts' ! i) \<Longrightarrow> tk_wait (ts' ! i) = None"
    and "front_excluded l ts' q'"
    by blast+
qed

lemma locks_okI:
  assumes "\<And>i. i < length ts \<Longrightarrow> task_ok (ts ! i)" "\<And>k. distinct (q k)"
    "\<And>k j. j \<in> set (q k) \<longleftrightarrow> j < length ts \<and> waits k (ts ! j)" "\<And>k. front_excluded k ts (q k)"
  shows "locks_ok \<lparr>lk_tasks = ts, lk_queue = q\<rparr>"
proof -
  have "set (q k) = {j. j < length ts \<and> waits k (ts ! j)}" for k
    using assms(3) by (intro set_eqI) simp
  then show ?thesis unfolding locks_ok_def
    using assms(1,2,4) by (simp add: list_all_length)
qed

lemma in_queue: "locks_ok s \<Longrightarrow> j \<in> set (lk_queue s l) \<longleftrightarrow> j < length (lk_tasks s) \<and> waits l (lk_tasks s ! j)"
  using locks_okD(3)[of s l] by (simp only: mem_Collect_eq)

lemma front_excluded_cong:
  assumes "front_excluded k ts q" "\<And>j. j \<in> set q \<Longrightarrow> tk_wait (ts' ! j) = tk_wait (ts ! j)"
    "q = [] \<or> (\<forall>m. admissible k m ts' = admissible k m ts)"
  shows "front_excluded k ts' q"
  using assms by (cases q) (auto simp: front_excluded_def split: option.splits)

lemma locks_ok_grant:
  assumes ok: "locks_ok s" and i: "i < length (lk_tasks s)" "tk_wait (lk_tasks s ! i) = None"
    "tk_ops (lk_tasks s ! i) = Acquire l m # ops" and q: "lk_queue s l = []"
  shows "locks_ok \<lparr>lk_tasks = (lk_tasks s)[i := (lk_tasks s ! i)\<lparr>tk_ops := ops,
            tk_held := (l, m) # tk_held (lk_tasks s ! i)\<rparr>], lk_queue = lk_queue s\<rparr>"
proof (rule locks_okI)
  let ?t = "(lk_tasks s ! i)\<lparr>tk_ops := ops, tk_held := (l, m) # tk_held (lk_tasks s ! i)\<rparr>"
  let ?ts = "(lk_tasks s)[i := ?t]"
  have t: "task_ok ?t" using locks_okD(1)[OF ok i(1)] i
    by (simp add: task_ok_def pending_def list_all_iff)
  show "task_ok (?ts ! j)" if "j < length ?ts" for j
    using t locks_okD(1)[OF ok, of j] that by (cases "j = i") simp_all
  have w: "tk_wait (?ts ! j) = tk_wait (lk_tasks s ! j)" for j
    using i by (cases "j = i") simp_all
  show "distinct (lk_queue s k)" for k by (rule locks_okD(2)[OF ok])
  show "j \<in> set (lk_queue s k) \<longleftrightarrow> j < length ?ts \<and> waits k (?ts ! j)" for k j
    using in_queue[OF ok, of j k] w[of j] by (simp add: waits_def)
  have a: "admissible k n ?ts = admissible k n (lk_tasks s)" if "k \<noteq> l" for k n
    using that i(1) by (intro admissible_cong) (auto simp: holds_def nth_list_update)
  show "front_excluded k ?ts (lk_queue s k)" for k
  proof (rule front_excluded_cong[OF locks_okD(4)[OF ok] w])
    show "lk_queue s k = [] \<or> (\<forall>n. admissible k n ?ts = admissible k n (lk_tasks s))"
      using a[of k] q by (cases "k = l") (metis, metis)
  qed
qed

lemma locks_ok_enqueue:
  assumes ok: "locks_ok s" and i: "i < length (lk_tasks s)" "tk_wait (lk_tasks s ! i) = None"
    "tk_ops (lk_tasks s ! i) = Acquire l m # ops"
    and q: "lk_queue s l \<noteq> [] \<or> \<not> admissible l m (lk_tasks s)"
  shows "locks_ok \<lparr>lk_tasks = (lk_tasks s)[i := (lk_tasks s ! i)\<lparr>tk_ops := ops, tk_wait := Some (l, m)\<rparr>],
            lk_queue = (lk_queue s)(l := lk_queue s l @ [i])\<rparr>"
proof (rule locks_okI)
  let ?t = "(lk_tasks s ! i)\<lparr>tk_ops := ops, tk_wait := Some (l, m)\<rparr>"
  let ?ts = "(lk_tasks s)[i := ?t]" and ?q = "(lk_queue s)(l := lk_queue s l @ [i])"
  have t: "task_ok ?t" using locks_okD(1)[OF ok i(1)] i
    by (simp add: task_ok_def pending_def list_all_iff)
  show "task_ok (?ts ! j)" if "j < length ?ts" for j
    using t locks_okD(1)[OF ok, of j] that by (cases "j = i") simp_all
  have n: "i \<notin> set (lk_queue s k)" for k using in_queue[OF ok, of i k] i(2) by (simp add: waits_def)
  show "distinct (?q k)" for k using locks_okD(2)[OF ok] n by (cases "k = l") simp_all
  show "j \<in> set (?q k) \<longleftrightarrow> j < length ?ts \<and> waits k (?ts ! j)" for k j
    using in_queue[OF ok, of j k] i n[of k] by (cases "j = i") (auto simp: waits_def)
  have w: "tk_wait (?ts ! j) = tk_wait (lk_tasks s ! j)" if "j \<in> set (lk_queue s k)" for j k
    using n[of k] that by (cases "j = i") simp_all
  have a: "admissible k b ?ts = admissible k b (lk_tasks s)" for k b
    using i(1) by (intro admissible_cong) (auto simp: holds_def nth_list_update)
  have f: "front_excluded k ?ts (lk_queue s k)" for k
    by (rule front_excluded_cong[OF locks_okD(4)[OF ok]]) (rule w, assumption, simp only: a, simp)
  show "front_excluded k ?ts (?q k)" for k
    using f[of k] f[of l] a q i(1) by (cases "lk_queue s l") (auto simp: front_excluded_def)
qed

lemma locks_ok_release:
  assumes ok: "locks_ok s" and i: "i < length (lk_tasks s)" "tk_wait (lk_tasks s ! i) = None"
    "tk_ops (lk_tasks s ! i) = Release l # ops"
    and w: "wake l ((lk_tasks s)[i := (lk_tasks s ! i)\<lparr>tk_ops := ops,
              tk_held := filter (\<lambda>h. fst h \<noteq> l) (tk_held (lk_tasks s ! i))\<rparr>]) (lk_queue s l) = (ts', q')"
  shows "locks_ok \<lparr>lk_tasks = ts', lk_queue = (lk_queue s)(l := q')\<rparr>"
proof -
  let ?t = "(lk_tasks s ! i)\<lparr>tk_ops := ops, tk_held := filter (\<lambda>h. fst h \<noteq> l) (tk_held (lk_tasks s ! i))\<rparr>"
  let ?ts = "(lk_tasks s)[i := ?t]" and ?q = "(lk_queue s)(l := q')"
  have wait: "tk_wait (?ts ! j) = tk_wait (lk_tasks s ! j)" for j using i by (cases "j = i") simp_all
  have fm: "map fst (filter (\<lambda>h. fst h \<noteq> l) xs) = filter (\<lambda>h. h \<noteq> l) (map fst xs)" for xs :: "(lock \<times> mode) list"
    by (induction xs) auto
  have t: "task_ok ?t" using locks_okD(1)[OF ok i(1)] i
    by (simp add: task_ok_def pending_def fm sorted_wrt_filter)
  have ts: "task_ok (?ts ! j)" if "j < length (lk_tasks s)" for j
    using t locks_okD(1)[OF ok, of j] that by (cases "j = i") simp_all
  have p: "\<forall>j \<in> set (lk_queue s l). j < length ?ts \<and> waits l (?ts ! j)"
    using in_queue[OF ok] wait by (simp add: waits_def)
  note W = wake_props[OF w locks_okD(2)[OF ok] p]
  have len: "length ts' = length (lk_tasks s)" using W(1) by simp
  have same: "tk_wait (ts' ! j) = tk_wait (lk_tasks s ! j)" if "j < length (lk_tasks s)" "j \<notin> set (lk_queue s l)" for j
    using W(3)[of j] that wait[of j] by simp
  have new: "waits k (ts' ! j) \<longleftrightarrow> waits k (lk_tasks s ! j)" if "j < length (lk_tasks s)" "k \<noteq> l" for j k
  proof (cases "j \<in> set (lk_queue s l)")
    case True
    then have "waits l (lk_tasks s ! j)" using in_queue[OF ok] by simp
    then have "\<not> waits k (lk_tasks s ! j)" using that(2) by (auto simp: waits_def)
    moreover have "\<not> waits k (ts' ! j)"
      using W(7)[OF True] that(2) by (cases "waits l (ts' ! j)") (auto simp: waits_def)
    ultimately show ?thesis by simp
  next
    case False
    then show ?thesis using same[OF that(1)] by (simp add: waits_def)
  qed
  have a: "admissible k n ts' = admissible k n (lk_tasks s)" if "k \<noteq> l" for k n
  proof -
    have "admissible k n ?ts = admissible k n (lk_tasks s)"
      using that i(1) by (intro admissible_cong) (auto simp: holds_def nth_list_update)
    then show ?thesis using W(4)[OF that] by simp
  qed
  show ?thesis
  proof (rule locks_okI)
    show "task_ok (ts' ! j)" if "j < length ts'" for j
    proof -
      have j: "j < length (lk_tasks s)" using that len by simp
      then have "pending (ts' ! j) = pending (?ts ! j)" "tk_ops (ts' ! j) = tk_ops (?ts ! j)"
        using W(2)[of j] by simp_all
      then show ?thesis using ts[OF j] by (simp add: task_ok_def)
    qed
    show "distinct (?q k)" for k using locks_okD(2)[OF ok, of k] W(5) by simp
    show "j \<in> set (?q k) \<longleftrightarrow> j < length ts' \<and> waits k (ts' ! j)" for k j
    proof (cases "k = l")
      case True
      have "j \<in> set (lk_queue s l)" if "j < length (lk_tasks s)" "waits l (ts' ! j)"
      proof (rule ccontr)
        assume n: "j \<notin> set (lk_queue s l)"
        then have "waits l (lk_tasks s ! j)" using same[OF that(1) n] that(2) by (simp add: waits_def)
        then show False using n in_queue[OF ok, of j l] that(1) by simp
      qed
      then show ?thesis using True W(6) len in_queue[OF ok, of j l] by auto
    next
      case False
      then show ?thesis using in_queue[OF ok, of j k] new[of j k] len by auto
    qed
    show "front_excluded k ts' (?q k)" for k
    proof (cases "k = l")
      case True
      then show ?thesis using W(8) by simp
    next
      case False
      have "tk_wait (ts' ! j) = tk_wait (lk_tasks s ! j)" if "j \<in> set (lk_queue s k)" for j
      proof (rule same)
        show "j < length (lk_tasks s)" using that in_queue[OF ok, of j k] by simp
        show "j \<notin> set (lk_queue s l)"
          using that in_queue[OF ok, of j k] in_queue[OF ok, of j l] False by (auto simp: waits_def)
      qed
      then show ?thesis using False locks_okD(4)[OF ok, of k] a
        by (simp add: front_excluded_cong[of k "lk_tasks s"])
    qed
  qed
qed

lemma locks_ok_step: "lock_step s s' \<Longrightarrow> locks_ok s \<Longrightarrow> locks_ok s'"
proof (induction rule: lock_step.induct)
  case (run i s a ops)
  show ?case
  proof (cases a)
    case (Acquire l m)
    then show ?thesis
      using locks_ok_grant[OF run(4,1,2), of l m ops] locks_ok_enqueue[OF run(4,1,2), of l m ops] run(3)
      by (cases s) (auto simp: Let_def)
  next
    case (Release l)
    then show ?thesis
      using locks_ok_release[OF run(4,1,2), of l ops] run(3)
      by (simp add: Let_def split: prod.split)
  qed
qed

lemma locks_ok_reachable: "lock_steps s s' \<Longrightarrow> locks_ok s \<Longrightarrow> locks_ok s'"
  by (induction rule: rtranclp_induct) (auto intro: locks_ok_step)

section \<open>Properties\<close>

text \<open>C11. Two reports that arrive together can block each other for good: the first gives the
  paths back and asks for them again while it holds the heartbeats, the second takes the
  paths in between and asks for the heartbeats.\<close>

theorem two_reports_deadlock:
  "\<exists>s. lock_steps (start [add_path_ops f, add_path_ops g]) s \<and> deadlocked s"
proof (intro exI conjI)
  show "lock_steps (start [add_path_ops f, add_path_ops g])
          (schedule [0, 0, 0, 1, 0, 1] (start [add_path_ops f, add_path_ops g]))"
    by (rule runnable_steps) (simp add: start_def add_path_ops_def admissible_def holds_def)
  show "deadlocked (schedule [0, 0, 0, 1, 0, 1] (start [add_path_ops f, add_path_ops g]))"
    by (simp add: deadlocked_def finished_def start_def add_path_ops_def admissible_def holds_def)
qed

text \<open>C12. The other handlers take their locks in one order, so no number of them running together,
  in whatever interleaving, reaches a state in which all that are left wait for each other.\<close>

theorem ordered_handlers_never_deadlock:
  assumes "set ps \<subseteq> {receive_sync_ops, prepare_sync_ops, get_stats_ops, register_peer_ops,
                       get_peers_ops, get_correlations_ops}"
    and "lock_steps (start ps) s"
  shows "\<not> deadlocked s"
proof -
  have "list_all (in_order []) ps" using assms(1) ordered_handlers by (auto simp: list_all_iff)
  then show ?thesis by (intro locks_ok_progress locks_ok_reachable[OF assms(2)] locks_ok_start)
qed

theorem ordered_handlers_never_deadlock_witness:
  "\<not> deadlocked (schedule [0, 1] (start [receive_sync_ops, get_stats_ops]))"
  by (rule ordered_handlers_never_deadlock[of "[receive_sync_ops, get_stats_ops]"])
    (simp, rule runnable_steps, simp add: start_def receive_sync_ops_def get_stats_ops_def admissible_def holds_def)

end
