(* ===== verification/Remediator.thy ===== *)
theory Remediator
  imports Safe_Enforcement Risk_Engine
begin

text \<open>
  \<open>remediator.rs\<close>: the client of the remediation service, and the enumerations of its
  protocol (\<open>generated/remediator.rs\<close>). The service is remote code: \<open>answer\<close> gives the error of a
  call, if any. A service without a client only logs.
\<close>

section \<open>Requests\<close>

record RemediationRequest =
  rq_finding_id :: string
  rq_threat_level :: "32 word"
  rq_workload_id :: string
  rq_namespace :: string
  rq_pod_name :: string
  rq_container_name :: string
  rq_cve_id :: string
  rq_cvss_score :: f32
  rq_epss_score :: f32
  rq_is_kev :: bool
  rq_package_name :: string
  rq_recommended_action :: string
  rq_labels :: "(string \<times> string) list"

record SeccompProfileRequest =
  sq_workload_id :: string
  sq_profile_json :: string
  sq_namespace :: string
  sq_dry_run :: bool

record BlockRequest =
  bq_workload_id :: string
  bq_namespace :: string
  bq_direction :: string
  bq_reason :: string
  bq_duration_sec :: "32 word"
  bq_allowed_ips :: "string list"

record QuarantineRequest =
  qq_workload_id :: string
  qq_namespace :: string
  qq_reason :: string
  qq_isolate_network :: bool
  qq_isolate_storage :: bool
  qq_duration_minutes :: "32 word"

datatype rpc =
  CallRemediate RemediationRequest
| CallApplySeccomp SeccompProfileRequest
| CallBlockNetwork BlockRequest
| CallQuarantine QuarantineRequest

section \<open>Enumerations of the protocol\<close>

datatype ThreatLevel = TlInfo | TlLow | TlMedium | TlHigh | TlCritical

definition ThreatLevel_number :: "ThreatLevel \<Rightarrow> 32 word" where
  "ThreatLevel_number l =
     (case l of TlInfo \<Rightarrow> 0 | TlLow \<Rightarrow> 1 | TlMedium \<Rightarrow> 2 | TlHigh \<Rightarrow> 3 | TlCritical \<Rightarrow> 4)"

fun ThreatLevel_as_str_name :: "ThreatLevel \<Rightarrow> string" where
  "ThreatLevel_as_str_name TlInfo = ''INFO''"
| "ThreatLevel_as_str_name TlLow = ''LOW''"
| "ThreatLevel_as_str_name TlMedium = ''MEDIUM''"
| "ThreatLevel_as_str_name TlHigh = ''HIGH''"
| "ThreatLevel_as_str_name TlCritical = ''CRITICAL''"

definition ThreatLevel_from_str_name :: "string \<Rightarrow> ThreatLevel option" where
  "ThreatLevel_from_str_name v =
     (if v = ''INFO'' then Some TlInfo else if v = ''LOW'' then Some TlLow
      else if v = ''MEDIUM'' then Some TlMedium else if v = ''HIGH'' then Some TlHigh
      else if v = ''CRITICAL'' then Some TlCritical else None)"

datatype EnforcementAction =
  ActionNone | ActionNotify | ActionBlockEgress | ActionBlockIngress | ActionQuarantine
| ActionTerminate | ActionPatch

fun EnforcementAction_as_str_name :: "EnforcementAction \<Rightarrow> string" where
  "EnforcementAction_as_str_name ActionNone = ''ACTION_NONE''"
| "EnforcementAction_as_str_name ActionNotify = ''ACTION_NOTIFY''"
| "EnforcementAction_as_str_name ActionBlockEgress = ''ACTION_BLOCK_EGRESS''"
| "EnforcementAction_as_str_name ActionBlockIngress = ''ACTION_BLOCK_INGRESS''"
| "EnforcementAction_as_str_name ActionQuarantine = ''ACTION_QUARANTINE''"
| "EnforcementAction_as_str_name ActionTerminate = ''ACTION_TERMINATE''"
| "EnforcementAction_as_str_name ActionPatch = ''ACTION_PATCH''"

definition EnforcementAction_from_str_name :: "string \<Rightarrow> EnforcementAction option" where
  "EnforcementAction_from_str_name v =
     (if v = ''ACTION_NONE'' then Some ActionNone else if v = ''ACTION_NOTIFY'' then Some ActionNotify
      else if v = ''ACTION_BLOCK_EGRESS'' then Some ActionBlockEgress
      else if v = ''ACTION_BLOCK_INGRESS'' then Some ActionBlockIngress
      else if v = ''ACTION_QUARANTINE'' then Some ActionQuarantine
      else if v = ''ACTION_TERMINATE'' then Some ActionTerminate
      else if v = ''ACTION_PATCH'' then Some ActionPatch else None)"

section \<open>The service\<close>

text \<open>The client is a handle, present or not.\<close>

record RemediatorService =
  rs_client :: "unit option"
  rs_config :: RiskConfig

definition RemediatorService_new_mock :: RemediatorService where
  "RemediatorService_new_mock =
     \<lparr>rs_client = None, rs_config = \<lparr>minimum_cvss = lit64 7, minimum_epss = lit64 (4/10)\<rparr>\<rparr>"

text \<open>\<open>proto\<close>: the protocol is compiled in. \<open>dial\<close> is the error of the connection attempt, if any.\<close>

definition rs_connect ::
  "bool \<Rightarrow> (string \<Rightarrow> string option) \<Rightarrow> string \<Rightarrow> ScannerError + RemediatorService" where
  "rs_connect proto dial addr =
     (if \<not> proto then Inr RemediatorService_new_mock
      else (case dial (''http://'' @ addr) of
              Some e \<Rightarrow> Inl (ErrBpf (''Failed to connect to remediator: '' @ e))
            | None \<Rightarrow> Inr \<lparr>rs_client = Some (),
                           rs_config = \<lparr>minimum_cvss = lit64 7, minimum_epss = lit64 (4/10)\<rparr>\<rparr>))"

definition priority_to_threat_level :: "Priority \<Rightarrow> 32 word" where
  "priority_to_threat_level p =
     (case p of Informational \<Rightarrow> 0 | PLow \<Rightarrow> 1 | PMedium \<Rightarrow> 2 | PHigh \<Rightarrow> 3 | PCritical \<Rightarrow> 4)"

definition remediation_request :: "Finding \<Rightarrow> RemediationRequest" where
  "remediation_request f =
     \<lparr>rq_finding_id = fd_id f, rq_threat_level = priority_to_threat_level (fd_priority f),
      rq_workload_id = ri_workload (fd_identity f), rq_namespace = ri_namespace (fd_identity f),
      rq_pod_name = ri_pod_name (fd_identity f), rq_container_name = ri_container_name (fd_identity f),
      rq_cve_id = rs_cve (fd_signal f), rq_cvss_score = rs_cvss (fd_signal f),
      rq_epss_score = rs_epss (fd_signal f), rq_is_kev = rs_kev (fd_signal f),
      rq_package_name = rs_package (fd_signal f), rq_recommended_action = fd_recommendation f,
      rq_labels = []\<rparr>"

text \<open>What a call sends, with its error.\<close>

definition send_rpc :: "(rpc \<Rightarrow> string option) \<Rightarrow> string \<Rightarrow> rpc \<Rightarrow> rpc list \<times> ScannerError option" where
  "send_rpc answer what r =
     ([r], map_option (\<lambda>e. ErrBpf (what @ '' failed: '' @ e)) (answer r))"

definition remediate_finding ::
  "(rpc \<Rightarrow> string option) \<Rightarrow> Finding \<Rightarrow> RemediatorService \<Rightarrow> rpc list \<times> ScannerError option" where
  "remediate_finding answer f s =
     (case rs_client s of
        None \<Rightarrow> ([], None)
      | Some _ \<Rightarrow> send_rpc answer ''Remediation'' (CallRemediate (remediation_request f)))"

definition enforce_seccomp ::
  "(SeccompProfile \<Rightarrow> string + string) \<Rightarrow> (rpc \<Rightarrow> string option) \<Rightarrow> string \<Rightarrow> SeccompProfile
   \<Rightarrow> RemediatorService \<Rightarrow> rpc list \<times> ScannerError option" where
  "enforce_seccomp to_json answer workload profile s =
     (case rs_client s of
        None \<Rightarrow> ([], None)
      | Some _ \<Rightarrow>
          (case to_json profile of
             Inl e \<Rightarrow> ([], Some (ErrJson e))
           | Inr j \<Rightarrow> send_rpc answer ''Seccomp enforcement''
               (CallApplySeccomp \<lparr>sq_workload_id = workload, sq_profile_json = j,
                  sq_namespace = ''default'', sq_dry_run = False\<rparr>)))"

definition block_egress ::
  "(rpc \<Rightarrow> string option) \<Rightarrow> string \<Rightarrow> string \<Rightarrow> RemediatorService \<Rightarrow> rpc list \<times> ScannerError option" where
  "block_egress answer pod namespace s =
     (case rs_client s of
        None \<Rightarrow> ([], None)
      | Some _ \<Rightarrow> send_rpc answer ''Network block''
          (CallBlockNetwork \<lparr>bq_workload_id = pod, bq_namespace = namespace, bq_direction = ''egress'',
             bq_reason = ''Suspicious network activity detected'', bq_duration_sec = 3600,
             bq_allowed_ips = []\<rparr>))"

definition rs_quarantine_pod ::
  "(rpc \<Rightarrow> string option) \<Rightarrow> string \<Rightarrow> string \<Rightarrow> string \<Rightarrow> RemediatorService
   \<Rightarrow> rpc list \<times> ScannerError option" where
  "rs_quarantine_pod answer pod namespace reason s =
     (case rs_client s of
        None \<Rightarrow> ([], None)
      | Some _ \<Rightarrow> send_rpc answer ''Quarantine''
          (CallQuarantine \<lparr>qq_workload_id = pod, qq_namespace = namespace, qq_reason = reason,
             qq_isolate_network = True, qq_isolate_storage = False, qq_duration_minutes = 0\<rparr>))"

section \<open>Facts\<close>

lemma names_roundtrip:
  "ThreatLevel_from_str_name (ThreatLevel_as_str_name l) = Some l"
  "EnforcementAction_from_str_name (EnforcementAction_as_str_name a) = Some a"
  by (cases l; simp add: ThreatLevel_from_str_name_def) (cases a; simp add: EnforcementAction_from_str_name_def)

text \<open>The level of a priority, in the protocol's own names.\<close>

fun level_of :: "Priority \<Rightarrow> ThreatLevel" where
  "level_of Informational = TlInfo"
| "level_of PLow = TlLow"
| "level_of PMedium = TlMedium"
| "level_of PHigh = TlHigh"
| "level_of PCritical = TlCritical"

lemma priority_number: "priority_to_threat_level p = ThreatLevel_number (level_of p)"
  by (cases p) (simp_all add: priority_to_threat_level_def ThreatLevel_number_def)

lemma threat_level_mono: "priority_to_threat_level p \<le> priority_to_threat_level q \<longleftrightarrow> p \<le> q"
  by (cases p; cases q) (simp_all add: priority_to_threat_level_def less_eq_Priority_def word_le_nat_alt)

section \<open>Properties\<close>

text \<open>The number sent for a priority is the number of the protocol's level of that rank, whose
  printed name reads back as the level, and more urgent findings get greater numbers.\<close>

theorem threat_levels_agree:
  "priority_to_threat_level p = ThreatLevel_number (level_of p)
   \<and> ThreatLevel_from_str_name (ThreatLevel_as_str_name (level_of p)) = Some (level_of p)
   \<and> (priority_to_threat_level p \<le> priority_to_threat_level q \<longleftrightarrow> p \<le> q)"
  by (intro conjI priority_number names_roundtrip threat_level_mono)

text \<open>Without a connection every operation reports success and sends nothing: a service that
  fell back to the mock looks like one that remediates.\<close>

theorem mock_reports_success:
  "remediate_finding answer f RemediatorService_new_mock = ([], None)
   \<and> enforce_seccomp to_json answer w p RemediatorService_new_mock = ([], None)
   \<and> block_egress answer pod ns RemediatorService_new_mock = ([], None)
   \<and> rs_quarantine_pod answer pod ns r RemediatorService_new_mock = ([], None)"
  by (simp add: RemediatorService_new_mock_def remediate_finding_def enforce_seccomp_def
      block_egress_def rs_quarantine_pod_def)

end
