(* ===== verification/Agent.thy ===== *)
theory Agent
  imports Correlation Inventory Risk_Engine Intel Attack_Graph Webhook_Export Remediator Event_Consumer
begin

text \<open>
  \<open>main.rs\<close>: what the agent does with the state its event consumer builds up. In batch mode
  a cycle takes a snapshot of the state store, resolves the cgroups to containers, scans
  the image of every known container, exports and remediates what it finds, builds
  attack paths, and clears the store. The consumer shares the store and the resolver with it. The
  host, Trivy, the endpoints, the remediation service, standard output and fresh ids are
  arguments; None is a panic, of the graph library or of a print to a closed output.
\<close>

section \<open>Arguments and buffers\<close>

definition strip_tail :: "nat \<Rightarrow> string \<Rightarrow> string" where
  "strip_tail n s = take (length s - n) s"

definition parse_duration :: "string \<Rightarrow> u64" where
  "parse_duration s =
     (if ends_with s ''ms''
      then (case parse_uint (2 ^ 64) (strip_tail 2 s) of None \<Rightarrow> 1000 | Some n \<Rightarrow> of_int n)
      else if ends_with s ''s''
      then (case parse_uint (2 ^ 64) (strip_tail 1 s) of None \<Rightarrow> 1 | Some n \<Rightarrow> of_int n) * 1000
      else (case parse_uint (2 ^ 64) s of None \<Rightarrow> 1000 | Some n \<Rightarrow> of_int n))"

definition fixed_buf :: "nat \<Rightarrow> string \<Rightarrow> u8 list" where
  "fixed_buf n v = (let bs = take n (map of_char v) in bs @ replicate (n - length bs) 0)"

definition command_buf :: "string \<Rightarrow> u8 list" where "command_buf = fixed_buf 16"
definition argv_buf :: "string \<Rightarrow> u8 list" where "argv_buf = fixed_buf ARGS_LEN"
definition path_buf :: "string \<Rightarrow> u8 list" where "path_buf = fixed_buf PATH_LEN"

section \<open>Scanning the image of a workload\<close>

record agent_parts =
  ak_intel :: IntelState
  ak_risk :: RiskConfig
  ak_detector :: VulnDetector
  ak_sboms :: SbomStore
  ak_pods :: PodCache
  ak_exports :: ExportManager
  ak_remediator :: RemediatorService

record agent_env =
  ae_proc :: "u64 \<Rightarrow> string \<Rightarrow> proc_dir"
  ae_from_str :: "string \<Rightarrow> string + TrivyReport"
  ae_trivy :: "string list \<Rightarrow> trivy_run"
  ae_debug :: "string list \<Rightarrow> string"
  ae_uuid :: "u64 \<Rightarrow> nat \<Rightarrow> string"
  ae_now :: "u64 \<Rightarrow> nat \<Rightarrow> int"
  ae_stdout :: "Finding \<Rightarrow> bool"
  ae_status :: "nat \<Rightarrow> string"
  ae_http :: "Finding \<Rightarrow> nat \<Rightarrow> nat \<Rightarrow> http_outcome"
  ae_rpc :: "rpc \<Rightarrow> string option"
  ae_paths :: "u64 \<Rightarrow> nat \<Rightarrow> path_env"
  ae_attach :: "u64 \<Rightarrow> nat \<Rightarrow> path_env"

definition epss_or_zero :: "string \<Rightarrow> IntelState \<Rightarrow> f32" where
  "epss_or_zero cve i = (case get_epss cve i of None \<Rightarrow> Fin 0 | Some x \<Rightarrow> x)"

definition vuln_signal :: "IntelState \<Rightarrow> WorkloadState \<Rightarrow> Vulnerability \<Rightarrow> RiskSignal" where
  "vuln_signal i w v =
     (let m = correlate_vulnerability w v
      in \<lparr>rs_cve = vl_cve v, rs_cvss = vl_cvss_score v, rs_epss = epss_or_zero (vl_cve v) i,
          rs_kev = in_is_kev (vl_cve v) i, rs_runtime = rm_disposition m, rs_package = vl_package v,
          rs_observed_paths = rm_observed_paths m, rs_signal_weight = rm_signal_weight m\<rparr>)"

definition signal_evidence :: "WorkloadState \<Rightarrow> RuntimeMatch \<Rightarrow> SignalEvidence list" where
  "signal_evidence w m =
     map (\<lambda>s. \<lparr>se_signal_type = SignalType_debug (sg_signal_type s), se_timestamp_ns = sg_timestamp_ns s,
               se_details = sg_details s, se_confidence = fmin (sg_weight s) (lit32 1)\<rparr>)
       (filter (\<lambda>s. list_ex (\<lambda>e. rv_timestamp_ns e = sg_timestamp_ns s \<and> rv_details e = sg_details s)
                      (rm_evidence m)) (ws_signals w))"

definition sbom_signal ::
  "IntelState \<Rightarrow> WorkloadState \<Rightarrow> SbomComponent \<Rightarrow> RuntimeDisposition \<Rightarrow> CveRecord \<Rightarrow> RiskSignal" where
  "sbom_signal i w c rt cve =
     \<lparr>rs_cve = cr_id cve, rs_cvss = cr_cvss cve, rs_epss = epss_or_zero (cr_id cve) i,
      rs_kev = in_is_kev (cr_id cve) i, rs_runtime = rt, rs_package = sc_package c,
      rs_observed_paths = filter (\<lambda>p. p \<in> set (sc_paths c)) (ws_observed_paths w),
      rs_signal_weight = signal_weight w\<rparr>"

definition sbom_signals :: "agent_parts \<Rightarrow> RuntimeIdentity \<Rightarrow> WorkloadState \<Rightarrow> RiskSignal list" where
  "sbom_signals parts identity w =
     concat (map (\<lambda>(c, rt). map (sbom_signal (ak_intel parts) w c rt) (sc_cves c))
       (classify_runtime_paths (ri_image identity) (ws_observed_paths w) (ak_sboms parts)))"

text \<open>The signals of a workload with their evidence, from Trivy or else from the SBOM.\<close>

definition workload_signals ::
  "agent_env \<Rightarrow> agent_parts \<Rightarrow> RuntimeIdentity \<Rightarrow> WorkloadState
   \<Rightarrow> (RiskSignal \<times> SignalEvidence list option) list" where
  "workload_signals env parts identity w =
     (case scan_image (ae_from_str env) (ae_trivy env) (ak_detector parts) (ri_image identity) of
        Inr vulns \<Rightarrow>
          map (\<lambda>v. (vuln_signal (ak_intel parts) w v,
                    Some (signal_evidence w (correlate_vulnerability w v)))) vulns
      | Inl e \<Rightarrow> map (\<lambda>sg. (sg, None)) (sbom_signals parts identity w))"

definition agent_scan_image ::
  "agent_env \<Rightarrow> agent_parts \<Rightarrow> u64 \<Rightarrow> RuntimeIdentity \<Rightarrow> WorkloadState \<Rightarrow> Finding list" where
  "agent_scan_image env parts cg identity w =
     List.map_filter (\<lambda>(k, sg, ev).
         rk_evaluate (ak_risk parts) (ae_debug env) (ae_uuid env cg k) (ae_now env cg k) identity sg ev)
       (enumerate 0 (workload_signals env parts identity w))"

section \<open>Attack paths of a workload\<close>

text \<open>The calls on the graph, in order: every library with the findings it matches, and a made-up
  connection for every signal that speaks of a transfer.\<close>

definition cve_event :: "Finding \<Rightarrow> graph_event" where
  "cve_event f =
     GCve (rs_cve (fd_signal f)) (rs_package (fd_signal f)) (rs_cvss (fd_signal f))
       (rs_epss (fd_signal f)) (rs_kev (fd_signal f))"

definition library_events :: "u64 \<Rightarrow> RuntimeIdentity \<Rightarrow> Finding list \<Rightarrow> string \<Rightarrow> graph_event list" where
  "library_events cg identity fs lib =
     GLibrary 0 (ri_workload identity) cg lib 0
     # map cve_event (filter (\<lambda>f. library_matches_package lib (rs_package (fd_signal f))) fs)"

definition transfer_event :: "u64 \<Rightarrow> RuntimeIdentity \<Rightarrow> RuntimeSignal \<Rightarrow> graph_event" where
  "transfer_event cg identity s =
     GNetwork 0 (ri_workload identity) cg
       \<lparr>ne_timestamp_ns = sg_timestamp_ns s, ne_pid = 0, ne_tgid = 0, ne_cgroup_id = cg, ne_saddr = 0,
        ne_daddr = 0, ne_sport = 0, ne_dport = 443, ne_family = 2, ne_protocol = 6,
        ne_kind = KTcpSend, ne_data_size = 1024\<rparr>"

definition workload_events :: "u64 \<Rightarrow> RuntimeIdentity \<Rightarrow> WorkloadState \<Rightarrow> Finding list \<Rightarrow> graph_event list" where
  "workload_events cg identity w fs =
     concat (map (library_events cg identity fs) (ws_loaded_libraries w))
     @ map (transfer_event cg identity) (filter (\<lambda>s. contains (sg_details s) ''transfer'') (ws_signals w))"

definition agent_attack_paths ::
  "'g path_ops \<Rightarrow> agent_env \<Rightarrow> u64 \<Rightarrow> RuntimeIdentity \<Rightarrow> WorkloadState \<Rightarrow> Finding list
   \<Rightarrow> 'g RuntimeAttackGraph \<Rightarrow> (Finding list \<times> 'g RuntimeAttackGraph) option" where
  "agent_attack_paths G env cg identity w fs g =
     (case graph_run G (workload_events cg identity w fs) g of
        None \<Rightarrow> None
      | Some g1 \<Rightarrow>
          (let (summaries, g2) = get_top_k_paths G (ae_paths env cg) fs g1;
               (updates, g3) = drain_updates g2
           in Some (attach_attack_paths_to_findings G (ae_attach env cg) fs g3)))"

section \<open>A cycle\<close>

text \<open>What the agent does to the outside.\<close>

datatype effect =
  Printed Finding
| Exported Finding "ExportResult list"
| Remediation Finding "rpc list \<times> ScannerError option"

record 'g AgentState =
  as_store :: StateStore
  as_keys :: "u64 list"
  as_resolver :: CgroupResolver
  as_graph :: "'g RuntimeAttackGraph"
  as_findings :: "Finding list"
  as_log :: "effect list"

text \<open>What the event consumer does meanwhile: it records an event in the store, whose keys come
  with it in their order, or a flush resolves the cgroup of an event with the resolver that the
  cycle uses as well.\<close>

datatype observation = Recorded store_event | LookedUp u64 "string \<Rightarrow> proc_dir"

fun observe :: "'g AgentState \<Rightarrow> observation \<Rightarrow> 'g AgentState" where
  "observe s (Recorded e) =
     s\<lparr>as_store := store_step (as_store s) e, as_keys := bset_insert (event_cgroup e) (as_keys s)\<rparr>"
| "observe s (LookedUp c proc) = s\<lparr>as_resolver := snd (resolve proc c (as_resolver s))\<rparr>"

definition snapshot_of :: "'g AgentState \<Rightarrow> (u64 \<times> WorkloadState) list" where
  "snapshot_of s =
     List.map_filter (\<lambda>c. map_option (Pair c) (st_snapshot (as_store s) c)) (as_keys s)"

fun resolve_all ::
  "(u64 \<Rightarrow> string \<Rightarrow> proc_dir) \<Rightarrow> u64 list \<Rightarrow> CgroupResolver
   \<Rightarrow> (u64 \<times> string \<times> u32) list \<times> CgroupResolver" where
  "resolve_all proc [] r = ([], r)"
| "resolve_all proc (c # cs) r =
     (let (entry, r) = resolve (proc c) c r; (m, r) = resolve_all proc cs r
      in (case entry of None \<Rightarrow> m | Some e \<Rightarrow> bmap_insert c e m, r))"

definition finding_effects :: "agent_env \<Rightarrow> agent_parts \<Rightarrow> Finding \<Rightarrow> effect list" where
  "finding_effects env parts f =
     [Printed f, Exported f (export_to_all (ae_status env) (ae_http env f) f (ak_exports parts))]
     @ (if fd_priority f = PCritical
        then [Remediation f (remediate_finding (ae_rpc env) f (ak_remediator parts))] else [])"

definition process_workload ::
  "'g path_ops \<Rightarrow> agent_env \<Rightarrow> agent_parts \<Rightarrow> (u64 \<times> string \<times> u32) list \<Rightarrow> u64 \<times> WorkloadState
   \<Rightarrow> 'g AgentState \<Rightarrow> 'g AgentState option" where
  "process_workload G env parts cmap entry s =
     (case entry of (cg, w) \<Rightarrow>
        (case map_of cmap cg of
           None \<Rightarrow> Some s
         | Some (container_id, pid) \<Rightarrow>
             (case pc_lookup container_id (ak_pods parts) of
                None \<Rightarrow> Some s
              | Some identity \<Rightarrow>
                  (let fs = agent_scan_image env parts cg identity w;
                       log = as_log s @ concat (map (finding_effects env parts) fs)
                   in if list_ex (\<lambda>f. \<not> ae_stdout env f) fs then None
                      else (case agent_attack_paths G env cg identity w fs (as_graph s) of
                              None \<Rightarrow> None
                            | Some (fs, g) \<Rightarrow>
                                Some (s\<lparr>as_graph := g, as_findings := as_findings s @ fs, as_log := log\<rparr>))))))"

primrec process_all ::
  "'g path_ops \<Rightarrow> agent_env \<Rightarrow> agent_parts \<Rightarrow> (u64 \<times> string \<times> u32) list \<Rightarrow> (u64 \<times> WorkloadState) list
   \<Rightarrow> 'g AgentState \<Rightarrow> 'g AgentState option" where
  "process_all G env parts cmap [] s = Some s"
| "process_all G env parts cmap (x # xs) s =
     Option.bind (process_workload G env parts cmap x s) (process_all G env parts cmap xs)"

text \<open>\<open>during\<close>: what the consumer does between the snapshot and the resolving of its cgroups, and from
  then on until the store is cleared.\<close>

definition agent_cycle ::
  "'g path_ops \<Rightarrow> agent_env \<Rightarrow> agent_parts \<Rightarrow> observation list \<times> observation list \<Rightarrow> 'g AgentState
   \<Rightarrow> 'g AgentState option" where
  "agent_cycle G env parts during s =
     (let snap = snapshot_of s;
          s = foldl observe s (fst during);
          (cmap, r) = resolve_all (ae_proc env) (map fst snap) (as_resolver s);
          s = foldl observe (s\<lparr>as_resolver := r\<rparr>) (snd during)
      in map_option (\<lambda>s. s\<lparr>as_store := st_clear (as_store s), as_keys := []\<rparr>)
           (process_all G env parts cmap snap s))"

definition AgentState_new :: "'g path_ops \<Rightarrow> 'g AgentState" where
  "AgentState_new G =
     \<lparr>as_store = StateStore_default, as_keys = [], as_resolver = CgroupResolver_new ''/host/proc'',
      as_graph = with_defaults G, as_findings = [], as_log = []\<rparr>"

type_synonym round = "agent_env \<times> agent_parts \<times> observation list \<times> observation list \<times> observation list"

text \<open>The loop: what the consumer does before each cycle and during it. When it is told to stop it returns no
  findings, whatever it has gathered.\<close>

primrec agent_loop ::
  "'g path_ops \<Rightarrow> round list \<Rightarrow> 'g AgentState \<Rightarrow> 'g AgentState option" where
  "agent_loop G [] s = Some s"
| "agent_loop G (t # ts) s =
     (case t of (env, parts, before, during) \<Rightarrow>
        Option.bind (agent_cycle G env parts during (foldl observe s before)) (agent_loop G ts))"

definition run_analysis_pipeline ::
  "'g path_ops \<Rightarrow> round list \<Rightarrow> (Finding list \<times> 'g AgentState) option" where
  "run_analysis_pipeline G ts = map_option (Pair []) (agent_loop G ts (AgentState_new G))"

section \<open>What is reported\<close>

text \<open>A finding has runtime evidence, or its CVE is known to be exploited.\<close>

definition backed :: "Finding \<Rightarrow> bool" where
  "backed f \<longleftrightarrow> rs_kev (fd_signal f) \<or> rs_observed_paths (fd_signal f) \<noteq> []"

definition mentions_path :: "Finding \<Rightarrow> bool" where
  "mentions_path f \<longleftrightarrow> list_ex (\<lambda>e. se_signal_type e = ''attack_path'') (er_signals (fd_explainability f))"

fun effect_ok :: "effect \<Rightarrow> bool" where
  "effect_ok (Printed f) \<longleftrightarrow> backed f \<and> \<not> mentions_path f"
| "effect_ok (Exported f rs) \<longleftrightarrow> backed f \<and> \<not> mentions_path f"
| "effect_ok (Remediation f r) \<longleftrightarrow> backed f \<and> fd_priority f = PCritical"

lemma vuln_signal_backed: "rs_runtime (vuln_signal i w v) = Reachable \<Longrightarrow> rs_observed_paths (vuln_signal i w v) \<noteq> []"
  by (auto simp: vuln_signal_def correlate_fields Let_def split: if_splits)

lemma sbom_signal_backed:
  "sg \<in> set (sbom_signals parts identity w) \<Longrightarrow> rs_runtime sg = Reachable \<Longrightarrow> rs_observed_paths sg \<noteq> []"
  by (auto simp: sbom_signals_def classify_runtime_paths_def sbom_signal_def list_ex_iff filter_empty_conv
      split: if_splits)

lemma evidence_types: "e \<in> set (signal_evidence w m) \<Longrightarrow> se_signal_type e \<noteq> ''attack_path''"
proof -
  assume "e \<in> set (signal_evidence w m)"
  then obtain s where "se_signal_type e = SignalType_debug s" by (auto simp: signal_evidence_def)
  then show ?thesis by (cases s) auto
qed

lemma workload_signal_props:
  assumes "(sg, ev) \<in> set (workload_signals env parts identity w)"
  shows "rs_runtime sg = Reachable \<Longrightarrow> rs_observed_paths sg \<noteq> []"
    and "\<forall>e \<in> set (case ev of None \<Rightarrow> [] | Some es \<Rightarrow> es). se_signal_type e \<noteq> ''attack_path''"
proof -
  show "rs_runtime sg = Reachable \<Longrightarrow> rs_observed_paths sg \<noteq> []"
    using assms vuln_signal_backed sbom_signal_backed
    by (auto simp: workload_signals_def split: sum.splits)
  show "\<forall>e \<in> set (case ev of None \<Rightarrow> [] | Some es \<Rightarrow> es). se_signal_type e \<noteq> ''attack_path''"
    using assms evidence_types by (auto simp: workload_signals_def split: sum.splits)
qed

lemma map_filter_in: "y \<in> set (List.map_filter f xs) \<Longrightarrow> \<exists>x \<in> set xs. f x = Some y"
  by (induction xs) (auto simp: List.map_filter_def split: if_splits)

lemma scanned_finding:
  assumes "f \<in> set (agent_scan_image env parts cg identity w)"
  obtains sg ev u n where "(sg, ev) \<in> set (workload_signals env parts identity w)"
    "rk_evaluate (ak_risk parts) (ae_debug env) u n identity sg ev = Some f"
proof -
  obtain k sg ev where k: "(k, sg, ev) \<in> set (enumerate 0 (workload_signals env parts identity w))"
    and r: "rk_evaluate (ak_risk parts) (ae_debug env) (ae_uuid env cg k) (ae_now env cg k) identity sg ev = Some f"
    using map_filter_in[OF assms[unfolded agent_scan_image_def]] by auto
  have "(sg, ev) \<in> set (workload_signals env parts identity w)"
    using k nth_mem[of k "workload_signals env parts identity w"] by (auto simp: in_set_enumerate_eq)
  with r show thesis by (rule that[rotated])
qed

lemma scanned_ok:
  assumes "f \<in> set (agent_scan_image env parts cg identity w)"
  shows "backed f \<and> \<not> mentions_path f"
proof -
  obtain sg ev u n where s: "(sg, ev) \<in> set (workload_signals env parts identity w)"
    and r: "rk_evaluate (ak_risk parts) (ae_debug env) u n identity sg ev = Some f"
    using scanned_finding[OF assms] .
  have "rs_kev sg \<or> rs_runtime sg = Reachable"
    using evaluate_Some_iff[of "ak_risk parts" "ae_debug env" u n identity sg ev] r by auto
  then have "backed f" using workload_signal_props(1)[OF s] evaluate_fields(1)[OF r] by (auto simp: backed_def)
  moreover have "fd_explainability f = build_explainability sg (calculate_exf_score sg) ev"
    using r by (auto simp: rk_evaluate_def Let_def split: if_splits)
  then have "\<not> mentions_path f"
    using workload_signal_props(2)[OF s] by (auto simp: mentions_path_def build_explainability_def list_ex_iff)
  ultimately show ?thesis by simp
qed

lemma effects_ok: "backed f \<Longrightarrow> \<not> mentions_path f \<Longrightarrow> list_all effect_ok (finding_effects env parts f)"
  by (simp add: finding_effects_def)

section \<open>Cycles\<close>

definition entry_findings ::
  "agent_env \<Rightarrow> agent_parts \<Rightarrow> (u64 \<times> string \<times> u32) list \<Rightarrow> u64 \<times> WorkloadState \<Rightarrow> Finding list" where
  "entry_findings env parts cmap entry =
     (case entry of (cg, w) \<Rightarrow>
        (case map_of cmap cg of
           None \<Rightarrow> []
         | Some (container_id, pid) \<Rightarrow>
             (case pc_lookup container_id (ak_pods parts) of
                None \<Rightarrow> [] | Some identity \<Rightarrow> agent_scan_image env parts cg identity w)))"

lemma graph_ok_metrics [simp]:
  "graph_ok G (snd (get_top_k_paths G es fs g)) = graph_ok G g"
  "graph_ok G (snd (drain_updates g)) = graph_ok G g"
  "graph_ok G (snd (attach_attack_paths_to_findings G es fs g)) = graph_ok G g"
  by (simp_all add: graph_ok_def get_top_k_paths_def drain_updates_def attach_attack_paths_to_findings_def
      build_attack_paths_def Let_def)

lemma attached_length: "length (fst (attach_attack_paths_to_findings G es fs g)) = length fs"
  by (simp add: attach_attack_paths_to_findings_def case_prod_beta Let_def)

lemma sized_metrics [simp]:
  "graph_sized G n (snd (get_top_k_paths G es fs g)) = graph_sized G n g"
  "graph_sized G n (snd (drain_updates g)) = graph_sized G n g"
  "graph_sized G n (snd (attach_attack_paths_to_findings G es fs g)) = graph_sized G n g"
  by (simp_all add: graph_sized_def libs_of_def get_top_k_paths_def drain_updates_def attach_attack_paths_to_findings_def
      build_attack_paths_def Let_def)

text \<open>The calls on the graph for one workload of a snapshot.\<close>

definition entry_events ::
  "agent_env \<Rightarrow> agent_parts \<Rightarrow> (u64 \<times> string \<times> u32) list \<Rightarrow> u64 \<times> WorkloadState \<Rightarrow> graph_event list" where
  "entry_events env parts cmap entry =
     (case entry of (cg, w) \<Rightarrow>
        (case map_of cmap cg of
           None \<Rightarrow> []
         | Some (container_id, pid) \<Rightarrow>
             (case pc_lookup container_id (ak_pods parts) of
                None \<Rightarrow> []
              | Some identity \<Rightarrow> workload_events cg identity w (agent_scan_image env parts cg identity w))))"

lemma agent_attack_paths_cases:
  assumes "digraph_laws G" "graph_ok G g" "graph_sized G n g"
  shows "case agent_attack_paths G env cg identity w fs g of
      None \<Rightarrow> 2 ^ 16 \<le> n + length (workload_events cg identity w fs)
    | Some (fs', g') \<Rightarrow> graph_ok G g' \<and> graph_sized G (n + length (workload_events cg identity w fs)) g'
        \<and> length fs' = length fs"
  using graph_run_ok[OF assms, of "workload_events cg identity w fs"]
  by (cases "graph_run G (workload_events cg identity w fs) g")
    (simp_all add: agent_attack_paths_def case_prod_beta Let_def attached_length)

lemma process_workload_cases:
  assumes "digraph_laws G" "graph_ok G (as_graph s)" "graph_sized G n (as_graph s)"
  shows "case process_workload G env parts cmap x s of
      None \<Rightarrow> (\<exists>f. \<not> ae_stdout env f) \<or> 2 ^ 16 \<le> n + length (entry_events env parts cmap x)
    | Some s' \<Rightarrow> graph_ok G (as_graph s') \<and> graph_sized G (n + length (entry_events env parts cmap x)) (as_graph s')
        \<and> as_log s' = as_log s @ concat (map (finding_effects env parts) (entry_findings env parts cmap x))
        \<and> length (as_findings s') = length (as_findings s) + length (entry_findings env parts cmap x)"
proof -
  obtain cg w where x: "x = (cg, w)" by fastforce
  show ?thesis
  proof (cases "case map_of cmap cg of None \<Rightarrow> None | Some (cid, _) \<Rightarrow> pc_lookup cid (ak_pods parts)")
    case None
    then show ?thesis using assms(2,3) x
      by (auto simp: process_workload_def entry_findings_def entry_events_def split: option.splits prod.splits)
  next
    case (Some identity)
    then obtain cid p where c: "map_of cmap cg = Some (cid, p)" "pc_lookup cid (ak_pods parts) = Some identity"
      by (auto split: option.splits)
    show ?thesis
      using agent_attack_paths_cases[OF assms, where env = env and cg = cg and identity = identity and w = w
          and fs = "agent_scan_image env parts cg identity w"] c x
      by (auto simp: process_workload_def entry_findings_def entry_events_def Let_def list_ex_iff split: option.splits)
  qed
qed

lemma process_all_cases:
  "digraph_laws G \<Longrightarrow> graph_ok G (as_graph s) \<Longrightarrow> graph_sized G n (as_graph s) \<Longrightarrow>
   case process_all G env parts cmap xs s of
     None \<Rightarrow> (\<exists>f. \<not> ae_stdout env f) \<or> 2 ^ 16 \<le> n + length (concat (map (entry_events env parts cmap) xs))
   | Some s' \<Rightarrow> graph_ok G (as_graph s')
       \<and> graph_sized G (n + length (concat (map (entry_events env parts cmap) xs))) (as_graph s')
       \<and> as_log s' = as_log s @ concat (map (finding_effects env parts) (concat (map (entry_findings env parts cmap) xs)))
       \<and> length (as_findings s') = length (as_findings s) + length (concat (map (entry_findings env parts cmap) xs))"
proof (induction xs arbitrary: s n)
  case (Cons x xs)
  note one = process_workload_cases[OF Cons.prems, of env parts cmap x]
  show ?case
  proof (cases "process_workload G env parts cmap x s")
    case None
    then show ?thesis using one by auto
  next
    case (Some s1)
    then have s1: "graph_ok G (as_graph s1)" "graph_sized G (n + length (entry_events env parts cmap x)) (as_graph s1)"
      "as_log s1 = as_log s @ concat (map (finding_effects env parts) (entry_findings env parts cmap x))"
      "length (as_findings s1) = length (as_findings s) + length (entry_findings env parts cmap x)"
      using one by simp_all
    from Cons.IH[OF Cons.prems(1) s1(1,2)] show ?thesis
      using Some s1(3,4) by (simp add: add.assoc split: option.splits)
  qed
qed simp

text \<open>Processing looks neither at what the consumer changes nor changes it.\<close>

lemma process_workload_shared:
  "process_workload G env parts cmap x (s\<lparr>as_store := st, as_keys := ks, as_resolver := r\<rparr>) =
   map_option (\<lambda>t. t\<lparr>as_store := st, as_keys := ks, as_resolver := r\<rparr>) (process_workload G env parts cmap x s)"
  by (auto simp: process_workload_def Let_def split: prod.splits option.splits)

lemma process_all_shared:
  "process_all G env parts cmap xs (s\<lparr>as_store := st, as_keys := ks, as_resolver := r\<rparr>) =
   map_option (\<lambda>t. t\<lparr>as_store := st, as_keys := ks, as_resolver := r\<rparr>) (process_all G env parts cmap xs s)"
proof (induction xs arbitrary: s)
  case (Cons x xs)
  show ?case
    by (cases "process_workload G env parts cmap x s") (simp_all add: process_workload_shared Cons.IH)
qed simp

text \<open>What the consumer's lookups leave in the resolver.\<close>

fun is_lookup :: "observation \<Rightarrow> bool" where
  "is_lookup (Recorded e) = False" | "is_lookup (LookedUp c proc) = True"

fun look :: "observation \<Rightarrow> CgroupResolver \<Rightarrow> CgroupResolver" where
  "look (Recorded e) r = r" | "look (LookedUp c proc) r = snd (resolve proc c r)"

lemma look_lookups: "fold look (filter is_lookup es) r = fold look es r"
proof (induction es arbitrary: r)
  case (Cons e es)
  then show ?case by (cases e) simp_all
qed simp

lemma observe_only:
  "\<exists>st ks. foldl observe s es = s\<lparr>as_store := st, as_keys := ks, as_resolver := fold look es (as_resolver s)\<rparr>"
proof (induction es arbitrary: s)
  case (Cons e es)
  obtain st ks where "foldl observe (observe s e) es
      = (observe s e)\<lparr>as_store := st, as_keys := ks, as_resolver := fold look es (as_resolver (observe s e))\<rparr>"
    using Cons.IH by blast
  then have "foldl observe s (e # es) = s\<lparr>as_store := st, as_keys := ks, as_resolver := fold look (e # es) (as_resolver s)\<rparr>"
    by (cases e) simp_all
  then show ?case by blast
next
  case Nil
  show ?case by (intro exI[of _ "as_store s"] exI[of _ "as_keys s"]) simp
qed

lemma observe_graph [simp]:
  "as_graph (foldl observe s es) = as_graph s" "as_log (foldl observe s es) = as_log s"
  "as_findings (foldl observe s es) = as_findings s"
  using observe_only[of s es] by auto

definition cycle_resolution ::
  "agent_env \<Rightarrow> observation list \<times> observation list \<Rightarrow> 'g AgentState \<Rightarrow> (u64 \<times> string \<times> u32) list \<times> CgroupResolver" where
  "cycle_resolution env during s =
     (let (cmap, r) = resolve_all (ae_proc env) (map fst (snapshot_of s)) (fold look (fst during) (as_resolver s))
      in (cmap, fold look (snd during) r))"

definition cycle_findings ::
  "agent_env \<Rightarrow> agent_parts \<Rightarrow> observation list \<times> observation list \<Rightarrow> 'g AgentState \<Rightarrow> Finding list" where
  "cycle_findings env parts during s =
     concat (map (entry_findings env parts (fst (cycle_resolution env during s))) (snapshot_of s))"

definition cycle_events ::
  "agent_env \<Rightarrow> agent_parts \<Rightarrow> observation list \<times> observation list \<Rightarrow> 'g AgentState \<Rightarrow> graph_event list" where
  "cycle_events env parts during s =
     concat (map (entry_events env parts (fst (cycle_resolution env during s))) (snapshot_of s))"

lemma cycle_eq:
  "agent_cycle G env parts during s =
     map_option (\<lambda>t. t\<lparr>as_resolver := snd (cycle_resolution env during s), as_store := StateStore_default, as_keys := []\<rparr>)
       (process_all G env parts (fst (cycle_resolution env during s)) (snapshot_of s) s)"
proof -
  obtain st ks where d: "foldl observe s (fst during)
      = s\<lparr>as_store := st, as_keys := ks, as_resolver := fold look (fst during) (as_resolver s)\<rparr>"
    using observe_only by blast
  obtain cmap r where r: "resolve_all (ae_proc env) (map fst (snapshot_of s)) (fold look (fst during) (as_resolver s)) = (cmap, r)"
    by fastforce
  obtain st' ks' where d': "foldl observe (s\<lparr>as_store := st, as_keys := ks, as_resolver := r\<rparr>) (snd during)
      = s\<lparr>as_store := st', as_keys := ks', as_resolver := fold look (snd during) r\<rparr>"
    using observe_only[of "s\<lparr>as_store := st, as_keys := ks, as_resolver := r\<rparr>" "snd during"] by auto
  have c: "st_clear x = StateStore_default" for x by (simp add: st_clear_def StateStore_default_def)
  show ?thesis
    by (simp add: agent_cycle_def cycle_resolution_def Let_def d r d' process_all_shared c option.map_comp comp_def)
qed

lemma cycle_cases:
  assumes "digraph_laws G" "graph_ok G (as_graph s)" "graph_sized G n (as_graph s)"
  shows "case agent_cycle G env parts during s of
      None \<Rightarrow> (\<exists>f. \<not> ae_stdout env f) \<or> 2 ^ 16 \<le> n + length (cycle_events env parts during s)
    | Some s' \<Rightarrow> graph_ok G (as_graph s') \<and> graph_sized G (n + length (cycle_events env parts during s)) (as_graph s')
        \<and> as_log s' = as_log s @ concat (map (finding_effects env parts) (cycle_findings env parts during s))
        \<and> length (as_findings s') = length (as_findings s) + length (cycle_findings env parts during s)
        \<and> as_store s' = StateStore_default \<and> as_keys s' = [] \<and> as_resolver s' = snd (cycle_resolution env during s)"
  using process_all_cases[OF assms, of env parts "fst (cycle_resolution env during s)" "snapshot_of s"]
  by (auto simp: cycle_eq cycle_findings_def cycle_events_def split: option.splits)

lemma entry_findings_ok: "f \<in> set (entry_findings env parts cmap x) \<Longrightarrow> backed f \<and> \<not> mentions_path f"
  using scanned_ok by (fastforce simp: entry_findings_def split: prod.splits option.splits)

lemma cycle_effects_ok: "list_all effect_ok (concat (map (finding_effects env parts) (cycle_findings env parts during s)))"
proof -
  have "list_all effect_ok (finding_effects env parts f)" if "f \<in> set (cycle_findings env parts during s)" for f
    using that entry_findings_ok by (intro effects_ok) (auto simp: cycle_findings_def)
  then show ?thesis by (auto simp: list_all_iff)
qed

text \<open>The calls on the graph in a whole run; they depend on what the consumer and the cycles share, not
  on the graph.\<close>

definition after_cycle :: "agent_env \<Rightarrow> observation list \<times> observation list \<Rightarrow> 'g AgentState \<Rightarrow> 'g AgentState" where
  "after_cycle env during s =
     s\<lparr>as_store := StateStore_default, as_keys := [], as_resolver := snd (cycle_resolution env during s)\<rparr>"

primrec loop_events :: "round list \<Rightarrow> 'g AgentState \<Rightarrow> graph_event list" where
  "loop_events [] s = []"
| "loop_events (t # ts) s =
     (case t of (env, parts, before, during) \<Rightarrow>
        cycle_events env parts during (foldl observe s before)
        @ loop_events ts (after_cycle env during (foldl observe s before)))"

definition same_host :: "'g AgentState \<Rightarrow> 'g AgentState \<Rightarrow> bool" where
  "same_host s t \<longleftrightarrow> as_store s = as_store t \<and> as_keys s = as_keys t \<and> as_resolver s = as_resolver t"

lemma same_observe: "same_host s t \<Longrightarrow> same_host (foldl observe s es) (foldl observe t es)"
proof (induction es arbitrary: s t)
  case (Cons e es)
  have "same_host (observe s e) (observe t e)" using Cons.prems by (cases e) (simp_all add: same_host_def)
  from Cons.IH[OF this] show ?case by simp
qed simp

lemma same_cycle:
  assumes "same_host s t"
  shows "cycle_events env parts during s = cycle_events env parts during t"
    "same_host (after_cycle env during s) (after_cycle env during t)"
proof -
  have n: "snapshot_of s = snapshot_of t" using assms by (simp add: snapshot_of_def same_host_def)
  have "cycle_resolution env during s = cycle_resolution env during t"
    using assms n by (simp add: cycle_resolution_def same_host_def)
  with n show "cycle_events env parts during s = cycle_events env parts during t"
    "same_host (after_cycle env during s) (after_cycle env during t)"
    by (simp_all add: cycle_events_def after_cycle_def same_host_def)
qed

lemma same_loop: "same_host s t \<Longrightarrow> loop_events ts s = loop_events ts t"
proof (induction ts arbitrary: s t)
  case (Cons r ts)
  obtain env parts before during where r: "r = (env, parts, before, during)" by (cases r) auto
  note o = same_cycle[OF same_observe[OF Cons.prems, of before]]
  show ?case unfolding r loop_events.simps prod.case o(1)[of env parts during] Cons.IH[OF o(2)[of env during]] ..
qed simp

definition agent_ok :: "'g path_ops \<Rightarrow> nat \<Rightarrow> 'g AgentState \<Rightarrow> bool" where
  "agent_ok G n s \<longleftrightarrow> graph_ok G (as_graph s) \<and> graph_sized G n (as_graph s) \<and> list_all effect_ok (as_log s)"

lemma agent_loop_cases:
  "digraph_laws G \<Longrightarrow> agent_ok G n s \<Longrightarrow>
   case agent_loop G ts s of
     None \<Rightarrow> list_ex (\<lambda>(env, rest). \<exists>f. \<not> ae_stdout env f) ts \<or> 2 ^ 16 \<le> n + length (loop_events ts s)
   | Some s' \<Rightarrow> agent_ok G (n + length (loop_events ts s)) s'"
proof (induction ts arbitrary: s n)
  case (Cons t ts)
  obtain env parts before during where t: "t = (env, parts, before, during)" by (cases t) auto
  let ?o = "foldl observe s before"
  have g: "graph_ok G (as_graph ?o)" "graph_sized G n (as_graph ?o)" "list_all effect_ok (as_log ?o)"
    using Cons.prems(2) by (simp_all add: agent_ok_def)
  note one = cycle_cases[OF Cons.prems(1) g(1,2), of env parts during]
  show ?case
  proof (cases "agent_cycle G env parts during ?o")
    case None
    then show ?thesis using one by (auto simp: t)
  next
    case (Some s1)
    then have s1: "agent_ok G (n + length (cycle_events env parts during ?o)) s1" "same_host s1 (after_cycle env during ?o)"
      using one g(3) cycle_effects_ok[of env parts during ?o]
      by (simp_all add: agent_ok_def same_host_def after_cycle_def)
    have "agent_loop G (t # ts) s = agent_loop G ts s1" using Some by (simp add: t)
    moreover have "length (loop_events (t # ts) s) = length (cycle_events env parts during ?o) + length (loop_events ts s1)"
      using same_loop[OF s1(2), of ts] by (simp add: t)
    ultimately show ?thesis using Cons.IH[OF Cons.prems(1) s1(1)] by (simp add: add.assoc split: option.splits)
  qed
qed simp

lemma agent_new_ok: "digraph_laws G \<Longrightarrow> agent_ok G 0 (AgentState_new G)"
  by (simp add: agent_ok_def AgentState_new_def with_defaults_def graph_ok_new sized_new)

section \<open>The snapshot\<close>

definition keys_ok :: "'g AgentState \<Rightarrow> bool" where
  "keys_ok s \<longleftrightarrow> bset_ok (as_keys s) \<and> set (as_keys s) = dom (by_cgroup (as_store s))"

lemma keys_ok_observe: "keys_ok s \<Longrightarrow> keys_ok (observe s e)"
  by (cases e) (auto simp: keys_ok_def store_step_eq set_insort_insert)

lemma keys_ok_run: "keys_ok s \<Longrightarrow> keys_ok (foldl observe s es)"
  by (induction es arbitrary: s) (simp_all add: keys_ok_observe)

definition records :: "observation list \<Rightarrow> store_event list" where
  "records es = List.map_filter (\<lambda>e. case e of Recorded r \<Rightarrow> Some r | LookedUp c proc \<Rightarrow> None) es"

lemma as_store_run: "as_store (foldl observe s es) = foldl store_step (as_store s) (records es)"
proof (induction es arbitrary: s)
  case (Cons e es)
  then show ?case by (cases e) (simp_all add: records_def map_filter_simps)
qed (simp add: records_def map_filter_simps)

lemma map_of_present: "set ks = dom m \<Longrightarrow> map_of (List.map_filter (\<lambda>c. map_option (Pair c) (m c)) ks) c = m c"
proof -
  have a: "map_of (List.map_filter (\<lambda>c. map_option (Pair c) (m c)) ks) c = (if c \<in> set ks then m c else None)" for ks
    by (induction ks) (auto simp: List.map_filter_def split: option.splits)
  show "set ks = dom m \<Longrightarrow> ?thesis" by (auto simp: a)
qed

lemma snapshot_complete: "keys_ok s \<Longrightarrow> map_of (snapshot_of s) = by_cgroup (as_store s)"
  by (rule ext) (simp add: snapshot_of_def st_snapshot_def keys_ok_def map_of_present)

section \<open>Properties\<close>



text \<open>C24. Events recorded while a cycle works on its snapshot are lost: the cycle ends in the state it
  would end in if only the lookups of the consumer had happened, with an empty store; what
  those lookups leave is the cache of the resolver.\<close>

theorem events_during_a_cycle_are_lost:
  "agent_cycle G env parts (d, e) s = agent_cycle G env parts (filter is_lookup d, filter is_lookup e) s
   \<and> map_option as_store (agent_cycle G env parts (d, e) s) \<in> {None, Some StateStore_default}
   \<and> map_option as_resolver (agent_cycle G env parts (d, e) s) \<in>
       {None, Some (fold look (filter is_lookup e) (snd (resolve_all (ae_proc env) (map fst (snapshot_of s))
                      (fold look (filter is_lookup d) (as_resolver s)))))}"
proof (intro conjI)
  have "cycle_resolution env (filter is_lookup d, filter is_lookup e) s = cycle_resolution env (d, e) s"
    by (simp add: cycle_resolution_def look_lookups)
  then show "agent_cycle G env parts (d, e) s = agent_cycle G env parts (filter is_lookup d, filter is_lookup e) s"
    by (simp only: cycle_eq)
  show "map_option as_store (agent_cycle G env parts (d, e) s) \<in> {None, Some StateStore_default}"
    unfolding cycle_eq by (auto simp: map_option_case split: option.splits)
  show "map_option as_resolver (agent_cycle G env parts (d, e) s) \<in>
       {None, Some (fold look (filter is_lookup e) (snd (resolve_all (ae_proc env) (map fst (snapshot_of s))
                      (fold look (filter is_lookup d) (as_resolver s)))))}"
    unfolding cycle_eq look_lookups
    by (auto simp: map_option_case cycle_resolution_def split_beta Let_def split: option.splits)
qed

text \<open>A cycle looks at every workload: the snapshot it works on holds, in the order of the cgroup
  ids, exactly the workloads that the events since the last cycle built up.\<close>

theorem cycle_covers_the_store:
  "map_of (snapshot_of (foldl observe (AgentState_new G) es)) = by_cgroup (foldl store_step StateStore_default (records es))"
proof -
  have k: "keys_ok (foldl observe (AgentState_new G) es)"
    by (intro keys_ok_run) (simp add: keys_ok_def AgentState_new_def StateStore_default_def)
  show ?thesis unfolding snapshot_complete[OF k] as_store_run by (simp add: AgentState_new_def)
qed

text \<open>A cycle adds one finding to the pipeline's list, one printed line and one export for every
  finding of the scans, and one remediation for each critical one, in that order.\<close>

theorem cycle_effects:
  "digraph_laws G \<Longrightarrow> graph_ok G (as_graph s) \<Longrightarrow> agent_cycle G env parts during s = Some s' \<Longrightarrow> graph_sized G n (as_graph s) \<Longrightarrow>
   as_log s' = as_log s @ concat (map (finding_effects env parts) (cycle_findings env parts during s))
   \<and> length (as_findings s') = length (as_findings s) + length (cycle_findings env parts during s)"
  using cycle_cases[of G s n env parts during] by simp

theorem cycle_effects_witness:
  "\<forall>env parts. \<exists>s'. agent_cycle list_graph env parts ([], []) (AgentState_new list_graph) = Some s' \<and> as_log s' = []"
proof (intro allI)
  fix env parts
  let ?s = "AgentState_new list_graph"
  have ok: "graph_ok list_graph (as_graph ?s)" "graph_sized list_graph 0 (as_graph ?s)"
    using agent_new_ok[OF list_graph_laws] by (simp_all add: agent_ok_def)
  have snap: "snapshot_of ?s = []" by (simp add: AgentState_new_def snapshot_of_def List.map_filter_def)
  then obtain s' where "agent_cycle list_graph env parts ([], []) ?s = Some s'" by (simp add: cycle_eq)
  with cycle_effects[OF list_graph_laws ok(1) this ok(2)] snap
  show "\<exists>s'. agent_cycle list_graph env parts ([], []) ?s = Some s' \<and> as_log s' = []"
    by (simp add: cycle_findings_def AgentState_new_def)
qed

end
