(* ===== verification/Agent_Lifecycle.thy ===== *)
theory Agent_Lifecycle
  imports Agent
begin

text \<open>
  \<open>main.rs\<close>, the rest: the pipeline that runs on made-up events when eBPF cannot be loaded, the
  file of the seccomp profile, the readiness of the agent, and how it shuts down.
\<close>

section \<open>Seccomp profiles\<close>

text \<open>The outcomes of the two file operations are arguments; the result is the file and its text.\<close>

record profile_io =
  po_mkdir :: "string \<Rightarrow> string option"
  po_json :: "SeccompProfile \<Rightarrow> string + string"
  po_write :: "string \<Rightarrow> string option"

definition safe_char :: "char \<Rightarrow> bool" where
  "safe_char c \<longleftrightarrow> is_alnum_c c \<or> c = CHR ''-'' \<or> c = CHR ''_'' \<or> c = CHR ''.''"

definition persist_seccomp ::
  "profile_io \<Rightarrow> string \<Rightarrow> string \<Rightarrow> SeccompProfile \<Rightarrow> ScannerError + (string \<times> string)" where
  "persist_seccomp io dir workload profile =
     (case po_mkdir io dir of
        Some e \<Rightarrow> Inl (ErrIo e)
      | None \<Rightarrow>
          (let safe_workload = filter safe_char workload
           in if safe_workload = [] then Inl (ErrBpf ''Invalid workload name'')
              else (let path = dir @ ''/'' @ safe_workload @ ''.json''
                    in case po_json io profile of
                         Inl e \<Rightarrow> Inl (ErrJson e)
                       | Inr payload \<Rightarrow>
                           (case po_write io path of Some e \<Rightarrow> Inl (ErrIo e) | None \<Rightarrow> Inr (path, payload)))))"

section \<open>The degraded pipeline\<close>

definition demo_exec :: ExecEvent where
  "demo_exec = \<lparr>ex_timestamp_ns = 0, ex_pid = 42, ex_tgid = 42, ex_uid = 0, ex_gid = 0,
     ex_cgroup_id = 9001, ex_ppid = 1, ex_command = command_buf ''nginx'',
     ex_argv = argv_buf ''nginx -g daemon off;''\<rparr>"

definition demo_file :: FileEvent where
  "demo_file = \<lparr>fe_timestamp_ns = 0, fe_pid = 42, fe_tgid = 42, fe_cgroup_id = 9001,
     fe_command = command_buf ''nginx'', fe_path = path_buf ''/usr/lib/libssl.so'', fe_kind = KMmap\<rparr>"

definition demo_net :: NetEvent where
  "demo_net = \<lparr>ne_timestamp_ns = 0, ne_pid = 42, ne_tgid = 42, ne_cgroup_id = 9001, ne_saddr = 10,
     ne_daddr = 20, ne_sport = 443, ne_dport = 443, ne_family = 2, ne_protocol = 6, ne_kind = KConnect,
     ne_data_size = 0\<rparr>"

definition demo_identity :: RuntimeIdentity where
  "demo_identity = \<lparr>ri_node_name = ''node-a'', ri_namespace = ''default'', ri_pod_name = ''demo-pod'',
     ri_container_name = ''app'', ri_image = ''demo/app:1.0'', ri_workload = ''demo'', ri_labels = []\<rparr>"

definition demo_workload :: WorkloadState where
  "demo_workload =
     (let st = apply_net demo_net (apply_file demo_file (apply_exec demo_exec StateStore_default))
      in case st_workload st 9001 of None \<Rightarrow> WorkloadState_default | Some w \<Rightarrow> w)"

definition degraded_signal ::
  "IntelState \<Rightarrow> string list \<Rightarrow> SbomComponent \<Rightarrow> RuntimeDisposition \<Rightarrow> CveRecord \<Rightarrow> RiskSignal" where
  "degraded_signal i observed c rt cve =
     \<lparr>rs_cve = cr_id cve, rs_cvss = cr_cvss cve, rs_epss = epss_or_zero (cr_id cve) i,
      rs_kev = in_is_kev (cr_id cve) i, rs_runtime = rt, rs_package = sc_package c,
      rs_observed_paths = filter (\<lambda>p. p \<in> set observed) (sc_paths c), rs_signal_weight = Fin 0\<rparr>"

definition degraded_signals :: "agent_parts \<Rightarrow> RuntimeIdentity \<Rightarrow> WorkloadState \<Rightarrow> RiskSignal list" where
  "degraded_signals parts identity w =
     concat (map (\<lambda>(c, rt). map (degraded_signal (ak_intel parts) (ws_observed_paths w) c rt) (sc_cves c))
       (classify_runtime_paths (ri_image identity) (ws_observed_paths w) (ak_sboms parts)))"

text \<open>The findings, the number of events counted, and the profile written.\<close>

definition run_degraded_pipeline ::
  "agent_env \<Rightarrow> agent_parts \<Rightarrow> profile_io \<Rightarrow> string \<Rightarrow> ScannerError + (Finding list \<times> nat \<times> string \<times> string)" where
  "run_degraded_pipeline env parts io dir =
     (let identity = (case pc_lookup ''demo-container'' (ak_pods parts) of None \<Rightarrow> demo_identity | Some i \<Rightarrow> i);
          w = demo_workload;
          signals = degraded_signals parts identity w;
          fs = List.map_filter (\<lambda>(k, sg).
                 rk_evaluate (ak_risk parts) (ae_debug env) (ae_uuid env 9001 k) (ae_now env 9001 k) identity sg None)
               (enumerate 0 signals);
          seccomp = build_seccomp_profile (ws_observed_syscalls w)
      in case persist_seccomp io dir (ri_workload identity) seccomp of
           Inl e \<Rightarrow> Inl e
         | Inr file \<Rightarrow> Inr (fs, length signals, file))"

section \<open>Readiness\<close>

definition ready_handler :: "ConsumerStats \<Rightarrow> nat \<times> string" where
  "ready_handler st =
     (let drop_rate = (if cn_events_received st > 0
                       then fdiv F64 (fl_nat F64 (unat (cn_events_dropped st)))
                                     (fl_nat F64 (unat (cn_events_received st)))
                       else Fin 0)
      in if fl_gt drop_rate (lit64 (1/10)) then (503, ''High event drop rate'') else (200, ''Ready''))"

text \<open>The statistics \<open>main\<close> shares with the server; nothing writes them.\<close>

definition initial_event_stats :: ConsumerStats where
  "initial_event_stats =
     \<lparr>cn_events_received = 0, cn_events_dropped = 0, cn_events_filtered = 0, cn_batches_processed = 0,
      cn_exec_batch_size = 0, cn_file_batch_size = 0, cn_net_batch_size = 0\<rparr>"

section \<open>Shutting down\<close>

datatype ExecutionMode = Batch | Stream

datatype main_phase = WaitSignal | AwaitAnalysis | AwaitConsumer | Exited

text \<open>
  The flags of the two shutdown channels, the event that stops the streaming engine, and
  which tasks have ended, and whether by a panic. \<open>lc_consumer\<close>: eBPF was loaded, so there is a
  consumer task; it holds the receiver of the first channel, and \<open>main\<close> still holds its
  sender. A task can end by a panic at any time (tokio's \<open>interval\<close> panics for a period of
  zero, which \<open>--stream-interval 0ms\<close> gives the streaming engine; printing panics when standard
  output is closed); \<open>main\<close> ignores the error that awaiting such a task returns.
\<close>

record lifecycle =
  lc_mode :: ExecutionMode
  lc_consumer :: bool
  lc_first_channel :: bool
  lc_second_channel :: bool
  lc_engine_told :: bool
  lc_consumer_done :: bool
  lc_consumer_panicked :: bool
  lc_analysis_done :: bool
  lc_analysis_panicked :: bool
  lc_main :: main_phase

definition lifecycle_start :: "ExecutionMode \<Rightarrow> bool \<Rightarrow> lifecycle" where
  "lifecycle_start mode ebpf =
     \<lparr>lc_mode = mode, lc_consumer = ebpf, lc_first_channel = False, lc_second_channel = False,
      lc_engine_told = False, lc_consumer_done = False, lc_consumer_panicked = False,
      lc_analysis_done = False, lc_analysis_panicked = False, lc_main = WaitSignal\<rparr>"

inductive lifecycle_step :: "lifecycle \<Rightarrow> lifecycle \<Rightarrow> bool" where
  signal: "lc_main s = WaitSignal \<Longrightarrow>
     lifecycle_step s (s\<lparr>lc_second_channel := True, lc_main := AwaitAnalysis\<rparr>)"
| pipeline_stops: "lc_mode s = Batch \<Longrightarrow> lc_second_channel s \<Longrightarrow>
     lifecycle_step s (s\<lparr>lc_analysis_done := True\<rparr>)"
| engine_stops: "lc_mode s = Stream \<Longrightarrow> lc_engine_told s \<Longrightarrow>
     lifecycle_step s (s\<lparr>lc_analysis_done := True\<rparr>)"
| consumer_stops: "lc_consumer s \<Longrightarrow> lc_first_channel s \<Longrightarrow>
     lifecycle_step s (s\<lparr>lc_consumer_done := True\<rparr>)"
| consumer_panics: "lc_consumer s \<Longrightarrow> \<not> lc_consumer_done s \<Longrightarrow>
     lifecycle_step s (s\<lparr>lc_consumer_done := True, lc_consumer_panicked := True\<rparr>)"
| analysis_panics: "\<not> lc_analysis_done s \<Longrightarrow>
     lifecycle_step s (s\<lparr>lc_analysis_done := True, lc_analysis_panicked := True\<rparr>)"
| analysis_awaited: "lc_main s = AwaitAnalysis \<Longrightarrow> lc_analysis_done s \<Longrightarrow>
     lifecycle_step s (s\<lparr>lc_main := (if lc_consumer s then AwaitConsumer else Exited)\<rparr>)"
| consumer_awaited: "lc_main s = AwaitConsumer \<Longrightarrow> lc_consumer_done s \<Longrightarrow>
     lifecycle_step s (s\<lparr>lc_main := Exited\<rparr>)"

definition never_told :: "ExecutionMode \<Rightarrow> bool \<Rightarrow> lifecycle \<Rightarrow> bool" where
  "never_told mode ebpf s \<longleftrightarrow>
     lc_mode s = mode \<and> lc_consumer s = ebpf \<and> \<not> lc_first_channel s \<and> \<not> lc_engine_told s
     \<and> (lc_consumer_done s \<longrightarrow> lc_consumer_panicked s) \<and> (lc_consumer_panicked s \<longrightarrow> ebpf)
     \<and> (lc_analysis_done s \<longrightarrow> mode = Batch \<or> lc_analysis_panicked s)
     \<and> (lc_main s = AwaitConsumer \<longrightarrow> ebpf \<and> (mode = Batch \<or> lc_analysis_panicked s))
     \<and> (lc_main s = Exited \<longrightarrow> (mode = Batch \<or> lc_analysis_panicked s) \<and> (ebpf \<longrightarrow> lc_consumer_panicked s))"

lemma never_told_step: "lifecycle_step s t \<Longrightarrow> never_told m e s \<Longrightarrow> never_told m e t"
  by (induction rule: lifecycle_step.induct) (auto simp: never_told_def)

lemma never_told_reachable: "lifecycle_step\<^sup>*\<^sup>* s t \<Longrightarrow> never_told m e s \<Longrightarrow> never_told m e t"
  by (induction rule: rtranclp_induct) (auto intro: never_told_step)

text \<open>The states of a shutdown: what the tasks do, the signal, and the two awaits.\<close>

abbreviation shutting ::
  "ExecutionMode \<Rightarrow> bool \<Rightarrow> bool \<Rightarrow> bool \<Rightarrow> bool \<Rightarrow> bool \<Rightarrow> main_phase \<Rightarrow> lifecycle" where
  "shutting mode ebpf analysis_done pa pc told phase \<equiv>
     \<lparr>lc_mode = mode, lc_consumer = ebpf, lc_first_channel = False, lc_second_channel = told,
      lc_engine_told = False, lc_consumer_done = pc, lc_consumer_panicked = pc,
      lc_analysis_done = analysis_done, lc_analysis_panicked = pa, lc_main = phase\<rparr>"

lemma exit_reachable:
  assumes "mode = Batch \<or> pa" "ebpf \<longleftrightarrow> pc"
  shows "lifecycle_step\<^sup>*\<^sup>* (lifecycle_start mode ebpf) (shutting mode ebpf True pa pc True Exited)"
proof -
  let ?s = "shutting mode ebpf"
  have "lifecycle_start mode ebpf = ?s False False False False WaitSignal" by (simp add: lifecycle_start_def)
  also have "lifecycle_step\<^sup>*\<^sup>* \<dots> (?s pa pa False False WaitSignal)"
    using analysis_panics[of "?s False False False False WaitSignal"] by (cases pa) auto
  also have "lifecycle_step\<^sup>*\<^sup>* \<dots> (?s pa pa pc False WaitSignal)"
    using consumer_panics[of "?s pa pa False False WaitSignal"] assms(2) by (cases pc) auto
  also have "lifecycle_step\<^sup>*\<^sup>* \<dots> (?s pa pa pc True AwaitAnalysis)"
    using signal[of "?s pa pa pc False WaitSignal"] by auto
  also have "lifecycle_step\<^sup>*\<^sup>* \<dots> (?s True pa pc True AwaitAnalysis)"
    using pipeline_stops[of "?s pa pa pc True AwaitAnalysis"] assms(1) by (cases pa) auto
  also have "lifecycle_step\<^sup>*\<^sup>* \<dots> (?s True pa pc True (if ebpf then AwaitConsumer else Exited))"
    using analysis_awaited[of "?s True pa pc True AwaitAnalysis"] by auto
  also have "lifecycle_step\<^sup>*\<^sup>* \<dots> (?s True pa pc True Exited)"
    using consumer_awaited[of "?s True pa pc True AwaitConsumer"] assms(2) by (cases ebpf) auto
  finally show ?thesis .
qed

section \<open>Facts\<close>

lemmas demo_updates = demo_workload_def st_workload_def apply_exec_def apply_file_def apply_net_def
  set_entry_def entry_or_default_def StateStore_default_def WorkloadState_default_def exec_update_def
  file_update_def file_library_part_def net_update_def add_path_def add_syscall_def add_command_def
  add_flow_def add_library_def add_bytes_def push_signal_def capped_insert_def demo_exec_def demo_file_def
  demo_net_def file_syscall_def net_syscall_def MAX_SET_ENTRIES_def Let_def

lemma demo_paths: "ws_observed_paths demo_workload = [''/usr/lib/libssl.so'']"
proof -
  have "c_string (path_buf ''/usr/lib/libssl.so'') = ''/usr/lib/libssl.so''" by code_simp
  then show ?thesis by (simp add: demo_updates insort_insert_key_def)
qed

lemma demo_syscalls: "ws_observed_syscalls demo_workload = [''connect'', ''execve'', ''mmap'']"
proof -
  have "bset_insert ''execve'' [] = [''execve'']" "bset_insert ''mmap'' [''execve''] = [''execve'', ''mmap'']"
    "bset_insert ''connect'' [''execve'', ''mmap''] = [''connect'', ''execve'', ''mmap'']"
    by code_simp+
  then show ?thesis by (simp add: demo_updates)
qed

lemma fl_bound_int64: "\<bar>k\<bar> < 2 ^ 53 \<Longrightarrow> fl_bound F64 (of_int k)"
proof -
  assume k: "\<bar>k\<bar> < (2 :: int) ^ 53"
  have "\<bar>of_int k\<bar> = (of_int \<bar>k\<bar> :: rat)" by simp
  also have "\<dots> < of_int (2 ^ 53)" using k by (simp only: of_int_less_iff)
  finally have k: "\<bar>of_int k\<bar> < (2::rat) ^ 53" by simp
  also have "(2::rat) ^ 53 \<le> 2 ^ 1024" by (rule power_increasing) simp_all
  finally have big: "\<bar>of_int k\<bar> < (2::rat) ^ 1024" .
  have "\<exists>m j. (of_int k :: rat) = of_int m * 2 powi j \<and> \<bar>of_int m\<bar> < (2::rat) powi 53 \<and> - 1074 \<le> j"
    using k by (intro exI[of _ k] exI[of _ 0]) (simp add: power_int_nonneg_exp)
  then show ?thesis using big by (simp add: fl_bound_def F64_def representable_def power_int_nonneg_exp)
qed

lemma exact_count: "n < 2 ^ 53 \<Longrightarrow> fl_nat F64 n = Fin (of_nat n)"
  using fl_bound_int64[of "int n"] fl_of_id[of F64 "of_nat n"] by (simp add: fl_nat_def)

lemma tenth: "r \<noteq> 0 \<Longrightarrow> 10 * d \<le> r \<Longrightarrow> (of_nat d :: rat) / of_nat r \<le> 1 / 10"
proof -
  assume r: "r \<noteq> 0" "10 * d \<le> (r :: nat)"
  then have "(of_nat (10 * d) :: rat) \<le> of_nat r" by (simp only: of_nat_le_iff)
  then show ?thesis using r(1) by (simp add: divide_simps)
qed

lemma drop_rate_low:
  "r \<noteq> 0 \<Longrightarrow> r < 2 ^ 53 \<Longrightarrow> 10 * d \<le> r \<Longrightarrow> fl_le (fdiv F64 (fl_nat F64 d) (fl_nat F64 r)) (lit64 (1/10))"
proof -
  assume r: "r \<noteq> 0" "r < 2 ^ 53" "10 * d \<le> r"
  then have "fl_nat F64 d = Fin (of_nat d)" "fl_nat F64 r = Fin (of_nat r)" by (simp_all add: exact_count)
  then show ?thesis using fl_of_mono[OF tenth[OF r(1,3)], of F64] r(1) by simp
qed

lemma uint_dec: "parse_uint (2 ^ 64) (dec_w (n :: u64)) = Some (uint n)"
proof -
  have d: "list_all is_digit_c (dec_int (uint n))" by (auto simp: list_all_iff dest: dec_int_digits[rotated])
  obtain c cs where c: "dec_int (uint n) = c # cs" by (cases "dec_int (uint n)") simp_all
  then have "is_digit_c c" using d by simp
  then have "c \<noteq> CHR ''+''" by (auto simp: is_digit_c_def)
  moreover have "uint n < 2 ^ 64" using uint_lt2p[of n] by simp
  ultimately show ?thesis using d c read_dec_dec_int[of "uint n"] by (simp add: parse_uint_def dec_w_def)
qed

lemma not_ms: "\<not> ends_with (dec_w (n :: u64) @ ''s'') ''ms''"
proof
  assume "ends_with (dec_w n @ ''s'') ''ms''"
  then obtain xs where "dec_w n @ ''s'' = (xs @ ''m'') @ ''s''" by (auto simp: suffix_def)
  then have "CHR ''m'' \<in> set (dec_w n)" by (simp only: append_same_eq) simp
  then have "is_digit_c (CHR ''m'')" using dec_int_digits[of "uint n" "CHR ''m''"] by (simp add: dec_w_def)
  then show False by (simp add: is_digit_c_def)
qed

section \<open>Properties\<close>

text \<open>C13. The agent can shut down exactly when its analysis task ends, which without a panic it does in
  batch mode only, and when its event consumer, if eBPF was loaded, has panicked: the channel
  that main signals is not the one the consumer watches, and nothing sends the event that ends
  the streaming engine, so without panics main waits for a task that never ends in every
  configuration but batch mode without eBPF.\<close>

theorem shutdown_completes_iff:
  "(\<exists>s. lifecycle_step\<^sup>*\<^sup>* (lifecycle_start mode ebpf) s \<and> lc_main s = Exited
        \<and> lc_analysis_panicked s = pa \<and> lc_consumer_panicked s = pc)
   \<longleftrightarrow> (mode = Batch \<or> pa) \<and> ebpf = pc"
proof
  assume "\<exists>s. lifecycle_step\<^sup>*\<^sup>* (lifecycle_start mode ebpf) s \<and> lc_main s = Exited
        \<and> lc_analysis_panicked s = pa \<and> lc_consumer_panicked s = pc"
  then obtain s where s: "lifecycle_step\<^sup>*\<^sup>* (lifecycle_start mode ebpf) s" "lc_main s = Exited"
    "lc_analysis_panicked s = pa" "lc_consumer_panicked s = pc" by blast
  have "never_told mode ebpf (lifecycle_start mode ebpf)" by (simp add: never_told_def lifecycle_start_def)
  from never_told_reachable[OF s(1) this] show "(mode = Batch \<or> pa) \<and> ebpf = pc"
    using s(2-4) by (auto simp: never_told_def)
next
  assume "(mode = Batch \<or> pa) \<and> ebpf = pc"
  then show "\<exists>s. lifecycle_step\<^sup>*\<^sup>* (lifecycle_start mode ebpf) s \<and> lc_main s = Exited
        \<and> lc_analysis_panicked s = pa \<and> lc_consumer_panicked s = pc"
    using exit_reachable[of mode pa ebpf pc]
    by (intro exI[of _ "shutting mode ebpf True pa pc True Exited"]) simp
qed

text \<open>A seccomp profile is written to a file directly inside the output directory, whatever the
  name of the workload: its name has no slash and starts from allowed characters.\<close>

theorem profile_stays_in_its_directory:
  "persist_seccomp io dir workload profile = Inr (path, payload) \<Longrightarrow>
   \<exists>name. name \<noteq> [] \<and> list_all safe_char name \<and> CHR ''/'' \<notin> set name \<and> path = dir @ ''/'' @ name @ ''.json''"
proof -
  assume "persist_seccomp io dir workload profile = Inr (path, payload)"
  then have "filter safe_char workload \<noteq> []" "path = dir @ ''/'' @ filter safe_char workload @ ''.json''"
    by (auto simp: persist_seccomp_def Let_def split: option.splits sum.splits if_splits)
  moreover have "\<not> safe_char (CHR ''/'')"
    by (simp add: safe_char_def is_alnum_c_def is_digit_c_def is_upper_c_def is_lower_c_def)
  ultimately show ?thesis by (intro exI[of _ "filter safe_char workload"]) (auto simp: list_all_iff)
qed

theorem profile_stays_in_its_directory_witness:
  "\<exists>name. list_all safe_char name \<and> ''/out/....etcx.json'' = ''/out'' @ ''/'' @ name @ ''.json''"
proof -
  have "persist_seccomp \<lparr>po_mkdir = \<lambda>_. None, po_json = \<lambda>_. Inr ''x'', po_write = \<lambda>_. None\<rparr> ''/out'' ''../../etc/x''
      (build_seccomp_profile []) = Inr (''/out/....etcx.json'', ''x'')"
    by (simp add: persist_seccomp_def safe_char_def is_alnum_c_def is_digit_c_def is_upper_c_def is_lower_c_def)
  from profile_stays_in_its_directory[OF this] show ?thesis by blast
qed

text \<open>Degraded mode knows one library: each of its findings has the made-up path of libssl as its
  evidence, or its CVE is known to be exploited.\<close>

theorem degraded_findings_are_demo:
  "run_degraded_pipeline env parts io dir = Inr (fs, n, file) \<Longrightarrow>
   list_all (\<lambda>f. rs_kev (fd_signal f)
     \<or> set (rs_observed_paths (fd_signal f)) = {''/usr/lib/libssl.so''}) fs"
proof -
  let ?i = "case pc_lookup ''demo-container'' (ak_pods parts) of None \<Rightarrow> demo_identity | Some i \<Rightarrow> i"
  assume "run_degraded_pipeline env parts io dir = Inr (fs, n, file)"
  then have fs: "fs = List.map_filter (\<lambda>(k, sg). rk_evaluate (ak_risk parts) (ae_debug env) (ae_uuid env 9001 k)
      (ae_now env 9001 k) ?i sg None) (enumerate 0 (degraded_signals parts ?i demo_workload))"
    unfolding run_degraded_pipeline_def Let_def by (auto split: sum.splits)
  show ?thesis unfolding list_all_iff
  proof
    fix f assume "f \<in> set fs"
    then obtain k sg where k: "(k, sg) \<in> set (enumerate 0 (degraded_signals parts ?i demo_workload))"
      "rk_evaluate (ak_risk parts) (ae_debug env) (ae_uuid env 9001 k) (ae_now env 9001 k) ?i sg None = Some f"
      using map_filter_in[of f, OF _ ] unfolding fs by force
    have sg: "sg \<in> set (degraded_signals parts ?i demo_workload)"
      using k(1) nth_mem[of k "degraded_signals parts ?i demo_workload"] by (auto simp: in_set_enumerate_eq)
    have "rs_kev sg \<or> rs_runtime sg = Reachable"
      using k(2) evaluate_Some_iff[of "ak_risk parts" "ae_debug env" "ae_uuid env 9001 k" "ae_now env 9001 k" ?i sg None]
      by auto
    moreover have "rs_runtime sg = Reachable \<Longrightarrow> set (rs_observed_paths sg) = {''/usr/lib/libssl.so''}"
      using sg by (auto simp: degraded_signals_def degraded_signal_def classify_runtime_paths_def demo_paths
          list_ex_iff split: if_splits)
    ultimately show "rs_kev (fd_signal f)
     \<or> set (rs_observed_paths (fd_signal f)) = {''/usr/lib/libssl.so''}"
      unfolding evaluate_fields(1)[OF k(2)] by blast
  qed
qed

theorem degraded_findings_are_demo_witness:
  "\<exists>fs n file. run_degraded_pipeline env
     \<lparr>ak_intel = IntelState_default, ak_risk = \<lparr>minimum_cvss = Fin 7, minimum_epss = Fin 0\<rparr>,
      ak_detector = VulnDetector_new, ak_sboms = [], ak_pods = [], ak_exports = ExportManager_new [] [],
      ak_remediator = RemediatorService_new_mock\<rparr>
     \<lparr>po_mkdir = \<lambda>_. None, po_json = \<lambda>_. Inr [], po_write = \<lambda>_. None\<rparr> ''/out'' = Inr (fs, n, file)
   \<and> list_all (\<lambda>f. rs_kev (fd_signal f) \<or> set (rs_observed_paths (fd_signal f)) = {''/usr/lib/libssl.so''}) fs"
proof -
  let ?p = "\<lparr>ak_intel = IntelState_default, ak_risk = \<lparr>minimum_cvss = Fin 7, minimum_epss = Fin 0\<rparr>,
      ak_detector = VulnDetector_new, ak_sboms = [], ak_pods = [], ak_exports = ExportManager_new [] [],
      ak_remediator = RemediatorService_new_mock\<rparr>"
  let ?io = "\<lparr>po_mkdir = \<lambda>_. None, po_json = \<lambda>_. Inr [], po_write = \<lambda>_. None\<rparr> :: profile_io"
  have "persist_seccomp ?io ''/out'' ''demo'' p = Inr (''/out/demo.json'', [])" for p
    by (simp add: persist_seccomp_def safe_char_def is_alnum_c_def is_digit_c_def is_upper_c_def is_lower_c_def)
  then obtain fs n out where r: "run_degraded_pipeline env ?p ?io ''/out'' = Inr (fs, n, out)"
    by (auto simp: run_degraded_pipeline_def pc_lookup_def demo_identity_def Let_def)
  show ?thesis using r degraded_findings_are_demo[OF r] by blast
qed

text \<open>The agent is ready while at most a tenth of the events are dropped, exactly: rounding never
  turns a tenth into more.\<close>

theorem ready_up_to_a_tenth:
  assumes "10 * unat (cn_events_dropped st) \<le> unat (cn_events_received st)" "cn_events_received st < 2 ^ 53"
  shows "ready_handler st = (200, ''Ready'')"
proof -
  let ?d = "unat (cn_events_dropped st)" and ?r = "unat (cn_events_received st)"
  have r: "?r < 2 ^ 53" using assms(2) by (simp add: word_less_nat_alt)
  have "?r \<noteq> 0 \<Longrightarrow> fl_le (fdiv F64 (fl_nat F64 ?d) (fl_nat F64 ?r)) (lit64 (1/10))"
    using drop_rate_low[OF _ r assms(1)] .
  moreover have "fl_le (Fin 0) (lit64 (1/10))" using fl_of_mono[of 0 "1/10" F64] by (simp add: fl_of_id)
  ultimately have "fl_le (if 0 < cn_events_received st then fdiv F64 (fl_nat F64 ?d) (fl_nat F64 ?r) else Fin 0) (lit64 (1/10))"
    by (simp add: word_greater_zero_iff unat_eq_zero)
  moreover have "fl_le a b \<Longrightarrow> \<not> fl_gt a b" for a b by (cases a; cases b) (auto simp: fl_lt_def)
  ultimately show ?thesis unfolding ready_handler_def Let_def by simp
qed

theorem ready_up_to_a_tenth_witness: "ready_handler initial_event_stats = (200, ''Ready'')"
  by (rule ready_up_to_a_tenth) (simp_all add: initial_event_stats_def)

text \<open>A duration in milliseconds is read back as written, one in seconds is multiplied by a
  thousand and wraps, and a unit the parser does not know counts as one second.\<close>

theorem durations_are_read:
  "parse_duration (dec_w n @ ''ms'') = n \<and> parse_duration (dec_w n @ ''s'') = n * 1000
   \<and> parse_duration ''5m'' = 1000 \<and> parse_duration ''2h'' = 1000"
proof (intro conjI)
  show "parse_duration (dec_w n @ ''ms'') = n"
    using uint_dec[of n] suffixI[OF refl, of "''ms''" "dec_w n"] by (simp add: parse_duration_def strip_tail_def)
  show "parse_duration (dec_w n @ ''s'') = n * 1000"
    using uint_dec[of n] not_ms[of n] suffixI[OF refl, of "''s''" "dec_w n"] by (simp add: parse_duration_def strip_tail_def)
  show "parse_duration ''5m'' = 1000" "parse_duration ''2h'' = 1000" by code_simp+
qed

end
