(* ===== verification/Visualization.thy ===== *)
theory Visualization
  imports Attack_Graph Json Float_Sums
begin

text \<open>
  \<open>visualization.rs\<close>: attack graphs and attack paths as JSON for D3, as DOT and for Grafana's
  node graph. The printer of JSON values (\<open>to_string_pretty\<close>) and the clock are arguments.
\<close>

section \<open>Formats and records\<close>

datatype GraphFormat = FmtJson | FmtDot | FmtGrafana

definition GraphFormat_from_str :: "string \<Rightarrow> string + GraphFormat" where
  "GraphFormat_from_str s =
     (let l = to_ascii_lowercase s
      in if l = ''json'' then Inr FmtJson else if l = ''dot'' then Inr FmtDot
         else if l = ''grafana'' then Inr FmtGrafana else Inl (''Unknown format: '' @ s))"

record VizConfig =
  vc_format :: GraphFormat
  vc_include_metrics :: bool
  vc_include_paths :: bool
  vc_max_nodes :: "nat option"

definition VizConfig_default :: VizConfig where
  "VizConfig_default = \<lparr>vc_format = FmtJson, vc_include_metrics = True, vc_include_paths = True, vc_max_nodes = None\<rparr>"

record NodeStyle =
  ns_color :: string
  ns_size :: u32
  ns_icon :: string

record ExportNode =
  en_id :: string
  en_node_type :: string
  en_label :: string
  en_style :: "NodeStyle option"

record EdgeStyle =
  es_width :: f32
  es_color :: string
  es_style :: string

record ExportEdge =
  ee_from :: string
  ee_to :: string
  ee_edge_type :: string
  ee_label :: "string option"
  ee_style :: "EdgeStyle option"

record ExportedPath =
  ep_path_id :: string
  ep_nodes :: "string list"
  ep_confidence :: f32
  ep_risk_score :: f32
  ep_depth :: nat

record GraphMetrics =
  gm_total_paths :: u64
  gm_high_confidence_paths :: u64
  gm_avg_confidence :: f32

record GraphMetadata =
  md_exported_at :: string
  md_total_nodes :: nat
  md_total_edges :: nat
  md_version :: string

record GraphExport =
  gx_metadata :: GraphMetadata
  gx_nodes :: "ExportNode list"
  gx_edges :: "ExportEdge list"
  gx_paths :: "ExportedPath list option"
  gx_metrics :: "GraphMetrics option"

section \<open>The export of paths\<close>

definition base_name :: "string \<Rightarrow> string" where
  "base_name path = last (split_on (CHR ''/'') path)"

text \<open>Type, label, colour and icon of a node.\<close>

fun node_look :: "RuntimeNode \<Rightarrow> string \<times> string \<times> string \<times> string" where
  "node_look (NProcess pid name cg) =
     (''process'', name @ '' (PID '' @ dec_w pid @ '')'', ''#3498db'', ''process'')"
| "node_look (NLibrary path cves) = (''library'', base_name path, ''#2ecc71'', ''library'')"
| "node_look (NNetwork ip port proto) = (''network'', ip @ '':'' @ dec_w port, ''#f39c12'', ''globe'')"
| "node_look (NVulnerability v) =
     (''vulnerability'', vn_cve_id v @ '' (CVSS '' @ fmt_fixed 1 (vn_cvss v) @ '')'', ''#e74c3c'', ''alert'')"
| "node_look (NTechnique name tac) = (''technique'', name, ''#9b59b6'', ''gear'')"

definition export_node :: "nat \<Rightarrow> RuntimeNode \<Rightarrow> ExportNode" where
  "export_node i n =
     (case node_look n of (typ, label, color, icon) \<Rightarrow>
        \<lparr>en_id = node_id n, en_node_type = typ, en_label = label,
         en_style = Some \<lparr>ns_color = color, ns_size = (if i = 0 then 40 else 30), ns_icon = icon\<rparr>\<rparr>)"

fun edge_look :: "RuntimeEdge \<Rightarrow> string \<times> string \<times> f32 \<times> string" where
  "edge_look (EProcessCreated t c) = (''process'', ''created'', lit32 1, ''#2ecc71'')"
| "edge_look (ELibraryLoaded t c) = (''mmap'', ''loaded'', lit32 1, ''#95a5a6'')"
| "edge_look (EVulnerable c) = (''vulnerable'', ''vulnerable'', c, ''#e74c3c'')"
| "edge_look (ENetworkConnection t bytes n c) = (''network'', dec_w bytes @ '' bytes'', lit32 (3/2), ''#3498db'')"
| "edge_look (EExploitationAttempt c evidence) = (''exploitation'', evidence, lit32 2, ''#e74c3c'')"
| "edge_look (EUsesTechnique c) = (''technique'', ''uses'', lit32 1, ''#9b59b6'')"

definition export_edge :: "string \<Rightarrow> string \<Rightarrow> RuntimeEdge \<Rightarrow> ExportEdge" where
  "export_edge a b e =
     (case edge_look e of (typ, label, width, color) \<Rightarrow>
        \<lparr>ee_from = a, ee_to = b, ee_edge_type = typ, ee_label = Some label,
         ee_style = Some \<lparr>es_width = width, es_color = color, es_style = ''solid''\<rparr>\<rparr>)"

text \<open>The loops: nodes and edges so far, with the ids and pairs they have.\<close>

record export_acc =
  xa_nodes :: "ExportNode list"
  xa_edges :: "ExportEdge list"
  xa_node_ids :: "string set"
  xa_edge_pairs :: "(string \<times> string) set"

definition add_path_node :: "nat \<times> RuntimeNode \<Rightarrow> export_acc \<Rightarrow> export_acc" where
  "add_path_node p a =
     (case p of (i, n) \<Rightarrow>
        if node_id n \<in> xa_node_ids a then a
        else a\<lparr>xa_nodes := xa_nodes a @ [export_node i n], xa_node_ids := insert (node_id n) (xa_node_ids a)\<rparr>)"

definition add_path_edge :: "RuntimeNode list \<Rightarrow> nat \<times> nat \<times> RuntimeEdge \<Rightarrow> export_acc \<Rightarrow> export_acc" where
  "add_path_edge ns p a =
     (case p of (i, j, e) \<Rightarrow>
        if i < length ns \<and> j < length ns
        then (let key = (node_id (ns ! i), node_id (ns ! j))
              in if key \<in> xa_edge_pairs a then a
                 else a\<lparr>xa_edges := xa_edges a @ [export_edge (fst key) (snd key) e],
                        xa_edge_pairs := insert key (xa_edge_pairs a)\<rparr>)
        else a)"

definition add_path :: "AttackPath \<Rightarrow> export_acc \<Rightarrow> export_acc" where
  "add_path p a =
     fold (add_path_edge (ap_nodes p)) (ap_edges p)
       (fold add_path_node (enumerate 0 (ap_nodes p)) a)"

definition export_path :: "AttackPath \<Rightarrow> ExportedPath" where
  "export_path p =
     \<lparr>ep_path_id = ap_path_id p, ep_nodes = map node_id (ap_nodes p), ep_confidence = ap_confidence p,
      ep_risk_score = ap_risk_score p, ep_depth = ap_depth p\<rparr>"

definition graph_metrics :: "AttackPath list \<Rightarrow> GraphMetrics" where
  "graph_metrics ps =
     \<lparr>gm_total_paths = of_nat (length ps),
      gm_high_confidence_paths = of_nat (length (filter (\<lambda>p. fl_ge (ap_confidence p) (lit32 (8/10))) ps)),
      gm_avg_confidence = (if ps = [] then Fin 0
         else fdiv F32 (fsum F32 (map ap_confidence ps)) (fl_nat F32 (length ps)))\<rparr>"

definition build_export :: "string \<Rightarrow> AttackPath list \<Rightarrow> VizConfig \<Rightarrow> GraphExport" where
  "build_export time ps cfg =
     (let a = fold add_path ps \<lparr>xa_nodes = [], xa_edges = [], xa_node_ids = {}, xa_edge_pairs = {}\<rparr>
      in \<lparr>gx_metadata = \<lparr>md_exported_at = time, md_total_nodes = length (xa_nodes a),
            md_total_edges = length (xa_edges a), md_version = ''2.0''\<rparr>,
          gx_nodes = xa_nodes a, gx_edges = xa_edges a,
          gx_paths = (if vc_include_paths cfg then Some (map export_path ps) else None),
          gx_metrics = (if vc_include_metrics cfg then Some (graph_metrics ps) else None)\<rparr>)"

section \<open>JSON\<close>

text \<open>A member that is None and marked to be skipped is left out.\<close>

definition opt_member :: "string \<Rightarrow> ('a \<Rightarrow> json) \<Rightarrow> 'a option \<Rightarrow> (string \<times> json) list" where
  "opt_member k f x = (case x of None \<Rightarrow> [] | Some v \<Rightarrow> [(k, f v)])"

definition node_json :: "ExportNode \<Rightarrow> json" where
  "node_json n =
     JObj ([(''id'', JStr (en_id n)), (''node_type'', JStr (en_node_type n)), (''label'', JStr (en_label n))]
           @ opt_member ''style'' (\<lambda>s. JObj [(''color'', JStr (ns_color s)), (''size'', JInt (uint (ns_size s))),
                                             (''icon'', JStr (ns_icon s))]) (en_style n))"

definition edge_json :: "ExportEdge \<Rightarrow> json" where
  "edge_json e =
     JObj ([(''from'', JStr (ee_from e)), (''to'', JStr (ee_to e)), (''edge_type'', JStr (ee_edge_type e))]
           @ opt_member ''label'' JStr (ee_label e)
           @ opt_member ''style'' (\<lambda>s. JObj [(''width'', json_float (es_width s)), (''color'', JStr (es_color s)),
                                             (''style'', JStr (es_style s))]) (ee_style e))"

definition path_json :: "ExportedPath \<Rightarrow> json" where
  "path_json p =
     JObj [(''path_id'', JStr (ep_path_id p)), (''nodes'', json_strs (ep_nodes p)),
           (''confidence'', json_float (ep_confidence p)), (''risk_score'', json_float (ep_risk_score p)),
           (''depth'', JInt (int (ep_depth p)))]"

definition export_value :: "GraphExport \<Rightarrow> json" where
  "export_value x =
     JObj ([(''metadata'', JObj [(''exported_at'', JStr (md_exported_at (gx_metadata x))),
               (''total_nodes'', JInt (int (md_total_nodes (gx_metadata x)))),
               (''total_edges'', JInt (int (md_total_edges (gx_metadata x)))),
               (''version'', JStr (md_version (gx_metadata x)))]),
            (''nodes'', JArr (map node_json (gx_nodes x))), (''edges'', JArr (map edge_json (gx_edges x)))]
           @ opt_member ''paths'' (\<lambda>ps. JArr (map path_json ps)) (gx_paths x)
           @ opt_member ''metrics'' (\<lambda>m. JObj [(''total_paths'', JInt (uint (gm_total_paths m))),
               (''high_confidence_paths'', JInt (uint (gm_high_confidence_paths m))),
               (''avg_confidence'', json_float (gm_avg_confidence m))]) (gx_metrics x))"

definition export_json :: "(json \<Rightarrow> string) \<Rightarrow> string \<Rightarrow> AttackPath list \<Rightarrow> VizConfig \<Rightarrow> string" where
  "export_json pretty time ps cfg = pretty (export_value (build_export time ps cfg))"

section \<open>The nodes and edges of a graph\<close>

fun node_label :: "RuntimeNode \<Rightarrow> string" where
  "node_label (NProcess pid name cg) = name @ '' (PID '' @ dec_w pid @ '')''"
| "node_label (NLibrary path cves) =
     base_name path @ (if cves = [] then [] else '' ['' @ join '', '' cves @ '']'')"
| "node_label (NNetwork ip port proto) = proto @ '' '' @ ip @ '':'' @ dec_w port"
| "node_label (NVulnerability v) = vn_cve_id v @ '' (CVSS '' @ fmt_fixed 1 (vn_cvss v) @ '')''"
| "node_label (NTechnique name tac) = name"

definition plain_node :: "RuntimeNode \<Rightarrow> ExportNode" where
  "plain_node n = \<lparr>en_id = node_id n, en_node_type = node_type n, en_label = node_label n, en_style = None\<rparr>"

definition extract_nodes :: "'g path_ops \<Rightarrow> 'g RuntimeAttackGraph \<Rightarrow> ExportNode list" where
  "extract_nodes G s = map plain_node (rg_nodes G s)"

definition plain_edge :: "string \<times> string \<times> RuntimeEdge \<Rightarrow> ExportEdge" where
  "plain_edge t =
     (case t of (a, b, e) \<Rightarrow>
        \<lparr>ee_from = a, ee_to = b, ee_edge_type = fst (edge_look e),
         ee_label = Some (fst (snd (edge_look e))), ee_style = None\<rparr>)"

definition extract_edges :: "'g path_ops \<Rightarrow> 'g RuntimeAttackGraph \<Rightarrow> ExportEdge list" where
  "extract_edges G s = map plain_edge (rg_edges G s)"

section \<open>Grafana and DOT\<close>

definition node_color :: "string \<Rightarrow> string" where
  "node_color t =
     (if t = ''process'' then ''blue'' else if t = ''library'' then ''green''
      else if t = ''vulnerability'' then ''red'' else if t = ''network'' then ''yellow'' else ''gray'')"

definition node_icon :: "string \<Rightarrow> string" where
  "node_icon t =
     (if t = ''process'' then ''process'' else if t = ''library'' then ''library''
      else if t = ''vulnerability'' then ''alert'' else if t = ''network'' then ''globe'' else ''circle'')"

definition export_grafana :: "(json \<Rightarrow> string) \<Rightarrow> 'g path_ops \<Rightarrow> 'g RuntimeAttackGraph \<Rightarrow> string" where
  "export_grafana pretty G s =
     pretty (JObj
       [(''nodes'', JArr (map (\<lambda>n. JObj [(''id'', JStr (en_id n)), (''title'', JStr (en_label n)),
            (''mainStat'', JStr (en_node_type n)), (''color'', JStr (node_color (en_node_type n))),
            (''icon'', JStr (node_icon (en_node_type n)))]) (extract_nodes G s))),
        (''edges'', JArr (map (\<lambda>e. JObj [(''source'', JStr (ee_from e)), (''target'', JStr (ee_to e)),
            (''mainStat'', JStr (ee_edge_type e))]) (extract_edges G s)))])"

definition newline :: string where "newline = [CHR 0x0A]"
definition quote :: string where "quote = [CHR 0x22]"

definition dot_color :: "string \<Rightarrow> string" where
  "dot_color t =
     (if t = ''process'' then ''lightblue'' else if t = ''library'' then ''lightgreen''
      else if t = ''vulnerability'' then ''salmon'' else if t = ''network'' then ''lightyellow'' else ''white'')"

definition dot_node :: "ExportNode \<Rightarrow> string" where
  "dot_node n =
     ''  '' @ quote @ en_id n @ quote @ '' [label='' @ quote @ en_label n @ quote @ '', fillcolor=''
     @ dot_color (en_node_type n) @ ''];'' @ newline"

definition dot_edge :: "ExportEdge \<Rightarrow> string" where
  "dot_edge e =
     ''  '' @ quote @ ee_from e @ quote @ '' -> '' @ quote @ ee_to e @ quote
     @ (if ee_edge_type e = ''exploitation'' then '' [color=red, penwidth=2]'' else []) @ '';'' @ newline"

definition dot_path :: "AttackPath \<Rightarrow> string" where
  "dot_path p =
     newline @ ''  // Path: '' @ ap_path_id p @ '' (confidence: '' @ fmt_fixed 2 (ap_confidence p) @ '')'' @ newline"

definition export_dot :: "'g path_ops \<Rightarrow> 'g RuntimeAttackGraph \<Rightarrow> AttackPath list \<Rightarrow> string" where
  "export_dot G s ps =
     ''digraph AttackGraph {'' @ newline @ ''  rankdir=LR;'' @ newline
     @ ''  node [shape=box, style='' @ quote @ ''rounded,filled'' @ quote @ '', fontname='' @ quote @ ''Arial''
     @ quote @ ''];'' @ newline @ newline
     @ concat (map dot_node (extract_nodes G s)) @ newline
     @ concat (map dot_edge (extract_edges G s))
     @ concat (map dot_path (filter (\<lambda>p. fl_ge (ap_confidence p) (lit32 (8/10))) ps))
     @ ''}'' @ newline"

text \<open>\<open>write\<close> is the error of writing the file, if any; the result is the text written.\<close>

definition export_to_file ::
  "(json \<Rightarrow> string) \<Rightarrow> string \<Rightarrow> (string \<Rightarrow> string option) \<Rightarrow> 'g path_ops \<Rightarrow> 'g RuntimeAttackGraph
   \<Rightarrow> AttackPath list \<Rightarrow> string \<Rightarrow> VizConfig \<Rightarrow> string + string" where
  "export_to_file pretty time write G s ps path cfg =
     (let content = (case vc_format cfg of FmtJson \<Rightarrow> export_json pretty time ps cfg
                     | FmtDot \<Rightarrow> export_dot G s ps | FmtGrafana \<Rightarrow> export_grafana pretty G s)
      in case write path of Some e \<Rightarrow> Inl e | None \<Rightarrow> Inr content)"

section \<open>The exported graph\<close>

definition edge_ends :: "ExportEdge \<Rightarrow> string \<times> string" where
  "edge_ends e = (ee_from e, ee_to e)"

definition acc_graph :: "export_acc \<Rightarrow> bool" where
  "acc_graph a \<longleftrightarrow>
     distinct (map en_id (xa_nodes a)) \<and> set (map en_id (xa_nodes a)) = xa_node_ids a
     \<and> distinct (map edge_ends (xa_edges a)) \<and> set (map edge_ends (xa_edges a)) = xa_edge_pairs a
     \<and> xa_edge_pairs a \<subseteq> xa_node_ids a \<times> xa_node_ids a"

text \<open>The pairs of ids that the edges of a path join.\<close>

definition path_pairs :: "RuntimeNode list \<Rightarrow> (nat \<times> nat \<times> RuntimeEdge) list \<Rightarrow> (string \<times> string) set" where
  "path_pairs ns es =
     set (map (\<lambda>(i, j, e). (node_id (ns ! i), node_id (ns ! j)))
       (filter (\<lambda>(i, j, e). i < length ns \<and> j < length ns) es))"

lemma en_id_export [simp]: "en_id (export_node i n) = node_id n"
  by (simp add: export_node_def case_prod_beta)

lemma ends_export [simp]: "edge_ends (export_edge a b e) = (a, b)"
  by (simp add: export_edge_def edge_ends_def case_prod_beta)

lemma add_node_graph:
  "acc_graph a \<Longrightarrow> acc_graph (add_path_node (i, n) a) \<and> xa_node_ids (add_path_node (i, n) a) = insert (node_id n) (xa_node_ids a)
   \<and> xa_edge_pairs (add_path_node (i, n) a) = xa_edge_pairs a"
  by (auto simp: acc_graph_def add_path_node_def)

lemma add_nodes_graph:
  "acc_graph a \<Longrightarrow>
   acc_graph (fold add_path_node (enumerate k ns) a)
   \<and> xa_node_ids (fold add_path_node (enumerate k ns) a) = xa_node_ids a \<union> node_id ` set ns
   \<and> xa_edge_pairs (fold add_path_node (enumerate k ns) a) = xa_edge_pairs a"
proof (induction ns arbitrary: a k)
  case (Cons n ns)
  note s = add_node_graph[OF Cons.prems, of k n]
  show ?case using Cons.IH[of "add_path_node (k, n) a" "Suc k"] s by auto
qed simp

lemma add_edge_graph:
  assumes "acc_graph a" "node_id ` set ns \<subseteq> xa_node_ids a"
  shows "acc_graph (add_path_edge ns x a) \<and> xa_node_ids (add_path_edge ns x a) = xa_node_ids a
    \<and> xa_edge_pairs (add_path_edge ns x a) = xa_edge_pairs a \<union> path_pairs ns [x]"
proof -
  obtain i j e where x: "x = (i, j, e)" by (cases x) auto
  show ?thesis
  proof (cases "i < length ns \<and> j < length ns")
    case True
    then have "node_id (ns ! i) \<in> xa_node_ids a" "node_id (ns ! j) \<in> xa_node_ids a"
      using assms(2) nth_mem[of i ns] nth_mem[of j ns] by blast+
    moreover have "path_pairs ns [x] = {(node_id (ns ! i), node_id (ns ! j))}"
      using True x by (simp add: path_pairs_def)
    ultimately show ?thesis
      using assms(1) x True by (auto simp: acc_graph_def add_path_edge_def Let_def)
  next
    case False
    then have "path_pairs ns [x] = {}" using x by (auto simp: path_pairs_def)
    then show ?thesis using assms(1) x False by (auto simp: add_path_edge_def)
  qed
qed

lemma path_pairs_Cons: "path_pairs ns (x # xs) = path_pairs ns [x] \<union> path_pairs ns xs"
  by (simp add: path_pairs_def)

lemma add_edges_graph:
  "acc_graph a \<Longrightarrow> node_id ` set ns \<subseteq> xa_node_ids a \<Longrightarrow>
   acc_graph (fold (add_path_edge ns) es a) \<and> xa_node_ids (fold (add_path_edge ns) es a) = xa_node_ids a
   \<and> xa_edge_pairs (fold (add_path_edge ns) es a) = xa_edge_pairs a \<union> path_pairs ns es"
proof (induction es arbitrary: a)
  case (Cons x es)
  note s = add_edge_graph[OF Cons.prems, of x]
  show ?case using Cons.IH[of "add_path_edge ns x a"] Cons.prems(2) s
    by (simp add: path_pairs_Cons[of ns x es] Un_assoc)
qed (simp add: path_pairs_def)

lemma add_path_graph:
  assumes "acc_graph a"
  shows "acc_graph (add_path p a) \<and> xa_node_ids (add_path p a) = xa_node_ids a \<union> node_id ` set (ap_nodes p)
    \<and> xa_edge_pairs (add_path p a) = xa_edge_pairs a \<union> path_pairs (ap_nodes p) (ap_edges p)"
proof -
  note n = add_nodes_graph[OF assms, of 0 "ap_nodes p"]
  have "node_id ` set (ap_nodes p) \<subseteq> xa_node_ids (fold add_path_node (enumerate 0 (ap_nodes p)) a)" using n by simp
  from add_edges_graph[OF _ this, of "ap_edges p"] n show ?thesis by (simp add: add_path_def)
qed

lemma add_paths_graph:
  "acc_graph a \<Longrightarrow>
   acc_graph (fold add_path ps a)
   \<and> xa_node_ids (fold add_path ps a) = xa_node_ids a \<union> (\<Union>p \<in> set ps. node_id ` set (ap_nodes p))
   \<and> xa_edge_pairs (fold add_path ps a) = xa_edge_pairs a \<union> (\<Union>p \<in> set ps. path_pairs (ap_nodes p) (ap_edges p))"
proof (induction ps arbitrary: a)
  case (Cons p ps)
  note s = add_path_graph[OF Cons.prems, of p]
  show ?case using Cons.IH[of "add_path p a"] s by auto
qed simp

section \<open>Properties\<close>

text \<open>C30. The JSON export of any paths is a simple graph: no node id and no pair of ends occurs
  twice, every edge joins exported nodes, the nodes are exactly those of the paths, the
  pairs exactly those their edges join, and the metadata counts them.\<close>

theorem export_is_a_graph:
  "let x = build_export time ps cfg
   in distinct (map en_id (gx_nodes x)) \<and> distinct (map edge_ends (gx_edges x))
      \<and> set (map en_id (gx_nodes x)) = (\<Union>p \<in> set ps. node_id ` set (ap_nodes p))
      \<and> set (map edge_ends (gx_edges x)) = (\<Union>p \<in> set ps. path_pairs (ap_nodes p) (ap_edges p))
      \<and> set (map edge_ends (gx_edges x)) \<subseteq> set (map en_id (gx_nodes x)) \<times> set (map en_id (gx_nodes x))
      \<and> md_total_nodes (gx_metadata x) = card (set (map en_id (gx_nodes x)))
      \<and> md_total_edges (gx_metadata x) = card (set (map edge_ends (gx_edges x)))"
proof -
  obtain a where a: "a = fold add_path ps \<lparr>xa_nodes = [], xa_edges = [], xa_node_ids = {}, xa_edge_pairs = {}\<rparr>"
    by simp
  have "acc_graph \<lparr>xa_nodes = [], xa_edges = [], xa_node_ids = {}, xa_edge_pairs = {}\<rparr>" by (simp add: acc_graph_def)
  from add_paths_graph[OF this, of ps]
  have g: "acc_graph a" "xa_node_ids a = (\<Union>p \<in> set ps. node_id ` set (ap_nodes p))"
    "xa_edge_pairs a = (\<Union>p \<in> set ps. path_pairs (ap_nodes p) (ap_edges p))" unfolding a by simp_all
  have ids: "set (map en_id (xa_nodes a)) = xa_node_ids a" and prs: "set (map edge_ends (xa_edges a)) = xa_edge_pairs a"
    and d: "distinct (map en_id (xa_nodes a))" "distinct (map edge_ends (xa_edges a))"
    and sub: "xa_edge_pairs a \<subseteq> xa_node_ids a \<times> xa_node_ids a"
    using g(1) by (simp_all only: acc_graph_def)
  have "length (xa_nodes a) = card (xa_node_ids a)" "length (xa_edges a) = card (xa_edge_pairs a)"
    using distinct_card[OF d(1)] distinct_card[OF d(2)] unfolding ids prs by simp_all
  then show ?thesis
    unfolding build_export_def Let_def a[symmetric] GraphExport.simps GraphMetadata.simps ids prs g(2,3)[symmetric]
    using d sub by simp
qed

text \<open>The average confidence of the exported metrics is a number between zero and one, and no more
  paths are counted as confident than there are.\<close>

theorem metrics_in_range:
  assumes "\<forall>p \<in> set ps. fl_in 0 1 (ap_confidence p)" "length ps < 2 ^ 24"
  shows "fl_in 0 1 (gm_avg_confidence (graph_metrics ps))
    \<and> gm_high_confidence_paths (graph_metrics ps) \<le> gm_total_paths (graph_metrics ps)"
proof
  show "fl_in 0 1 (gm_avg_confidence (graph_metrics ps))"
    using mean32_in[of "map ap_confidence ps" 1] assms by (simp add: graph_metrics_def)
  have l: "length (filter (\<lambda>p. fl_ge (ap_confidence p) (lit32 (8/10))) ps) \<le> length ps" by (rule length_filter_le)
  moreover have "length (filter (\<lambda>p. fl_ge (ap_confidence p) (lit32 (8/10))) ps) < 2 ^ 64"
    by (rule le_less_trans[OF l]) (use assms(2) in simp)
  ultimately show "gm_high_confidence_paths (graph_metrics ps) \<le> gm_total_paths (graph_metrics ps)"
    using assms(2)
    by (simp add: graph_metrics_def word_le_nat_alt unat_of_nat take_bit_eq_mod)
qed

theorem metrics_in_range_witness: "fl_in 0 1 (gm_avg_confidence (graph_metrics []))"
  using metrics_in_range[of "[]"] by simp

text \<open>The DOT text does not determine the graph: names are not escaped, so one library whose path
  holds a quote is printed exactly like two libraries.\<close>

theorem dot_names_are_not_escaped:
  "\<exists>p. concat (map (dot_node \<circ> plain_node) [NLibrary p []])
     = concat (map (dot_node \<circ> plain_node) [NLibrary ''a'' [], NLibrary ''/b'' []])"
proof
  let ?p = "''a'' @ quote @ '' [label='' @ quote @ ''a'' @ quote @ '', fillcolor=lightgreen];'' @ newline
    @ ''  '' @ quote @ ''lib:/b''"
  have "base_name ?p = ''b''" "base_name ''a'' = ''a''" "base_name ''/b'' = ''b''" by code_simp+
  then show "concat (map (dot_node \<circ> plain_node) [NLibrary ?p []])
     = concat (map (dot_node \<circ> plain_node) [NLibrary ''a'' [], NLibrary ''/b'' []])"
    by (simp add: dot_node_def plain_node_def dot_color_def lib_id_def)
qed

end
