(* ===== verification/Kernel_Maps.thy ===== *)
theory Kernel_Maps
  imports State_Store
begin

unbundle bit_operations_syntax

text \<open>
  \<open>scanner-ebpf\<close>: what the kernel programs remember in their maps about libraries
  (\<open>libraries.rs\<close>), connections (\<open>network.rs\<close>) and processes (\<open>process.rs\<close>). The kernel
  decides whether an insert succeeds (\<open>ok\<close>); the programs ignore a failure. The helpers of
  the kernel (current task, clock) are the fields of a context.
\<close>

record task_ctx =
  tx_pid_tgid :: u64
  tx_uid_gid :: u64
  tx_cgroup :: u64
  tx_now :: u64
  tx_comm :: "u8 list option"

definition low32 :: "u64 \<Rightarrow> u32" where "low32 w = ucast w"
definition high32 :: "u64 \<Rightarrow> u32" where "high32 w = ucast (drop_bit 32 w)"

definition map_insert :: "bool \<Rightarrow> 'k \<Rightarrow> 'v \<Rightarrow> ('k \<rightharpoonup> 'v) \<Rightarrow> ('k \<rightharpoonup> 'v)" where
  "map_insert ok k v m = (if ok then m(k \<mapsto> v) else m)"

section \<open>Libraries\<close>

record LibraryLoad =
  ll_timestamp_ns :: u64
  ll_pid :: u32
  ll_cgroup_id :: u64
  ll_path_hash :: u32

record library_maps =
  lm_loaded :: "u64 \<rightharpoonup> LibraryLoad"
  lm_seen :: "u64 \<rightharpoonup> u64"
  lm_count :: "u32 \<rightharpoonup> u32"

record library_inserts =
  li_seen :: bool
  li_loaded :: bool
  li_count :: bool

definition library_key :: "u32 \<Rightarrow> u64 \<Rightarrow> u64" where
  "library_key pid addr = push_bit 32 (ucast pid) OR ucast (low32 addr)"

definition trace_do_mmap :: "task_ctx \<Rightarrow> library_inserts \<Rightarrow> u64 option \<Rightarrow> library_maps \<Rightarrow> library_maps" where
  "trace_do_mmap cx ok arg m =
     (let pid = low32 (tx_pid_tgid cx); addr = (case arg of None \<Rightarrow> 0 | Some a \<Rightarrow> a);
          key = library_key pid addr
      in if lm_seen m key \<noteq> None then m
         else \<lparr>lm_loaded = map_insert (li_loaded ok) key
                 \<lparr>ll_timestamp_ns = tx_now cx, ll_pid = pid, ll_cgroup_id = tx_cgroup cx,
                  ll_path_hash = low32 addr\<rparr> (lm_loaded m),
               lm_seen = map_insert (li_seen ok) key (tx_now cx) (lm_seen m),
               lm_count = map_insert (li_count ok) pid
                 (case lm_count m pid of None \<Rightarrow> 1 | Some c \<Rightarrow> c + 1) (lm_count m)\<rparr>)"

definition get_loaded_libraries :: "u32 \<Rightarrow> library_maps \<Rightarrow> u32" where
  "get_loaded_libraries pid m = (case lm_count m pid of None \<Rightarrow> 0 | Some c \<Rightarrow> c)"

section \<open>Connections\<close>

record NetworkActivity =
  na_pid :: u32
  na_saddr :: u32
  na_daddr :: u32
  na_sport :: u16
  na_dport :: u16
  na_bytes_sent :: u64
  na_bytes_recv :: u64
  na_first_seen_ns :: u64
  na_last_activity_ns :: u64
  na_protocol :: u8

record ConnectionInfo =
  ci_saddr :: u32
  ci_daddr :: u32
  ci_sport :: u16
  ci_dport :: u16
  ci_state :: u8
  ci_created_ns :: u64

definition CONN_STATE_NEW :: u8 where "CONN_STATE_NEW = 0"
definition CONN_STATE_ESTABLISHED :: u8 where "CONN_STATE_ESTABLISHED = 1"
definition CONN_STATE_CLOSING :: u8 where "CONN_STATE_CLOSING = 2"

record network_maps =
  nm_process :: "u32 \<rightharpoonup> NetworkActivity"
  nm_connections :: "u64 \<rightharpoonup> ConnectionInfo"
  nm_threat_ips :: "u32 \<rightharpoonup> u32"
  nm_suspicious :: "u64 \<rightharpoonup> u32"

definition fnv_step :: "u64 \<Rightarrow> u64 \<Rightarrow> u64" where
  "fnv_step h x = (h XOR x) * 0x100000001b3"

definition conn_key :: "u32 \<Rightarrow> u16 \<Rightarrow> u32 \<Rightarrow> u16 \<Rightarrow> u64" where
  "conn_key saddr sport daddr dport =
     (let h = 0xcbf29ce484222325; h = fnv_step h (ucast saddr); h = fnv_step h (ucast sport);
          h = fnv_step h (ucast daddr)
      in fnv_step h (ucast dport))"

definition track_tcp_connect ::
  "u64 \<Rightarrow> bool \<Rightarrow> bool \<Rightarrow> u32 \<Rightarrow> u32 \<Rightarrow> u16 \<Rightarrow> u32 \<Rightarrow> u16 \<Rightarrow> u8 \<Rightarrow> network_maps \<Rightarrow> network_maps" where
  "track_tcp_connect now ok_conn ok_proc pid saddr sport daddr dport protocol m =
     m\<lparr>nm_connections := map_insert ok_conn (conn_key saddr sport daddr dport)
         \<lparr>ci_saddr = saddr, ci_daddr = daddr, ci_sport = sport, ci_dport = dport,
          ci_state = CONN_STATE_ESTABLISHED, ci_created_ns = now\<rparr> (nm_connections m),
       nm_process := map_insert ok_proc pid
         \<lparr>na_pid = pid, na_saddr = saddr, na_daddr = daddr, na_sport = sport, na_dport = dport,
          na_bytes_sent = 0, na_bytes_recv = 0, na_first_seen_ns = now, na_last_activity_ns = now,
          na_protocol = protocol\<rparr> (nm_process m)\<rparr>"

definition update_data_transfer :: "u64 \<Rightarrow> bool \<Rightarrow> u32 \<Rightarrow> u64 \<Rightarrow> bool \<Rightarrow> network_maps \<Rightarrow> network_maps" where
  "update_data_transfer now ok pid bytes is_send m =
     (case nm_process m pid of
        None \<Rightarrow> m
      | Some a \<Rightarrow>
          (let a = a\<lparr>na_last_activity_ns := now\<rparr>;
               a = (if is_send then a\<lparr>na_bytes_sent := saturating_add (na_bytes_sent a) bytes\<rparr>
                    else a\<lparr>na_bytes_recv := saturating_add (na_bytes_recv a) bytes\<rparr>)
           in m\<lparr>nm_process := map_insert ok pid a (nm_process m)\<rparr>))"

definition check_exfiltration :: "u32 \<Rightarrow> network_maps \<Rightarrow> bool" where
  "check_exfiltration pid m =
     (case nm_process m pid of
        None \<Rightarrow> False
      | Some a \<Rightarrow>
          (let total_sent = na_bytes_sent a; total_recv = na_bytes_recv a
           in if total_recv > 0 \<and> total_sent div total_recv > 10 \<and> total_sent > 10000000 then True
              else total_sent > 100000000))"

definition is_threat_ip :: "u32 \<Rightarrow> network_maps \<Rightarrow> bool" where
  "is_threat_ip ip m \<longleftrightarrow> nm_threat_ips m ip \<noteq> None"

definition mark_suspicious ::
  "bool \<Rightarrow> u32 \<Rightarrow> u16 \<Rightarrow> u32 \<Rightarrow> u16 \<Rightarrow> network_maps \<Rightarrow> network_maps" where
  "mark_suspicious ok saddr sport daddr dport m =
     (let key = conn_key saddr sport daddr dport
      in m\<lparr>nm_suspicious := map_insert ok key
             (case nm_suspicious m key of None \<Rightarrow> 1 | Some c \<Rightarrow> saturating_add c 1) (nm_suspicious m)\<rparr>)"

section \<open>Processes\<close>

record ProcessInfo =
  pn_pid :: u32
  pn_tgid :: u32
  pn_ppid :: u32
  pn_uid :: u32
  pn_gid :: u32
  pn_cgroup_id :: u64
  pn_start_time_ns :: u64
  pn_command :: "u8 list"

record process_maps =
  pm_context :: "u32 \<rightharpoonup> ProcessInfo"
  pm_parent :: "u32 \<rightharpoonup> u32"

definition track_process ::
  "task_ctx \<Rightarrow> bool \<Rightarrow> bool \<Rightarrow> u32 \<Rightarrow> u32 \<Rightarrow> u32 \<Rightarrow> process_maps \<Rightarrow> process_maps" where
  "track_process cx ok_context ok_parent pid tgid ppid m =
     \<lparr>pm_context = map_insert ok_context pid
        \<lparr>pn_pid = pid, pn_tgid = tgid, pn_ppid = ppid, pn_uid = low32 (tx_uid_gid cx),
         pn_gid = high32 (tx_uid_gid cx), pn_cgroup_id = tx_cgroup cx, pn_start_time_ns = tx_now cx,
         pn_command = (case tx_comm cx of Some c \<Rightarrow> c | None \<Rightarrow> replicate 16 0)\<rparr> (pm_context m),
      pm_parent = map_insert ok_parent pid ppid (pm_parent m)\<rparr>"

definition get_process_info :: "u32 \<Rightarrow> process_maps \<Rightarrow> ProcessInfo option" where
  "get_process_info pid m = pm_context m pid"

definition get_parent_pid :: "u32 \<Rightarrow> process_maps \<Rightarrow> u32 option" where
  "get_parent_pid pid m = pm_parent m pid"

text \<open>The loop with \<open>n\<close> rounds left: the ancestors written are the result, \<open>seen\<close> the pids met.\<close>

fun ancestry_from :: "nat \<Rightarrow> u32 \<Rightarrow> u32 list \<Rightarrow> process_maps \<Rightarrow> u32 list" where
  "ancestry_from 0 current seen m = []"
| "ancestry_from (Suc n) current seen m =
     (case pm_parent m current of
        None \<Rightarrow> []
      | Some ppid \<Rightarrow>
          ppid # (if ppid = 1 \<or> ppid \<in> set seen then [] else ancestry_from n ppid (seen @ [ppid]) m))"

definition get_process_ancestry :: "u32 \<Rightarrow> process_maps \<Rightarrow> u32 list" where
  "get_process_ancestry pid m = ancestry_from 3 pid [pid] m"

section \<open>Facts\<close>

lemma ancestry_length: "length (ancestry_from n c seen m) \<le> n"
  by (induction n c seen m rule: ancestry_from.induct) (auto split: option.splits)

fun parent_chain :: "process_maps \<Rightarrow> u32 \<Rightarrow> u32 list \<Rightarrow> bool" where
  "parent_chain m c [] \<longleftrightarrow> True"
| "parent_chain m c (p # ps) \<longleftrightarrow> pm_parent m c = Some p \<and> parent_chain m p ps"

lemma ancestry_chain: "parent_chain m c (ancestry_from n c seen m)"
  by (induction n c seen m rule: ancestry_from.induct) (auto split: option.splits)

lemma ancestry_fresh:
  "c \<in> set seen \<Longrightarrow> distinct (butlast (ancestry_from n c seen m)) \<and> set (butlast (ancestry_from n c seen m)) \<inter> set seen = {}"
proof (induction n c seen m rule: ancestry_from.induct)
  case (2 n c seen m)
  show ?case
  proof (cases "pm_parent m c")
    case (Some p)
    show ?thesis
    proof (cases "p = 1 \<or> p \<in> set seen")
      case False
      from "2.IH"[OF Some False] have
        "distinct (butlast (ancestry_from n p (seen @ [p]) m))"
        "set (butlast (ancestry_from n p (seen @ [p]) m)) \<inter> set (seen @ [p]) = {}" by simp_all
      then show ?thesis using Some False by (auto split: if_splits)
    qed (simp add: Some)
  qed simp
qed simp

text \<open>Bytes, as numbers.\<close>

lemma unat_saturating: "unat (saturating_add a b :: u64) = min (2 ^ 64 - 1) (unat a + unat b)"
  using unat_saturating_add[of a b] by simp

lemma unat_top: "unat (x :: u64) \<le> 2 ^ 64 - 1"
proof -
  have "unat x < 2 ^ LENGTH(64)" by (rule unsigned_less)
  then show ?thesis by simp
qed

definition sent_by :: "u32 \<Rightarrow> network_maps \<Rightarrow> nat" where
  "sent_by pid m = (case nm_process m pid of None \<Rightarrow> 0 | Some a \<Rightarrow> unat (na_bytes_sent a))"

type_synonym transfer = "u64 \<times> u32 \<times> u64 \<times> bool"

definition transfer_step :: "network_maps \<Rightarrow> transfer \<Rightarrow> network_maps" where
  "transfer_step m t = (case t of (now, pid, bytes, is_send) \<Rightarrow> update_data_transfer now True pid bytes is_send m)"

definition sent_in :: "u32 \<Rightarrow> transfer \<Rightarrow> nat" where
  "sent_in pid t = (case t of (now, p, bytes, is_send) \<Rightarrow> if p = pid \<and> is_send then unat bytes else 0)"

lemma transfer_tracked: "nm_process m pid \<noteq> None \<Longrightarrow> nm_process (transfer_step m t) pid \<noteq> None"
  by (auto simp: transfer_step_def update_data_transfer_def map_insert_def Let_def split: prod.splits option.splits)

lemma sent_by_step:
  "nm_process m pid \<noteq> None \<Longrightarrow> sent_by pid (transfer_step m t) = min (2 ^ 64 - 1) (sent_by pid m + sent_in pid t)"
proof -
  assume "nm_process m pid \<noteq> None"
  then obtain a where a: "nm_process m pid = Some a" by blast
  obtain now p b snd where t: "t = (now, p, b, snd)" by (cases t) auto
  note u = unat_top
  show ?thesis
  proof (cases "p = pid")
    case True
    then show ?thesis using a t u
      by (simp add: sent_by_def sent_in_def transfer_step_def update_data_transfer_def map_insert_def Let_def
          unat_saturating min_absorb2)
  next
    case False
    then have "nm_process (transfer_step m t) pid = Some a"
      using a t by (auto simp: transfer_step_def update_data_transfer_def map_insert_def Let_def split: option.splits)
    then show ?thesis using a t False u by (simp add: sent_by_def sent_in_def min_absorb2)
  qed
qed

lemma sent_by_run:
  "nm_process m pid \<noteq> None \<Longrightarrow>
   sent_by pid (foldl transfer_step m ts) = min (2 ^ 64 - 1) (sent_by pid m + sum_list (map (sent_in pid) ts))"
proof (induction ts arbitrary: m)
  case Nil
  then show ?case using unat_top by (simp add: sent_by_def min_absorb2 split: option.splits)
next
  case (Cons t ts)
  show ?case using Cons.IH[OF transfer_tracked[OF Cons.prems], of t] sent_by_step[OF Cons.prems, of t] by simp
qed

lemma do_mmap_again:
  "trace_do_mmap cx' ok' arg' (trace_do_mmap cx ok arg m) = trace_do_mmap cx ok arg m"
  if "li_seen ok" "low32 (tx_pid_tgid cx') = low32 (tx_pid_tgid cx)"
    "low32 (case arg' of None \<Rightarrow> 0 | Some a \<Rightarrow> a) = low32 (case arg of None \<Rightarrow> 0 | Some a \<Rightarrow> a)"
  using that by (simp add: trace_do_mmap_def Let_def map_insert_def library_key_def)

lemma div_greater_10: "(r :: nat) > 0 \<Longrightarrow> s div r > 10 \<longleftrightarrow> 11 * r \<le> s"
  using less_eq_div_iff_mult_less_eq[of r 11 s] by (simp add: Suc_le_eq[symmetric])

section \<open>Properties\<close>

text \<open>The ancestry of a process is a chain of recorded parents of at most three processes; none but
  the last repeats the process itself or another, so a cycle of recycled pids ends it.\<close>

theorem ancestry_is_a_chain:
  "parent_chain m pid (get_process_ancestry pid m) \<and> length (get_process_ancestry pid m) \<le> 3
   \<and> distinct (pid # butlast (get_process_ancestry pid m))"
  using ancestry_chain ancestry_length ancestry_fresh[of pid "[pid]" 3 m]
  by (auto simp: get_process_ancestry_def)

text \<open>The bytes a tracked process has sent are the sum of its transfers, held at the largest
  64-bit number, whatever other processes send and receive in between.\<close>

theorem sent_bytes_are_counted:
  "nm_process m pid \<noteq> None \<Longrightarrow>
   sent_by pid (foldl transfer_step m ts) = min (2 ^ 64 - 1) (sent_by pid m + sum_list (map (sent_in pid) ts))"
  by (rule sent_by_run)

theorem sent_bytes_are_counted_witness:
  "sent_by 7 (foldl transfer_step (track_tcp_connect 0 True True 7 0 0 1 443 6
     \<lparr>nm_process = Map.empty, nm_connections = Map.empty, nm_threat_ips = Map.empty, nm_suspicious = Map.empty\<rparr>)
     [(1, 7, 100, True), (2, 8, 50, True), (3, 7, 20, False)]) = 100"
  using sent_bytes_are_counted[of "track_tcp_connect 0 True True 7 0 0 1 443 6
     \<lparr>nm_process = Map.empty, nm_connections = Map.empty, nm_threat_ips = Map.empty, nm_suspicious = Map.empty\<rparr>" 7
     "[(1, 7, 100, True), (2, 8, 50, True), (3, 7, 20, False)]"]
  by (simp add: track_tcp_connect_def map_insert_def sent_in_def sent_by_def)

text \<open>The alarm for exfiltration: more than a hundred million bytes sent, or more than ten million
  and at least eleven times as many as received. The ratio is an integer division, so sending
  ten and a half times as much does not count as more than ten to one.\<close>

theorem exfiltration_iff:
  "check_exfiltration pid m \<longleftrightarrow>
     (case nm_process m pid of
        None \<Rightarrow> False
      | Some a \<Rightarrow> 100000000 < unat (na_bytes_sent a)
          \<or> 0 < unat (na_bytes_recv a) \<and> 11 * unat (na_bytes_recv a) \<le> unat (na_bytes_sent a)
            \<and> 10000000 < unat (na_bytes_sent a))"
  using div_greater_10
  by (auto simp: check_exfiltration_def word_less_nat_alt unat_div Let_def split: option.splits)

text \<open>Mapping at the same address again changes nothing, whoever asks: a library is counted once
  for each process and address, provided the first insert succeeded.\<close>

theorem mappings_count_once:
  assumes "li_seen ok" "low32 (tx_pid_tgid cx') = low32 (tx_pid_tgid cx)"
    "low32 (case arg' of None \<Rightarrow> 0 | Some a \<Rightarrow> a) = low32 (case arg of None \<Rightarrow> 0 | Some a \<Rightarrow> a)"
  shows "trace_do_mmap cx' ok' arg' (trace_do_mmap cx ok arg m) = trace_do_mmap cx ok arg m"
  using assms by (rule do_mmap_again)

theorem mappings_count_once_witness:
  "get_loaded_libraries 7 (trace_do_mmap \<lparr>tx_pid_tgid = 7, tx_uid_gid = 0, tx_cgroup = 1, tx_now = 9, tx_comm = None\<rparr>
     \<lparr>li_seen = True, li_loaded = True, li_count = True\<rparr> (Some 4096)
     (trace_do_mmap \<lparr>tx_pid_tgid = 7, tx_uid_gid = 0, tx_cgroup = 1, tx_now = 5, tx_comm = None\<rparr>
        \<lparr>li_seen = True, li_loaded = True, li_count = True\<rparr> (Some 4096)
        \<lparr>lm_loaded = Map.empty, lm_seen = Map.empty, lm_count = Map.empty\<rparr>)) = 1"
  by (subst mappings_count_once) (simp_all add: trace_do_mmap_def get_loaded_libraries_def map_insert_def low32_def Let_def)

end
