(* ===== verification/Kernel_Probes.thy ===== *)
theory Kernel_Probes
  imports Kernel_Maps Event_Consumer
begin

unbundle bit_operations_syntax

text \<open>
  \<open>scanner-ebpf\<close>: the unified event (\<open>events.rs\<close>) and the programs that emit it on system calls
  (\<open>tracepoints.rs\<close>), kernel functions (\<open>kprobes.rs\<close>) and library functions (\<open>usdt.rs\<close>). The event
  is the structure the agent reads (\<open>Event_Wire\<close>); its union is its bytes. What a program reads from
  the kernel and from user memory are the fields of its context, and so is whether the
  ring buffer has room and whether an insert into a map succeeds.
\<close>

section \<open>Contexts and state\<close>

text \<open>\<open>read_at\<close> by offset, arguments by number, memory by address; a 32-bit read takes the low half.\<close>

record probe_ctx =
  px_task :: task_ctx
  px_read :: "nat \<Rightarrow> u64 option"
  px_arg :: "nat \<Rightarrow> u64 option"
  px_user_str :: "u64 \<Rightarrow> nat \<Rightarrow> u8 list"
  px_user_sock :: "u64 \<Rightarrow> (u16 \<times> u16 \<times> u32) option"
  px_kernel16 :: "u64 \<Rightarrow> u16 option"
  px_kernel32 :: "u64 \<Rightarrow> u32 option"
  px_room :: "nat \<Rightarrow> bool"
  px_ins_last :: bool
  px_ins_count :: bool
  px_ins_drop :: bool
  px_ins_net :: bool
  px_ins_conn :: bool

record kernel =
  kr_ring :: "SecurityEvent list"
  kr_count_by_kind :: "u8 \<rightharpoonup> u64"
  kr_dropped_by_kind :: "u8 \<rightharpoonup> u64"
  kr_last_event :: "u64 \<rightharpoonup> u64"
  kr_net :: network_maps

section \<open>Events\<close>

definition comm_bytes :: "task_ctx \<Rightarrow> u8 list" where
  "comm_bytes cx = (case tx_comm cx of None \<Rightarrow> replicate 16 0 | Some name \<Rightarrow> zero_extend 16 (take 16 name))"

definition create_base_event :: "task_ctx \<Rightarrow> SecurityEventKind \<Rightarrow> SecurityEvent" where
  "create_base_event cx kind =
     \<lparr>sv_ts = tx_now cx, sv_kind = kind, sv_pid = low32 (tx_pid_tgid cx), sv_tgid = high32 (tx_pid_tgid cx),
      sv_uid = low32 (tx_uid_gid cx), sv_gid = high32 (tx_uid_gid cx), sv_cgroup_id = tx_cgroup cx,
      sv_confidence = 50, sv_data = replicate 128 0, sv_comm = comm_bytes cx\<rparr>"

definition exec_bytes :: "u32 \<Rightarrow> u8 \<Rightarrow> u8 list \<Rightarrow> u8 list" where
  "exec_bytes ppid is_setuid args = le_bytes 4 ppid @ [is_setuid] @ pad 3 @ args"

definition file_bytes :: "u8 list \<Rightarrow> u32 \<Rightarrow> bool \<Rightarrow> u8 list" where
  "file_bytes path flags sensitive = path @ le_bytes 4 flags @ [if sensitive then 1 else 0] @ pad 27"

definition net_bytes ::
  "u32 \<Rightarrow> u32 \<Rightarrow> u16 \<Rightarrow> u16 \<Rightarrow> u64 \<Rightarrow> u8 \<Rightarrow> bool \<Rightarrow> bool \<Rightarrow> u8 list" where
  "net_bytes saddr daddr sport dport bytes protocol external suspicious =
     le_bytes 4 saddr @ le_bytes 4 daddr @ le_bytes 2 sport @ le_bytes 2 dport @ pad 4 @ le_bytes 8 bytes
     @ [protocol, if external then 1 else 0, if suspicious then 1 else 0] @ pad 101"

definition emit_event :: "probe_ctx \<Rightarrow> nat \<Rightarrow> SecurityEvent \<Rightarrow> kernel \<Rightarrow> kernel" where
  "emit_event px k e s =
     (let kind = SecurityEventKind_as_u8 (sv_kind e);
          bump = (\<lambda>m. saturating_add (case m kind of None \<Rightarrow> 0 | Some c \<Rightarrow> c) 1)
      in if px_room px k
         then s\<lparr>kr_ring := kr_ring s @ [e],
                kr_count_by_kind := map_insert (px_ins_count px) kind (bump (kr_count_by_kind s)) (kr_count_by_kind s)\<rparr>
         else s\<lparr>kr_dropped_by_kind :=
                  map_insert (px_ins_drop px) kind (bump (kr_dropped_by_kind s)) (kr_dropped_by_kind s)\<rparr>)"

definition kp_calculate_confidence :: "SecurityEventKind \<Rightarrow> bool \<Rightarrow> bool \<Rightarrow> bool \<Rightarrow> u8" where
  "kp_calculate_confidence kind has_library has_network is_sensitive =
     (let c = 50;
          c = (if has_library \<and> has_network then saturating_add c 30 else c);
          c = (if is_sensitive then saturating_add c 20 else c);
          c = (case kind of SkConnect \<Rightarrow> (if has_network then saturating_add c 10 else c)
               | SkExec \<Rightarrow> saturating_add c 10
               | SkSuspicious \<Rightarrow> 90
               | _ \<Rightarrow> c)
      in min c 100)"

definition bytes_of :: "string \<Rightarrow> u8 list" where "bytes_of = map of_char"

definition kp_is_sensitive_path :: "u8 list \<Rightarrow> bool" where
  "kp_is_sensitive_path path \<longleftrightarrow> list_ex (\<lambda>p. prefix (bytes_of p) path) sensitive_prefixes"

definition is_suspicious_port :: "u16 \<Rightarrow> bool" where
  "is_suspicious_port port \<longleftrightarrow> port \<in> set [4444, 5555, 6666, 8888, 9999, 31337]"

definition is_external_ip :: "u32 \<Rightarrow> bool" where
  "is_external_ip ip \<longleftrightarrow>
     (let o0 = octet 24 ip; o1 = octet 16 ip
      in \<not> (o0 = 10 \<or> o0 = 172 \<and> 16 \<le> o1 \<and> o1 \<le> 31 \<or> o0 = 192 \<and> o1 = 168 \<or> o0 = 127))"

section \<open>Tracepoints\<close>

definition from_be16 :: "u16 \<Rightarrow> u16" where
  "from_be16 w = push_bit 8 (w AND 255) OR drop_bit 8 w"

text \<open>The port and the address of an IPv4 socket address, both in network order.\<close>

definition read_sockaddr_in :: "probe_ctx \<Rightarrow> u64 \<Rightarrow> (u16 \<times> u32) option" where
  "read_sockaddr_in px ptr =
     (if ptr = 0 then None
      else (case px_user_sock px ptr of
              Some (family, port, addr) \<Rightarrow> if family = 2 then Some (port, addr) else None
            | None \<Rightarrow> None))"

definition or_zero :: "u64 option \<Rightarrow> u64" where
  "or_zero x = (case x of None \<Rightarrow> 0 | Some v \<Rightarrow> v)"

definition emit_net_event ::
  "probe_ctx \<Rightarrow> SecurityEventKind \<Rightarrow> (u16 \<times> u32) option \<Rightarrow> u8 \<Rightarrow> u64 \<Rightarrow> kernel \<Rightarrow> kernel" where
  "emit_net_event px kind addr protocol bytes s =
     (let daddr = (case addr of None \<Rightarrow> 0 | Some a \<Rightarrow> snd a);
          dport = (case addr of None \<Rightarrow> 0 | Some a \<Rightarrow> from_be16 (fst a));
          external = is_external_ip daddr; suspicious = is_suspicious_port dport;
          base = create_base_event (px_task px) kind;
          base = base\<lparr>sv_confidence := (if suspicious \<and> external then 90
                        else kp_calculate_confidence kind False (daddr \<noteq> 0 \<or> bytes > 0) False),
                      sv_data := net_bytes 0 daddr 0 dport bytes protocol external suspicious\<rparr>
      in emit_event px 0 base s)"

definition should_emit_exec :: "probe_ctx \<Rightarrow> kernel \<Rightarrow> bool" where
  "should_emit_exec px s \<longleftrightarrow>
     (case kr_last_event s (ucast (low32 (tx_pid_tgid (px_task px)))) of
        None \<Rightarrow> True
      | Some t \<Rightarrow> (if t \<le> tx_now (px_task px) then tx_now (px_task px) - t else 0) > 1000000000)"

definition trace_enter_execve :: "probe_ctx \<Rightarrow> kernel \<Rightarrow> kernel" where
  "trace_enter_execve px s =
     (if \<not> should_emit_exec px s then s
      else
        (let cx = px_task px;
             s = s\<lparr>kr_last_event := map_insert (px_ins_last px) (ucast (low32 (tx_pid_tgid cx))) (tx_now cx)
                                      (kr_last_event s)\<rparr>;
             ptr = or_zero (px_read px 16);
             args = (if ptr = 0 then replicate 120 0 else px_user_str px ptr 120);
             base = create_base_event cx SkExec
         in emit_event px 0 (base\<lparr>sv_confidence := 60, sv_data := exec_bytes 0 0 args\<rparr>) s))"

definition trace_openat :: "probe_ctx \<Rightarrow> kernel \<Rightarrow> kernel" where
  "trace_openat px s =
     (let ptr = or_zero (px_read px 24)
      in if ptr = 0 then s
         else (let flags = low32 (or_zero (px_read px 32));
                   path = px_user_str px ptr 96;
                   sensitive = kp_is_sensitive_path path;
                   base = create_base_event (px_task px) SkFile
               in emit_event px 0
                    (base\<lparr>sv_confidence := kp_calculate_confidence SkFile False False sensitive,
                          sv_data := file_bytes path flags sensitive\<rparr>) s))"

definition trace_mmap :: "probe_ctx \<Rightarrow> kernel \<Rightarrow> kernel" where
  "trace_mmap px s =
     (let base = create_base_event (px_task px) SkMmap
      in emit_event px 0
           (base\<lparr>sv_confidence := kp_calculate_confidence SkMmap True False False,
                 sv_data := file_bytes (replicate 96 0) (low32 (or_zero (px_read px 40))) False\<rparr>) s)"

definition trace_mprotect :: "probe_ctx \<Rightarrow> kernel \<Rightarrow> kernel" where
  "trace_mprotect px s =
     (let prot = low32 (or_zero (px_read px 32));
          wx = (prot AND 2 \<noteq> 0 \<and> prot AND 4 \<noteq> 0);
          base = create_base_event (px_task px) (if wx then SkSuspicious else SkMmap)
      in emit_event px 0
           (base\<lparr>sv_confidence := (if wx then 90 else 55), sv_data := file_bytes (replicate 96 0) prot wx\<rparr>) s)"

definition trace_connect :: "probe_ctx \<Rightarrow> kernel \<Rightarrow> kernel" where
  "trace_connect px s =
     emit_net_event px SkConnect (read_sockaddr_in px (or_zero (px_read px 24))) 6 0 s"

definition trace_sendto :: "probe_ctx \<Rightarrow> kernel \<Rightarrow> kernel" where
  "trace_sendto px s =
     emit_net_event px SkNetTransfer (read_sockaddr_in px (or_zero (px_read px 48))) 17 (or_zero (px_read px 32)) s"

definition trace_recvfrom :: "probe_ctx \<Rightarrow> kernel \<Rightarrow> kernel" where
  "trace_recvfrom px s =
     emit_net_event px SkNetTransfer (read_sockaddr_in px (or_zero (px_read px 48))) 17 (or_zero (px_read px 32)) s"

text \<open>Two examples of the source, which nothing calls.\<close>

definition emit_file_event_example :: "u8 list \<Rightarrow> u32 \<Rightarrow> probe_ctx \<Rightarrow> kernel \<Rightarrow> kernel" where
  "emit_file_event_example path flags px s =
     (let sensitive = kp_is_sensitive_path path;
          base = create_base_event (px_task px) SkFile
      in emit_event px 0
           (base\<lparr>sv_confidence := kp_calculate_confidence SkFile True False sensitive,
                 sv_data := file_bytes (zero_extend 96 (take 96 path)) flags sensitive\<rparr>) s)"

definition emit_network_event_example :: "u32 \<Rightarrow> u32 \<Rightarrow> u16 \<Rightarrow> u16 \<Rightarrow> probe_ctx \<Rightarrow> kernel \<Rightarrow> kernel" where
  "emit_network_event_example saddr daddr sport dport px s =
     (let suspicious = is_suspicious_port dport; external = is_external_ip daddr;
          base = create_base_event (px_task px) SkConnect
      in emit_event px 0
           (base\<lparr>sv_confidence := (if suspicious \<and> external then 90 else 50),
                 sv_data := net_bytes saddr daddr sport dport 0 6 external suspicious\<rparr>) s)"

section \<open>Kernel functions\<close>

definition extract_dest :: "probe_ctx \<Rightarrow> u64 \<Rightarrow> u32 \<times> u16" where
  "extract_dest px uaddr =
     (case px_kernel32 px (uaddr + 4) of None \<Rightarrow> 0 | Some a \<Rightarrow> a,
      case px_kernel16 px (uaddr + 2) of None \<Rightarrow> 0 | Some p \<Rightarrow> p)"

definition emit_network_event ::
  "probe_ctx \<Rightarrow> SecurityEventKind \<Rightarrow> u8 \<Rightarrow> u32 \<Rightarrow> u16 \<Rightarrow> u32 \<Rightarrow> u16 \<Rightarrow> u64 \<Rightarrow> bool \<Rightarrow> kernel \<Rightarrow> kernel" where
  "emit_network_event px kind protocol saddr sport daddr dport bytes is_send s =
     (let cx = px_task px; pid = low32 (tx_pid_tgid cx);
          base = (create_base_event cx kind)\<lparr>sv_confidence := kp_calculate_confidence kind False True False,
                   sv_data := net_bytes saddr daddr sport dport bytes protocol False False\<rparr>;
          s = emit_event px 0 base s
      in if bytes > 0
         then (let s = s\<lparr>kr_net := update_data_transfer (tx_now cx) (px_ins_net px) pid bytes is_send (kr_net s)\<rparr>
               in if check_exfiltration pid (kr_net s)
                  then emit_event px 1 ((create_base_event cx SkSuspicious)\<lparr>sv_confidence := 90, sv_data := sv_data base\<rparr>) s
                  else s)
         else s)"

definition dest_of :: "probe_ctx \<Rightarrow> u32 \<times> u16" where
  "dest_of px = (let uaddr = or_zero (px_arg px 1) in if uaddr \<noteq> 0 then extract_dest px uaddr else (0, 0))"

definition trace_tcp_v4_connect :: "probe_ctx \<Rightarrow> kernel \<Rightarrow> kernel" where
  "trace_tcp_v4_connect px s =
     (let cx = px_task px; (daddr, dport) = dest_of px;
          s = s\<lparr>kr_net := track_tcp_connect (tx_now cx) (px_ins_conn px) (px_ins_net px)
                            (low32 (tx_pid_tgid cx)) 0 0 daddr dport 6 (kr_net s)\<rparr>
      in emit_network_event px SkConnect 6 0 0 daddr dport 0 True s)"

definition trace_tcp_v6_connect :: "probe_ctx \<Rightarrow> kernel \<Rightarrow> kernel" where
  "trace_tcp_v6_connect px s =
     (let (daddr, dport) = dest_of px in emit_network_event px SkConnect 6 0 0 daddr dport 0 True s)"

definition trace_tcp_close :: "probe_ctx \<Rightarrow> kernel \<Rightarrow> kernel" where
  "trace_tcp_close px s = emit_network_event px SkNetTransfer 6 0 0 0 0 0 False s"

definition trace_tcp_sendmsg :: "probe_ctx \<Rightarrow> kernel \<Rightarrow> kernel" where
  "trace_tcp_sendmsg px s = emit_network_event px SkNetTransfer 6 0 0 0 0 (or_zero (px_arg px 2)) True s"

definition trace_tcp_recvmsg :: "probe_ctx \<Rightarrow> kernel \<Rightarrow> kernel" where
  "trace_tcp_recvmsg px s = emit_network_event px SkNetTransfer 6 0 0 0 0 (or_zero (px_arg px 2)) False s"

definition trace_udp_sendmsg :: "probe_ctx \<Rightarrow> kernel \<Rightarrow> kernel" where
  "trace_udp_sendmsg px s = emit_network_event px SkNetTransfer 17 0 0 0 0 (or_zero (px_arg px 2)) True s"

definition trace_udp_recvmsg :: "probe_ctx \<Rightarrow> kernel \<Rightarrow> kernel" where
  "trace_udp_recvmsg px s = emit_network_event px SkNetTransfer 17 0 0 0 0 (or_zero (px_arg px 2)) False s"

section \<open>Library functions\<close>

text \<open>These programs build their events themselves, with the two ids the other way round, and hand
  them to the ring without counting.\<close>

definition usdt_base_event :: "task_ctx \<Rightarrow> SecurityEvent" where
  "usdt_base_event cx =
     \<lparr>sv_ts = tx_now cx, sv_kind = SkExec, sv_pid = high32 (tx_pid_tgid cx), sv_tgid = low32 (tx_pid_tgid cx),
      sv_uid = 0, sv_gid = 0, sv_cgroup_id = tx_cgroup cx, sv_confidence = 70, sv_data = replicate 128 0,
      sv_comm = comm_bytes cx\<rparr>"

definition usdt_event :: "task_ctx \<Rightarrow> string \<Rightarrow> u8 \<Rightarrow> SecurityEvent" where
  "usdt_event cx name confidence =
     (usdt_base_event cx)\<lparr>sv_data := exec_bytes 0 0 (zero_extend 120 (bytes_of name)), sv_confidence := confidence\<rparr>"

definition ring_output :: "probe_ctx \<Rightarrow> SecurityEvent \<Rightarrow> kernel \<Rightarrow> kernel" where
  "ring_output px e s = (if px_room px 0 then s\<lparr>kr_ring := kr_ring s @ [e]\<rparr> else s)"

definition probe_ssl_write :: "probe_ctx \<Rightarrow> kernel \<Rightarrow> kernel" where
  "probe_ssl_write px s =
     (case px_arg px 2 of
        None \<Rightarrow> s
      | Some len \<Rightarrow> ring_output px (usdt_event (px_task px) ''SSL_write''
          (if len > 1048576 then 90 else if len > 65536 then 80 else 60)) s)"

definition probe_ssl_read :: "probe_ctx \<Rightarrow> kernel \<Rightarrow> kernel" where
  "probe_ssl_read px s = ring_output px (usdt_event (px_task px) ''SSL_read'' 70) s"

definition probe_malloc :: "probe_ctx \<Rightarrow> kernel \<Rightarrow> kernel" where
  "probe_malloc px s =
     (case px_arg px 0 of
        None \<Rightarrow> s
      | Some sz \<Rightarrow>
          if sz < 1048576 then s
          else ring_output px (usdt_event (px_task px) ''malloc''
            (if sz > 104857600 then 95 else if sz > 10485760 then 85 else 70)) s)"

definition probe_curl_easy_perform :: "probe_ctx \<Rightarrow> kernel \<Rightarrow> kernel" where
  "probe_curl_easy_perform px s = ring_output px (usdt_event (px_task px) ''curl_easy_perform'' 65) s"

section \<open>Runs\<close>

datatype probe =
  Execve | Openat | Mmap | Mprotect | ConnectCall | Sendto | Recvfrom
| TcpV4Connect | TcpV6Connect | TcpClose | TcpSendmsg | TcpRecvmsg | UdpSendmsg | UdpRecvmsg
| SslWrite | SslRead | Malloc | CurlEasyPerform
| FileExample "u8 list" u32 | NetworkExample u32 u32 u16 u16

fun run_probe :: "probe \<Rightarrow> probe_ctx \<Rightarrow> kernel \<Rightarrow> kernel" where
  "run_probe Execve = trace_enter_execve"
| "run_probe Openat = trace_openat"
| "run_probe Mmap = trace_mmap"
| "run_probe Mprotect = trace_mprotect"
| "run_probe ConnectCall = trace_connect"
| "run_probe Sendto = trace_sendto"
| "run_probe Recvfrom = trace_recvfrom"
| "run_probe TcpV4Connect = trace_tcp_v4_connect"
| "run_probe TcpV6Connect = trace_tcp_v6_connect"
| "run_probe TcpClose = trace_tcp_close"
| "run_probe TcpSendmsg = trace_tcp_sendmsg"
| "run_probe TcpRecvmsg = trace_tcp_recvmsg"
| "run_probe UdpSendmsg = trace_udp_sendmsg"
| "run_probe UdpRecvmsg = trace_udp_recvmsg"
| "run_probe SslWrite = probe_ssl_write"
| "run_probe SslRead = probe_ssl_read"
| "run_probe Malloc = probe_malloc"
| "run_probe CurlEasyPerform = probe_curl_easy_perform"
| "run_probe (FileExample path flags) = emit_file_event_example path flags"
| "run_probe (NetworkExample sa da sp dp) = emit_network_event_example sa da sp dp"

definition kernel_step :: "kernel \<Rightarrow> probe \<times> probe_ctx \<Rightarrow> kernel" where
  "kernel_step s p = run_probe (fst p) (snd p) s"

definition kernel_start :: kernel where
  "kernel_start =
     \<lparr>kr_ring = [], kr_count_by_kind = Map.empty, kr_dropped_by_kind = Map.empty, kr_last_event = Map.empty,
      kr_net = \<lparr>nm_process = Map.empty, nm_connections = Map.empty, nm_threat_ips = Map.empty,
                nm_suspicious = Map.empty\<rparr>\<rparr>"

section \<open>Facts\<close>

definition probe_ctx_ok :: "probe_ctx \<Rightarrow> bool" where
  "probe_ctx_ok px \<longleftrightarrow> (\<forall>p n. length (px_user_str px p n) = n)"

definition ring_ok :: "kernel \<Rightarrow> bool" where
  "ring_ok s \<longleftrightarrow> list_all SecurityEvent_ok (kr_ring s)"

lemma payload_lengths [simp]:
  "length args = 120 \<Longrightarrow> length (exec_bytes p u args) = 128"
  "length path = 96 \<Longrightarrow> length (file_bytes path f b) = 128"
  "length (net_bytes sa da sp dp n pr x y) = 128"
  by (simp_all add: exec_bytes_def file_bytes_def net_bytes_def)

lemma comm_length [simp]: "length (comm_bytes cx) = 16"
  by (simp add: comm_bytes_def zero_extend_def split: option.split)

lemma base_ok [simp]:
  "length d = 128 \<Longrightarrow> SecurityEvent_ok ((create_base_event cx k)\<lparr>sv_confidence := c, sv_data := d\<rparr>)"
  by (simp add: SecurityEvent_ok_def create_base_event_def)

lemma usdt_ok [simp]: "length name \<le> 120 \<Longrightarrow> SecurityEvent_ok (usdt_event cx name c)"
  by (simp add: SecurityEvent_ok_def usdt_event_def usdt_base_event_def zero_extend_def bytes_of_def)

lemma emit_ok [simp]: "SecurityEvent_ok e \<Longrightarrow> ring_ok s \<Longrightarrow> ring_ok (emit_event px k e s)"
  by (simp add: emit_event_def ring_ok_def Let_def)

lemma output_ok [simp]: "SecurityEvent_ok e \<Longrightarrow> ring_ok s \<Longrightarrow> ring_ok (ring_output px e s)"
  by (simp add: ring_output_def ring_ok_def)

lemma ring_ok_maps [simp]:
  "ring_ok (s\<lparr>kr_net := n\<rparr>) = ring_ok s" "ring_ok (s\<lparr>kr_last_event := l\<rparr>) = ring_ok s"
  by (simp_all add: ring_ok_def)

lemma network_ok [simp]: "ring_ok s \<Longrightarrow> ring_ok (emit_network_event px k pr sa sp da dp n b s)"
  by (simp add: emit_network_event_def Let_def)

lemma net_event_ok [simp]: "ring_ok s \<Longrightarrow> ring_ok (emit_net_event px k a pr n s)"
  by (simp add: emit_net_event_def Let_def)

lemma probe_ok: "probe_ctx_ok px \<Longrightarrow> ring_ok s \<Longrightarrow> ring_ok (run_probe p px s)"
  by (cases p)
    (simp_all add: probe_ctx_ok_def trace_enter_execve_def trace_openat_def trace_mmap_def trace_mprotect_def
      trace_connect_def trace_sendto_def trace_recvfrom_def trace_tcp_v4_connect_def trace_tcp_v6_connect_def
      trace_tcp_close_def trace_tcp_sendmsg_def trace_tcp_recvmsg_def trace_udp_sendmsg_def trace_udp_recvmsg_def
      probe_ssl_write_def probe_ssl_read_def probe_malloc_def probe_curl_easy_perform_def
      emit_file_event_example_def emit_network_event_example_def zero_extend_def Let_def
      split: prod.split option.split)

lemma kernel_run_ok:
  "list_all (\<lambda>p. probe_ctx_ok (snd p)) ps \<Longrightarrow> ring_ok s \<Longrightarrow> ring_ok (foldl kernel_step s ps)"
  by (induction ps arbitrary: s) (simp_all add: kernel_step_def probe_ok)

text \<open>The fields of a network payload read back.\<close>

lemma net_bytes_fields:
  "nd_daddr (data_net (net_bytes sa da sp dp n pr x y)) = da"
  "nd_dport (data_net (net_bytes sa da sp dp n pr x y)) = dp"
  "nd_bytes (data_net (net_bytes sa da sp dp n pr x y)) = n"
  "nd_protocol (data_net (net_bytes sa da sp dp n pr x y)) = pr"
  by (simp_all add: data_net_def net_bytes_def at_off_def nth_append)

lemma suspicious_no_view: "sv_kind e = SkSuspicious \<Longrightarrow> accept_security e w = (False, w)"
  by (simp add: accept_security_def take_view_def security_to_net_def security_to_file_def
      security_to_exec_def file_kind_def)

lemma swapped_octets: "octet 24 (from_be32 h) = h AND 255" "octet 16 (from_be32 h) = octet 8 h"
proof -
  show "octet 24 (from_be32 h) = h AND 255"
    by (rule word32_eqI) (auto simp: octet_def bit_and_iff bit_drop_bit_eq bit_255 bit_from_be32)
  show "octet 16 (from_be32 h) = octet 8 h"
    by (rule word32_eqI) (auto simp: octet_def bit_and_iff bit_drop_bit_eq bit_255 bit_from_be32)
qed

text \<open>Execve events of a process keep their distance.\<close>

definition exec_step :: "kernel \<Rightarrow> probe_ctx \<Rightarrow> kernel" where
  "exec_step s px = trace_enter_execve px s"

definition exec_fires :: "u32 \<Rightarrow> kernel \<Rightarrow> probe_ctx \<Rightarrow> bool" where
  "exec_fires p s px \<longleftrightarrow> low32 (tx_pid_tgid (px_task px)) = p \<and> should_emit_exec px s"

definition exec_at :: "probe_ctx \<Rightarrow> int" where
  "exec_at px = uint (tx_now (px_task px))"

definition exec_free :: "u32 \<Rightarrow> kernel \<Rightarrow> int option" where
  "exec_free p s = map_option (\<lambda>t. uint t + 1000000001) (kr_last_event s (ucast p))"

lemma emit_last_event [simp]: "kr_last_event (emit_event px k e s) = kr_last_event s"
  by (simp add: emit_event_def Let_def)

lemma ucast_pid_inj: "(ucast (a :: u32) :: u64) = ucast b \<longleftrightarrow> a = b"
proof -
  have "uint (ucast c :: u64) = uint c" for c :: u32
    by (simp add: unsigned_ucast_eq take_bit_int_eq_self unsigned_less[of c, THEN order_less_trans])
  then show ?thesis by (metis word_uint_eq_iff)
qed

lemma exec_last:
  "kr_last_event (exec_step s px) =
     (if should_emit_exec px s
      then map_insert (px_ins_last px) (ucast (low32 (tx_pid_tgid (px_task px)))) (tx_now (px_task px)) (kr_last_event s)
      else kr_last_event s)"
  by (simp add: exec_step_def trace_enter_execve_def Let_def)

lemma elapsed:
  fixes t now :: u64
  assumes "(if t \<le> now then now - t else 0) > 1000000000"
  shows "uint t + 1000000001 \<le> uint now"
proof (cases "t \<le> now")
  case True
  then have "uint (now - t) = uint now - uint t" by (simp add: uint_sub_lem word_le_def)
  moreover have "1000000000 < uint (now - t)" using assms True by (simp add: word_less_def)
  ultimately show ?thesis by linarith
qed (use assms in simp)

interpretation exec_rate: rate_limit exec_step "\<lambda>s. True" "exec_fires p" exec_at px_ins_last "exec_free p" 1000000001 for p
proof
  fix s e u
  assume "exec_fires p s e" "exec_free p s = Some u"
  then show "u \<le> exec_at e"
    by (auto simp: exec_fires_def exec_free_def exec_at_def should_emit_exec_def dest: elapsed)
next
  fix s e
  assume "exec_fires p s e" "px_ins_last e"
  then show "\<exists>u. exec_free p (exec_step s e) = Some u \<and> exec_at e + 1000000001 \<le> u"
    by (simp add: exec_free_def exec_last exec_fires_def map_insert_def exec_at_def)
next
  fix s e
  assume "\<not> exec_fires p s e"
  then show "exec_free p (exec_step s e) = exec_free p s"
    by (auto simp: exec_free_def exec_last exec_fires_def map_insert_def ucast_pid_inj)
qed simp_all

section \<open>Properties\<close>

text \<open>C6. Whatever the programs emit, in any order and for whatever the kernel and user memory hold,
  the agent's parser reads back from its bytes exactly the event that was written.\<close>

theorem kernel_events_read_back:
  "list_all (\<lambda>p. probe_ctx_ok (snd p)) ps \<Longrightarrow>
   list_all (\<lambda>e. accepted (parse_security_event (encode_security e)) = Some e) (kr_ring (foldl kernel_step kernel_start ps))"
proof -
  assume "list_all (\<lambda>p. probe_ctx_ok (snd p)) ps"
  from kernel_run_ok[OF this, of kernel_start]
  have "list_all SecurityEvent_ok (kr_ring (foldl kernel_step kernel_start ps))"
    by (simp add: ring_ok_def kernel_start_def)
  then show ?thesis using security_wire.roundtrip by (auto simp: list_all_iff)
qed

definition sample_ctx :: "u64 \<Rightarrow> probe_ctx" where
  "sample_ctx now =
     \<lparr>px_task = \<lparr>tx_pid_tgid = 7, tx_uid_gid = 0, tx_cgroup = 42, tx_now = now, tx_comm = None\<rparr>,
      px_read = (\<lambda>k. Some (if k = 32 then 6 else 64)), px_arg = (\<lambda>k. Some 64),
      px_user_str = (\<lambda>p n. replicate n 65), px_user_sock = (\<lambda>p. Some (2, 47873, 167772165)),
      px_kernel16 = (\<lambda>p. Some 47873), px_kernel32 = (\<lambda>p. Some 167772165), px_room = (\<lambda>k. True),
      px_ins_last = True, px_ins_count = True, px_ins_drop = True, px_ins_net = True, px_ins_conn = True\<rparr>"

theorem kernel_events_read_back_witness:
  "list_all (\<lambda>e. accepted (parse_security_event (encode_security e)) = Some e)
     (kr_ring (foldl kernel_step kernel_start [(Openat, sample_ctx 1), (Mprotect, sample_ctx 2), (TcpSendmsg, sample_ctx 3)]))"
  by (rule kernel_events_read_back) (simp add: probe_ctx_ok_def sample_ctx_def)

text \<open>The strongest signal of the kernel side never reaches the agent's state: a mapping made
  writable and executable at once is emitted as a suspicious event, and the agent accepts
  no view of a suspicious event.\<close>

theorem suspicious_events_are_ignored:
  assumes "px_room px 0" "low32 (or_zero (px_read px 32)) AND 2 \<noteq> 0" "low32 (or_zero (px_read px 32)) AND 4 \<noteq> 0"
  shows "\<exists>e. kr_ring (trace_mprotect px s) = kr_ring s @ [e] \<and> sv_confidence e = 90 \<and> accept_security e w = (False, w)"
proof -
  let ?e = "(create_base_event (px_task px) SkSuspicious)\<lparr>sv_confidence := 90,
     sv_data := file_bytes (replicate 96 0) (low32 (or_zero (px_read px 32))) True\<rparr>"
  have "kr_ring (trace_mprotect px s) = kr_ring s @ [?e]"
    using assms by (simp add: trace_mprotect_def emit_event_def Let_def)
  moreover have "accept_security ?e w = (False, w)" by (rule suspicious_no_view) (simp add: create_base_event_def)
  ultimately show ?thesis by (intro exI[of _ ?e]) simp
qed

theorem suspicious_events_are_ignored_witness:
  "\<exists>e. kr_ring (trace_mprotect (sample_ctx 5) kernel_start) = [e] \<and> accept_security e w = (False, w)"
proof -
  have "low32 6 AND 2 \<noteq> 0" "low32 6 AND 4 \<noteq> 0" by code_simp+
  then show ?thesis using suspicious_events_are_ignored[of "sample_ctx 5" kernel_start w]
    by (auto simp: sample_ctx_def or_zero_def kernel_start_def)
qed

text \<open>The test for external addresses reads an address in network order as if its bytes were in
  host order: it decides by the last two octets, so 10.0.0.5 is external and 8.8.8.10 is not.\<close>

theorem external_test_reads_the_wrong_end:
  "(is_external_ip (from_be32 h) \<longleftrightarrow>
      \<not> (h AND 255 = 10 \<or> h AND 255 = 172 \<and> 16 \<le> octet 8 h \<and> octet 8 h \<le> 31
         \<or> h AND 255 = 192 \<and> octet 8 h = 168 \<or> h AND 255 = 127))
   \<and> is_external_ip (from_be32 0x0A000005) \<and> \<not> is_external_ip (from_be32 0x0808080A)"
proof (intro conjI)
  show "is_external_ip (from_be32 h) \<longleftrightarrow>
      \<not> (h AND 255 = 10 \<or> h AND 255 = 172 \<and> 16 \<le> octet 8 h \<and> octet 8 h \<le> 31
         \<or> h AND 255 = 192 \<and> octet 8 h = 168 \<or> h AND 255 = 127)"
    by (simp add: is_external_ip_def swapped_octets Let_def)
  show "is_external_ip (from_be32 0x0A000005)" "\<not> is_external_ip (from_be32 0x0808080A)" by code_simp+
qed

text \<open>Execve events of one process are more than a second apart, however often it executes,
  as long as the time of each event can be remembered.\<close>

theorem exec_events_are_spaced:
  "list_all px_ins_last pxs \<Longrightarrow>
   sorted_wrt (\<lambda>x y. x + 1000000001 \<le> y) (firings exec_step (exec_fires p) exec_at s pxs)"
  by (rule exec_rate.firings_spaced) simp

theorem exec_events_are_spaced_witness:
  "sorted_wrt (\<lambda>x y. x + 1000000001 \<le> y)
     (firings exec_step (exec_fires 7) exec_at kernel_start [sample_ctx 5, sample_ctx 6, sample_ctx 2000000000])"
  by (rule exec_events_are_spaced) (simp add: sample_ctx_def)

text \<open>The two programs that see a connection report different ports: for the same socket address
  the tracepoint turns the port into host order and the kernel probe does not.\<close>

theorem connect_ports_disagree:
  assumes "px_room px 0" "or_zero (px_read px 24) = a" "or_zero (px_arg px 1) = a" "a \<noteq> 0"
    "px_user_sock px a = Some (2, port, addr)" "px_kernel16 px (a + 2) = Some port" "px_kernel32 px (a + 4) = Some addr"
  shows "map (nd_dport \<circ> data_net \<circ> sv_data) (kr_ring (trace_tcp_v4_connect px (trace_connect px s)))
    = map (nd_dport \<circ> data_net \<circ> sv_data) (kr_ring s) @ [from_be16 port, port]"
  using assms
  by (simp add: trace_connect_def trace_tcp_v4_connect_def emit_net_event_def emit_network_event_def emit_event_def
      read_sockaddr_in_def dest_of_def extract_dest_def Let_def net_bytes_fields)

theorem connect_ports_disagree_witness:
  "map (nd_dport \<circ> data_net \<circ> sv_data) (kr_ring (trace_tcp_v4_connect (sample_ctx 5) (trace_connect (sample_ctx 5) kernel_start)))
   = [443, 47873]"
proof -
  have "from_be16 47873 = 443" by code_simp
  then show ?thesis using connect_ports_disagree[of "sample_ctx 5" 64 47873 167772165 kernel_start]
    by (simp add: sample_ctx_def or_zero_def kernel_start_def)
qed

text \<open>What a process receives is stored as sent by UDP: the system call that receives is reported
  as a transfer with the protocol fixed to UDP, which the agent turns into a UDP send.\<close>

theorem receives_become_udp_sends:
  "px_room px 0 \<Longrightarrow>
   \<exists>e n. kr_ring (trace_recvfrom px s) = kr_ring s @ [e] \<and> security_to_net e = Some n \<and> ne_kind n = KUdpSend"
  by (simp add: trace_recvfrom_def emit_net_event_def emit_event_def Let_def security_to_net_def
      create_base_event_def net_bytes_fields)

theorem receives_become_udp_sends_witness:
  "\<exists>e n. kr_ring (trace_recvfrom (sample_ctx 5) kernel_start) = [e] \<and> security_to_net e = Some n \<and> ne_kind n = KUdpSend"
  using receives_become_udp_sends[of "sample_ctx 5" kernel_start] by (simp add: sample_ctx_def kernel_start_def)

end
