(* ===== verification/Bpf_Loader.thy ===== *)
theory Bpf_Loader
  imports Event_Consumer Kernel_Probes
begin

text \<open>
  \<open>bpf_loader.rs\<close>, its stub, the loading part of \<open>bpf.rs\<close> and \<open>load_and_run_ebpf\<close> of \<open>main.rs\<close>:
  which programs of an object are attached where, and which ring buffers the consumer reads.
  The object belongs to the library aya: its programs with their kinds, its maps and the
  answers to loading and attaching are an argument. Attachments are recorded in order.
  The library detaches the programs of an object when the object is dropped.
\<close>

section \<open>Objects\<close>

datatype prog_kind = PkTracepoint | PkKprobe | PkUprobe | PkLsm | PkXdp

text \<open>A ring buffer with what it holds, or another map with the error of opening it as one.\<close>

datatype map_kind = MkRing "u8 list list" | MkOther string

record bpf_object =
  bo_program :: "string \<rightharpoonup> prog_kind"
  bo_wrong_kind :: "string \<Rightarrow> string"
  bo_load :: "string \<Rightarrow> string option"
  bo_attach :: "string \<Rightarrow> string list \<Rightarrow> string option"
  bo_map :: "string \<rightharpoonup> map_kind"

type_synonym attachment = "string \<times> string list"

record BpfLoader =
  bl_bpf :: bpf_object
  bl_attached :: "attachment list"

definition BpfLoader_new :: "(string \<Rightarrow> string + bpf_object) \<Rightarrow> string \<Rightarrow> ScannerError + BpfLoader" where
  "BpfLoader_new load_file path =
     (case load_file path of
        Inl e \<Rightarrow> Inl (ErrBpf (''Failed to load eBPF object: '' @ e))
      | Inr b \<Rightarrow> Inr \<lparr>bl_bpf = b, bl_attached = []\<rparr>)"

definition stub_BpfLoader_new :: "string \<Rightarrow> ScannerError + BpfLoader" where
  "stub_BpfLoader_new path = Inl (ErrBpf ''eBPF not available on this platform'')"

section \<open>Attaching\<close>

text \<open>
  The steps the methods share: find the program, take it as its kind, load it, attach it. They
  differ in the texts of their errors: of a missing program, of loading and of attaching.
\<close>

definition attach_program ::
  "prog_kind \<Rightarrow> string \<Rightarrow> string \<Rightarrow> string \<Rightarrow> string \<Rightarrow> string \<Rightarrow> string list \<Rightarrow> BpfLoader
   \<Rightarrow> ScannerError option \<times> BpfLoader" where
  "attach_program kind missing load_fails loading attach_fails name tgt l =
     (let b = bl_bpf l
      in case bo_program b name of
           None \<Rightarrow> (Some (ErrBpf missing), l)
         | Some k \<Rightarrow>
             if k \<noteq> kind then (Some (ErrBpf (load_fails @ bo_wrong_kind b name)), l)
             else (case bo_load b name of
                     Some e \<Rightarrow> (Some (ErrBpf (loading @ e)), l)
                   | None \<Rightarrow>
                       (case bo_attach b name tgt of
                          Some e \<Rightarrow> (Some (ErrBpf (attach_fails @ e)), l)
                        | None \<Rightarrow> (None, l\<lparr>bl_attached := bl_attached l @ [(name, tgt)]\<rparr>))))"

definition attach_tracepoint :: "string \<Rightarrow> string \<Rightarrow> string \<Rightarrow> BpfLoader \<Rightarrow> ScannerError option \<times> BpfLoader" where
  "attach_tracepoint name category tracepoint =
     attach_program PkTracepoint (''Tracepoint '' @ name @ '' not found'') (''Failed to load '' @ name @ '': '')
       (''Failed to load '' @ name @ '': '') (''Failed to attach '' @ name @ '': '') name [category, tracepoint]"

definition attach_kprobe :: "string \<Rightarrow> string \<Rightarrow> BpfLoader \<Rightarrow> ScannerError option \<times> BpfLoader" where
  "attach_kprobe name kernel_fn =
     attach_program PkKprobe (''Kprobe '' @ name @ '' not found'') (''Failed to load '' @ name @ '': '')
       (''Failed to load '' @ name @ '': '') (''Failed to attach '' @ name @ '': '') name [kernel_fn]"

definition attach_tracepoint_if_present ::
  "string \<Rightarrow> string \<Rightarrow> string \<Rightarrow> BpfLoader \<Rightarrow> ScannerError option \<times> BpfLoader" where
  "attach_tracepoint_if_present name category tracepoint l =
     (if bo_program (bl_bpf l) name = None then (None, l) else attach_tracepoint name category tracepoint l)"

definition attach_kprobe_if_present :: "string \<Rightarrow> string \<Rightarrow> BpfLoader \<Rightarrow> ScannerError option \<times> BpfLoader" where
  "attach_kprobe_if_present name kernel_fn l =
     (if bo_program (bl_bpf l) name = None then (None, l) else attach_kprobe name kernel_fn l)"

definition attach_lsm :: "string \<Rightarrow> BpfLoader \<Rightarrow> ScannerError option \<times> BpfLoader" where
  "attach_lsm hook =
     (let name = ''scanner_lsm_'' @ hook
      in attach_program PkLsm (''LSM program '' @ name @ '' not found'') (''Failed to load '' @ name @ '': '')
           (''Failed to load '' @ name @ '': '') (''Failed to attach '' @ name @ '': '') name [hook])"

definition attach_xdp :: "string \<Rightarrow> BpfLoader \<Rightarrow> ScannerError option \<times> BpfLoader" where
  "attach_xdp iface =
     attach_program PkXdp ''XDP program not found'' ''Failed to load XDP program: '' ''Failed to load XDP: ''
       ''Failed to attach XDP: '' ''scanner_xdp_filter'' [iface]"

text \<open>A row of calls, each with its \<open>?\<close>.\<close>

fun each ::
  "('a \<Rightarrow> BpfLoader \<Rightarrow> ScannerError option \<times> BpfLoader) \<Rightarrow> 'a list \<Rightarrow> BpfLoader \<Rightarrow> ScannerError option \<times> BpfLoader" where
  "each f [] l = (None, l)"
| "each f (x # xs) l = (case f x l of (Some e, l) \<Rightarrow> (Some e, l) | (None, l) \<Rightarrow> each f xs l)"

definition tracepoint_table :: "(string \<times> string) list" where
  "tracepoint_table =
     [(''trace_enter_execve'', ''sys_enter_execve''), (''scanner_execve'', ''sys_enter_execve''),
      (''scanner_execveat'', ''sys_enter_execveat''), (''trace_openat'', ''sys_enter_openat''),
      (''scanner_openat'', ''sys_enter_openat''), (''scanner_openat2'', ''sys_enter_openat2''),
      (''trace_mmap'', ''sys_enter_mmap''), (''scanner_mmap'', ''sys_enter_mmap''),
      (''trace_mprotect'', ''sys_enter_mprotect''), (''scanner_mprotect'', ''sys_enter_mprotect''),
      (''trace_connect'', ''sys_enter_connect''), (''trace_sendto'', ''sys_enter_sendto''),
      (''trace_recvfrom'', ''sys_enter_recvfrom'')]"

definition kprobe_table :: "(string \<times> string) list" where
  "kprobe_table =
     [(''trace_tcp_v4_connect'', ''tcp_v4_connect''), (''trace_tcp_v6_connect'', ''tcp_v6_connect''),
      (''trace_tcp_close'', ''tcp_close''), (''trace_tcp_sendmsg'', ''tcp_sendmsg''),
      (''trace_tcp_recvmsg'', ''tcp_recvmsg''), (''trace_udp_sendmsg'', ''udp_sendmsg''),
      (''trace_udp_recvmsg'', ''udp_recvmsg''), (''trace_do_mmap'', ''do_mmap''),
      (''scanner_tcp_connect'', ''tcp_connect''), (''scanner_tcp_connect_v6'', ''tcp_v6_connect''),
      (''scanner_inet_bind'', ''inet_bind''), (''scanner_inet_bind_v6'', ''inet6_bind''),
      (''scanner_tcp_close'', ''tcp_close''), (''scanner_udp_sendmsg'', ''udp_sendmsg''),
      (''scanner_udp_recvmsg'', ''udp_recvmsg'')]"

definition lsm_hooks :: "string list" where
  "lsm_hooks = [''bprm_check_security'', ''socket_connect'', ''socket_bind'', ''file_open'']"

definition attach_tracepoints :: "BpfLoader \<Rightarrow> ScannerError option \<times> BpfLoader" where
  "attach_tracepoints = each (\<lambda>(n, t). attach_tracepoint_if_present n ''syscalls'' t) tracepoint_table"

definition attach_kprobes :: "BpfLoader \<Rightarrow> ScannerError option \<times> BpfLoader" where
  "attach_kprobes = each (\<lambda>(n, f). attach_kprobe_if_present n f) kprobe_table"

text \<open>Every hook is tried and its error only logged.\<close>

definition attach_lsm_hooks :: "BpfLoader \<Rightarrow> ScannerError option \<times> BpfLoader" where
  "attach_lsm_hooks l = (None, fold (\<lambda>h l. snd (attach_lsm h l)) lsm_hooks l)"

section \<open>Ring buffers\<close>

definition take_ringbuf :: "string \<Rightarrow> BpfLoader \<Rightarrow> (ScannerError + u8 list list) \<times> BpfLoader" where
  "take_ringbuf name l =
     (let l' = l\<lparr>bl_bpf := (bl_bpf l)\<lparr>bo_map := (bo_map (bl_bpf l))(name := None)\<rparr>\<rparr>
      in case bo_map (bl_bpf l) name of
           None \<Rightarrow> (Inl (ErrBpf (''Ring buffer '' @ name @ '' not found'')), l)
         | Some (MkOther e) \<Rightarrow> (Inl (ErrBpf (''Failed to open ring buffer '' @ name @ '': '' @ e)), l')
         | Some (MkRing r) \<Rightarrow> (Inr r, l'))"

definition open_event_sources :: "BpfLoader \<Rightarrow> (ScannerError + EventSources) \<times> BpfLoader" where
  "open_event_sources l =
     (if bo_map (bl_bpf l) ''SECURITY_EVENTS'' \<noteq> None
      then (case take_ringbuf ''SECURITY_EVENTS'' l of
              (Inl e, l) \<Rightarrow> (Inl e, l) | (Inr r, l) \<Rightarrow> (Inr (Unified r), l))
      else
        (case take_ringbuf ''EXEC_EVENTS'' l of
           (Inl e, l) \<Rightarrow> (Inl e, l)
         | (Inr ex, l) \<Rightarrow>
             (case take_ringbuf ''FILE_EVENTS'' l of
                (Inl e, l) \<Rightarrow> (Inl e, l)
              | (Inr fi, l) \<Rightarrow>
                  (case take_ringbuf ''NET_EVENTS'' l of
                     (Inl e, l) \<Rightarrow> (Inl e, l)
                   | (Inr ne, l) \<Rightarrow> (Inr (Legacy ex fi ne), l)))))"

section \<open>Starting\<close>

text \<open>
  The consumer the agent starts, with the loader as it is when it goes out of scope, or the
  error that makes it run degraded. Without the feature there is no consumer and no error.
\<close>

definition load_and_run_ebpf ::
  "(string \<Rightarrow> string + bpf_object) \<Rightarrow> string \<Rightarrow> string \<Rightarrow> int \<Rightarrow> StreamEvent list
   \<Rightarrow> ScannerError + (EventConsumer \<times> BpfLoader)" where
  "load_and_run_ebpf load_file path iface now chan =
     (case BpfLoader_new load_file path of
        Inl e \<Rightarrow> Inl e
      | Inr l \<Rightarrow>
          (case attach_tracepoints l of
             (Some e, l) \<Rightarrow> Inl e
           | (None, l) \<Rightarrow>
               (case attach_kprobes l of
                  (Some e, l) \<Rightarrow> Inl e
                | (None, l) \<Rightarrow>
                    (let l = snd (attach_lsm_hooks l);
                         l = snd (attach_xdp iface l)
                     in case open_event_sources l of
                          (Inl e, l) \<Rightarrow> Inl e
                        | (Inr src, l) \<Rightarrow> Inr (set_event_sender chan (EventConsumer_new now src), l)))))"

definition stub_load_and_run_ebpf :: "ScannerError + EventConsumer option" where
  "stub_load_and_run_ebpf = Inr None"

text \<open>The attachments left when the loader has been dropped.\<close>

definition drop_loader :: "BpfLoader \<Rightarrow> attachment list \<Rightarrow> attachment list" where
  "drop_loader l live = filter (\<lambda>a. a \<notin> set (bl_attached l)) live"

section \<open>The older loader\<close>

definition strict_tracepoint :: "string \<Rightarrow> string \<Rightarrow> string \<Rightarrow> BpfLoader \<Rightarrow> ScannerError option \<times> BpfLoader" where
  "strict_tracepoint program_name category name =
     attach_program PkTracepoint (''missing tracepoint program '' @ program_name) [] [] [] program_name [category, name]"

definition strict_kprobe :: "string \<Rightarrow> string \<Rightarrow> BpfLoader \<Rightarrow> ScannerError option \<times> BpfLoader" where
  "strict_kprobe program_name fn_name =
     attach_program PkKprobe (''missing kprobe program '' @ program_name) [] [] [] program_name [fn_name]"

definition load_and_attach :: "(string \<Rightarrow> string + bpf_object) \<Rightarrow> string \<Rightarrow> ScannerError + BpfLoader" where
  "load_and_attach load_file path =
     (case load_file path of
        Inl e \<Rightarrow> Inl (ErrBpf e)
      | Inr b \<Rightarrow>
          (case each (\<lambda>f. f)
             [strict_tracepoint ''scanner_execve'' ''syscalls'' ''sys_enter_execve'',
              strict_tracepoint ''scanner_openat'' ''syscalls'' ''sys_enter_openat'',
              strict_tracepoint ''scanner_mmap'' ''syscalls'' ''sys_enter_mmap'',
              strict_kprobe ''scanner_tcp_connect'' ''tcp_connect'',
              strict_kprobe ''scanner_inet_bind'' ''inet_bind''] \<lparr>bl_bpf = b, bl_attached = []\<rparr> of
             (Some e, l) \<Rightarrow> Inl e | (None, l) \<Rightarrow> Inr l))"

section \<open>The agent's own object\<close>

text \<open>The programs the crate \<open>scanner-ebpf\<close> declares, module by module.\<close>

definition tracepoint_programs :: "(string \<times> prog_kind) list" where
  "tracepoint_programs =
     map (\<lambda>n. (n, PkTracepoint)) [''trace_enter_execve'', ''trace_openat'', ''trace_mmap'', ''trace_mprotect'',
       ''trace_connect'', ''trace_sendto'', ''trace_recvfrom'']"

definition kprobe_programs :: "(string \<times> prog_kind) list" where
  "kprobe_programs =
     map (\<lambda>n. (n, PkKprobe)) [''trace_tcp_v4_connect'', ''trace_tcp_v6_connect'', ''trace_tcp_close'',
       ''trace_tcp_sendmsg'', ''trace_tcp_recvmsg'', ''trace_udp_sendmsg'', ''trace_udp_recvmsg'', ''trace_do_mmap'']"

definition usdt_programs :: "(string \<times> prog_kind) list" where
  "usdt_programs =
     map (\<lambda>n. (n, PkUprobe)) [''probe_ssl_write'', ''probe_ssl_read'', ''probe_malloc'', ''probe_curl_easy_perform'']"

definition own_object :: "bpf_object \<Rightarrow> bool" where
  "own_object b \<longleftrightarrow>
     bo_program b = map_of (tracepoint_programs @ kprobe_programs @ usdt_programs)
     \<and> (\<exists>r. bo_map b ''SECURITY_EVENTS'' = Some (MkRing r))"

section \<open>Facts\<close>

text \<open>A program of a table that is present attaches, or its row fails.\<close>

definition attaches :: "bpf_object \<Rightarrow> prog_kind \<Rightarrow> string \<Rightarrow> string list \<Rightarrow> bool" where
  "attaches b kind name tgt \<longleftrightarrow>
     bo_program b name = Some kind \<and> bo_load b name = None \<and> bo_attach b name tgt = None"

definition present_rows :: "bpf_object \<Rightarrow> (string \<times> string) list \<Rightarrow> (string \<times> string) list" where
  "present_rows b tab = filter (\<lambda>(n, t). bo_program b n \<noteq> None) tab"

lemma attach_program_ok:
  "attaches (bl_bpf l) kind name tgt \<Longrightarrow>
   attach_program kind m lf ld af name tgt l = (None, l\<lparr>bl_attached := bl_attached l @ [(name, tgt)]\<rparr>)"
  by (simp add: attach_program_def attaches_def)

lemma attach_program_fails:
  "\<not> attaches (bl_bpf l) kind name tgt \<Longrightarrow> \<exists>e. attach_program kind m lf ld af name tgt l = (Some e, l)"
  by (auto simp: attach_program_def attaches_def Let_def split: option.split)

lemma attach_program_bpf [simp]: "bl_bpf (snd (attach_program kind m lf ld af name tgt l)) = bl_bpf l"
  by (cases "attaches (bl_bpf l) kind name tgt")
    (auto simp: attach_program_ok dest!: attach_program_fails[where m = m and lf = lf and ld = ld and af = af])

text \<open>The two tables, by a kind and the target of a row.\<close>

lemma rows_attach:
  assumes f: "\<And>n t l. bo_program (bl_bpf l) n = None \<Longrightarrow> f (n, t) l = (None, l)"
      "\<And>n t l. attaches (bl_bpf l) kind n (tgt t) \<Longrightarrow> f (n, t) l = (None, l\<lparr>bl_attached := bl_attached l @ [(n, tgt t)]\<rparr>)"
      "\<And>n t l. bo_program (bl_bpf l) n \<noteq> None \<Longrightarrow> \<not> attaches (bl_bpf l) kind n (tgt t) \<Longrightarrow> \<exists>e. f (n, t) l = (Some e, l)"
  shows "list_all (\<lambda>(n, t). attaches (bl_bpf l) kind n (tgt t)) (present_rows (bl_bpf l) tab) \<Longrightarrow>
     each f tab l = (None, l\<lparr>bl_attached := bl_attached l @ map (\<lambda>(n, t). (n, tgt t)) (present_rows (bl_bpf l) tab)\<rparr>)"
    and "\<not> list_all (\<lambda>(n, t). attaches (bl_bpf l) kind n (tgt t)) (present_rows (bl_bpf l) tab) \<Longrightarrow>
     \<exists>e l'. each f tab l = (Some e, l')"
proof (induction tab arbitrary: l)
  case (Cons x tab)
  obtain n t where x: "x = (n, t)" by fastforce
  {
    case 1
    show ?case
    proof (cases "bo_program (bl_bpf l) n")
      case None
      then show ?thesis using Cons.IH(1)[of l] 1 by (simp add: x f(1) present_rows_def)
    next
      case (Some k)
      then have a: "attaches (bl_bpf l) kind n (tgt t)" using 1 by (simp add: x present_rows_def)
      show ?thesis
        using Cons.IH(1)[of "l\<lparr>bl_attached := bl_attached l @ [(n, tgt t)]\<rparr>"] 1 Some
        by (simp add: x f(2)[OF a] present_rows_def)
    qed
  next
    case 2
    show ?case
    proof (cases "bo_program (bl_bpf l) n")
      case None
      then show ?thesis using Cons.IH(2)[of l] 2 by (simp add: x f(1) present_rows_def)
    next
      case (Some k)
      show ?thesis
      proof (cases "attaches (bl_bpf l) kind n (tgt t)")
        case True
        then show ?thesis
          using Cons.IH(2)[of "l\<lparr>bl_attached := bl_attached l @ [(n, tgt t)]\<rparr>"] 2 Some
          by (simp add: x f(2)[OF True] present_rows_def)
      next
        case False
        then show ?thesis
          using f(3)[of l n t] Some by (auto simp: x)
      qed
    qed
  }
qed (simp_all add: present_rows_def)

lemma tracepoints_attach:
  "list_all (\<lambda>(n, t). attaches (bl_bpf l) PkTracepoint n [''syscalls'', t]) (present_rows (bl_bpf l) tracepoint_table) \<Longrightarrow>
   attach_tracepoints l = (None, l\<lparr>bl_attached := bl_attached l
     @ map (\<lambda>(n, t). (n, [''syscalls'', t])) (present_rows (bl_bpf l) tracepoint_table)\<rparr>)"
  "\<not> list_all (\<lambda>(n, t). attaches (bl_bpf l) PkTracepoint n [''syscalls'', t]) (present_rows (bl_bpf l) tracepoint_table) \<Longrightarrow>
   \<exists>e l'. attach_tracepoints l = (Some e, l')"
proof goal_cases
  case 1
  then show ?case unfolding attach_tracepoints_def
    by (rule rows_attach(1)[where tgt = "\<lambda>t. [''syscalls'', t]", rotated 3])
      (auto simp: attach_tracepoint_if_present_def attach_tracepoint_def attach_program_ok attaches_def[of _ _ _ "x # xs" for x xs] intro: attach_program_fails)
next
  case 2
  then show ?case unfolding attach_tracepoints_def
    by (rule rows_attach(2)[where tgt = "\<lambda>t. [''syscalls'', t]", rotated 3])
      (auto simp: attach_tracepoint_if_present_def attach_tracepoint_def attach_program_ok attaches_def[of _ _ _ "x # xs" for x xs] intro: attach_program_fails)
qed

lemma kprobes_attach:
  "list_all (\<lambda>(n, t). attaches (bl_bpf l) PkKprobe n [t]) (present_rows (bl_bpf l) kprobe_table) \<Longrightarrow>
   attach_kprobes l = (None, l\<lparr>bl_attached := bl_attached l
     @ map (\<lambda>(n, t). (n, [t])) (present_rows (bl_bpf l) kprobe_table)\<rparr>)"
  "\<not> list_all (\<lambda>(n, t). attaches (bl_bpf l) PkKprobe n [t]) (present_rows (bl_bpf l) kprobe_table) \<Longrightarrow>
   \<exists>e l'. attach_kprobes l = (Some e, l')"
proof goal_cases
  case 1
  then show ?case unfolding attach_kprobes_def
    by (rule rows_attach(1)[where tgt = "\<lambda>t. [t]", rotated 3])
      (auto simp: attach_kprobe_if_present_def attach_kprobe_def attach_program_ok attaches_def[of _ _ _ "x # xs" for x xs] intro: attach_program_fails)
next
  case 2
  then show ?case unfolding attach_kprobes_def
    by (rule rows_attach(2)[where tgt = "\<lambda>t. [t]", rotated 3])
      (auto simp: attach_kprobe_if_present_def attach_kprobe_def attach_program_ok attaches_def[of _ _ _ "x # xs" for x xs] intro: attach_program_fails)
qed

lemma lsm_fold_bpf: "bl_bpf (fold (\<lambda>h l. snd (attach_lsm h l)) hs l) = bl_bpf l"
  by (induction hs arbitrary: l) (simp_all add: attach_lsm_def Let_def)

lemma late_bpf [simp]: "bl_bpf (snd (attach_lsm_hooks l)) = bl_bpf l" "bl_bpf (snd (attach_xdp i l)) = bl_bpf l"
  by (simp_all add: attach_lsm_hooks_def attach_xdp_def lsm_fold_bpf)

lemma lsm_absent:
  "(\<And>h. h \<in> set lsm_hooks \<Longrightarrow> bo_program (bl_bpf l) (''scanner_lsm_'' @ h) = None) \<Longrightarrow> attach_lsm_hooks l = (None, l)"
  by (simp add: attach_lsm_hooks_def lsm_hooks_def attach_lsm_def attach_program_def Let_def)

definition is_ring :: "map_kind option \<Rightarrow> bool" where
  "is_ring m = (case m of Some (MkRing r) \<Rightarrow> True | _ \<Rightarrow> False)"

definition sources_open :: "bpf_object \<Rightarrow> bool" where
  "sources_open b \<longleftrightarrow>
     (if bo_map b ''SECURITY_EVENTS'' \<noteq> None then is_ring (bo_map b ''SECURITY_EVENTS'')
      else is_ring (bo_map b ''EXEC_EVENTS'') \<and> is_ring (bo_map b ''FILE_EVENTS'') \<and> is_ring (bo_map b ''NET_EVENTS''))"

lemma take_ring:
  "take_ringbuf n l = (Inr r, l') \<longleftrightarrow>
   bo_map (bl_bpf l) n = Some (MkRing r) \<and> l' = l\<lparr>bl_bpf := (bl_bpf l)\<lparr>bo_map := (bo_map (bl_bpf l))(n := None)\<rparr>\<rparr>"
  by (auto simp: take_ringbuf_def Let_def split: option.splits map_kind.splits)

lemma sources_open: "(\<exists>src l'. open_event_sources l = (Inr src, l')) \<longleftrightarrow> sources_open (bl_bpf l)"
  by (auto simp: open_event_sources_def sources_open_def is_ring_def take_ringbuf_def Let_def
      split: option.splits map_kind.splits)

definition own_tracepoints :: "(string \<times> string) list" where
  "own_tracepoints =
     [(''trace_enter_execve'', ''sys_enter_execve''), (''trace_openat'', ''sys_enter_openat''),
      (''trace_mmap'', ''sys_enter_mmap''), (''trace_mprotect'', ''sys_enter_mprotect''),
      (''trace_connect'', ''sys_enter_connect''), (''trace_sendto'', ''sys_enter_sendto''),
      (''trace_recvfrom'', ''sys_enter_recvfrom'')]"

definition own_kprobes :: "(string \<times> string) list" where
  "own_kprobes = take 8 kprobe_table"

lemma drop_all: "drop_loader l (bl_attached l) = []"
  by (simp add: drop_loader_def)

definition sample_object :: bpf_object where
  "sample_object =
     \<lparr>bo_program = map_of (tracepoint_programs @ kprobe_programs @ usdt_programs), bo_wrong_kind = (\<lambda>n. []),
      bo_load = (\<lambda>n. None), bo_attach = (\<lambda>n t. None), bo_map = [''SECURITY_EVENTS'' \<mapsto> MkRing []]\<rparr>"

section \<open>Properties\<close>

text \<open>C26. The agent runs on eBPF exactly when the object loads, every tracepoint and kprobe of the tables that
  the object has attaches, and the unified ring buffer opens or, without one, the three older
  ones do: missing programs, the LSM hooks and XDP never decide it.\<close>

theorem ebpf_starts_iff:
  "(\<exists>c l. load_and_run_ebpf load_file path iface now chan = Inr (c, l)) \<longleftrightarrow>
   (case load_file path of Inl e \<Rightarrow> False | Inr b \<Rightarrow>
      list_all (\<lambda>(n, t). attaches b PkTracepoint n [''syscalls'', t]) (present_rows b tracepoint_table)
      \<and> list_all (\<lambda>(n, f). attaches b PkKprobe n [f]) (present_rows b kprobe_table)
      \<and> sources_open b)"
proof (cases "load_file path")
  case (Inr b)
  let ?l = "\<lparr>bl_bpf = b, bl_attached = []\<rparr>"
  show ?thesis
  proof (cases "list_all (\<lambda>(n, t). attaches b PkTracepoint n [''syscalls'', t]) (present_rows b tracepoint_table)")
    case False
    then obtain e l' where "attach_tracepoints ?l = (Some e, l')" using tracepoints_attach(2)[of ?l] by auto
    then show ?thesis using False Inr by (simp add: load_and_run_ebpf_def BpfLoader_new_def)
  next
    case True
    then obtain l1 where l1: "attach_tracepoints ?l = (None, l1)" "bl_bpf l1 = b"
      using tracepoints_attach(1)[of ?l] by simp
    show ?thesis
    proof (cases "list_all (\<lambda>(n, f). attaches b PkKprobe n [f]) (present_rows b kprobe_table)")
      case False
      then obtain e l' where "attach_kprobes l1 = (Some e, l')" using kprobes_attach(2)[of l1] l1(2) by auto
      then show ?thesis using True False Inr l1 by (simp add: load_and_run_ebpf_def BpfLoader_new_def)
    next
      case k: True
      then obtain l2 where l2: "attach_kprobes l1 = (None, l2)" "bl_bpf l2 = b"
        using kprobes_attach(1)[of l1] l1(2) by simp
      let ?l3 = "snd (attach_xdp iface (snd (attach_lsm_hooks l2)))"
      have "(\<exists>src l. open_event_sources ?l3 = (Inr src, l)) \<longleftrightarrow> sources_open b"
        using sources_open[of ?l3] l2(2) by simp
      moreover have "(\<exists>c l. load_and_run_ebpf load_file path iface now chan = Inr (c, l)) \<longleftrightarrow>
          (\<exists>src l. open_event_sources ?l3 = (Inr src, l))"
        using Inr l1(1) l2(1)
        by (auto simp: load_and_run_ebpf_def BpfLoader_new_def Let_def split: prod.splits sum.splits)
      ultimately show ?thesis using True k Inr by simp
    qed
  qed
qed (simp add: load_and_run_ebpf_def BpfLoader_new_def)

text \<open>With the object of the repository, and a kernel that accepts every program, exactly the tracepoints
  and kprobes of scanner-ebpf are attached, so a connection is seen by two of them; none of
  its function probes is, and when loading returns nothing is attached any more.\<close>

theorem own_object_attachments:
  assumes "load_file path = Inr b" "own_object b" "\<And>n. bo_load b n = None" "\<And>n t. bo_attach b n t = None"
  shows "\<exists>c l. load_and_run_ebpf load_file path iface now chan = Inr (c, l)
    \<and> map fst (bl_attached l) = map fst tracepoint_programs @ map fst kprobe_programs
    \<and> (''trace_connect'', [''syscalls'', ''sys_enter_connect'']) \<in> set (bl_attached l)
    \<and> (''trace_tcp_v4_connect'', [''tcp_v4_connect'']) \<in> set (bl_attached l)
    \<and> set (map fst usdt_programs) \<inter> set (map fst (bl_attached l)) = {}
    \<and> drop_loader l (bl_attached l) = []"
proof -
  let ?l = "\<lparr>bl_bpf = b, bl_attached = []\<rparr>"
  obtain r where prog: "bo_program b = map_of (tracepoint_programs @ kprobe_programs @ usdt_programs)"
    and r: "bo_map b ''SECURITY_EVENTS'' = Some (MkRing r)"
    using assms(2) by (auto simp: own_object_def)
  have rows: "present_rows b tracepoint_table = own_tracepoints" "present_rows b kprobe_table = own_kprobes"
    unfolding present_rows_def prog by code_simp+
  have "list_all (\<lambda>(n, t). bo_program b n = Some PkTracepoint) own_tracepoints"
    "list_all (\<lambda>(n, t). bo_program b n = Some PkKprobe) own_kprobes"
    unfolding prog by code_simp+
  then have a: "list_all (\<lambda>(n, t). attaches b PkTracepoint n [''syscalls'', t]) own_tracepoints"
    "list_all (\<lambda>(n, f). attaches b PkKprobe n [f]) own_kprobes"
    using assms(3,4) by (simp_all add: attaches_def list_all_iff split_beta)
  let ?at = "map (\<lambda>(n, t). (n, [''syscalls'', t])) own_tracepoints @ map (\<lambda>(n, f). (n, [f])) own_kprobes"
  have l1: "attach_tracepoints ?l = (None, \<lparr>bl_bpf = b, bl_attached = map (\<lambda>(n, t). (n, [''syscalls'', t])) own_tracepoints\<rparr>)"
    using tracepoints_attach(1)[of ?l] a(1) rows(1) by simp
  have l2: "attach_kprobes \<lparr>bl_bpf = b, bl_attached = map (\<lambda>(n, t). (n, [''syscalls'', t])) own_tracepoints\<rparr>
      = (None, \<lparr>bl_bpf = b, bl_attached = ?at\<rparr>)"
    using kprobes_attach(1)[of "\<lparr>bl_bpf = b, bl_attached = map (\<lambda>(n, t). (n, [''syscalls'', t])) own_tracepoints\<rparr>"]
      a(2) rows(2) by simp
  have no: "bo_program b (''scanner_lsm_'' @ h) = None" if "h \<in> set lsm_hooks" for h
  proof -
    have "list_all (\<lambda>h. map_of (tracepoint_programs @ kprobe_programs @ usdt_programs) (''scanner_lsm_'' @ h) = None) lsm_hooks"
      by code_simp
    then show ?thesis using that unfolding prog list_all_iff by blast
  qed
  have "bo_program b ''scanner_xdp_filter'' = None" unfolding prog by code_simp
  then have l3: "snd (attach_xdp iface (snd (attach_lsm_hooks \<lparr>bl_bpf = b, bl_attached = ?at\<rparr>))) = \<lparr>bl_bpf = b, bl_attached = ?at\<rparr>"
    using lsm_absent[of "\<lparr>bl_bpf = b, bl_attached = ?at\<rparr>"] no by (simp add: attach_xdp_def attach_program_def)
  have "\<exists>c l. load_and_run_ebpf load_file path iface now chan = Inr (c, l) \<and> bl_attached l = ?at"
    using assms(1) l1 l2 l3 r
    by (simp add: load_and_run_ebpf_def BpfLoader_new_def open_event_sources_def take_ringbuf_def Let_def)
  moreover have "map fst ?at = map fst tracepoint_programs @ map fst kprobe_programs" by code_simp
  moreover have "(''trace_connect'', [''syscalls'', ''sys_enter_connect'']) \<in> set ?at"
    "(''trace_tcp_v4_connect'', [''tcp_v4_connect'']) \<in> set ?at"
    "set (map fst usdt_programs) \<inter> set (map fst ?at) = {}" by code_simp+
  ultimately show ?thesis by (metis drop_all)
qed

theorem own_object_attachments_witness:
  "\<exists>c l. load_and_run_ebpf (\<lambda>p. Inr sample_object) ''/opt/scanner/scanner-ebpf.so'' ''eth0'' 0 [] = Inr (c, l)
     \<and> drop_loader l (bl_attached l) = []"
  using own_object_attachments[of "\<lambda>p. Inr sample_object" "''/opt/scanner/scanner-ebpf.so''" sample_object "''eth0''" 0 "[]"]
  by (auto simp: sample_object_def own_object_def)

text \<open>The older loader cannot load the object of the repository: it insists on programs by the names
  of an earlier kernel side.\<close>

theorem older_loader_fails:
  "own_object b \<Longrightarrow> load_file path = Inr b \<Longrightarrow>
   load_and_attach load_file path = Inl (ErrBpf ''missing tracepoint program scanner_execve'')"
proof -
  assume b: "own_object b" "load_file path = Inr b"
  have "map_of (tracepoint_programs @ kprobe_programs @ usdt_programs) ''scanner_execve'' = None" by code_simp
  then show ?thesis using b by (simp add: load_and_attach_def own_object_def strict_tracepoint_def attach_program_def del: map_of_append)
qed

theorem older_loader_fails_witness:
  "load_and_attach (\<lambda>p. Inr sample_object) [] = Inl (ErrBpf ''missing tracepoint program scanner_execve'')"
  by (rule older_loader_fails[of sample_object]) (simp_all add: sample_object_def own_object_def)

end
