(* ===== verification/Cloud.thy ===== *)
theory Cloud
  imports Oci_Scanner Json
begin

text \<open>
  The crate's cloud module (\<open>cloud/mod.rs\<close>, \<open>aws.rs\<close>, \<open>azure.rs\<close>, \<open>gcp.rs\<close>): instance and network
  metadata of three providers and the detection of the provider. What a URL answers, with the
  headers sent, is an argument: the error of sending, or the status and the body or the error
  of reading it. The reader of JSON texts is an argument too.
\<close>

datatype CloudProvider = Aws | Azure | Gcp | UnknownCloud

record CloudMetadata =
  cm_provider :: CloudProvider
  cm_instance_id :: string
  cm_instance_type :: string
  cm_region :: string
  cm_availability_zone :: string
  cm_vpc_id :: string
  cm_subnet_id :: string
  cm_security_groups :: "string list"
  cm_tags :: "(string \<times> string) list"

definition CloudMetadata_default :: CloudMetadata where
  "CloudMetadata_default =
     \<lparr>cm_provider = UnknownCloud, cm_instance_id = [], cm_instance_type = [], cm_region = [],
      cm_availability_zone = [], cm_vpc_id = [], cm_subnet_id = [], cm_security_groups = [], cm_tags = []\<rparr>"

record NetworkMetadata =
  nm_public_ip :: "string option"
  nm_private_ip :: string
  nm_public_dns :: "string option"
  nm_private_dns :: string
  nm_is_public_subnet :: bool

datatype CloudError = Unreachable string | ParseError string | AuthError string | NotSupported string

fun CloudError_display :: "CloudError \<Rightarrow> string" where
  "CloudError_display (Unreachable e) = ''Metadata endpoint unreachable: '' @ e"
| "CloudError_display (ParseError e) = ''Parse error: '' @ e"
| "CloudError_display (AuthError e) = ''Authentication error: '' @ e"
| "CloudError_display (NotSupported e) = ''Not supported: '' @ e"

type_synonym cloud_http = "string \<Rightarrow> (string \<times> string) list \<Rightarrow> string + (nat \<times> (string + string))"

fun cloud_bind :: "CloudError + 'a \<Rightarrow> ('a \<Rightarrow> CloudError + 'b) \<Rightarrow> CloudError + 'b" where
  "cloud_bind (Inl e) f = Inl e"
| "cloud_bind (Inr x) f = f x"

definition text_or_empty :: "CloudError + string \<Rightarrow> string" where
  "text_or_empty r = (case r of Inl e \<Rightarrow> [] | Inr t \<Rightarrow> t)"

definition text_ok :: "CloudError + string \<Rightarrow> string option" where
  "text_ok r = (case r of Inl e \<Rightarrow> None | Inr t \<Rightarrow> Some t)"

section \<open>AWS\<close>

definition aws_url :: "string \<Rightarrow> string" where
  "aws_url path = ''http://169.254.169.254/latest/meta-data/'' @ path"

definition aws_fetch_text :: "cloud_http \<Rightarrow> string \<Rightarrow> CloudError + string" where
  "aws_fetch_text http path =
     (case http (aws_url path) [] of
        Inl e \<Rightarrow> Inl (Unreachable e)
      | Inr (status, Inl e) \<Rightarrow> Inl (ParseError e)
      | Inr (status, Inr t) \<Rightarrow> Inr t)"

definition aws_detect :: "cloud_http \<Rightarrow> bool" where
  "aws_detect http \<longleftrightarrow> (case aws_fetch_text http ''instance-id'' of Inl e \<Rightarrow> False | Inr t \<Rightarrow> True)"

definition strip_slashes :: "string \<Rightarrow> string" where
  "strip_slashes s = rev (dropWhile (\<lambda>c. c = CHR ''/'') (rev s))"

definition aws_instance_metadata :: "cloud_http \<Rightarrow> CloudError + CloudMetadata" where
  "aws_instance_metadata http =
     cloud_bind (aws_fetch_text http ''instance-id'') (\<lambda>instance_id.
     cloud_bind (aws_fetch_text http ''instance-type'') (\<lambda>instance_type.
     cloud_bind (aws_fetch_text http ''placement/region'') (\<lambda>region.
     cloud_bind (aws_fetch_text http ''placement/availability-zone'') (\<lambda>az.
     cloud_bind (aws_fetch_text http ''network/interfaces/macs/'') (\<lambda>mac.
       (let mac = strip_slashes (str_trim mac);
            vpc_id = text_or_empty (aws_fetch_text http (''network/interfaces/macs/'' @ mac @ ''/vpc-id''));
            subnet_id = text_or_empty (aws_fetch_text http (''network/interfaces/macs/'' @ mac @ ''/subnet-id''))
        in Inr \<lparr>cm_provider = Aws, cm_instance_id = instance_id, cm_instance_type = instance_type,
                cm_region = region, cm_availability_zone = az, cm_vpc_id = vpc_id, cm_subnet_id = subnet_id,
                cm_security_groups = [], cm_tags = []\<rparr>))))))"

definition aws_network_metadata :: "cloud_http \<Rightarrow> CloudError + NetworkMetadata" where
  "aws_network_metadata http =
     cloud_bind (aws_fetch_text http ''local-ipv4'') (\<lambda>private_ip.
       (let public_ip = text_ok (aws_fetch_text http ''public-ipv4'');
            public_dns = text_ok (aws_fetch_text http ''public-hostname'')
        in cloud_bind (aws_fetch_text http ''local-hostname'') (\<lambda>private_dns.
             Inr \<lparr>nm_public_ip = public_ip, nm_private_ip = private_ip, nm_public_dns = public_dns,
                  nm_private_dns = private_dns, nm_is_public_subnet = (public_ip \<noteq> None)\<rparr>)))"

section \<open>Azure\<close>

definition azure_fetch_json :: "cloud_http \<Rightarrow> (string \<Rightarrow> string + json) \<Rightarrow> string \<Rightarrow> CloudError + json" where
  "azure_fetch_json http parse path =
     (case http (''http://169.254.169.254/metadata/instance/'' @ path @ ''?api-version=2021-02-01'')
             [(''Metadata'', ''true'')] of
        Inl e \<Rightarrow> Inl (Unreachable e)
      | Inr (status, Inl e) \<Rightarrow> Inl (ParseError e)
      | Inr (status, Inr t) \<Rightarrow> (case parse t of Inl e \<Rightarrow> Inl (ParseError e) | Inr j \<Rightarrow> Inr j))"

definition azure_detect :: "cloud_http \<Rightarrow> (string \<Rightarrow> string + json) \<Rightarrow> bool" where
  "azure_detect http parse \<longleftrightarrow> (case azure_fetch_json http parse [] of Inl e \<Rightarrow> False | Inr j \<Rightarrow> True)"

fun json_first :: "json \<Rightarrow> json option" where
  "json_first (JArr (x # xs)) = Some x"
| "json_first _ = None"

fun json_text :: "json \<Rightarrow> string option" where
  "json_text (JStr s) = Some s"
| "json_text _ = None"

definition str_field :: "string \<Rightarrow> json \<Rightarrow> string" where
  "str_field k j = (case Option.bind (json_member k j) json_text of None \<Rightarrow> [] | Some s \<Rightarrow> s)"

definition azure_instance_metadata :: "cloud_http \<Rightarrow> (string \<Rightarrow> string + json) \<Rightarrow> CloudError + CloudMetadata" where
  "azure_instance_metadata http parse =
     cloud_bind (azure_fetch_json http parse []) (\<lambda>data.
       (case json_member ''compute'' data of
          None \<Rightarrow> Inl (ParseError ''Missing compute section'')
        | Some compute \<Rightarrow>
            Inr \<lparr>cm_provider = Azure, cm_instance_id = str_field ''vmId'' compute,
                 cm_instance_type = str_field ''vmSize'' compute, cm_region = str_field ''location'' compute,
                 cm_availability_zone = str_field ''zone'' compute,
                 cm_vpc_id = str_field ''resourceGroupName'' compute, cm_subnet_id = [],
                 cm_security_groups = [], cm_tags = []\<rparr>))"

definition azure_network_metadata :: "cloud_http \<Rightarrow> (string \<Rightarrow> string + json) \<Rightarrow> CloudError + NetworkMetadata" where
  "azure_network_metadata http parse =
     cloud_bind (azure_fetch_json http parse ''network'') (\<lambda>data.
       (case Option.bind (json_member ''interface'' data) json_first of
          None \<Rightarrow> Inl (ParseError ''No network interfaces'')
        | Some ifc \<Rightarrow>
            (let ipv4 = Option.bind (Option.bind (json_member ''ipv4'' ifc) (json_member ''ipAddress'')) json_first;
                 private_ip = (case Option.bind (Option.bind ipv4 (json_member ''privateIpAddress'')) json_text of
                                 None \<Rightarrow> [] | Some s \<Rightarrow> s);
                 public_ip = Option.bind (Option.bind ipv4 (json_member ''publicIpAddress'')) json_text
             in Inr \<lparr>nm_public_ip = public_ip, nm_private_ip = private_ip, nm_public_dns = None,
                     nm_private_dns = [], nm_is_public_subnet = False\<rparr>)))"

section \<open>GCP\<close>

text \<open>\<open>reason\<close> prints a status the way the library does.\<close>

definition gcp_fetch_text :: "cloud_http \<Rightarrow> (nat \<Rightarrow> string) \<Rightarrow> string \<Rightarrow> CloudError + string" where
  "gcp_fetch_text http reason path =
     (case http (''http://metadata.google.internal/computeMetadata/v1/'' @ path) [(''Metadata-Flavor'', ''Google'')] of
        Inl e \<Rightarrow> Inl (Unreachable e)
      | Inr (status, body) \<Rightarrow>
          if \<not> (200 \<le> status \<and> status < 300) then Inl (Unreachable (''HTTP '' @ reason status))
          else (case body of Inl e \<Rightarrow> Inl (ParseError e) | Inr t \<Rightarrow> Inr t))"

definition gcp_detect :: "cloud_http \<Rightarrow> (nat \<Rightarrow> string) \<Rightarrow> bool" where
  "gcp_detect http reason \<longleftrightarrow> (case gcp_fetch_text http reason ''instance/id'' of Inl e \<Rightarrow> False | Inr t \<Rightarrow> True)"

definition gcp_zone_name :: "string \<Rightarrow> string" where
  "gcp_zone_name zone = (case rsplit_once (CHR ''/'') zone of None \<Rightarrow> [] | Some (_, z) \<Rightarrow> z)"

definition gcp_region :: "string \<Rightarrow> string" where
  "gcp_region zone_name = (case rsplit_once (CHR ''-'') zone_name of None \<Rightarrow> zone_name | Some (r, _) \<Rightarrow> r)"

definition gcp_instance_metadata :: "cloud_http \<Rightarrow> (nat \<Rightarrow> string) \<Rightarrow> CloudError + CloudMetadata" where
  "gcp_instance_metadata http reason =
     cloud_bind (gcp_fetch_text http reason ''instance/id'') (\<lambda>instance_id.
     cloud_bind (gcp_fetch_text http reason ''instance/machine-type'') (\<lambda>instance_type.
       (let zone_name = gcp_zone_name (text_or_empty (gcp_fetch_text http reason ''instance/zone''))
        in Inr \<lparr>cm_provider = Gcp, cm_instance_id = instance_id,
                cm_instance_type = (case rsplit_once (CHR ''/'') instance_type of None \<Rightarrow> instance_type | Some (_, t) \<Rightarrow> t),
                cm_region = gcp_region zone_name, cm_availability_zone = zone_name, cm_vpc_id = [],
                cm_subnet_id = [], cm_security_groups = [], cm_tags = []\<rparr>)))"

definition gcp_network_metadata :: "cloud_http \<Rightarrow> (nat \<Rightarrow> string) \<Rightarrow> CloudError + NetworkMetadata" where
  "gcp_network_metadata http reason =
     Inr \<lparr>nm_public_ip = text_ok (gcp_fetch_text http reason ''instance/network-interfaces/0/access-configs/0/external-ip''),
          nm_private_ip = text_or_empty (gcp_fetch_text http reason ''instance/network-interfaces/0/ip''),
          nm_public_dns = None, nm_private_dns = text_or_empty (gcp_fetch_text http reason ''instance/hostname''),
          nm_is_public_subnet = False\<rparr>"

section \<open>Detection\<close>

definition candidate :: "bool \<Rightarrow> CloudError + CloudMetadata \<Rightarrow> CloudMetadata option" where
  "candidate found r = (if found then (case r of Inl e \<Rightarrow> None | Inr m \<Rightarrow> Some m) else None)"

definition detect_cloud_provider ::
  "cloud_http \<Rightarrow> (string \<Rightarrow> string + json) \<Rightarrow> (nat \<Rightarrow> string) \<Rightarrow> (CloudProvider \<times> CloudMetadata) option" where
  "detect_cloud_provider http parse reason =
     (case candidate (aws_detect http) (aws_instance_metadata http) of
        Some m \<Rightarrow> Some (Aws, m)
      | None \<Rightarrow>
          (case candidate (azure_detect http parse) (azure_instance_metadata http parse) of
             Some m \<Rightarrow> Some (Azure, m)
           | None \<Rightarrow>
               (case candidate (gcp_detect http reason) (gcp_instance_metadata http reason) of
                  Some m \<Rightarrow> Some (Gcp, m)
                | None \<Rightarrow> None)))"

section \<open>Facts\<close>

lemma bind_Inr: "cloud_bind r f = Inr x \<longleftrightarrow> (\<exists>y. r = Inr y \<and> f y = Inr x)"
  by (cases r) auto

lemma candidate_Some: "candidate found r = Some m \<longleftrightarrow> found \<and> r = Inr m"
  by (auto simp: candidate_def split: sum.splits)

lemma providers:
  "aws_instance_metadata http = Inr m \<Longrightarrow> cm_provider m = Aws"
  "azure_instance_metadata http parse = Inr m \<Longrightarrow> cm_provider m = Azure"
  "gcp_instance_metadata http reason = Inr m \<Longrightarrow> cm_provider m = Gcp"
  by (auto simp: aws_instance_metadata_def azure_instance_metadata_def gcp_instance_metadata_def bind_Inr Let_def
      split: option.splits)

text \<open>A host whose address for metadata answers every request with some text, whatever the status.\<close>

definition answers :: "cloud_http \<Rightarrow> (string \<Rightarrow> nat) \<Rightarrow> (string \<Rightarrow> string) \<Rightarrow> bool" where
  "answers http status body \<longleftrightarrow> (\<forall>path. http (aws_url path) [] = Inr (status path, Inr (body path)))"

lemma fetch_answers: "answers http status body \<Longrightarrow> aws_fetch_text http path = Inr (body path)"
  by (simp add: answers_def aws_fetch_text_def)

section \<open>Properties\<close>

text \<open>The provider is that of the metadata, and it is AWS before Azure before GCP: one is chosen only
  when the metadata of those before it could not be had.\<close>

theorem detected_in_order:
  "detect_cloud_provider http parse reason = Some (p, m) \<Longrightarrow>
   cm_provider m = p
   \<and> (p = Aws \<and> aws_instance_metadata http = Inr m
      \<or> p = Azure \<and> azure_instance_metadata http parse = Inr m
          \<and> (\<nexists>a. aws_detect http \<and> aws_instance_metadata http = Inr a)
      \<or> p = Gcp \<and> gcp_instance_metadata http reason = Inr m
          \<and> (\<nexists>a. aws_detect http \<and> aws_instance_metadata http = Inr a)
          \<and> (\<nexists>a. azure_detect http parse \<and> azure_instance_metadata http parse = Inr a))"
  using providers
  by (auto simp: detect_cloud_provider_def candidate_Some[symmetric] split: option.splits)
    (auto simp: candidate_Some)

theorem detected_in_order_witness:
  "\<exists>m. gcp_instance_metadata (\<lambda>u h. if h = [(''Metadata-Flavor'', ''Google'')] then Inr (200, Inr ''7'') else Inl ''refused'')
     (\<lambda>s. []) = Inr m \<and> cm_provider m = Gcp"
proof -
  let ?http = "\<lambda>u h. if h = [(''Metadata-Flavor'', ''Google'')] then Inr (200, Inr ''7'') else Inl ''refused''"
  obtain m where m: "detect_cloud_provider ?http (\<lambda>t. Inl []) (\<lambda>s. []) = Some (Gcp, m)"
    by (simp add: detect_cloud_provider_def candidate_def aws_detect_def aws_fetch_text_def azure_detect_def
        azure_fetch_json_def gcp_detect_def gcp_fetch_text_def gcp_instance_metadata_def Let_def)
  from detected_in_order[OF m] show ?thesis by auto
qed

text \<open>Any host whose metadata address answers at all is taken for AWS: the status is not looked at, so the
  error pages of another provider become the instance's id, type, region and zone.\<close>

theorem any_answer_is_aws:
  "answers http status body \<Longrightarrow>
   \<exists>m. detect_cloud_provider http parse reason = Some (Aws, m)
     \<and> cm_instance_id m = body ''instance-id'' \<and> cm_instance_type m = body ''instance-type''
     \<and> cm_region m = body ''placement/region'' \<and> cm_availability_zone m = body ''placement/availability-zone''"
  by (simp add: detect_cloud_provider_def candidate_def aws_detect_def aws_instance_metadata_def fetch_answers Let_def)

theorem any_answer_is_aws_witness:
  "\<exists>m. detect_cloud_provider (\<lambda>u h. Inr (404, Inr ''Not found'')) (\<lambda>t. Inl []) (\<lambda>s. []) = Some (Aws, m)
     \<and> cm_region m = ''Not found''"
  using any_answer_is_aws[of "\<lambda>u h. Inr (404, Inr ''Not found'')" "\<lambda>p. 404" "\<lambda>p. ''Not found''"]
  by (auto simp: answers_def)

text \<open>Region and zone are read off the zone's path: the path of any zone made of a region and a letter gives
  both back.\<close>

theorem zone_path_roundtrip:
  assumes "CHR ''/'' \<notin> set r" "CHR ''/'' \<notin> set z" "CHR ''-'' \<notin> set z"
  shows "gcp_zone_name (project @ ''/zones/'' @ r @ ''-'' @ z) = r @ ''-'' @ z \<and> gcp_region (r @ ''-'' @ z) = r"
proof
  have "rsplit_once (CHR ''/'') ((project @ ''/zones'') @ CHR ''/'' # (r @ ''-'' @ z)) = Some (project @ ''/zones'', r @ ''-'' @ z)"
    by (rule rsplit_once_at) (use assms in auto)
  then show "gcp_zone_name (project @ ''/zones/'' @ r @ ''-'' @ z) = r @ ''-'' @ z" by (simp add: gcp_zone_name_def)
  show "gcp_region (r @ ''-'' @ z) = r" using rsplit_once_at[OF assms(3), of r] by (simp add: gcp_region_def)
qed

theorem zone_path_roundtrip_witness:
  "gcp_region (gcp_zone_name ''projects/12/zones/us-central1-a'') = ''us-central1''"
  using zone_path_roundtrip[of "''us-central1''" "''a''" "''projects/12''"] by simp

end
