(* ===== verification/Agent_Metrics.thy ===== *)
theory Agent_Metrics
  imports Interfaces Floats Formatting
begin

text \<open>
  \<open>metrics.rs\<close>: the counters, gauges and histograms of the agent and the methods that move them.
  The registry and its text encoding belong to the library prometheus_client. Of it the
  documented behaviour of the three kinds is used: a counter is a 64-bit number that
  wraps, a gauge holds what was set, a histogram collects observations, and a member of a
  family appears with its first use.
\<close>

type_synonym counter = u64
type_synonym 'l counters = "'l \<rightharpoonup> u64"

record histogram =
  hg_buckets :: "f64 list"
  hg_observed :: "f64 list"

record Metrics =
  mt_events_total :: counter
  mt_findings_total :: "string counters"
  mt_dropped_events :: int
  mt_batches_processed_total :: counter
  mt_batch_duration_seconds :: histogram
  mt_workloads_active :: int
  mt_enforcement_actions_total :: "(string \<times> string) counters"
  mt_enforcement_rollbacks_total :: counter
  mt_seccomp_profiles_generated_total :: counter
  mt_intel_refresh_total :: "(string \<times> string) counters"
  mt_intel_kev_count :: int
  mt_intel_epss_count :: int
  mt_intel_staleness_seconds :: int
  mt_webhook_sent_total :: "(string \<times> string) counters"
  mt_webhook_latency_seconds :: histogram
  mt_stream_events_total :: counter
  mt_stream_alerts_total :: counter
  mt_attack_paths_active :: int
  mt_sla_compliance_ratio :: "string \<rightharpoonup> f64"
  mt_sla_violations_total :: "string counters"
  mt_response_time_seconds :: "string \<rightharpoonup> histogram"

definition Histogram_new :: "f64 list \<Rightarrow> histogram" where
  "Histogram_new bs = \<lparr>hg_buckets = bs, hg_observed = []\<rparr>"

definition Metrics_new :: Metrics where
  "Metrics_new =
     \<lparr>mt_events_total = 0, mt_findings_total = Map.empty, mt_dropped_events = 0, mt_batches_processed_total = 0,
      mt_batch_duration_seconds = Histogram_new (map lit64 [1/10, 1/2, 1, 2, 5, 10, 30]), mt_workloads_active = 0,
      mt_enforcement_actions_total = Map.empty, mt_enforcement_rollbacks_total = 0,
      mt_seccomp_profiles_generated_total = 0, mt_intel_refresh_total = Map.empty, mt_intel_kev_count = 0,
      mt_intel_epss_count = 0, mt_intel_staleness_seconds = 0, mt_webhook_sent_total = Map.empty,
      mt_webhook_latency_seconds = Histogram_new (map lit64 [1/100, 5/100, 1/10, 1/2, 1, 5]),
      mt_stream_events_total = 0, mt_stream_alerts_total = 0, mt_attack_paths_active = 0,
      mt_sla_compliance_ratio = Map.empty, mt_sla_violations_total = Map.empty,
      mt_response_time_seconds = Map.empty\<rparr>"

text \<open>The names under which they are registered, in order.\<close>

definition registered_names :: "string list" where
  "registered_names =
     map ((@) ''scanner_'')
       [''events_total'', ''findings_total'', ''dropped_events'', ''batches_processed_total'',
        ''batch_duration_seconds'', ''workloads_active'', ''enforcement_actions_total'',
        ''enforcement_rollbacks_total'', ''seccomp_profiles_generated_total'', ''intel_refresh_total'',
        ''intel_kev_count'', ''intel_epss_count'', ''intel_staleness_seconds'', ''webhook_sent_total'',
        ''webhook_latency_seconds'', ''stream_events_total'', ''stream_alerts_total'', ''attack_paths_active'',
        ''sla_compliance_ratio'', ''sla_violations_total'', ''response_time_seconds'']"

section \<open>Methods\<close>

definition inc_label :: "'l \<Rightarrow> 'l counters \<Rightarrow> 'l counters" where
  "inc_label l m = m(l \<mapsto> (case m l of None \<Rightarrow> 0 | Some n \<Rightarrow> n) + 1)"

definition observe_value :: "f64 \<Rightarrow> histogram \<Rightarrow> histogram" where
  "observe_value x h = h\<lparr>hg_observed := hg_observed h @ [x]\<rparr>"

definition response_buckets :: "f64 list" where
  "response_buckets = map lit64 [1/100, 5/100, 1/10, 1/2, 1, 5, 30, 60]"

datatype metric_call =
  IncEvents
| IncFindings string
| SetDroppedEvents int
| RecordBatchDuration f64
| SetWorkloadsActive int
| IncEnforcementAction string string
| IncEnforcementRollback
| IncSeccompGenerated
| IncIntelRefresh string string
| SetIntelKevCount int
| SetIntelEpssCount int
| SetIntelStaleness int
| IncWebhookSent string string
| RecordWebhookLatency f64
| IncStreamEvents
| IncStreamAlerts
| SetAttackPathsActive int
| SetSlaCompliance string f64
| IncSlaViolation string
| RecordResponseTime string f64

fun metric_step :: "Metrics \<Rightarrow> metric_call \<Rightarrow> Metrics" where
  "metric_step m IncEvents = m\<lparr>mt_events_total := mt_events_total m + 1\<rparr>"
| "metric_step m (IncFindings p) = m\<lparr>mt_findings_total := inc_label p (mt_findings_total m)\<rparr>"
| "metric_step m (SetDroppedEvents n) = m\<lparr>mt_dropped_events := n\<rparr>"
| "metric_step m (RecordBatchDuration x) =
     m\<lparr>mt_batches_processed_total := mt_batches_processed_total m + 1,
       mt_batch_duration_seconds := observe_value x (mt_batch_duration_seconds m)\<rparr>"
| "metric_step m (SetWorkloadsActive n) = m\<lparr>mt_workloads_active := n\<rparr>"
| "metric_step m (IncEnforcementAction a s) =
     m\<lparr>mt_enforcement_actions_total := inc_label (a, s) (mt_enforcement_actions_total m)\<rparr>"
| "metric_step m IncEnforcementRollback = m\<lparr>mt_enforcement_rollbacks_total := mt_enforcement_rollbacks_total m + 1\<rparr>"
| "metric_step m IncSeccompGenerated =
     m\<lparr>mt_seccomp_profiles_generated_total := mt_seccomp_profiles_generated_total m + 1\<rparr>"
| "metric_step m (IncIntelRefresh f s) = m\<lparr>mt_intel_refresh_total := inc_label (f, s) (mt_intel_refresh_total m)\<rparr>"
| "metric_step m (SetIntelKevCount n) = m\<lparr>mt_intel_kev_count := n\<rparr>"
| "metric_step m (SetIntelEpssCount n) = m\<lparr>mt_intel_epss_count := n\<rparr>"
| "metric_step m (SetIntelStaleness n) = m\<lparr>mt_intel_staleness_seconds := n\<rparr>"
| "metric_step m (IncWebhookSent e s) = m\<lparr>mt_webhook_sent_total := inc_label (e, s) (mt_webhook_sent_total m)\<rparr>"
| "metric_step m (RecordWebhookLatency x) =
     m\<lparr>mt_webhook_latency_seconds := observe_value x (mt_webhook_latency_seconds m)\<rparr>"
| "metric_step m IncStreamEvents = m\<lparr>mt_stream_events_total := mt_stream_events_total m + 1\<rparr>"
| "metric_step m IncStreamAlerts = m\<lparr>mt_stream_alerts_total := mt_stream_alerts_total m + 1\<rparr>"
| "metric_step m (SetAttackPathsActive n) = m\<lparr>mt_attack_paths_active := n\<rparr>"
| "metric_step m (SetSlaCompliance p x) = m\<lparr>mt_sla_compliance_ratio := (mt_sla_compliance_ratio m)(p \<mapsto> x)\<rparr>"
| "metric_step m (IncSlaViolation p) = m\<lparr>mt_sla_violations_total := inc_label p (mt_sla_violations_total m)\<rparr>"
| "metric_step m (RecordResponseTime p x) =
     m\<lparr>mt_response_time_seconds := (mt_response_time_seconds m)
         (p \<mapsto> observe_value x (case mt_response_time_seconds m p of None \<Rightarrow> Histogram_new response_buckets | Some h \<Rightarrow> h))\<rparr>"

section \<open>Facts\<close>

definition calls :: "metric_call \<Rightarrow> metric_call list \<Rightarrow> nat" where
  "calls c cs = count_list cs c"

definition durations :: "metric_call list \<Rightarrow> f64 list" where
  "durations = List.map_filter (\<lambda>c. case c of RecordBatchDuration x \<Rightarrow> Some x | _ \<Rightarrow> None)"

text \<open>A counter counts a call when every other call leaves it alone.\<close>

locale call_counter =
  fixes read :: "Metrics \<Rightarrow> u64" and call :: metric_call
  assumes counts: "read (metric_step m call) = read m + 1"
    and keeps: "c \<noteq> call \<Longrightarrow> read (metric_step m c) = read m"
begin

lemma run: "read (foldl metric_step m cs) = read m + of_nat (calls call cs)"
proof (induction cs arbitrary: m)
  case (Cons c cs)
  then show ?case by (cases "c = call") (simp_all add: calls_def counts keeps)
qed (simp add: calls_def)

end

definition at_label :: "'l \<Rightarrow> 'l counters \<Rightarrow> u64" where
  "at_label l m = (case m l of None \<Rightarrow> 0 | Some n \<Rightarrow> n)"

lemma at_label_inc: "at_label l (inc_label k m) = (if l = k then at_label l m + 1 else at_label l m)"
  by (simp add: at_label_def inc_label_def)


interpretation events: call_counter mt_events_total IncEvents
proof unfold_locales
  fix c m show "c \<noteq> IncEvents \<Longrightarrow> mt_events_total (metric_step m c) = mt_events_total m" by (cases c) simp_all
qed simp

interpretation findings: call_counter "\<lambda>m. at_label p (mt_findings_total m)" "IncFindings p" for p
proof unfold_locales
  fix c m show "c \<noteq> IncFindings p \<Longrightarrow> at_label p (mt_findings_total (metric_step m c)) = at_label p (mt_findings_total m)"
    by (cases c) (simp_all add: at_label_inc)
qed (simp add: at_label_inc)

interpretation enforcements: call_counter "\<lambda>m. at_label (a, s) (mt_enforcement_actions_total m)" "IncEnforcementAction a s" for a s
proof unfold_locales
  fix c m
  show "c \<noteq> IncEnforcementAction a s \<Longrightarrow>
      at_label (a, s) (mt_enforcement_actions_total (metric_step m c)) = at_label (a, s) (mt_enforcement_actions_total m)"
    by (cases c) (auto simp add: at_label_inc)
qed (simp add: at_label_inc)

interpretation violations: call_counter "\<lambda>m. at_label p (mt_sla_violations_total m)" "IncSlaViolation p" for p
proof unfold_locales
  fix c m show "c \<noteq> IncSlaViolation p \<Longrightarrow> at_label p (mt_sla_violations_total (metric_step m c)) = at_label p (mt_sla_violations_total m)"
    by (cases c) (simp_all add: at_label_inc)
qed (simp add: at_label_inc)

lemma batches_run:
  "mt_batches_processed_total (foldl metric_step m cs) = mt_batches_processed_total m + of_nat (length (durations cs))
   \<and> hg_observed (mt_batch_duration_seconds (foldl metric_step m cs)) = hg_observed (mt_batch_duration_seconds m) @ durations cs"
proof (induction cs arbitrary: m)
  case (Cons c cs)
  then show ?case by (cases c) (simp_all add: durations_def List.map_filter_simps observe_value_def)
qed (simp add: durations_def List.map_filter_def)

section \<open>Properties\<close>

text \<open>Each counter shows how often its method was called with its labels, modulo the 64 bits of a counter,
  whatever else is recorded in between; the batch counter agrees with the number of durations
  its histogram has observed.\<close>

theorem counters_count_their_calls:
  "(let m = foldl metric_step Metrics_new cs
    in mt_events_total m = of_nat (calls IncEvents cs)
       \<and> at_label p (mt_findings_total m) = of_nat (calls (IncFindings p) cs)
       \<and> at_label (a, s) (mt_enforcement_actions_total m) = of_nat (calls (IncEnforcementAction a s) cs)
       \<and> at_label p (mt_sla_violations_total m) = of_nat (calls (IncSlaViolation p) cs)
       \<and> mt_batches_processed_total m = of_nat (length (hg_observed (mt_batch_duration_seconds m))))"
  using events.run[of Metrics_new cs] findings.run[of p Metrics_new cs] enforcements.run[of a s Metrics_new cs]
    violations.run[of p Metrics_new cs] batches_run[of Metrics_new cs]
  by (simp add: Metrics_new_def at_label_def Histogram_new_def Let_def)

text \<open>No two metrics are registered under one name.\<close>

theorem registered_once: "distinct registered_names \<and> length registered_names = 21"
  by code_simp

end
