(* ===== verification/Dashboard.thy ===== *)
theory Dashboard
  imports Attack_Graph Json
begin

text \<open>
  \<open>dashboard.rs\<close>: what its handlers answer and what a websocket client is sent. What the
  broadcast channel delivers, what the client sends, and whether a message could be sent
  are arguments. The page itself is a constant text.
\<close>

record DashboardEvent =
  de_event_type :: string
  de_data :: json
  de_timestamp :: int

record DashboardStats =
  ds_total_paths :: u64
  ds_high_confidence_paths :: u64
  ds_avg_confidence :: f32
  ds_burst_events_collapsed :: u64

definition paths_handler ::
  "'g path_ops \<Rightarrow> (nat \<Rightarrow> path_env) \<Rightarrow> 'g RuntimeAttackGraph \<Rightarrow> AttackPathSummary list \<times> 'g RuntimeAttackGraph" where
  "paths_handler G envs s = get_top_k_paths G envs [] s"

definition stats_handler :: "'g RuntimeAttackGraph \<Rightarrow> DashboardStats" where
  "stats_handler s =
     (let m = rg_metrics s
      in \<lparr>ds_total_paths = am_paths_total m, ds_high_confidence_paths = am_high_confidence_paths m,
          ds_avg_confidence = am_avg_confidence m, ds_burst_events_collapsed = am_burst_events_collapsed m\<rparr>)"

section \<open>The websocket\<close>

text \<open>A receive gives an event or an error: the channel is closed, or the receiver lagged behind and
  lost events. \<open>json\<close> is the text of an event, if it has one; \<open>ok k\<close>: the \<open>k\<close>-th message is sent.\<close>

datatype received = Event DashboardEvent | Lagged nat | ChannelClosed

fun send_task ::
  "(DashboardEvent \<Rightarrow> string option) \<Rightarrow> (nat \<Rightarrow> bool) \<Rightarrow> nat \<Rightarrow> received list \<Rightarrow> string list" where
  "send_task json ok k (Event e # rs) =
     (case json e of
        None \<Rightarrow> send_task json ok k rs
      | Some t \<Rightarrow> if ok k then t # send_task json ok (Suc k) rs else [])"
| "send_task json ok k (_ # rs) = []"
| "send_task json ok k [] = []"

datatype client_message = CloseFrame | PingFrame | OtherFrame | BrokenFrame

text \<open>The receiving task ends, which ends the other one too, at a close frame, an error or the end.\<close>

fun recv_task_ends :: "client_message list \<Rightarrow> bool" where
  "recv_task_ends [] \<longleftrightarrow> False"
| "recv_task_ends (m # ms) \<longleftrightarrow> m = CloseFrame \<or> m = BrokenFrame \<or> recv_task_ends ms"

definition handle_ws ::
  "(DashboardEvent \<Rightarrow> string option) \<Rightarrow> (nat \<Rightarrow> bool) \<Rightarrow> (client_message list \<times> received) list \<Rightarrow> string list" where
  "handle_ws json ok rs = send_task json ok 0 (map snd (takeWhile (\<lambda>(ms, r). \<not> recv_task_ends ms) rs))"

section \<open>Facts\<close>

fun is_event :: "received \<Rightarrow> bool" where
  "is_event (Event e) \<longleftrightarrow> True"
| "is_event _ \<longleftrightarrow> False"

fun event_text :: "(DashboardEvent \<Rightarrow> string option) \<Rightarrow> received \<Rightarrow> string option" where
  "event_text json (Event e) = json e"
| "event_text json _ = None"

lemma send_all:
  "(\<And>j. ok j) \<Longrightarrow> send_task json ok k rs = List.map_filter (event_text json) (takeWhile is_event rs)"
proof (induction rs arbitrary: k)
  case (Cons r rs)
  then show ?case by (cases r) (simp_all add: List.map_filter_simps split: option.split)
qed (simp add: List.map_filter_simps)

lemma send_prefix:
  "prefix (send_task json ok k rs) (List.map_filter (event_text json) (takeWhile is_event rs))"
proof (induction rs arbitrary: k)
  case (Cons r rs)
  then show ?case by (cases r) (auto simp: List.map_filter_simps split: option.split)
qed simp

section \<open>Properties\<close>

text \<open>The dashboard's list of attack paths is always empty: it asks the graph for the paths of no findings.
  Asking changes neither the graph nor its statistics.\<close>

theorem dashboard_shows_no_paths: "paths_handler G envs s = ([], s)"
  by (simp add: paths_handler_def get_top_k_paths_def build_attack_paths_def candidate_paths_def rank_paths_def sort_by_def Let_def)

text \<open>A client is sent the events in order, without gaps other than those that have no text, up to its first
  failure; one that lags behind once gets nothing more. While nothing fails it gets all.\<close>

theorem client_gets_a_prefix:
  "prefix (send_task json ok k rs) (List.map_filter (event_text json) (takeWhile is_event rs))
   \<and> send_task json (\<lambda>j. True) k (es @ Lagged n # rs) = send_task json (\<lambda>j. True) k es"
proof
  show "prefix (send_task json ok k rs) (List.map_filter (event_text json) (takeWhile is_event rs))" by (rule send_prefix)
  have "takeWhile is_event (es @ Lagged n # rs) = takeWhile is_event es" by (induction es) auto
  then show "send_task json (\<lambda>j. True) k (es @ Lagged n # rs) = send_task json (\<lambda>j. True) k es"
    by (simp add: send_all)
qed

end
