(* ===== verification/Kernel_To_Store.thy ===== *)
theory Kernel_To_Store
  imports Kernel_Probes Agent
begin

text \<open>
  The kernel programs, the wire format, the event consumer and the state store put together:
  the store holds what the kernel emitted, no more and in its order. The facts here lead to
  the properties of the root theory.
\<close>

section \<open>The views of an event\<close>

definition unless :: "('e \<Rightarrow> bool) \<Rightarrow> ('e \<Rightarrow> store_event) \<Rightarrow> 'e option \<Rightarrow> store_event list" where
  "unless filt mk view = (case view of None \<Rightarrow> [] | Some e \<Rightarrow> if filt e then [] else [mk e])"

definition security_views :: "SecurityEvent \<Rightarrow> store_event list" where
  "security_views e =
     unless should_filter_exec SExec (security_to_exec e)
     @ unless should_filter_file SFile (security_to_file e)
     @ unless should_filter_net SNet (security_to_net e)"

lemma view_store:
  assumes "\<And>e w. wo_store (keep e w) = store_step (wo_store w) (mk e)"
  shows "wo_store (snd (take_view view filt keep aw)) = foldl store_step (wo_store (snd aw)) (unless filt mk view)"
  by (cases aw) (simp add: take_view_def unless_def assms split: option.split)

lemma accept_store: "wo_store (snd (accept_security e w)) = foldl store_step (wo_store w) (security_views e)"
proof -
  have k: "wo_store (store_exec x w) = store_step (wo_store w) (SExec x)"
    "wo_store (store_file f w) = store_step (wo_store w) (SFile f)"
    "wo_store (store_net n w) = store_step (wo_store w) (SNet n)" for x f n w
    by (simp_all add: keepers)
  note v = view_store[of store_exec SExec, OF k(1)] view_store[of store_file SFile, OF k(2)]
    view_store[of store_net SNet, OF k(3)]
  show ?thesis by (simp add: accept_security_def security_views_def v)
qed

lemma effect_store:
  "accepted (parse_security_event item) = Some e \<Longrightarrow>
   wo_store (security_effect item w) = foldl store_step (wo_store w) (security_views e)"
  using accept_store[of e "inc_received w"]
  by (auto simp: security_effect_def accepted_def Let_def counters split: parsed.splits prod.splits)

lemma encoded_effects:
  "list_all SecurityEvent_ok evs \<Longrightarrow>
   wo_store (fold security_effect (map encode_security evs) w) = foldl store_step (wo_store w) (concat (map security_views evs))"
proof (induction evs arbitrary: w)
  case (Cons e evs)
  have "accepted (parse_security_event (encode_security e)) = Some e"
    using security_wire.roundtrip[of e] Cons.prems by auto
  then show ?case using Cons by (simp add: effect_store)
qed simp

section \<open>The consumer as a queue\<close>

fun arrivals :: "run_event list \<Rightarrow> u8 list list" where
  "arrivals [] = []"
| "arrivals (Arrive b item # es) = (if b = RbSecurity then item # arrivals es else arrivals es)"
| "arrivals (Tick proc t # es) = arrivals es"
| "arrivals (Shutdown proc now # es) = []"

text \<open>The events \<open>evs\<close> have arrived; the first \<open>k\<close> are in the store, the others still in the buffer.\<close>

definition queued_after :: "SecurityEvent list \<Rightarrow> nat \<Rightarrow> world \<Rightarrow> bool" where
  "queued_after evs k w \<longleftrightarrow>
     k \<le> length evs \<and> ek_security_rb (wo_con w) = Some (map encode_security (drop k evs))
     \<and> wo_store w = foldl store_step StateStore_default (concat (map security_views (take k evs)))"

lemma queued_untouched: "untouched v = untouched w \<Longrightarrow> queued_after evs k v = queued_after evs k w"
  by (simp add: queued_after_def untouched_def)

lemma drain_queue:
  assumes "list_all SecurityEvent_ok evs" "queued_after evs k w" "consume_security_batch w = Some (n, w')"
  shows "\<exists>k'. queued_after evs k' w'"
proof -
  let ?rb = "map encode_security (drop k evs)"
  have q: "k \<le> length evs" "ek_security_rb (wo_con w) = Some ?rb"
    "wo_store w = foldl store_step StateStore_default (concat (map security_views (take k evs)))"
    using assms(2) by (simp_all add: queued_after_def)
  obtain m j where l: "security_loop ?rb 0 w = Some (m, drop j ?rb, fold security_effect (take j ?rb) w)"
    using security_loop_prefix[of ?rb 0 w] by blast
  let ?v = "fold security_effect (take j ?rb) w"
  have w': "w' = upd_con (\<lambda>c. c\<lparr>ek_security_rb := Some (drop j ?rb)\<rparr>) ?v"
    using assms(3) q(2) l by (simp add: consume_security_batch_def)
  have "list_all SecurityEvent_ok (take j (drop k evs))"
    using assms(1) by (auto simp: list_all_iff dest: in_set_takeD in_set_dropD)
  then have "wo_store ?v = foldl store_step (wo_store w) (concat (map security_views (take j (drop k evs))))"
    using encoded_effects[of "take j (drop k evs)" w] by (simp add: take_map)
  also have "\<dots> = foldl store_step StateStore_default (concat (map security_views (take k evs @ take j (drop k evs))))"
    unfolding q(3) by simp
  also have "take k evs @ take j (drop k evs) = take (min (length evs) (k + j)) evs"
    using q(1) by (simp add: take_add[symmetric] min_def)
  finally have s: "wo_store ?v = foldl store_step StateStore_default (concat (map security_views (take (min (length evs) (k + j)) evs)))" .
  have d: "drop j ?rb = map encode_security (drop (min (length evs) (k + j)) evs)"
    by (simp add: drop_map add.commute min_def)
  have "queued_after evs (min (length evs) (k + j)) w'" unfolding queued_after_def w' using s d by simp
  then show ?thesis by blast
qed

lemma tick_queue:
  assumes "list_all SecurityEvent_ok evs" "queued_after evs k w" "run_tick proc t w = Some w'"
  shows "\<exists>k'. queued_after evs k' w'"
proof -
  have "ek_security_rb (wo_con w) \<noteq> None" using assms(2) by (simp add: queued_after_def)
  then have "consume_all w = consume_security_batch w" by (simp add: consume_all_def)
  moreover obtain n v where v: "consume_security_batch w = Some (n, v)" using security_total by blast
  ultimately have "w' = v \<or> w' = flush_all proc (tf_flush t) v" using assms(3) by (auto simp: run_tick_def split: if_splits)
  then have w': "untouched w' = untouched v" using flush_untouched by auto
  show ?thesis using drain_queue[OF assms(1,2) v] queued_untouched[OF w'] by blast
qed

lemma arrive_queue:
  "queued_after evs k w \<Longrightarrow>
   queued_after (if b = RbSecurity then evs @ [e] else evs) k (upd_con (arrive b (encode_security e)) w)"
  by (cases b) (auto simp: queued_after_def)

lemma other_arrival:
  "b \<noteq> RbSecurity \<Longrightarrow> queued_after evs k (upd_con (arrive b item) w) = queued_after evs k w"
  by (cases b) (auto simp: queued_after_def)

lemma run_queue:
  "consumer_run es w = Some w' \<Longrightarrow> arrivals es = map encode_security new \<Longrightarrow>
   list_all SecurityEvent_ok (evs @ new) \<Longrightarrow> queued_after evs k w \<Longrightarrow> \<exists>k'. queued_after (evs @ new) k' w'"
proof (induction es w arbitrary: evs new k rule: consumer_run.induct)
  case (2 b item es w)
  show ?case
  proof (cases "b = RbSecurity")
    case True
    then obtain e rest where n: "new = e # rest" "item = encode_security e" "arrivals es = map encode_security rest"
      using "2.prems"(2) by (cases new) auto
    have "queued_after (evs @ [e]) k (upd_con (arrive b item) w)"
      using arrive_queue[OF "2.prems"(4), of b e] True n(2) by simp
    from "2.IH"[OF _ n(3) _ this] "2.prems" n(1) show ?thesis by simp
  next
    case False
    then show ?thesis using "2.IH"[of new evs k] "2.prems" other_arrival[of b evs k item w] by simp
  qed
next
  case (3 proc t es w)
  then obtain v where v: "run_tick proc t w = Some v" "consumer_run es v = Some w'" by (auto split: bind_splits)
  have "list_all SecurityEvent_ok evs" using "3.prems"(3) by simp
  from tick_queue[OF this "3.prems"(4) v(1)] obtain k' where "queued_after evs k' v" ..
  then show ?case using "3.IH"[OF v(1) v(2) _ "3.prems"(3)] "3.prems"(2) by simp
next
  case (4 proc now es w)
  then show ?case using queued_untouched[OF flush_untouched[of proc now w]] by auto
next
  case (1 w)
  then show ?case by auto
qed

section \<open>Mappings without a name\<close>

text \<open>The programs that see a mapping leave its path empty.\<close>

definition unnamed :: "SecurityEvent \<Rightarrow> bool" where
  "unnamed e \<longleftrightarrow> (sv_kind e = SkMmap \<longrightarrow> ld_path (data_file (sv_data e)) = replicate 96 0)"

definition unnamed_ring :: "kernel \<Rightarrow> bool" where
  "unnamed_ring s \<longleftrightarrow> list_all unnamed (kr_ring s)"

lemma emit_unnamed [simp]: "unnamed e \<Longrightarrow> unnamed_ring s \<Longrightarrow> unnamed_ring (emit_event px k e s)"
  by (simp add: emit_event_def unnamed_ring_def Let_def)

lemma output_unnamed [simp]: "unnamed e \<Longrightarrow> unnamed_ring s \<Longrightarrow> unnamed_ring (ring_output px e s)"
  by (simp add: ring_output_def unnamed_ring_def)

lemma unnamed_maps [simp]:
  "unnamed_ring (s\<lparr>kr_net := n\<rparr>) = unnamed_ring s" "unnamed_ring (s\<lparr>kr_last_event := l\<rparr>) = unnamed_ring s"
  by (simp_all add: unnamed_ring_def)

lemma unnamed_other [simp]:
  "k \<noteq> SkMmap \<Longrightarrow> unnamed ((create_base_event cx k)\<lparr>sv_confidence := c, sv_data := d\<rparr>)"
  "unnamed (usdt_event cx name c)"
  by (simp_all add: unnamed_def create_base_event_def usdt_event_def usdt_base_event_def)

lemma unnamed_zero [simp]:
  "unnamed ((create_base_event cx k)\<lparr>sv_confidence := c, sv_data := file_bytes (replicate 96 0) f b\<rparr>)"
  by (simp add: unnamed_def file_bytes_def data_file_def at_off_def)

lemma network_unnamed [simp]: "k \<noteq> SkMmap \<Longrightarrow> unnamed_ring s \<Longrightarrow> unnamed_ring (emit_network_event px k pr sa sp da dp n b s)"
  by (simp add: emit_network_event_def Let_def)

lemma net_event_unnamed [simp]: "k \<noteq> SkMmap \<Longrightarrow> unnamed_ring s \<Longrightarrow> unnamed_ring (emit_net_event px k a pr n s)"
  by (simp add: emit_net_event_def Let_def)

lemma probe_unnamed: "unnamed_ring s \<Longrightarrow> unnamed_ring (run_probe p px s)"
  by (cases p)
    (simp_all add: trace_enter_execve_def trace_openat_def trace_mmap_def trace_mprotect_def
      trace_connect_def trace_sendto_def trace_recvfrom_def trace_tcp_v4_connect_def trace_tcp_v6_connect_def
      trace_tcp_close_def trace_tcp_sendmsg_def trace_tcp_recvmsg_def trace_udp_sendmsg_def trace_udp_recvmsg_def
      probe_ssl_write_def probe_ssl_read_def probe_malloc_def probe_curl_easy_perform_def
      emit_file_event_example_def emit_network_event_example_def Let_def
      split: prod.split option.split)

lemma kernel_unnamed: "unnamed_ring s \<Longrightarrow> unnamed_ring (foldl kernel_step s ps)"
  by (induction ps arbitrary: s) (simp_all add: kernel_step_def probe_unnamed)

text \<open>Such an event adds no library to a workload.\<close>

definition no_libraries :: "StateStore \<Rightarrow> bool" where
  "no_libraries st \<longleftrightarrow> (\<forall>c w. by_cgroup st c = Some w \<longrightarrow> ws_loaded_libraries w = [])"

definition names_no_library :: "store_event \<Rightarrow> bool" where
  "names_no_library e \<longleftrightarrow> (case e of SFile f \<Rightarrow> fe_kind f = KMmap \<longrightarrow> c_string (fe_path f) = [] | _ \<Rightarrow> True)"

lemma empty_path: "c_string (zero_extend 256 (replicate 96 0)) = []"
proof -
  have "takeWhile (\<lambda>b. b \<noteq> 0) (replicate n 0) = ([] :: u8 list)" for n by (cases n) simp_all
  moreover have "str_trim (utf8_lossy []) = []" by code_simp
  ultimately show ?thesis by (simp add: c_string_def zero_extend_def flip: replicate_add)
qed

lemma views_name_no_library: "unnamed e \<Longrightarrow> list_all names_no_library (security_views e)"
  using empty_path
  by (auto simp: security_views_def unless_def names_no_library_def unnamed_def security_to_file_def file_kind_def
      Let_def split: option.splits SecurityEventKind.splits)

lemma update_libraries:
  "names_no_library e \<Longrightarrow> ws_loaded_libraries (event_update e w) = ws_loaded_libraries w"
proof (cases e)
  case (SFile f)
  assume "names_no_library e"
  then have "\<not> (fe_kind f = KMmap \<and> st_is_shared_library (c_string (fe_path f)))"
    using SFile by (auto simp: names_no_library_def st_is_shared_library_def)
  then show ?thesis using SFile by (auto simp: file_update_def file_library_part_def ws_setters Let_def)
qed (simp_all add: exec_update_def net_update_def ws_setters Let_def)

lemma no_libraries_step: "no_libraries st \<Longrightarrow> names_no_library e \<Longrightarrow> no_libraries (store_step st e)"
  by (auto simp: no_libraries_def store_step_eq set_entry_def update_libraries entry_or_default_def
      WorkloadState_default_def split: if_splits option.splits)

lemma no_libraries_run: "no_libraries st \<Longrightarrow> list_all names_no_library es \<Longrightarrow> no_libraries (foldl store_step st es)"
  by (induction es arbitrary: st) (simp_all add: no_libraries_step)

lemma views_add_no_libraries:
  "list_all unnamed evs \<Longrightarrow> no_libraries (foldl store_step StateStore_default (concat (map security_views evs)))"
  using views_name_no_library
  by (intro no_libraries_run) (auto simp: no_libraries_def StateStore_default_def list_all_iff)

text \<open>What a workload without libraries puts into the attack graph.\<close>

fun is_network :: "graph_event \<Rightarrow> bool" where
  "is_network (GNetwork pid name cg ev) \<longleftrightarrow> True"
| "is_network _ \<longleftrightarrow> False"

lemma only_transfers: "ws_loaded_libraries w = [] \<Longrightarrow> list_all is_network (workload_events cg identity w fs)"
  by (simp add: workload_events_def transfer_event_def list_all_iff)

text \<open>Feeding a list of events, and one tick.\<close>

lemma arrivals_fed:
  "arrivals (map (Arrive RbSecurity \<circ> encode_security) evs @ [Tick p t]) = map encode_security evs"
  by (induction evs) simp_all

lemma fresh_run: "\<exists>w. consumer_run es (world_new now (Unified []) p) = Some w"
  by (rule unified_run_total) (simp add: world_new_def EventConsumer_new_def)

end
