(* ===== verification/Spec2Isabelle.thy ===== *)
theory Spec2Isabelle
  imports Enforcement_Controller Reliability Risk_Engine State_Store Safe_Enforcement Cgroup
    Event_Wire Event_Consumer Streaming_Engine Graph_Types
    Float_Sums Attack_Graph Alert_Sender Webhook_Export Correlation Runtime_Mapper Execution_Proof
    Predictive_Risk
    Experiment
    Anomaly_Detector
    Sla_Tracker
    Float_Parse
    Intel
    Inventory
    Graph_Search
    Service_Graph
    Legacy_Graph
    Tc_Enforcer
    Validation
    Policy_Engine
    Audit_Trail
    Socket_Addr
    App_Config
    Oci_Scanner
    Exploit_Simulator
    Rest_Api
    Aggregator
    Aggregator_Locks
    Remediator
    Agent
    Agent_Lifecycle
    Visualization
    Kernel_Maps
    Kernel_Probes
    Bpf_Loader
    Cloud
    Agent_Metrics
    Dashboard
    Kernel_To_Store
begin

text \<open>
  The execution-aware scanner: kernel programs observe what containers execute, an agent
  keeps the evidence per workload, scores vulnerabilities by it, explains and exports
  findings and enforces, and an aggregator joins the reports of several clusters. This
  development translates the program's decisions from its Rust source and proves what makes
  each part correct; where a part does not do what it promises, a theorem says what it does.

  \<^bold>\<open>Parts and how they interact.\<close>

  \<^item> \<open>scanner-ebpf\<close> (Kernel_Maps: \<open>libraries.rs\<close>, \<open>network.rs\<close>, \<open>process.rs\<close>; Kernel_Probes:
    \<open>events.rs\<close>, \<open>tracepoints.rs\<close>, \<open>kprobes.rs\<close>, \<open>usdt.rs\<close>) writes events of one layout
    to a ring buffer. Bpf_Loader (\<open>bpf_loader.rs\<close>, \<open>bpf.rs\<close>, \<open>load_and_run_ebpf\<close>) attaches
    its programs and opens the buffer.
  \<^item> Event_Wire and Event_Consumer (\<open>event_consumer.rs\<close>) read the bytes, filter, keep
    batches and write to State_Store (\<open>state.rs\<close>): per cgroup the commands, paths,
    libraries, flows, bytes and signals, all bounded. Kernel_To_Store puts these together.
    Cgroup (\<open>cgroup.rs\<close>) resolves a cgroup to a container; Inventory (\<open>k8s.rs\<close>, \<open>sbom.rs\<close>)
    knows the pods and the components of images.
  \<^item> Agent (\<open>scan_image\<close>, \<open>build_attack_paths\<close>, \<open>run_analysis_pipeline\<close> of \<open>main.rs\<close>) is the
    cycle over a snapshot of the store: Correlation (\<open>vuln_detector.rs\<close>,
    \<open>runtime_correlation.rs\<close>) decides whether a workload reaches a package, Intel (\<open>intel.rs\<close>)
    supplies EPSS and KEV, Risk_Engine (\<open>risk_engine.rs\<close>) scores and explains,
    Webhook_Export (\<open>webhook.rs\<close>) and Remediator (\<open>remediator.rs\<close>) deliver, Attack_Graph over
    Graph_Types (\<open>runtime_attack_graph_v2.rs\<close>) builds paths. Agent_Lifecycle holds the rest of
    \<open>main.rs\<close>: degraded mode, the seccomp file, readiness, shutdown.
  \<^item> Streaming_Engine (\<open>streaming_engine.rs\<close>) watches the bus of the consumer and raises
    alerts that Alert_Sender (\<open>webhook_sender.rs\<close>) sends.
  \<^item> Enforcement: Safe_Enforcement (\<open>safe_enforcement.rs\<close>, \<open>error.rs\<close>), Enforcement_Controller
    (\<open>enforcement.rs\<close>), Tc_Enforcer (\<open>tc_enforcer.rs\<close>), Policy_Engine (\<open>policy_engine.rs\<close>).
  \<^item> Around it: Runtime_Mapper, Execution_Proof, Legacy_Graph (\<open>runtime_attack_graph.rs\<close>),
    Service_Graph over Graph_Search (\<open>attack_graph.rs\<close>), Predictive_Risk, Anomaly_Detector,
    Experiment, Validation, Sla_Tracker, Reliability, Audit_Trail, Oci_Scanner,
    Exploit_Simulator, Cloud, Agent_Metrics (\<open>metrics.rs\<close>), each the file of its name;
    App_Config and Socket_Addr (\<open>config.rs\<close>).
  \<^item> What is served: Rest_Api (\<open>api/\<close>, \<open>slack_commands.rs\<close>) over the finding store,
    Dashboard (\<open>dashboard.rs\<close>), Visualization (\<open>visualization.rs\<close>).
  \<^item> \<open>scanner-aggregator\<close>: Aggregator holds its state and operations, Aggregator_Locks the
    order in which its handlers take their locks.
  \<^item> The library below them: Prelude (word types, strings, capped and ordered lists), Floats,
    Float_Sums, Float_Parse and Formatting (floats), Ordering (stable sorts), Ordered_Map,
    Json, Os_Path, Net_Addr, Petgraph (the graph operations as a parameter with laws, and a
    list instance of them), Common (\<open>scanner-common\<close>) and Interfaces.

  \<^bold>\<open>How the code is read.\<close> A struct is a record with a short prefix per type, an enum a
  datatype, a method that changes its object a function to the new object. Integers are
  words of their width and wrap as in a release build; \<open>saturating_\<close> and checked operations
  are written out; \<open>usize\<close> lengths are \<open>nat\<close>. Floats are exact rationals rounded after every
  operation, with one NaN and one zero. Strings are the bytes of their UTF-8 text. A map
  that is only looked up is a function or an association list; one that is iterated is a
  list in the order of its keys (\<open>BTreeMap\<close>) or in one fixed order (\<open>HashMap\<close>). Errors are
  values of a sum or an option; a panic is \<open>None\<close> where a theorem has to exclude it. Clocks,
  random ids, host files, HTTP answers, subprocesses and channel deliveries are arguments, so
  a theorem holds for all of them. Code outside the repository (petgraph, aya, the maps of the
  kernel, serde, the opa and Trivy programs) is a parameter; what is used of it is stated as
  laws, each with an instance that satisfies them. petgraph's laws are those of its 32-bit
  indices: adding a node or an edge panics when 4294967295 of them are there and succeeds
  before; a shortest path is promised for costs that are not negative. Concurrency is explicit:
  events as lists in any order, and step relations for locks and for shutdown. The consumer
  shares the state store and the cgroup resolver with the agent's cycle; what it does to both
  during a cycle, before and after the cycle resolves its own cgroups, is an argument of it.
  A task may end by a panic at any time: \<open>main\<close> ignores it, and the step relation of the shutdown
  has rules for it.

  \<^bold>\<open>What the lemmas show.\<close> Each stateful component has an invariant that every operation keeps,
  proved once through a locale of Interfaces (\<open>event_machine\<close>, \<open>growing_machine\<close>,
  \<open>bounded_history\<close>, \<open>rate_limit\<close>, \<open>wire_layout\<close>, \<open>gate\<close>) and its interpretation on the
  component's own definitions; what every operation returns on every branch; and the
  behaviour of whole runs: capacities, spacing of alerts and actions, counts that lose
  nothing, queues that keep their order, round trips of the wire formats and references,
  reachability of every state of the shutdown and of the lock protocols. The properties of
  this theory go through several components: what the kernel programs emit is what the
  store holds.

  \<^bold>\<open>Bounds and fuel.\<close> The loops of the code are structural recursions over the data they
  consume. The retry loops of Webhook_Export and Alert_Sender recurse over the number of
  attempts left, which the code bounds by its configuration. The ancestry of a process stops
  after the three rounds of the source. The streaming loop and the agent's loop are folds over
  the events or ticks that happened, so a statement about them covers every finite history.
  The attack graph is never pruned; after n calls it has at most 2 n nodes and the square
  of n edges, so the first 65535 calls stay below petgraph's limit; only later ones can panic.
  The search of Formatting for the shortest decimal tries one to seventeen digits; seventeen
  tell any two numbers of the widest format apart, so the digits of the code are among them.

  \<^bold>\<open>Not modelled.\<close> Logging, and printing beyond the values computed for it and the panic of a
  print to a closed output in the agent's cycle; command line
  parsing and the wiring of \<open>main\<close> before its loop; the decoding of requests and the matching
  of routes (axum); the text encoding of metrics (prometheus_client); the HTML of the
  dashboard and of the d3 template; the generated gRPC client and server, which only forward
  (its messages and enumerations are in Remediator); the ingest bridge of the streaming
  engine; the unused syscall categories of the risk engine; the older event consumer of
  \<open>bpf.rs\<close>, which is not part of the crate; the build script and the tests.
\<close>

section \<open>From the kernel to the store\<close>

text \<open>C7. The consumer is a queue between the kernel programs and the state store: after any run of it
  whose records are those the programs emitted, in whatever order system calls, ticks and
  flushes came, the store is what the first k events make of an empty one, each through its
  unfiltered views, and the others wait in the buffer. None is lost, repeated or reordered.\<close>

theorem store_holds_what_the_kernel_emitted:
  assumes "list_all (\<lambda>p. probe_ctx_ok (snd p)) ps"
    and "arrivals es = map encode_security (kr_ring (foldl kernel_step kernel_start ps))"
    and "consumer_run es (world_new now (Unified []) proc_path) = Some w"
  shows "\<exists>k. queued_after (kr_ring (foldl kernel_step kernel_start ps)) k w"
proof -
  have "ring_ok (foldl kernel_step kernel_start ps)"
    by (rule kernel_run_ok[OF assms(1)]) (simp add: ring_ok_def kernel_start_def)
  moreover have "queued_after [] 0 (world_new now (Unified []) proc_path)"
    by (simp add: queued_after_def world_new_def EventConsumer_new_def)
  ultimately show ?thesis using run_queue[OF assms(3,2), of "[]" 0] by (simp add: ring_ok_def)
qed

theorem store_holds_what_the_kernel_emitted_witness:
  "\<exists>w k. consumer_run
       (map (Arrive RbSecurity \<circ> encode_security) (kr_ring (foldl kernel_step kernel_start [(Openat, sample_ctx 1), (Sendto, sample_ctx 2)]))
        @ [Tick (\<lambda>_. Inr []) \<lparr>tf_check = 1, tf_flush = 2\<rparr>])
       (world_new 0 (Unified []) ''/proc'') = Some w
     \<and> queued_after (kr_ring (foldl kernel_step kernel_start [(Openat, sample_ctx 1), (Sendto, sample_ctx 2)])) k w"
proof -
  let ?ps = "[(Openat, sample_ctx 1), (Sendto, sample_ctx 2)]"
  let ?ring = "kr_ring (foldl kernel_step kernel_start ?ps)"
  let ?t = "\<lparr>tf_check = 1, tf_flush = 2\<rparr>"
  obtain w where w: "consumer_run (map (Arrive RbSecurity \<circ> encode_security) ?ring @ [Tick (\<lambda>_. Inr []) ?t])
      (world_new 0 (Unified []) ''/proc'') = Some w"
    using fresh_run by blast
  have "list_all (\<lambda>p. probe_ctx_ok (snd p)) ?ps" by (simp add: probe_ctx_ok_def sample_ctx_def)
  from store_holds_what_the_kernel_emitted[OF this arrivals_fed w] w show ?thesis by blast
qed

text \<open>C8. The kernel programs never let the agent see a library: they report mappings without a path, so
  after any run no workload has a loaded library, and nothing but made-up connections reaches
  its attack graph.\<close>

theorem no_library_is_ever_seen:
  assumes "list_all (\<lambda>p. probe_ctx_ok (snd p)) ps"
    and "arrivals es = map encode_security (kr_ring (foldl kernel_step kernel_start ps))"
    and "consumer_run es (world_new now (Unified []) proc_path) = Some w"
  shows "let ws = entry_or_default (wo_store w) cg
         in ws_loaded_libraries ws = [] \<and> list_all is_network (workload_events cg identity ws fs)"
proof -
  let ?evs = "kr_ring (foldl kernel_step kernel_start ps)"
  have "ring_ok (foldl kernel_step kernel_start ps)"
    by (rule kernel_run_ok[OF assms(1)]) (simp add: ring_ok_def kernel_start_def)
  moreover have "queued_after [] 0 (world_new now (Unified []) proc_path)"
    by (simp add: queued_after_def world_new_def EventConsumer_new_def)
  ultimately obtain k where k: "queued_after ?evs k w"
    using run_queue[OF assms(3,2), of "[]" 0] by (auto simp: ring_ok_def)
  have "unnamed_ring (foldl kernel_step kernel_start ps)"
    by (rule kernel_unnamed) (simp add: unnamed_ring_def kernel_start_def)
  then have "list_all unnamed (take k ?evs)" by (auto simp: unnamed_ring_def list_all_iff dest: in_set_takeD)
  from views_add_no_libraries[OF this] k have "no_libraries (wo_store w)" by (simp add: queued_after_def)
  then have "ws_loaded_libraries (entry_or_default (wo_store w) cg) = []"
    by (simp add: no_libraries_def entry_or_default_def WorkloadState_default_def split: option.split)
  then show ?thesis using only_transfers by (simp add: Let_def)
qed

theorem no_library_is_ever_seen_witness:
  "\<exists>w. consumer_run
       (map (Arrive RbSecurity \<circ> encode_security) (kr_ring (foldl kernel_step kernel_start [(Mmap, sample_ctx 1), (Openat, sample_ctx 2)]))
        @ [Tick (\<lambda>_. Inr []) \<lparr>tf_check = 1, tf_flush = 2\<rparr>])
       (world_new 0 (Unified []) ''/proc'') = Some w
     \<and> ws_loaded_libraries (entry_or_default (wo_store w) 42) = []"
proof -
  let ?ps = "[(Mmap, sample_ctx 1), (Openat, sample_ctx 2)]"
  let ?ring = "kr_ring (foldl kernel_step kernel_start ?ps)"
  let ?t = "\<lparr>tf_check = 1, tf_flush = 2\<rparr>"
  obtain w where w: "consumer_run (map (Arrive RbSecurity \<circ> encode_security) ?ring @ [Tick (\<lambda>_. Inr []) ?t])
      (world_new 0 (Unified []) ''/proc'') = Some w"
    using fresh_run by blast
  have "list_all (\<lambda>p. probe_ctx_ok (snd p)) ?ps" by (simp add: probe_ctx_ok_def sample_ctx_def)
  from no_library_is_ever_seen[OF this arrivals_fed w] w show ?thesis by (auto simp: Let_def)
qed

end
